(* ===== verification/Prelude.thy ===== *)
theory Prelude
  imports
    Complex_Main
    "HOL-Library.Word"
    "HOL-Library.Code_Target_Numeral"
    "HOL-Library.Char_ord"
    "HOL-Library.List_Lexorder"
    "HOL-Library.Product_Lexorder"
begin

text \<open>
  Shared vocabulary of the development: the type synonyms of the model, the reading of SQL
  statements over tables held as lists of rows, generic lemmas on them, and the two contracts every
  stateful component is proved against (a step function that keeps an invariant, and a batch job
  that never removes what it was not asked to remove).
\<close>

section \<open>Types of the model\<close>

type_synonym uuid = string
type_synonym instant = int \<comment> \<open>milliseconds since the Unix epoch\<close>
type_synonym byte = "8 word"
type_synonym bytes = "byte list"
type_synonym code_points = "nat list" \<comment> \<open>text that may leave ASCII\<close>

text \<open>A value decoded by \<open>JSON.parse\<close> or read from a \<open>jsonb\<close> column. Numbers that are not
  integers are kept apart: every schema of the program asks for integers.\<close>

datatype json =
    JNull
  | JBool bool
  | JInt int
  | JFrac rat
  | JStr string
  | JArr "json list"
  | JObj "(string \<times> json) list"

section \<open>Collections of lemmas\<close>

named_theorems row_simps \<open>how the statements act on tables\<close>
named_theorems inv_intros \<open>every operation keeps its invariant\<close>

section \<open>SQL statements over lists of rows\<close>

text \<open>
  A table is the list of its rows. \<open>UPDATE ... WHERE\<close> rewrites the rows that satisfy the
  condition, \<open>DELETE ... WHERE\<close> drops them, \<open>rowCount\<close> counts them, and
  \<open>ORDER BY key LIMIT n\<close> sorts the selected rows before the first \<open>n\<close> are taken.
\<close>

definition update_where :: "('r \<Rightarrow> bool) \<Rightarrow> ('r \<Rightarrow> 'r) \<Rightarrow> 'r list \<Rightarrow> 'r list" where
  "update_where P f rows = map (\<lambda>r. if P r then f r else r) rows"

definition count_where :: "('r \<Rightarrow> bool) \<Rightarrow> 'r list \<Rightarrow> nat" where
  "count_where P rows = length (filter P rows)"

definition select_limit ::
  "('r \<Rightarrow> bool) \<Rightarrow> ('r \<Rightarrow> 'k::linorder) \<Rightarrow> nat \<Rightarrow> 'r list \<Rightarrow> 'r list" where
  "select_limit P key n rows = take n (sort_key key (filter P rows))"

definition first_row :: "'r list \<Rightarrow> 'r option" where
  "first_row rows = (case rows of [] \<Rightarrow> None | r # _ \<Rightarrow> Some r)"

lemma first_row_simps [simp]:
  "first_row [] = None" "first_row (r # rs) = Some r"
  by (simp_all add: first_row_def)

lemma first_row_None [simp]: "first_row rs = None \<longleftrightarrow> rs = []"
  by (cases rs) auto

lemma first_row_Some_mem: "first_row rs = Some r \<Longrightarrow> r \<in> set rs"
  by (cases rs) auto

lemma first_row_filter_SomeD:
  "first_row (filter P rs) = Some r \<Longrightarrow> r \<in> set rs \<and> P r"
  by (drule first_row_Some_mem) auto

lemma first_row_filter_None [simp]:
  "first_row (filter P rs) = None \<longleftrightarrow> (\<forall>r \<in> set rs. \<not> P r)"
  by (auto simp: filter_empty_conv)

lemma set_update_where:
  "set (update_where P f rows) = f ` {r \<in> set rows. P r} \<union> {r \<in> set rows. \<not> P r}"
  by (auto simp: update_where_def)

lemma mem_update_where:
  "r \<in> set (update_where P f rows) \<longleftrightarrow>
     (\<exists>q \<in> set rows. P q \<and> r = f q) \<or> (r \<in> set rows \<and> \<not> P r)"
  by (auto simp: set_update_where)

lemma map_update_where [row_simps]:
  assumes "\<And>r. P r \<Longrightarrow> k (f r) = k r"
  shows "map k (update_where P f rows) = map k rows"
  using assms by (auto simp: update_where_def)

lemma length_update_where [simp]: "length (update_where P f rows) = length rows"
  by (simp add: update_where_def)

lemma update_where_none: "\<forall>r \<in> set rows. \<not> P r \<Longrightarrow> update_where P f rows = rows"
  unfolding update_where_def by (induction rows) auto

lemma count_where_0 [simp]: "count_where P rows = 0 \<longleftrightarrow> (\<forall>r \<in> set rows. \<not> P r)"
  by (simp add: count_where_def filter_empty_conv)

lemma distinct_key_eq:
  "distinct (map k rows) \<Longrightarrow> r \<in> set rows \<Longrightarrow> q \<in> set rows \<Longrightarrow> k r = k q \<Longrightarrow> r = q"
  by (metis distinct_map inj_onD)

lemma filter_unique_key:
  "distinct (map k rows) \<Longrightarrow> r \<in> set rows \<Longrightarrow> P r \<Longrightarrow>
     (\<And>q. q \<in> set rows \<Longrightarrow> P q \<Longrightarrow> k q = k r) \<Longrightarrow> filter P rows = [r]"
proof (induction rows)
  case (Cons a rows)
  show ?case
  proof (cases "a = r")
    case True
    with Cons.prems have "\<And>q. q \<in> set rows \<Longrightarrow> \<not> P q" by (metis distinct.simps(2) image_eqI
      list.set_intros(2) list.set_map list.simps(9))
    with True Cons.prems(3) show ?thesis by (simp add: filter_empty_conv)
  next
    case False
    with Cons.prems have "r \<in> set rows" by simp
    moreover from this Cons.prems have "\<not> P a" by (metis distinct.simps(2) image_eqI
      list.set_intros(1) list.set_map list.simps(9))
    moreover have "filter P rows = [r]"
      by (rule Cons.IH [OF _ calculation(1) Cons.prems(3) Cons.prems(4)])
        (use Cons.prems(1) in simp_all)
    ultimately show ?thesis by simp
  qed
qed simp

lemma count_where_unique:
  assumes "distinct (map k rows)" and "r \<in> set rows" and "P r"
    and "\<And>q. q \<in> set rows \<Longrightarrow> P q \<Longrightarrow> k q = k r"
  shows "count_where P rows = 1"
proof -
  have "filter P rows = [r]" by (rule filter_unique_key [where k = k and P = P and rows = rows and r = r, OF assms])
  then show ?thesis by (simp add: count_where_def)
qed

lemma distinct_map_snoc [simp]:
  "distinct (map k (rows @ [r])) \<longleftrightarrow> distinct (map k rows) \<and> k r \<notin> k ` set rows"
  by auto

lemma distinct_map_filterI [intro]: "distinct (map k rows) \<Longrightarrow> distinct (map k (filter P rows))"
  by (rule distinct_map_filter)

lemma set_select_limit_subset: "set (select_limit P key n rows) \<subseteq> {r \<in> set rows. P r}"
  unfolding select_limit_def using set_take_subset by fastforce

lemma select_limitD: "r \<in> set (select_limit P key n rows) \<Longrightarrow> r \<in> set rows \<and> P r"
  using set_select_limit_subset by fastforce

lemma length_select_limit: "length (select_limit P key n rows) \<le> n"
  by (simp add: select_limit_def)

lemma length_select_limit_eq: "length (select_limit P key n rows) = min n (count_where P rows)"
  by (simp add: select_limit_def count_where_def min.commute)

lemma sorted_select_limit: "sorted (map key (select_limit P key n rows))"
  unfolding select_limit_def by (simp add: take_map [symmetric] sorted_wrt_take)

lemma distinct_select_limit:
  assumes "distinct (map k rows)"
  shows "distinct (map k (select_limit P key n rows))"
proof -
  have "distinct (map k (filter P rows))"
    using assms by (rule distinct_map_filterI)
  then have "distinct (map k (sort_key key (filter P rows)))"
    by (simp add: distinct_map)
  then show ?thesis
    unfolding select_limit_def take_map [symmetric] by (rule distinct_take)
qed

text \<open>A \<open>WITH picked AS (SELECT id ...) UPDATE/DELETE ... USING picked\<close> statement acts on the rows
  whose key was picked, and on no other.\<close>

lemma picked_rows_satisfy:
  assumes "distinct (map k rows)" and "r \<in> set rows"
    and "k r \<in> k ` set (select_limit P key n rows)"
  shows "P r"
proof -
  from assms(3) obtain q where q: "q \<in> set (select_limit P key n rows)" "k r = k q" by auto
  then have "q \<in> set rows" "P q" by (auto dest: select_limitD)
  with assms(1,2) q show ?thesis by (metis distinct_key_eq)
qed

text \<open>Reading the value of an evaluated computation.\<close>

lemma Inr_pair_of_eval: "\<not> isl x \<Longrightarrow> x = Inr (fst (projr x), snd (projr x))"
  by (cases x) auto

section \<open>Contracts shared by the stateful components\<close>

text \<open>
  \<open>step\<close> handles one event, \<open>enabled\<close> says which events the environment may raise in a state
  (a fresh identifier, a clock that does not run backwards), and \<open>inv\<close> is the component's
  invariant. What holds of one step holds of every history of enabled events.
\<close>

fun enabled_history :: "('s \<Rightarrow> 'e \<Rightarrow> 's) \<Rightarrow> ('s \<Rightarrow> 'e \<Rightarrow> bool) \<Rightarrow> 's \<Rightarrow> 'e list \<Rightarrow> bool" where
  "enabled_history step enabled s [] = True"
| "enabled_history step enabled s (e # es) =
     (enabled s e \<and> enabled_history step enabled (step s e) es)"

locale stepwise_invariant =
  fixes step :: "'s \<Rightarrow> 'e \<Rightarrow> 's"
    and enabled :: "'s \<Rightarrow> 'e \<Rightarrow> bool"
    and inv :: "'s \<Rightarrow> bool"
  assumes step_keeps: "inv s \<Longrightarrow> enabled s e \<Longrightarrow> inv (step s e)"
begin

lemma history_keeps: "inv s \<Longrightarrow> enabled_history step enabled s es \<Longrightarrow> inv (foldl step s es)"
  by (induction es arbitrary: s) (auto intro: step_keeps)

end

text \<open>A quantity that no step decreases does not decrease over a history either.\<close>

locale stepwise_monotone = stepwise_invariant +
  fixes level :: "'a \<Rightarrow> 'l::preorder"
  assumes step_mono: "inv s \<Longrightarrow> enabled s e \<Longrightarrow> level s \<le> level (step s e)"
begin

lemma history_mono:
  "inv s \<Longrightarrow> enabled_history step enabled s es \<Longrightarrow> level s \<le> level (foldl step s es)"
proof (induction es arbitrary: s)
  case (Cons e es)
  then have "level s \<le> level (step s e)" by (auto intro: step_mono)
  moreover have "level (step s e) \<le> level (foldl step (step s e) es)"
    using Cons by (auto intro: step_keeps)
  ultimately show ?case by (simp add: order_trans)
qed simp

end

end
