(* ===== verification/Formats.thy ===== *)
theory Formats
  imports Prelude
begin

text \<open>
  The textual formats the program checks by regular expression or produces by string
  interpolation: decimal integers, identifiers of workers and error codes, UUIDs, hexadecimal
  digests, and the ISO 8601 form of \<open>Date.prototype.toISOString\<close>. A regular expression is a
  list of character classes matched position by position, or a class for the head and one for the
  tail with a length bound.
\<close>

section \<open>Character classes\<close>

definition in_range :: "nat \<Rightarrow> nat \<Rightarrow> char \<Rightarrow> bool" where
  "in_range lo hi c = (lo \<le> of_char c \<and> of_char c \<le> hi)"

definition is_digit :: "char \<Rightarrow> bool" where "is_digit = in_range 48 57"
definition is_upper :: "char \<Rightarrow> bool" where "is_upper = in_range 65 90"
definition is_lower :: "char \<Rightarrow> bool" where "is_lower = in_range 97 122"

definition is_alnum :: "char \<Rightarrow> bool" where
  "is_alnum c = (is_digit c \<or> is_upper c \<or> is_lower c)"

definition is_hex :: "char \<Rightarrow> bool" where
  "is_hex c = (is_digit c \<or> in_range 97 102 c)"

definition is_hex_i :: "char \<Rightarrow> bool" where
  "is_hex_i c = (is_hex c \<or> in_range 65 70 c)"

definition matches :: "(char \<Rightarrow> bool) list \<Rightarrow> string \<Rightarrow> bool" where
  "matches ps s = list_all2 (\<lambda>p c. p c) ps s"

definition head_tail :: "(char \<Rightarrow> bool) \<Rightarrow> (char \<Rightarrow> bool) \<Rightarrow> nat \<Rightarrow> string \<Rightarrow> bool" where
  "head_tail p q n s =
     (case s of [] \<Rightarrow> False | c # cs \<Rightarrow> p c \<and> list_all q cs \<and> length cs \<le> n)"

lemma matches_length: "matches ps s \<Longrightarrow> length s = length ps"
  by (simp add: matches_def list_all2_lengthD)

lemma head_tail_length: "head_tail p q n s \<Longrightarrow> 0 < length s \<and> length s \<le> Suc n"
  by (auto simp: head_tail_def split: list.splits)

lemma list_all2_pred_replicate:
  "list_all2 (\<lambda>p c. p c) (replicate n p) s \<longleftrightarrow> length s = n \<and> list_all p s"
  by (auto simp: list_all2_conv_all_nth list_all_length)

section \<open>Decimal integers\<close>

definition digit_char :: "nat \<Rightarrow> char" where
  "digit_char d = char_of (48 + d)"

definition char_digit :: "char \<Rightarrow> nat" where
  "char_digit c = of_char c - 48"

fun dec :: "nat \<Rightarrow> string" where
  "dec n = (if n < 10 then [digit_char n] else dec (n div 10) @ [digit_char (n mod 10)])"

declare dec.simps [simp del]

definition undec :: "string \<Rightarrow> nat" where
  "undec s = foldl (\<lambda>acc c. 10 * acc + char_digit c) 0 s"

definition dec_int :: "int \<Rightarrow> string" where
  "dec_int i = (if i < 0 then CHR ''-'' # dec (nat (- i)) else dec (nat i))"

text \<open>\<open>/^(0|[1-9][0-9]{0,18})$/\<close>: no sign and no leading zero.\<close>

definition canonical_decimal :: "string \<Rightarrow> bool" where
  "canonical_decimal s = (s = ''0'' \<or> head_tail (in_range 49 57) is_digit 18 s)"

lemma of_char_digit_char: "d < 10 \<Longrightarrow> of_char (digit_char d) = 48 + d"
  by (simp add: digit_char_def)

lemma char_digit_digit_char [simp]: "d < 10 \<Longrightarrow> char_digit (digit_char d) = d"
  by (simp add: char_digit_def of_char_digit_char)

lemma is_digit_digit_char: "d < 10 \<Longrightarrow> is_digit (digit_char d)"
  by (simp add: is_digit_def in_range_def of_char_digit_char)

lemma digit_char_char_digit: "is_digit c \<Longrightarrow> digit_char (char_digit c) = c"
  by (simp add: digit_char_def char_digit_def is_digit_def in_range_def)

lemma char_digit_less: "is_digit c \<Longrightarrow> char_digit c < 10"
  by (auto simp: char_digit_def is_digit_def in_range_def)

lemma undec_snoc [simp]: "undec (s @ [c]) = 10 * undec s + char_digit c"
  by (simp add: undec_def)

lemma undec_dec [simp]: "undec (dec n) = n"
proof (induction n rule: dec.induct)
  case (1 n)
  then show ?case
    by (cases "n < 10") (simp_all add: dec.simps [of n] undec_def [of "[_]"])
qed

lemma dec_inject [simp]: "dec m = dec n \<longleftrightarrow> m = n"
  by (metis undec_dec)

lemma dec_digits: "list_all is_digit (dec n)"
proof (induction n rule: dec.induct)
  case (1 n)
  then show ?case
    by (cases "n < 10") (simp_all add: dec.simps [of n] is_digit_digit_char)
qed

lemma dec_nonempty [simp]: "dec n \<noteq> []"
  by (simp add: dec.simps)

lemma dec_no_sign: "dec n \<noteq> CHR ''-'' # cs"
  using dec_digits [of n] by (auto simp: is_digit_def in_range_def)

lemma dec_int_inject [simp]: "dec_int i = dec_int j \<longleftrightarrow> i = j"
  using dec_no_sign [of "nat i"] dec_no_sign [of "nat j"]
  by (auto simp: dec_int_def eq_nat_nat_iff dest: sym [of "CHR ''-'' # _"])

lemma digit_char_0 [simp]: "digit_char 0 = CHR ''0''"
  by code_simp

lemma hd_dec: "0 < n \<Longrightarrow> in_range 49 57 (hd (dec n))"
proof (induction n rule: dec.induct)
  case (1 n)
  show ?case
  proof (cases "n < 10")
    case True
    with 1 show ?thesis by (simp add: dec.simps [of n] in_range_def of_char_digit_char)
  next
    case False
    with 1 show ?thesis by (simp add: dec.simps [of n])
  qed
qed

lemma length_dec_le: "n < 10 ^ k \<Longrightarrow> 0 < k \<Longrightarrow> length (dec n) \<le> k"
proof (induction n arbitrary: k rule: dec.induct)
  case (1 n)
  show ?case
  proof (cases "n < 10")
    case True
    with 1 show ?thesis by (simp add: dec.simps [of n])
  next
    case False
    then obtain k' where k: "k = Suc k'" "0 < k'"
      using 1(2,3) by (cases k; cases "k - 1") auto
    with False 1(2) have "n div 10 < 10 ^ k'" by auto
    with False k 1(1) show ?thesis by (simp add: dec.simps [of n])
  qed
qed

lemma canonical_decimal_dec: "n < 10 ^ 19 \<Longrightarrow> canonical_decimal (dec n)"
proof (cases "n = 0")
  case True
  then show ?thesis by (simp add: canonical_decimal_def dec.simps)
next
  case False
  assume "n < 10 ^ 19"
  then have len: "length (dec n) \<le> 19" using length_dec_le [of n 19] by simp
  obtain c cs where "dec n = c # cs" using dec_nonempty [of n] by (cases "dec n") auto
  with False len hd_dec [of n] dec_digits [of n] show ?thesis
    by (simp add: canonical_decimal_def head_tail_def)
qed

lemma undec_pos: "list_all is_digit s \<Longrightarrow> s \<noteq> [] \<Longrightarrow> in_range 49 57 (hd s) \<Longrightarrow> 0 < undec s"
proof (induction s rule: rev_induct)
  case (snoc c s)
  then show ?case by (cases s) (auto simp: undec_def char_digit_def in_range_def)
qed simp

lemma dec_undec_nonzero:
  "list_all is_digit s \<Longrightarrow> s \<noteq> [] \<Longrightarrow> in_range 49 57 (hd s) \<Longrightarrow> dec (undec s) = s"
proof (induction s rule: rev_induct)
  case (snoc c s)
  show ?case
  proof (cases "s = []")
    case True
    with snoc show ?thesis
      by (simp add: dec.simps undec_def char_digit_less digit_char_char_digit)
  next
    case False
    with snoc have "dec (undec s) = s" "0 < undec s" by (auto intro: undec_pos)
    moreover have "char_digit c < 10" using snoc by (simp add: char_digit_less)
    ultimately show ?thesis
      using snoc.prems by (simp add: dec.simps [of "10 * undec s + char_digit c"] digit_char_char_digit)
  qed
qed simp

lemma dec_undec: "canonical_decimal s \<Longrightarrow> dec (undec s) = s"
  unfolding canonical_decimal_def
proof (elim disjE)
  assume "s = ''0''"
  then show ?thesis by (simp add: undec_def char_digit_def dec.simps)
next
  assume h: "head_tail (in_range 49 57) is_digit 18 s"
  then obtain c cs where s: "s = c # cs" "in_range 49 57 c" "list_all is_digit cs"
    by (auto simp: head_tail_def split: list.splits)
  then have "is_digit c" by (simp add: is_digit_def in_range_def)
  with s show ?thesis by (intro dec_undec_nonzero) auto
qed

section \<open>Identifiers\<close>

text \<open>\<open>/^[A-Z][A-Z0-9_]{0,63}$/\<close>, the bounded error codes of the outbox.\<close>

definition canonical_error_code :: "string \<Rightarrow> bool" where
  "canonical_error_code =
     head_tail is_upper (\<lambda>c. is_upper c \<or> is_digit c \<or> c = CHR ''_'') 63"

text \<open>\<open>/^[a-zA-Z0-9][a-zA-Z0-9_.:-]{0,127}$/\<close>, the owners of a lease.\<close>

definition canonical_worker_id :: "string \<Rightarrow> bool" where
  "canonical_worker_id = head_tail is_alnum (\<lambda>c. is_alnum c \<or> c \<in> set ''_.:-'') 127"

text \<open>The UUID expression of the repositories, case-insensitive:
  \<open>[0-9a-f]{8}-[0-9a-f]{4}-[1-8][0-9a-f]{3}-[89ab][0-9a-f]{3}-[0-9a-f]{12}\<close>.\<close>

definition dash :: "char \<Rightarrow> bool" where "dash c = (c = CHR ''-'')"

definition uuid_format :: "string \<Rightarrow> bool" where
  "uuid_format = matches
     (replicate 8 is_hex_i @ [dash] @ replicate 4 is_hex_i @ [dash] @ [in_range 49 56] @
      replicate 3 is_hex_i @ [dash] @ [\<lambda>c. c \<in> set ''89abAB''] @ replicate 3 is_hex_i @ [dash] @
      replicate 12 is_hex_i)"

text \<open>\<open>/^realtime:[0-9a-f-]{36}$/i\<close>, the owner of the fast-path lease.\<close>

definition fast_path_owner_format :: "string \<Rightarrow> bool" where
  "fast_path_owner_format s =
     (map (\<lambda>c. if is_upper c then char_of (of_char c + (32::nat)) else c) (take 9 s) = ''realtime:'' \<and>
      length s = 45 \<and> list_all (\<lambda>c. is_hex_i c \<or> dash c) (drop 9 s))"

text \<open>\<open>/^[a-f0-9]{64}$/\<close>, a SHA-256 digest in hexadecimal.\<close>

definition sha256_hex :: "string \<Rightarrow> bool" where
  "sha256_hex s = (length s = 64 \<and> list_all is_hex s)"

lemma uuid_format_length: "uuid_format s \<Longrightarrow> length s = 36"
  unfolding uuid_format_def by (drule matches_length) simp

section \<open>UTF-8\<close>

text \<open>A separator that neither prefix contains splits a sequence in one way.\<close>

lemma split_at_separator:
  assumes "a @ c # x = b @ c # y" "c \<notin> set a" "c \<notin> set b"
  shows "a = b \<and> x = y"
  using assms by (induction a arbitrary: b) (auto simp: Cons_eq_append_conv)

text \<open>Strings are sequences of code points below 256; the larger half takes two bytes.\<close>

definition utf8_char :: "char \<Rightarrow> bytes" where
  "utf8_char c =
     (let n = of_char c
      in if n < (128::nat) then [of_nat n] else [of_nat (192 + n div 64), of_nat (128 + n mod 64)])"

definition utf8 :: "string \<Rightarrow> bytes" where
  "utf8 s = concat (map utf8_char s)"

text \<open>\<open>Buffer.byteLength(s, "utf8")\<close>\<close>

definition utf8_length :: "string \<Rightarrow> nat" where
  "utf8_length s = length (utf8 s)"

lemma utf8_simps [simp]: "utf8 [] = []" "utf8 (c # s) = utf8_char c @ utf8 s" "utf8 (s @ t) = utf8 s @ utf8 t"
  by (simp_all add: utf8_def)

lemma utf8_length_sum: "utf8_length s = sum_list (map (\<lambda>c. if of_char c < (128::nat) then 1 else 2) s)"
  by (induction s) (auto simp: utf8_length_def utf8_char_def Let_def)

lemma unat_small_byte: "n < 256 \<Longrightarrow> unat (of_nat n :: byte) = n"
  by (simp add: unsigned_of_nat take_bit_eq_mod)

lemma of_char_less_256: "of_char c < (256::nat)"
  using nat_of_char_less_256 [of c] by simp

text \<open>The first byte tells the two forms apart, so that an encoded text decodes in one way only.\<close>

lemma utf8_char_cases:
  obtains (one) "utf8_char c = [of_nat (of_char c)]" "of_char c < (128::nat)"
  | (two) "utf8_char c = [of_nat (192 + of_char c div 64), of_nat (128 + of_char c mod 64)]"
      "(128::nat) \<le> of_char c"
  by (cases "of_char c < (128::nat)") (auto simp: utf8_char_def Let_def not_less)

lemma utf8_char_prefix_inject:
  assumes "utf8_char c @ s = utf8_char d @ t"
  shows "c = d \<and> s = t"
proof -
  have eq: "c = d" if "(of_char c :: nat) = of_char d" using that by (metis char_of_char)
  have lead: "(of_nat m :: byte) = of_nat n \<Longrightarrow> m < 256 \<Longrightarrow> n < 256 \<Longrightarrow> m = n" for m n :: nat
    by (metis unat_small_byte)
  show ?thesis
  proof (cases rule: utf8_char_cases [of c]; cases rule: utf8_char_cases [of d])
    assume "utf8_char c = [of_nat (of_char c)]" "of_char c < (128::nat)"
      "utf8_char d = [of_nat (of_char d)]" "of_char d < (128::nat)"
    then show ?thesis using assms eq lead [of "of_char c" "of_char d"] by auto
  next
    assume "utf8_char c = [of_nat (of_char c)]" "of_char c < (128::nat)"
      "utf8_char d = [of_nat (192 + of_char d div 64), of_nat (128 + of_char d mod 64)]"
    moreover have "of_char d div 64 < (64 :: nat)" using of_char_less_256 [of d] by linarith
    ultimately show ?thesis using assms lead [of "of_char c" "192 + of_char d div 64"] by auto
  next
    assume "utf8_char c = [of_nat (192 + of_char c div 64), of_nat (128 + of_char c mod 64)]"
      "utf8_char d = [of_nat (of_char d)]" "of_char d < (128::nat)"
    moreover have "of_char c div 64 < (64 :: nat)" using of_char_less_256 [of c] by linarith
    ultimately show ?thesis using assms lead [of "192 + of_char c div 64" "of_char d"] by auto
  next
    assume c: "utf8_char c = [of_nat (192 + of_char c div 64), of_nat (128 + of_char c mod 64)]"
      and d: "utf8_char d = [of_nat (192 + of_char d div 64), of_nat (128 + of_char d mod 64)]"
    have st: "s = t"
      and b1: "(of_nat (192 + of_char c div 64) :: byte) = of_nat (192 + of_char d div 64)"
      and b2: "(of_nat (128 + of_char c mod 64) :: byte) = of_nat (128 + of_char d mod 64)"
      using assms unfolding c d by auto
    have "192 + of_char c div 64 = (192 + of_char d div 64 :: nat)"
    proof (rule lead [OF b1])
      show "192 + of_char c div 64 < (256 :: nat)" using of_char_less_256 [of c] by linarith
      show "192 + of_char d div 64 < (256 :: nat)" using of_char_less_256 [of d] by linarith
    qed
    moreover have "128 + of_char c mod 64 = (128 + of_char d mod 64 :: nat)"
      using b2 by (intro lead) (auto simp: less_trans [OF mod_less_divisor])
    ultimately have "(of_char c :: nat) = of_char d" by (metis add_left_cancel div_mult_mod_eq)
    then show ?thesis using eq st by simp
  qed
qed

lemma utf8_char_nonempty [simp]: "utf8_char c \<noteq> []"
  by (simp add: utf8_char_def Let_def)

lemma utf8_inject [simp]: "utf8 s = utf8 t \<longleftrightarrow> s = t"
proof
  show "utf8 s = utf8 t \<Longrightarrow> s = t"
  proof (induction s arbitrary: t)
    case (Cons c s)
    then obtain d t' where t: "t = d # t'" by (cases t) auto
    then show ?case using Cons utf8_char_prefix_inject [of c "utf8 s" d "utf8 t'"] by auto
  qed (metis utf8_simps(1,2) append_is_Nil_conv list.exhaust utf8_char_nonempty)
qed simp

section \<open>The ISO form of an instant\<close>

text \<open>\<open>toISOString\<close>: the proleptic Gregorian date of the day, then the time of day with
  millisecond precision. Four digits of the year, the range of every \<open>timestamptz\<close> the program
  writes.\<close>

definition civil_from_days :: "int \<Rightarrow> int \<times> int \<times> int" where
  "civil_from_days days =
     (let z = days + 719468;
          era = z div 146097;
          doe = z mod 146097;
          yoe = (doe - doe div 1460 + doe div 36524 - doe div 146096) div 365;
          doy = doe - (365 * yoe + yoe div 4 - yoe div 100);
          mp = (5 * doy + 2) div 153;
          d = doy - (153 * mp + 2) div 5 + 1;
          m = (if mp < 10 then mp + 3 else mp - 9);
          y = yoe + era * 400 + (if m \<le> 2 then 1 else 0)
      in (y, m, d))"

definition padded :: "nat \<Rightarrow> int \<Rightarrow> string" where
  "padded n i = (let s = dec_int i in replicate (n - length s) (CHR ''0'') @ s)"

definition toISOString :: "instant \<Rightarrow> string" where
  "toISOString t =
     (let (y, m, d) = civil_from_days (t div 86400000);
          ms = t mod 86400000
      in padded 4 y @ ''-'' @ padded 2 m @ ''-'' @ padded 2 d @ ''T'' @
         padded 2 (ms div 3600000) @ '':'' @ padded 2 (ms div 60000 mod 60) @ '':'' @
         padded 2 (ms div 1000 mod 60) @ ''.'' @ padded 3 (ms mod 1000) @ ''Z'')"

section \<open>Splitting and trimming\<close>

text \<open>What \<open>\s\<close> and \<open>trim\<close> call white space.\<close>

definition js_space :: "nat \<Rightarrow> bool" where
  "js_space c = (9 \<le> c \<and> c \<le> 13 \<or> c = 32 \<or> c = 160 \<or> c = 0x1680 \<or> 0x2000 \<le> c \<and> c \<le> 0x200a \<or>
     c = 0x2028 \<or> c = 0x2029 \<or> c = 0x202f \<or> c = 0x205f \<or> c = 0x3000 \<or> c = 0xfeff)"

fun split_on :: "char \<Rightarrow> string \<Rightarrow> string list" where
  "split_on c [] = [[]]"
| "split_on c (x # s) =
     (if x = c then [] # split_on c s
      else case split_on c s of [] \<Rightarrow> [[x]] | t # ts \<Rightarrow> (x # t) # ts)"

definition trim_string :: "string \<Rightarrow> string" where
  "trim_string s = rev (dropWhile (\<lambda>c. js_space (of_char c)) (rev (dropWhile (\<lambda>c. js_space (of_char c)) s)))"

lemma split_on_single: "c \<notin> set s \<Longrightarrow> split_on c s = [s]"
  by (induction s) auto

lemma split_on_append: "c \<notin> set s \<Longrightarrow> split_on c (s @ c # t) = s # split_on c t"
  by (induction s) auto

end
