(* ===== verification/Failures.thy ===== *)
theory Failures
  imports Formats
begin

text \<open>
  The failures of the program as values: \<open>ApplicationError\<close> with its public code and category, and
  the errors that are never public (range checks, plain \<open>Error\<close>s, schema failures, PostgreSQL
  errors by SQLSTATE, failures of a dependency). A fallible operation returns a value of
  \<open>failure + 'a\<close>. The last section is the HTTP exception filter, the only place where a failure
  becomes a response.
\<close>

section \<open>Errors as values\<close>

datatype error_kind =
    Validation | Authentication | Authorization | NotFound | Conflict | RateLimited
  | Dependency | Internal

record app_error =
  ae_code :: string
  ae_kind :: error_kind
  ae_message :: string
  ae_safeDetails :: "(string \<times> json) list option"

datatype failure =
    ApplicationError app_error
  | ConfigurationError string
  | RangeError string
  | PlainError string
  | ZodError
  | PgError string
  | DependencyFault string
  | HttpException nat

abbreviation app_failure :: "string \<Rightarrow> error_kind \<Rightarrow> string \<Rightarrow> failure" where
  "app_failure code kind message \<equiv>
     ApplicationError \<lparr>ae_code = code, ae_kind = kind, ae_message = message, ae_safeDetails = None\<rparr>"

abbreviation app_failure_with ::
  "string \<Rightarrow> error_kind \<Rightarrow> string \<Rightarrow> (string \<times> json) list \<Rightarrow> failure" where
  "app_failure_with code kind message details \<equiv>
     ApplicationError \<lparr>ae_code = code, ae_kind = kind, ae_message = message,
       ae_safeDetails = Some details\<rparr>"

text \<open>\<open>has_code code f\<close>: the failure is the application error of that code.\<close>

fun has_code :: "string \<Rightarrow> failure \<Rightarrow> bool" where
  "has_code code (ApplicationError e) = (ae_code e = code)"
| "has_code code _ = False"

section \<open>Fallible computations\<close>

type_synonym 'a outcome = "failure + 'a"

definition and_then :: "'a outcome \<Rightarrow> ('a \<Rightarrow> 'b outcome) \<Rightarrow> 'b outcome" where
  "and_then m f = (case m of Inl e \<Rightarrow> Inl e | Inr x \<Rightarrow> f x)"

text \<open>Evaluation steps into the continuation only once the first computation has a value.\<close>

declare and_then_def [code_unfold]

definition ensure :: "bool \<Rightarrow> failure \<Rightarrow> unit outcome" where
  "ensure b e = (if b then Inr () else Inl e)"

definition require :: "'a option \<Rightarrow> failure \<Rightarrow> 'a outcome" where
  "require r e = (case r of None \<Rightarrow> Inl e | Some x \<Rightarrow> Inr x)"

lemma and_then_simps [simp]:
  "and_then (Inl e) f = Inl e" "and_then (Inr x) f = f x"
  by (simp_all add: and_then_def)

lemma ensure_simps [simp]: "ensure True e = Inr ()" "ensure False e = Inl e"
  by (simp_all add: ensure_def)

lemma require_simps [simp]: "require None e = Inl e" "require (Some x) e = Inr x"
  by (simp_all add: require_def)

lemma and_then_Inr_iff:
  "and_then m f = Inr y \<longleftrightarrow> (\<exists>x. m = Inr x \<and> f x = Inr y)"
  by (cases m) auto

lemma and_then_Inl_iff:
  "and_then m f = Inl e \<longleftrightarrow> m = Inl e \<or> (\<exists>x. m = Inr x \<and> f x = Inl e)"
  by (cases m) auto

lemma ensure_Inr_iff [simp]: "ensure b e = Inr u \<longleftrightarrow> b"
  by (simp add: ensure_def)

lemma ensure_Inl_iff [simp]: "ensure b e = Inl e' \<longleftrightarrow> \<not> b \<and> e' = e"
  by (auto simp: ensure_def)

lemma require_Inr_iff [simp]: "require r e = Inr x \<longleftrightarrow> r = Some x"
  by (cases r) auto

lemma require_Inl_iff [simp]: "require r e = Inl e' \<longleftrightarrow> r = None \<and> e' = e"
  by (cases r) auto

lemma and_then_assoc: "and_then (and_then m f) g = and_then m (\<lambda>x. and_then (f x) g)"
  by (cases m) auto

lemmas outcome_iffs = and_then_Inr_iff and_then_Inl_iff

section \<open>The HTTP exception filter\<close>

record http_request =
  rq_url :: string
  rq_id :: string

record problem_details =
  pd_type :: string
  pd_title :: string
  pd_status :: nat
  pd_detail :: string
  pd_instance :: string
  pd_code :: string
  pd_traceId :: string
  pd_details :: "(string \<times> json) list option"

fun STATUS_BY_KIND :: "error_kind \<Rightarrow> nat" where
  "STATUS_BY_KIND Validation = 400"
| "STATUS_BY_KIND Authentication = 401"
| "STATUS_BY_KIND Authorization = 403"
| "STATUS_BY_KIND NotFound = 404"
| "STATUS_BY_KIND Conflict = 409"
| "STATUS_BY_KIND RateLimited = 429"
| "STATUS_BY_KIND Dependency = 503"
| "STATUS_BY_KIND Internal = 500"

definition TITLE_BY_STATUS :: "nat \<Rightarrow> string option" where
  "TITLE_BY_STATUS = map_of
     [(400, ''Invalid request''), (401, ''Authentication required''), (403, ''Operation forbidden''),
      (404, ''Resource not found''), (409, ''Request conflict''), (429, ''Rate limit exceeded''),
      (500, ''Internal server error''), (503, ''Service unavailable'')]"

definition or_else :: "'a option \<Rightarrow> 'a \<Rightarrow> 'a" where
  "or_else x d = (case x of None \<Rightarrow> d | Some y \<Rightarrow> y)"

lemma or_else_simps [simp]: "or_else None d = d" "or_else (Some y) d = y"
  by (simp_all add: or_else_def)

definition toProblemDetails :: "failure \<Rightarrow> http_request \<Rightarrow> problem_details" where
  "toProblemDetails error request =
     (let instance = takeWhile (\<lambda>c. c \<noteq> CHR ''?'') (rq_url request);
          traceId = rq_id request
      in case error of
        ApplicationError e \<Rightarrow>
          let status = STATUS_BY_KIND (ae_kind e)
          in \<lparr>pd_type = ''https://errors.hello-friend.invalid/'' @ ae_code e,
              pd_title = or_else (TITLE_BY_STATUS status) ''Request failed'',
              pd_status = status, pd_detail = ae_message e, pd_instance = instance,
              pd_code = ae_code e, pd_traceId = traceId, pd_details = ae_safeDetails e\<rparr>
      | HttpException status \<Rightarrow>
          \<lparr>pd_type = ''https://errors.hello-friend.invalid/http-'' @ dec status,
           pd_title = or_else (TITLE_BY_STATUS status) ''Request failed'',
           pd_status = status,
           pd_detail = (if status \<ge> 500 then ''The service could not complete the request.''
                        else or_else (TITLE_BY_STATUS status) ''The request could not be completed.''),
           pd_instance = instance, pd_code = ''HTTP_'' @ dec status, pd_traceId = traceId,
           pd_details = None\<rparr>
      | _ \<Rightarrow>
          \<lparr>pd_type = ''https://errors.hello-friend.invalid/internal'',
           pd_title = or_else (TITLE_BY_STATUS 500) ''Internal server error'',
           pd_status = 500, pd_detail = ''The service could not complete the request.'',
           pd_instance = instance, pd_code = ''INTERNAL_ERROR'', pd_traceId = traceId,
           pd_details = None\<rparr>)"

text \<open>Whether a failure was raised as one of the two public classes.\<close>

fun public_failure :: "failure \<Rightarrow> bool" where
  "public_failure (ApplicationError _) = True"
| "public_failure (HttpException _) = True"
| "public_failure _ = False"

lemma title_of_kind: "TITLE_BY_STATUS (STATUS_BY_KIND k) \<noteq> None"
  by (cases k) (simp_all add: TITLE_BY_STATUS_def)

lemma status_of_kind_range: "400 \<le> STATUS_BY_KIND k \<and> STATUS_BY_KIND k < 600"
  by (cases k) simp_all

end
