(* ===== verification/Schema.thy ===== *)
theory Schema
  imports Failures
begin

text \<open>
  The durable state: one record per table of the migrations, with the columns the program reads or
  writes, the \<open>CHECK\<close> and \<open>UNIQUE\<close> constraints as bool-valued predicates, and the inserts, which
  refuse a row that breaks one (SQLSTATE 23505 for uniqueness, 23514 for a check, 23503 for a
  foreign key, 22003 for a \<open>bigint\<close> out of range). Instants are milliseconds; decimal \<open>bigint\<close>
  strings are integers.
\<close>

section \<open>Enumerated columns\<close>

datatype meeting_mode = VideoConference | AudioCall | Live
datatype meeting_state = MOpen | MActive | MEnding | MEnded | MExpired
datatype history_policy = StrictMembership | SharedHistory
datatype media_e2ee_policy = E2eeRequired | E2eeOptional | E2eeDisabled
datatype product_role = Host | Participant | Presenter | Viewer
datatype sfu_role = SfuHost | SfuSpeaker | SfuViewer
datatype participant_state = PPendingKeySync | PActive | PLeft | PRevoked
datatype session_state = SActive | SRotating | SRevoked | SExpired
datatype capability_kind = CapHost | CapInvite | CapHumanJoinCode
datatype outbox_destination = RedisRealtime | KafkaBackend | SfuControl
datatype command_status = CmdInProgress | CmdSucceeded | CmdFailed
datatype device_state = DevActive | DevRevoked
datatype group_purpose = PurposeChat | PurposeMedia
datatype group_state = GroupActive | GroupRetired
datatype member_state = MemberPending | MemberActive | MemberRemoved
datatype content_type = CText | CSystem | CReaction | CReceipt
datatype admission_state = AdmRequested | AdmIssued | AdmSignFailed | AdmInvalidated

section \<open>Rows\<close>

record meeting =
  m_id :: uuid
  m_mode :: meeting_mode
  m_state :: meeting_state
  m_chat_policy :: json
  m_media_e2ee_policy :: media_e2ee_policy
  m_history_policy :: history_policy
  m_created_at :: instant
  m_expires_at :: instant
  m_activated_at :: "instant option"
  m_version :: int

record capability =
  cap_id :: uuid
  cap_meeting_id :: uuid
  cap_kind :: capability_kind
  cap_secret_digest :: bytes
  cap_pepper_version :: int
  cap_grant_profile :: string
  cap_expires_at :: instant
  cap_revoked_at :: "instant option"
  cap_max_uses :: "int option"
  cap_use_count :: int
  cap_created_at :: instant
  cap_last_used_at :: "instant option"

record participant =
  p_id :: uuid
  p_meeting_id :: uuid
  p_display_name :: code_points
  p_product_role :: product_role
  p_sfu_role :: sfu_role
  p_permission_profile :: string
  p_permission_profile_version :: int
  p_state :: participant_state
  p_chat_join_position :: int

record psession =
  s_id :: uuid
  s_participant_id :: uuid
  s_token_digest :: bytes
  s_pepper_version :: int
  s_device_binding_digest :: bytes
  s_csrf_token_digest :: bytes
  s_state :: session_state
  s_issued_at :: instant
  s_last_seen_at :: instant
  s_idle_expires_at :: instant
  s_absolute_expires_at :: instant

record ticket_audit =
  ta_id :: uuid
  ta_session_id :: uuid
  ta_ticket_id :: uuid
  ta_issued_at :: instant
  ta_expires_at :: instant
  ta_consumed_at :: "instant option"
  ta_result_code :: "string option"

record stream_head =
  sh_meeting_id :: uuid
  sh_last_position :: int
  sh_updated_at :: instant

record e2ee_device =
  d_id :: uuid
  d_participant_id :: uuid
  d_public_device_id :: uuid
  d_state :: device_state
  d_expires_at :: instant

record e2ee_group =
  g_id :: uuid
  g_meeting_id :: uuid
  g_purpose :: group_purpose
  g_epoch :: int
  g_state :: group_state

record group_member =
  gm_group_id :: uuid
  gm_device_id :: uuid
  gm_participant_id :: uuid
  gm_state :: member_state
  gm_added_epoch :: int
  gm_removed_epoch :: "int option"

record chat_row =
  c_id :: uuid
  c_meeting_id :: uuid
  c_sender_participant_id :: uuid
  c_position :: int
  c_client_message_id :: uuid
  c_protocol_version :: int
  c_group_id :: uuid
  c_e2ee_epoch :: int
  c_content_type :: content_type
  c_ciphertext :: bytes
  c_ciphertext_hash :: bytes
  c_created_at :: instant
  c_expires_at :: instant

record outbox_row =
  ob_delivery_id :: uuid
  ob_event_id :: uuid
  ob_aggregate_type :: string
  ob_aggregate_id :: uuid
  ob_meeting_id :: "uuid option"
  ob_event_type :: string
  ob_event_version :: int
  ob_destination :: outbox_destination
  ob_partition_key :: string
  ob_payload :: "(string \<times> json) list"
  ob_available_at :: instant
  ob_created_at :: instant
  ob_attempts :: int
  ob_locked_by :: "string option"
  ob_locked_until :: "instant option"
  ob_published_at :: "instant option"
  ob_dead_at :: "instant option"
  ob_last_error_code :: "string option"

record command_row =
  cr_scope :: string
  cr_command_id :: uuid
  cr_fingerprint :: bytes
  cr_status :: command_status
  cr_resource_id :: "uuid option"
  cr_metadata :: "(string \<times> json) list"
  cr_created_at :: instant
  cr_expires_at :: instant

record audit_row =
  au_meeting_id :: "uuid option"
  au_actor_participant_id :: "uuid option"
  au_action :: string
  au_decision_code :: string
  au_trace_id :: string

record admission_row =
  aa_id :: uuid
  aa_session_id :: uuid
  aa_participant_id :: uuid
  aa_meeting_id :: uuid
  aa_command_id :: uuid
  aa_token_id :: uuid
  aa_key_id :: string
  aa_permission_profile_version :: int
  aa_state :: admission_state
  aa_result_code :: "string option"
  aa_requested_at :: instant
  aa_issued_at :: "instant option"
  aa_expires_at :: instant
  aa_invalidated_at :: "instant option"

record database =
  meetings :: "meeting list"
  capabilities :: "capability list"
  participants :: "participant list"
  sessions :: "psession list"
  ticket_audits :: "ticket_audit list"
  stream_heads :: "stream_head list"
  e2ee_devices :: "e2ee_device list"
  e2ee_groups :: "e2ee_group list"
  group_members :: "group_member list"
  chat_messages :: "chat_row list"
  outbox_events :: "outbox_row list"
  command_results :: "command_row list"
  security_audit :: "audit_row list"
  sfu_admissions :: "admission_row list"

section \<open>Constraints and inserts\<close>

definition unique_violation :: failure where "unique_violation = PgError ''23505''"
definition check_violation :: failure where "check_violation = PgError ''23514''"
definition foreign_key_violation :: failure where "foreign_key_violation = PgError ''23503''"
definition numeric_out_of_range :: failure where "numeric_out_of_range = PgError ''22003''"

definition MAX_SIGNED_BIGINT :: int where "MAX_SIGNED_BIGINT = 9223372036854775807"

text \<open>An insert appends the row when its checks hold and no stored row has one of its keys.\<close>

definition insert_row ::
  "('r \<Rightarrow> bool) \<Rightarrow> ('r \<Rightarrow> 'r \<Rightarrow> bool) \<Rightarrow> 'r \<Rightarrow> 'r list \<Rightarrow> 'r list outcome" where
  "insert_row checks same_key r rows =
     (if \<not> checks r then Inl check_violation
      else if list_ex (same_key r) rows then Inl unique_violation
      else Inr (rows @ [r]))"

lemma insert_row_Inr_iff:
  "insert_row checks same_key r rows = Inr rows' \<longleftrightarrow>
     checks r \<and> (\<forall>q \<in> set rows. \<not> same_key r q) \<and> rows' = rows @ [r]"
  by (auto simp: insert_row_def list_ex_iff)

text \<open>\<open>chat_messages\<close>: positions start at 1, a ciphertext has 1 to 131072 bytes and a hash of 32,
  and the three unique constraints are the identifier, the position in the meeting and the client's
  identifier for a sender.\<close>

definition chat_row_checks :: "chat_row \<Rightarrow> bool" where
  "chat_row_checks r =
     (0 < c_position r \<and> 0 < c_protocol_version r \<and> 0 \<le> c_e2ee_epoch r \<and>
      1 \<le> length (c_ciphertext r) \<and> length (c_ciphertext r) \<le> 131072 \<and>
      length (c_ciphertext_hash r) = 32 \<and> c_expires_at r > c_created_at r)"

definition chat_row_same_key :: "chat_row \<Rightarrow> chat_row \<Rightarrow> bool" where
  "chat_row_same_key r q =
     (c_id r = c_id q \<or>
      (c_meeting_id r, c_position r) = (c_meeting_id q, c_position q) \<or>
      (c_meeting_id r, c_sender_participant_id r, c_client_message_id r) =
        (c_meeting_id q, c_sender_participant_id q, c_client_message_id q))"

definition outbox_row_checks :: "outbox_row \<Rightarrow> bool" where
  "outbox_row_checks r =
     (1 \<le> length (ob_aggregate_type r) \<and> length (ob_aggregate_type r) \<le> 64 \<and>
      1 \<le> length (ob_event_type r) \<and> length (ob_event_type r) \<le> 128 \<and>
      0 < ob_event_version r \<and>
      1 \<le> length (ob_partition_key r) \<and> length (ob_partition_key r) \<le> 128 \<and>
      0 \<le> ob_attempts r \<and>
      (ob_locked_by r = None) = (ob_locked_until r = None) \<and>
      (ob_published_at r = None \<or> ob_dead_at r = None) \<and>
      (case ob_last_error_code r of None \<Rightarrow> True | Some e \<Rightarrow> 1 \<le> length e \<and> length e \<le> 64))"

definition outbox_row_same_key :: "outbox_row \<Rightarrow> outbox_row \<Rightarrow> bool" where
  "outbox_row_same_key r q =
     (ob_delivery_id r = ob_delivery_id q \<or>
      (ob_event_id r, ob_destination r) = (ob_event_id q, ob_destination q))"

definition capability_checks :: "capability \<Rightarrow> bool" where
  "capability_checks r =
     (length (cap_secret_digest r) = 32 \<and> 0 < cap_pepper_version r \<and>
      1 \<le> length (cap_grant_profile r) \<and> length (cap_grant_profile r) \<le> 64 \<and>
      (case cap_max_uses r of None \<Rightarrow> True | Some n \<Rightarrow> 0 < n \<and> cap_use_count r \<le> n) \<and>
      0 \<le> cap_use_count r \<and> cap_expires_at r > cap_created_at r \<and>
      (case cap_revoked_at r of None \<Rightarrow> True | Some t \<Rightarrow> t \<ge> cap_created_at r) \<and>
      (case cap_last_used_at r of None \<Rightarrow> True | Some t \<Rightarrow> t \<ge> cap_created_at r))"

definition capability_same_key :: "capability \<Rightarrow> capability \<Rightarrow> bool" where
  "capability_same_key r q =
     (cap_id r = cap_id q \<or>
      (cap_kind r, cap_secret_digest r, cap_pepper_version r) =
        (cap_kind q, cap_secret_digest q, cap_pepper_version q))"

definition participant_checks :: "participant \<Rightarrow> bool" where
  "participant_checks r =
     (1 \<le> length (p_display_name r) \<and> length (p_display_name r) \<le> 128 \<and>
      1 \<le> length (p_permission_profile r) \<and> length (p_permission_profile r) \<le> 64 \<and>
      0 < p_permission_profile_version r \<and> 0 \<le> p_chat_join_position r \<and>
      (p_product_role r = Host) = (p_sfu_role r = SfuHost) \<and>
      (p_product_role r = Viewer) = (p_sfu_role r = SfuViewer))"

definition session_checks :: "psession \<Rightarrow> bool" where
  "session_checks r =
     (length (s_token_digest r) = 32 \<and> 0 < s_pepper_version r \<and>
      length (s_device_binding_digest r) = 32 \<and> length (s_csrf_token_digest r) = 32 \<and>
      s_idle_expires_at r > s_issued_at r \<and> s_absolute_expires_at r \<ge> s_idle_expires_at r \<and>
      s_last_seen_at r \<ge> s_issued_at r)"

definition session_same_key :: "psession \<Rightarrow> psession \<Rightarrow> bool" where
  "session_same_key r q =
     (s_id r = s_id q \<or>
      (s_token_digest r, s_pepper_version r) = (s_token_digest q, s_pepper_version q))"

definition meeting_checks :: "meeting \<Rightarrow> bool" where
  "meeting_checks r =
     (m_expires_at r > m_created_at r \<and> (case m_chat_policy r of JObj _ \<Rightarrow> True | _ \<Rightarrow> False) \<and>
      (case m_activated_at r of None \<Rightarrow> True | Some t \<Rightarrow> t \<ge> m_created_at r) \<and> 0 < m_version r)"

definition command_checks :: "command_row \<Rightarrow> bool" where
  "command_checks r =
     (1 \<le> length (cr_scope r) \<and> length (cr_scope r) \<le> 64 \<and> length (cr_fingerprint r) = 32 \<and>
      cr_expires_at r > cr_created_at r)"

definition ticket_audit_checks :: "ticket_audit \<Rightarrow> bool" where
  "ticket_audit_checks r =
     (ta_expires_at r > ta_issued_at r \<and>
      (case ta_consumed_at r of None \<Rightarrow> True | Some t \<Rightarrow> t \<ge> ta_issued_at r) \<and>
      (case ta_result_code r of None \<Rightarrow> True | Some c \<Rightarrow> 1 \<le> length c \<and> length c \<le> 64))"

definition admission_checks :: "admission_row \<Rightarrow> bool" where
  "admission_checks r =
     (1 \<le> length (aa_key_id r) \<and> length (aa_key_id r) \<le> 128 \<and>
      0 < aa_permission_profile_version r \<and>
      (case aa_result_code r of None \<Rightarrow> True | Some c \<Rightarrow> 1 \<le> length c \<and> length c \<le> 64) \<and>
      aa_expires_at r > aa_requested_at r \<and>
      (aa_state r \<noteq> AdmIssued \<or> aa_issued_at r \<noteq> None) \<and>
      (aa_state r \<noteq> AdmInvalidated \<or> aa_invalidated_at r \<noteq> None))"

definition admission_same_key :: "admission_row \<Rightarrow> admission_row \<Rightarrow> bool" where
  "admission_same_key r q =
     (aa_id r = aa_id q \<or> aa_token_id r = aa_token_id q \<or>
      (aa_session_id r, aa_command_id r) = (aa_session_id q, aa_command_id q))"

section \<open>Validators of the schema library\<close>

text \<open>The string formats the schemas delegate to the validation library: \<open>z.uuid()\<close>,
  \<open>z.iso.datetime({ offset: true })\<close> and \<open>z.url()\<close>. They are arguments of the definitions that use them.\<close>

record zod =
  z_uuid :: "string \<Rightarrow> bool"
  z_iso_datetime :: "string \<Rightarrow> bool"
  z_url :: "string \<Rightarrow> bool"

text \<open>One instance, for evaluation: UUIDs by the expression of the repositories.\<close>

definition strict_zod :: zod where
  "strict_zod = \<lparr>z_uuid = uuid_format, z_iso_datetime = (\<lambda>s. length s = 24),
     z_url = (\<lambda>s. take 8 s = ''https://'')\<rparr>"

section \<open>The authenticated session of a request\<close>

record principal =
  pr_sessionId :: uuid
  pr_participantId :: uuid
  pr_meetingId :: uuid
  pr_meetingMode :: meeting_mode
  pr_productRole :: product_role
  pr_sfuRole :: sfu_role
  pr_permissionProfile :: string
  pr_permissionProfileVersion :: int
  pr_absoluteExpiresAtMs :: instant

record session_identity =
  si_sessionId :: uuid
  si_participantId :: uuid
  si_meetingId :: uuid

end
