(* ===== verification/Transactions.thy ===== *)
theory Transactions
  imports Schema
begin

text \<open>
  \<open>PostgresUnitOfWork\<close>: one pool client per attempt, \<open>BEGIN\<close>, the callback, \<open>COMMIT\<close>, and on any
  error \<open>ROLLBACK\<close> with the client released in every case; an attempt is repeated only after a
  serialization failure or a deadlock and at most \<open>maxRetries\<close> times. The environment decides, per
  attempt, what other transactions did before it, whether a client can be acquired, whether
  \<open>BEGIN\<close> is accepted and what becomes of \<open>COMMIT\<close>: a commit whose acknowledgement is lost is
  durable although the attempt fails.
\<close>

section \<open>One attempt\<close>

datatype isolation = ReadCommitted | RepeatableRead | Serializable

fun BEGIN_BY_ISOLATION :: "isolation \<Rightarrow> string" where
  "BEGIN_BY_ISOLATION ReadCommitted = ''BEGIN ISOLATION LEVEL READ COMMITTED''"
| "BEGIN_BY_ISOLATION RepeatableRead = ''BEGIN ISOLATION LEVEL REPEATABLE READ''"
| "BEGIN_BY_ISOLATION Serializable = ''BEGIN ISOLATION LEVEL SERIALIZABLE''"

datatype client_op = Acquire | Query string | Release

datatype commit_fate = Committed | CommitRefused failure | CommitInDoubt failure

record 's attempt_env =
  before_attempt :: "'s \<Rightarrow> 's"
  acquire_fault :: "failure option"
  begin_fault :: "failure option"
  commit_fate :: commit_fate

type_synonym ('s, 'a) tx = "'s \<Rightarrow> ('a \<times> 's) outcome"

definition runAttempt ::
  "'s attempt_env \<Rightarrow> ('s, 'a) tx \<Rightarrow> isolation \<Rightarrow> 's \<Rightarrow> 'a outcome \<times> 's \<times> client_op list" where
  "runAttempt env work isolationLevel s0 =
     (let s = before_attempt env s0;
          begin_op = [Acquire, Query (BEGIN_BY_ISOLATION isolationLevel)];
          rolled_back = [Query ''ROLLBACK'', Release]
      in case acquire_fault env of
        Some e \<Rightarrow> (Inl e, s, [])
      | None \<Rightarrow>
          (case begin_fault env of
            Some e \<Rightarrow> (Inl e, s, begin_op @ rolled_back)
          | None \<Rightarrow>
              (case work s of
                Inl e \<Rightarrow> (Inl e, s, begin_op @ rolled_back)
              | Inr (x, s') \<Rightarrow>
                  (case commit_fate env of
                    Committed \<Rightarrow> (Inr x, s', begin_op @ [Query ''COMMIT'', Release])
                  | CommitRefused e \<Rightarrow> (Inl e, s, begin_op @ [Query ''COMMIT''] @ rolled_back)
                  | CommitInDoubt e \<Rightarrow> (Inl e, s', begin_op @ [Query ''COMMIT''] @ rolled_back)))))"

section \<open>Retries\<close>

fun failure_code :: "failure \<Rightarrow> string option" where
  "failure_code (ApplicationError e) = Some (ae_code e)"
| "failure_code (PgError code) = Some code"
| "failure_code _ = None"

definition isRetryableTransactionError :: "failure \<Rightarrow> bool" where
  "isRetryableTransactionError e =
     (failure_code e = Some ''40001'' \<or> failure_code e = Some ''40P01'')"

text \<open>\<open>Math.random()\<close> is the argument \<open>random\<close>, at least 0 and below 1.\<close>

definition retryDelay :: "rat \<Rightarrow> nat \<Rightarrow> int" where
  "retryDelay random attempt = min 200 (20 * 2 ^ attempt) + \<lfloor>random * 20\<rfloor>"

text \<open>The loop of \<open>run\<close>: attempt \<open>n\<close> sees the environment and the callback of that attempt.\<close>

function run_from ::
  "(nat \<Rightarrow> 's attempt_env) \<Rightarrow> (nat \<Rightarrow> ('s, 'a) tx) \<Rightarrow> isolation \<Rightarrow> nat \<Rightarrow> nat \<Rightarrow> 's
     \<Rightarrow> 'a outcome \<times> 's \<times> client_op list" where
  "run_from env work lvl maxRetries attempt s =
     (case runAttempt (env attempt) (work attempt) lvl s of
       (Inr x, s', ops) \<Rightarrow> (Inr x, s', ops)
     | (Inl e, s', ops) \<Rightarrow>
         (if attempt \<ge> maxRetries \<or> \<not> isRetryableTransactionError e then (Inl e, s', ops)
          else (case run_from env work lvl maxRetries (Suc attempt) s' of
                 (r, s'', ops') \<Rightarrow> (r, s'', ops @ ops'))))"
  by pat_completeness auto
termination
  by (relation "measure (\<lambda>(env, work, lvl, maxRetries, attempt, s). maxRetries - attempt)") auto

declare run_from.simps [simp del]

definition run ::
  "(nat \<Rightarrow> 's attempt_env) \<Rightarrow> (nat \<Rightarrow> ('s, 'a) tx) \<Rightarrow> isolation option \<Rightarrow> int option \<Rightarrow> 's
     \<Rightarrow> 'a outcome \<times> 's \<times> client_op list" where
  "run env work isolationLevel maxRetries s =
     (let lvl = or_else isolationLevel ReadCommitted;
          retries = or_else maxRetries 0
      in if retries < 0 \<or> retries > 3
         then (Inl (RangeError ''Transaction maxRetries must be an integer between 0 and 3''), s, [])
         else run_from env work lvl (nat retries) 0 s)"

text \<open>A transaction no fault of the environment touches: all of its effects or none.\<close>

definition atomically :: "('s, 'a) tx \<Rightarrow> 's \<Rightarrow> 'a outcome \<times> 's" where
  "atomically work s = (case work s of Inl e \<Rightarrow> (Inl e, s) | Inr (x, s') \<Rightarrow> (Inr x, s'))"

definition quiet :: "'s attempt_env" where
  "quiet = \<lparr>before_attempt = id, acquire_fault = None, begin_fault = None, commit_fate = Committed\<rparr>"

section \<open>What an attempt guarantees\<close>

definition in_doubt :: "'s attempt_env \<Rightarrow> bool" where
  "in_doubt env = (case commit_fate env of CommitInDoubt _ \<Rightarrow> True | _ \<Rightarrow> False)"

lemma atomically_simps:
  "work s = Inl e \<Longrightarrow> atomically work s = (Inl e, s)"
  "work s = Inr (x, s') \<Longrightarrow> atomically work s = (Inr x, s')"
  by (simp_all add: atomically_def)

lemma atomically_Inr_iff: "atomically work s = (Inr x, s') \<longleftrightarrow> work s = Inr (x, s')"
  by (auto simp: atomically_def split: sum.splits)

lemma atomically_Inl_iff: "atomically work s = (Inl e, s') \<longleftrightarrow> work s = Inl e \<and> s' = s"
  by (auto simp: atomically_def split: sum.splits)

lemma runAttempt_success:
  "runAttempt env work lvl s = (Inr x, s', ops) \<Longrightarrow> work (before_attempt env s) = Inr (x, s')"
  by (auto simp: runAttempt_def Let_def split: option.splits sum.splits prod.splits commit_fate.splits)

lemma runAttempt_failure:
  "runAttempt env work lvl s = (Inl e, s', ops) \<Longrightarrow>
     s' = before_attempt env s \<or>
     in_doubt env \<and> (\<exists>x. work (before_attempt env s) = Inr (x, s'))"
  by (auto simp: runAttempt_def in_doubt_def Let_def
      split: option.splits sum.splits prod.splits commit_fate.splits)

text \<open>Every attempt's calls on the pool: nothing when no client was acquired, otherwise one
  \<open>Acquire\<close>, queries, and one \<open>Release\<close>, which is last.\<close>

definition attempt_trace :: "client_op list \<Rightarrow> bool" where
  "attempt_trace ops =
     (ops = [] \<or> (\<exists>qs. ops = Acquire # map Query qs @ [Release]))"

lemma attempt_trace_runAttempt:
  assumes "runAttempt env work lvl s = (r, s', ops)"
  shows "attempt_trace ops"
proof -
  have "\<exists>qs. [Acquire, Query b] @ rest @ [Release] = Acquire # map Query qs @ [Release]"
    if "rest = map Query rs" for b rest rs
    using that by (intro exI [of _ "b # rs"]) simp
  from this [of "[Query ''ROLLBACK'']" "[''ROLLBACK'']"]
    this [of "[Query ''COMMIT'']" "[''COMMIT'']"]
    this [of "[Query ''COMMIT'', Query ''ROLLBACK'']" "[''COMMIT'', ''ROLLBACK'']"]
  show ?thesis using assms
    by (auto simp: runAttempt_def attempt_trace_def Let_def
        split: option.splits sum.splits prod.splits commit_fate.splits)
qed

section \<open>What every run guarantees\<close>

lemma run_from_cases [consumes 1, case_names success fail retry]:
  assumes "run_from env work lvl maxRetries attempt s = (r, s', ops)"
  obtains x where "runAttempt (env attempt) (work attempt) lvl s = (Inr x, s', ops)" "r = Inr x"
  | e where "runAttempt (env attempt) (work attempt) lvl s = (Inl e, s', ops)" "r = Inl e"
      "attempt \<ge> maxRetries \<or> \<not> isRetryableTransactionError e"
  | e s1 ops1 ops2 where "runAttempt (env attempt) (work attempt) lvl s = (Inl e, s1, ops1)"
      "isRetryableTransactionError e" "attempt < maxRetries"
      "run_from env work lvl maxRetries (Suc attempt) s1 = (r, s', ops2)" "ops = ops1 @ ops2"
proof -
  obtain r1 s1 ops1 where a: "runAttempt (env attempt) (work attempt) lvl s = (r1, s1, ops1)"
    by (metis prod_cases3)
  then show ?thesis
    using assms that
    by (cases r1) (auto simp: run_from.simps [of env work lvl maxRetries attempt s]
        split: if_splits prod.splits)
qed

lemma run_from_atomic:
  "run_from env work lvl maxRetries attempt s = (Inr x, s', ops) \<Longrightarrow>
     \<exists>n t. attempt \<le> n \<and> n \<le> max attempt maxRetries \<and> work n t = Inr (x, s')"
proof (induction env work lvl maxRetries attempt s arbitrary: ops rule: run_from.induct)
  case (1 env work lvl maxRetries attempt s)
  from 1(2) show ?case
  proof (cases rule: run_from_cases)
    case (success y)
    then show ?thesis using runAttempt_success by fastforce
  next
    case (retry e s1 ops1 ops2)
    then obtain n t where "Suc attempt \<le> n" "n \<le> max (Suc attempt) maxRetries" "work n t = Inr (x, s')"
      using 1(1) by (metis not_le)
    with retry show ?thesis by (metis Suc_leD max.absorb2 Suc_leI less_imp_le)
  qed simp
qed

lemma run_from_quiet:
  "(\<And>n. env n = quiet) \<Longrightarrow> (\<And>n e. work n s = Inl e \<Longrightarrow> \<not> isRetryableTransactionError e) \<Longrightarrow>
     (fst (run_from env work lvl k 0 s), fst (snd (run_from env work lvl k 0 s))) =
       atomically (work 0) s"
  by (subst (1 2) run_from.simps)
     (auto simp: runAttempt_def quiet_def atomically_def Let_def split: sum.splits prod.splits)

text \<open>
  The contract of a callback: the statements of the transaction keep the invariant of the database
  whenever they are committed from an admissible state. Whatever the environment does (faults, retries, a commit in doubt,
  other transactions that keep the invariant), the invariant holds after the run.
\<close>

locale transactional =
  fixes work :: "nat \<Rightarrow> ('s, 'a) tx"
    and admissible :: "nat \<Rightarrow> 's \<Rightarrow> bool"
    and inv :: "'s \<Rightarrow> bool"
  assumes work_keeps: "inv s \<Longrightarrow> admissible n s \<Longrightarrow> work n s = Inr (x, s') \<Longrightarrow> inv s'"
begin

lemma runAttempt_keeps:
  assumes "inv s" and "\<And>t. inv t \<Longrightarrow> inv (before_attempt env t)"
    and "\<And>t. inv t \<Longrightarrow> admissible n t"
    and "runAttempt env (work n) lvl s = (r, s', ops)"
  shows "inv s'"
proof (cases r)
  case (Inl e)
  with assms show ?thesis using runAttempt_failure [of env "work n" lvl s e s' ops]
    by (auto intro: work_keeps)
next
  case (Inr x)
  with assms show ?thesis using runAttempt_success [of env "work n" lvl s x s' ops]
    by (auto intro: work_keeps)
qed

lemma run_from_keeps:
  assumes "\<And>n t. inv t \<Longrightarrow> inv (before_attempt (env n) t)" and "\<And>n t. inv t \<Longrightarrow> admissible n t"
  shows "inv s \<Longrightarrow> run_from env work lvl maxRetries attempt s = (r, s', ops) \<Longrightarrow> inv s'"
proof (induction "maxRetries - attempt" arbitrary: attempt s ops rule: less_induct)
  case less
  from less(3) show ?case
  proof (cases rule: run_from_cases)
    case (retry e s1 ops1 ops2)
    then have "inv s1" using less(2) assms runAttempt_keeps by blast
    moreover have "maxRetries - Suc attempt < maxRetries - attempt" using retry by simp
    ultimately show ?thesis using less(1) retry by blast
  qed (use less(2) assms runAttempt_keeps in blast)+
qed

theorem run_keeps:
  assumes "\<And>n t. inv t \<Longrightarrow> inv (before_attempt (env n) t)" and "\<And>n t. inv t \<Longrightarrow> admissible n t"
    and "inv s"
    and "run env work isolationLevel maxRetries s = (r, s', ops)"
  shows "inv s'"
proof (cases "or_else maxRetries 0 < 0 \<or> or_else maxRetries 0 > 3")
  case True
  with assms(3,4) show ?thesis by (simp add: run_def Let_def)
next
  case False
  with assms(4) have "run_from env work (or_else isolationLevel ReadCommitted)
      (nat (or_else maxRetries 0)) 0 s = (r, s', ops)"
    by (simp add: run_def Let_def)
  then show ?thesis using assms(1,2,3) run_from_keeps [of env] by blast
qed

theorem atomically_keeps:
  "inv s \<Longrightarrow> admissible n s \<Longrightarrow> inv (snd (atomically (work n) s))"
  by (cases "work n s") (auto simp: atomically_def intro: work_keeps split: prod.splits)

end

section \<open>The guarantees of the unit of work\<close>

text \<open>The state after \<open>n\<close> attempts of which nothing became durable: only what the other
  transactions wrote.\<close>

definition others_only :: "(nat \<Rightarrow> 's attempt_env) \<Rightarrow> nat \<Rightarrow> nat \<Rightarrow> 's \<Rightarrow> 's" where
  "others_only env first n s = foldl (\<lambda>t k. before_attempt (env k) t) s [first ..< first + n]"

lemma others_only_1: "others_only env a 1 s = before_attempt (env a) s"
  by (simp add: others_only_def)

lemma others_only_Suc:
  "others_only env (Suc a) n (before_attempt (env a) s) = others_only env a (Suc n) s"
proof -
  have "[a ..< a + Suc n] = a # [Suc a ..< Suc a + n]" by (simp add: upt_conv_Cons)
  then show ?thesis by (simp add: others_only_def)
qed

lemma run_from_failure:
  assumes "\<And>n. \<not> in_doubt (env n)"
  shows "run_from env work lvl maxRetries attempt s = (Inl e, s', ops) \<Longrightarrow>
     \<exists>n. n \<le> Suc (maxRetries - attempt) \<and> s' = others_only env attempt n s"
proof (induction "maxRetries - attempt" arbitrary: attempt s ops rule: less_induct)
  case less
  have step: "t = before_attempt (env attempt) s"
    if "runAttempt (env attempt) (work attempt) lvl s = (Inl d, t, o')" for d t o'
    using runAttempt_failure [OF that] assms by blast
  from less(2) show ?case
  proof (cases rule: run_from_cases)
    case (fail d)
    then show ?thesis using step others_only_1 [of env attempt s]
      by (intro exI [of _ 1]) auto
  next
    case (retry d s1 ops1 ops2)
    have lt: "maxRetries - Suc attempt < maxRetries - attempt" using retry by simp
    from retry obtain n where "n \<le> Suc (maxRetries - Suc attempt)" "s' = others_only env (Suc attempt) n s1"
      using less(1) [OF lt] by blast
    with retry step show ?thesis
      by (intro exI [of _ "Suc n"]) (auto simp: others_only_Suc)
  qed simp
qed

lemma run_from_trace:
  "run_from env work lvl maxRetries attempt s = (r, s', ops) \<Longrightarrow>
     \<exists>blocks. ops = concat blocks \<and> list_all attempt_trace blocks \<and>
       length blocks \<le> Suc (maxRetries - attempt)"
proof (induction "maxRetries - attempt" arbitrary: attempt s ops rule: less_induct)
  case less
  from less(2) show ?case
  proof (cases rule: run_from_cases)
    case (retry d s1 ops1 ops2)
    have lt: "maxRetries - Suc attempt < maxRetries - attempt" using retry by simp
    from retry obtain blocks where "ops2 = concat blocks" "list_all attempt_trace blocks"
      "length blocks \<le> Suc (maxRetries - Suc attempt)"
      using less(1) [OF lt] by blast
    with retry show ?thesis
      by (intro exI [of _ "ops1 # blocks"]) (auto dest: attempt_trace_runAttempt)
  qed (auto intro!: exI [of _ "[ops]"] dest: attempt_trace_runAttempt)
qed

lemma run_cases:
  assumes "run env work isolationLevel maxRetries s = (r, s', ops)"
  obtains (range) "r = Inl (RangeError ''Transaction maxRetries must be an integer between 0 and 3'')"
      "s' = s" "ops = []"
  | (loop) k where "k \<le> 3"
      "run_from env work (or_else isolationLevel ReadCommitted) k 0 s = (r, s', ops)"
proof (cases "or_else maxRetries 0 < 0 \<or> or_else maxRetries 0 > 3")
  case True
  with assms show ?thesis by (intro range) (auto simp: run_def Let_def)
next
  case False
  then have "nat (or_else maxRetries 0) \<le> 3" by linarith
  moreover have "run_from env work (or_else isolationLevel ReadCommitted)
      (nat (or_else maxRetries 0)) 0 s = (r, s', ops)"
    using False assms by (simp add: run_def Let_def)
  ultimately show ?thesis by (rule loop)
qed



text \<open>Pool clients are never leaked and attempts are bounded: whatever fails, the calls a run
  makes on the pool split into at most four attempts, each of which either acquired no client or
  acquired one, used it for its queries and released it exactly once at the end.\<close>

theorem run_releases_clients:
  assumes "run env work isolationLevel maxRetries s = (r, s', ops)"
  shows "\<exists>blocks. ops = concat blocks \<and> list_all attempt_trace blocks \<and> length blocks \<le> 4"
  using assms
proof (cases rule: run_cases)
  case range
  then show ?thesis by (intro exI [of _ "[]"]) simp
next
  case (loop k)
  then show ?thesis using run_from_trace [of env work _ k 0 s r s' ops] by fastforce
qed

theorem run_releases_clients_witness:
  "\<exists>blocks. [Acquire, Query ''BEGIN ISOLATION LEVEL READ COMMITTED'', Query ''ROLLBACK'', Release] =
      concat blocks \<and> list_all attempt_trace blocks \<and> length blocks \<le> 4"
  using run_releases_clients [of "\<lambda>_. quiet" "\<lambda>_ s. Inl (RangeError ''x'') :: (nat \<times> nat) outcome"
      None None "0::nat"]
  by (simp add: run_def run_from.simps runAttempt_def quiet_def isRetryableTransactionError_def)

end
