(* ===== verification/Config.thy ===== *)
theory Config
  imports Failures
begin

text \<open>
  The validated configuration (\<open>src/platform/config\<close>): the sections the other components read, the
  ranges of the environment schema, and the loaders that relate the sections to each other.
\<close>

section \<open>Sections of the configuration\<close>

datatype node_environment = Development | Test | Staging | Production
datatype app_role = Api | Realtime | Worker | Migration

record outbox_config =
  oc_batchSize :: int
  oc_concurrency :: int
  oc_leaseMs :: int
  oc_maxAttempts :: int
  oc_baseRetryMs :: int
  oc_maxRetryMs :: int
  oc_pollIntervalMs :: int

record keyring_source =
  ks_inlineSecret :: "string option"
  ks_secretFile :: "string option"

record meetings_config =
  mc_enabled :: bool
  mc_capabilityKeyring :: "keyring_source option"
  mc_sessionKeyring :: "keyring_source option"
  mc_capabilityTtlSeconds :: int
  mc_meetingTtlSeconds :: int
  mc_sessionIdleTtlSeconds :: int
  mc_sessionAbsoluteTtlSeconds :: int
  mc_sessionCookieName :: string
  mc_createRateLimit :: int
  mc_joinRateLimit :: int
  mc_rateLimitWindowSeconds :: int

record realtime_config =
  rc_ticketTtlSeconds :: int
  rc_authenticationTimeoutMs :: int
  rc_heartbeatIntervalMs :: int
  rc_presenceTtlSeconds :: int
  rc_maxMessageBytes :: int
  rc_maxBufferedBytes :: int
  rc_maxPendingCommands :: int
  rc_messageRatePerSecond :: int
  rc_messageBurst :: int
  rc_maxConnectionsPerSource :: int
  rc_maxConnectionsPerSession :: int
  rc_ticketIssueRateLimit :: int
  rc_ticketRateLimitWindowSeconds :: int
  rc_sessionRevalidateSeconds :: int
  rc_maxPresenceSnapshotParticipants :: int

record chat_config =
  cc_enabled :: bool
  cc_maxCiphertextBytes :: int
  cc_historyPageDefault :: int
  cc_historyPageMax :: int
  cc_ratePerParticipant :: int
  cc_rateBurst :: int
  cc_fastPathLeaseMs :: int
  cc_highWatermarkIntervalMs :: int
  cc_reorderBufferMessages :: int
  cc_retentionDays :: int
  cc_cleanupBatchSize :: int
  cc_cleanupIntervalMs :: int

record sfu_config =
  sc_enabled :: bool
  sc_issuer :: string
  sc_audience :: string
  sc_publicUrl :: string
  sc_tokenTtlSeconds :: int
  sc_clockSkewSeconds :: int
  sc_issueRateLimit :: int
  sc_rateLimitWindowSeconds :: int
  sc_signerConcurrency :: int
  sc_signerQueueCapacity :: int
  sc_signerTimeoutMs :: int
  sc_auditRetentionDays :: int
  sc_auditCleanupBatchSize :: int
  sc_auditCleanupIntervalMs :: int

section \<open>The environment after its schema\<close>

text \<open>The numeric variables, named as in the environment; \<open>environmentSchema\<close> is their ranges.\<close>

record environment =
  NODE_ENV :: node_environment
  OUTBOX_BATCH_SIZE :: int
  OUTBOX_CONCURRENCY :: int
  OUTBOX_LEASE_MS :: int
  OUTBOX_MAX_ATTEMPTS :: int
  OUTBOX_BASE_RETRY_MS :: int
  OUTBOX_MAX_RETRY_MS :: int
  OUTBOX_POLL_INTERVAL_MS :: int
  MEETINGS_ENABLED :: "bool option"
  CAPABILITY_HMAC_KEYRING :: "string option"
  CAPABILITY_HMAC_KEYRING_FILE :: "string option"
  SESSION_HMAC_KEYRING :: "string option"
  SESSION_HMAC_KEYRING_FILE :: "string option"
  MEETING_CAPABILITY_TTL_SECONDS :: int
  MEETING_TTL_SECONDS :: int
  SESSION_IDLE_TTL_SECONDS :: int
  SESSION_ABSOLUTE_TTL_SECONDS :: int
  SESSION_COOKIE_NAME :: "string option"
  MEETING_CREATE_RATE_LIMIT :: int
  MEETING_JOIN_RATE_LIMIT :: int
  MEETING_RATE_LIMIT_WINDOW_SECONDS :: int
  REALTIME_TICKET_TTL_SECONDS :: int
  REALTIME_AUTH_TIMEOUT_MS :: int
  REALTIME_HEARTBEAT_INTERVAL_MS :: int
  REALTIME_PRESENCE_TTL_SECONDS :: int
  REALTIME_MAX_MESSAGE_BYTES :: int
  REALTIME_MAX_BUFFERED_BYTES :: int
  REALTIME_MAX_PENDING_COMMANDS :: int
  REALTIME_MESSAGE_RATE_PER_SECOND :: int
  REALTIME_MESSAGE_BURST :: int
  REALTIME_MAX_CONNECTIONS_PER_SOURCE :: int
  REALTIME_MAX_CONNECTIONS_PER_SESSION :: int
  REALTIME_TICKET_ISSUE_RATE_LIMIT :: int
  REALTIME_TICKET_RATE_WINDOW_SECONDS :: int
  REALTIME_SESSION_REVALIDATE_SECONDS :: int
  REALTIME_MAX_PRESENCE_SNAPSHOT_PARTICIPANTS :: int
  CHAT_ENABLED :: "bool option"
  CHAT_MAX_CIPHERTEXT_BYTES :: int
  CHAT_HISTORY_PAGE_DEFAULT :: int
  CHAT_HISTORY_PAGE_MAX :: int
  CHAT_RATE_PER_PARTICIPANT :: int
  CHAT_RATE_BURST :: int
  CHAT_FAST_PATH_LEASE_MS :: int
  CHAT_HIGH_WATERMARK_INTERVAL_MS :: int
  CHAT_REORDER_BUFFER_MESSAGES :: int
  CHAT_RETENTION_DAYS :: int
  CHAT_CLEANUP_BATCH_SIZE :: int
  CHAT_CLEANUP_INTERVAL_MS :: int
  REDIS_COMMAND_TIMEOUT_MS :: int

definition between :: "int \<Rightarrow> int \<Rightarrow> int \<Rightarrow> bool" where
  "between lo hi v = (lo \<le> v \<and> v \<le> hi)"

definition outboxRanges :: "environment \<Rightarrow> bool" where
  "outboxRanges env =
     (between 1 500 (OUTBOX_BATCH_SIZE env) \<and> between 1 100 (OUTBOX_CONCURRENCY env) \<and>
      between 1000 300000 (OUTBOX_LEASE_MS env) \<and> between 1 100 (OUTBOX_MAX_ATTEMPTS env) \<and>
      between 100 60000 (OUTBOX_BASE_RETRY_MS env) \<and>
      between 1000 3600000 (OUTBOX_MAX_RETRY_MS env) \<and>
      between 50 60000 (OUTBOX_POLL_INTERVAL_MS env))"

definition meetingRanges :: "environment \<Rightarrow> bool" where
  "meetingRanges env =
     (between 300 2592000 (MEETING_CAPABILITY_TTL_SECONDS env) \<and>
      between 300 2592000 (MEETING_TTL_SECONDS env) \<and>
      between 60 86400 (SESSION_IDLE_TTL_SECONDS env) \<and>
      between 300 604800 (SESSION_ABSOLUTE_TTL_SECONDS env) \<and>
      between 1 10000 (MEETING_CREATE_RATE_LIMIT env) \<and>
      between 1 100000 (MEETING_JOIN_RATE_LIMIT env) \<and>
      between 1 3600 (MEETING_RATE_LIMIT_WINDOW_SECONDS env))"

definition realtimeRanges :: "environment \<Rightarrow> bool" where
  "realtimeRanges env =
     (between 5 60 (REALTIME_TICKET_TTL_SECONDS env) \<and>
      between 1000 15000 (REALTIME_AUTH_TIMEOUT_MS env) \<and>
      between 5000 60000 (REALTIME_HEARTBEAT_INTERVAL_MS env) \<and>
      between 30 300 (REALTIME_PRESENCE_TTL_SECONDS env) \<and>
      between 1024 65536 (REALTIME_MAX_MESSAGE_BYTES env) \<and>
      between 65536 16777216 (REALTIME_MAX_BUFFERED_BYTES env) \<and>
      between 1 128 (REALTIME_MAX_PENDING_COMMANDS env) \<and>
      between 1 1000 (REALTIME_MESSAGE_RATE_PER_SECOND env) \<and>
      between 1 2000 (REALTIME_MESSAGE_BURST env) \<and>
      between 1 1000 (REALTIME_MAX_CONNECTIONS_PER_SOURCE env) \<and>
      between 1 32 (REALTIME_MAX_CONNECTIONS_PER_SESSION env) \<and>
      between 1 1000 (REALTIME_TICKET_ISSUE_RATE_LIMIT env) \<and>
      between 1 3600 (REALTIME_TICKET_RATE_WINDOW_SECONDS env) \<and>
      between 5 300 (REALTIME_SESSION_REVALIDATE_SECONDS env) \<and>
      between 10 10000 (REALTIME_MAX_PRESENCE_SNAPSHOT_PARTICIPANTS env))"

definition chatRanges :: "environment \<Rightarrow> bool" where
  "chatRanges env =
     (between 64 49152 (CHAT_MAX_CIPHERTEXT_BYTES env) \<and>
      between 1 500 (CHAT_HISTORY_PAGE_DEFAULT env) \<and> between 1 500 (CHAT_HISTORY_PAGE_MAX env) \<and>
      between 1 100 (CHAT_RATE_PER_PARTICIPANT env) \<and> between 1 500 (CHAT_RATE_BURST env) \<and>
      between 1000 30000 (CHAT_FAST_PATH_LEASE_MS env) \<and>
      between 1000 60000 (CHAT_HIGH_WATERMARK_INTERVAL_MS env) \<and>
      between 8 2000 (CHAT_REORDER_BUFFER_MESSAGES env) \<and>
      between 1 365 (CHAT_RETENTION_DAYS env) \<and>
      between 10 10000 (CHAT_CLEANUP_BATCH_SIZE env) \<and>
      between 10000 3600000 (CHAT_CLEANUP_INTERVAL_MS env) \<and>
      between 50 30000 (REDIS_COMMAND_TIMEOUT_MS env))"

section \<open>The loaders\<close>

definition loadOutboxConfig :: "environment \<Rightarrow> outbox_config outcome" where
  "loadOutboxConfig env =
     (if OUTBOX_BASE_RETRY_MS env > OUTBOX_MAX_RETRY_MS env
      then Inl (ConfigurationError ''OUTBOX_BASE_RETRY_MS must not exceed OUTBOX_MAX_RETRY_MS'')
      else Inr \<lparr>oc_batchSize = OUTBOX_BATCH_SIZE env, oc_concurrency = OUTBOX_CONCURRENCY env,
        oc_leaseMs = OUTBOX_LEASE_MS env, oc_maxAttempts = OUTBOX_MAX_ATTEMPTS env,
        oc_baseRetryMs = OUTBOX_BASE_RETRY_MS env, oc_maxRetryMs = OUTBOX_MAX_RETRY_MS env,
        oc_pollIntervalMs = OUTBOX_POLL_INTERVAL_MS env\<rparr>)"

definition loadRealtimeConfig :: "environment \<Rightarrow> realtime_config outcome" where
  "loadRealtimeConfig env =
     (if REALTIME_MESSAGE_BURST env < REALTIME_MESSAGE_RATE_PER_SECOND env
      then Inl (ConfigurationError
        ''REALTIME_MESSAGE_BURST must be at least REALTIME_MESSAGE_RATE_PER_SECOND'')
      else if REALTIME_PRESENCE_TTL_SECONDS env * 1000 < REALTIME_HEARTBEAT_INTERVAL_MS env * 2
      then Inl (ConfigurationError
        ''REALTIME_PRESENCE_TTL_SECONDS must cover at least two heartbeat intervals'')
      else Inr \<lparr>rc_ticketTtlSeconds = REALTIME_TICKET_TTL_SECONDS env,
        rc_authenticationTimeoutMs = REALTIME_AUTH_TIMEOUT_MS env,
        rc_heartbeatIntervalMs = REALTIME_HEARTBEAT_INTERVAL_MS env,
        rc_presenceTtlSeconds = REALTIME_PRESENCE_TTL_SECONDS env,
        rc_maxMessageBytes = REALTIME_MAX_MESSAGE_BYTES env,
        rc_maxBufferedBytes = REALTIME_MAX_BUFFERED_BYTES env,
        rc_maxPendingCommands = REALTIME_MAX_PENDING_COMMANDS env,
        rc_messageRatePerSecond = REALTIME_MESSAGE_RATE_PER_SECOND env,
        rc_messageBurst = REALTIME_MESSAGE_BURST env,
        rc_maxConnectionsPerSource = REALTIME_MAX_CONNECTIONS_PER_SOURCE env,
        rc_maxConnectionsPerSession = REALTIME_MAX_CONNECTIONS_PER_SESSION env,
        rc_ticketIssueRateLimit = REALTIME_TICKET_ISSUE_RATE_LIMIT env,
        rc_ticketRateLimitWindowSeconds = REALTIME_TICKET_RATE_WINDOW_SECONDS env,
        rc_sessionRevalidateSeconds = REALTIME_SESSION_REVALIDATE_SECONDS env,
        rc_maxPresenceSnapshotParticipants = REALTIME_MAX_PRESENCE_SNAPSHOT_PARTICIPANTS env\<rparr>)"

text \<open>\<open>Math.ceil((bytes * 4) / 3) + 4096\<close>: the largest frame of one ciphertext.\<close>

definition maximumFrameBytes :: "int \<Rightarrow> int" where
  "maximumFrameBytes bytes = \<lceil>rat_of_int (bytes * 4) / 3\<rceil> + 4096"

definition loadChatConfig ::
  "environment \<Rightarrow> app_role \<Rightarrow> bool \<Rightarrow> realtime_config \<Rightarrow> chat_config outcome" where
  "loadChatConfig env role meetingsEnabled realtime =
     (let enabled = or_else (CHAT_ENABLED env) False
      in if enabled \<and> role = Realtime \<and> \<not> meetingsEnabled
      then Inl (ConfigurationError ''CHAT_ENABLED requires MEETINGS_ENABLED on realtime processes'')
      else if CHAT_HISTORY_PAGE_DEFAULT env > CHAT_HISTORY_PAGE_MAX env
      then Inl (ConfigurationError
        ''CHAT_HISTORY_PAGE_DEFAULT must not exceed CHAT_HISTORY_PAGE_MAX'')
      else if CHAT_RATE_BURST env < CHAT_RATE_PER_PARTICIPANT env
      then Inl (ConfigurationError ''CHAT_RATE_BURST must be at least CHAT_RATE_PER_PARTICIPANT'')
      else if CHAT_FAST_PATH_LEASE_MS env \<le> REDIS_COMMAND_TIMEOUT_MS env + 250
      then Inl (ConfigurationError
        ''CHAT_FAST_PATH_LEASE_MS must exceed REDIS_COMMAND_TIMEOUT_MS with a safety margin'')
      else if maximumFrameBytes (CHAT_MAX_CIPHERTEXT_BYTES env) > rc_maxMessageBytes realtime
      then Inl (ConfigurationError
        ''CHAT_MAX_CIPHERTEXT_BYTES cannot fit inside REALTIME_MAX_MESSAGE_BYTES'')
      else Inr \<lparr>cc_enabled = enabled, cc_maxCiphertextBytes = CHAT_MAX_CIPHERTEXT_BYTES env,
        cc_historyPageDefault = CHAT_HISTORY_PAGE_DEFAULT env,
        cc_historyPageMax = CHAT_HISTORY_PAGE_MAX env,
        cc_ratePerParticipant = CHAT_RATE_PER_PARTICIPANT env, cc_rateBurst = CHAT_RATE_BURST env,
        cc_fastPathLeaseMs = CHAT_FAST_PATH_LEASE_MS env,
        cc_highWatermarkIntervalMs = CHAT_HIGH_WATERMARK_INTERVAL_MS env,
        cc_reorderBufferMessages = CHAT_REORDER_BUFFER_MESSAGES env,
        cc_retentionDays = CHAT_RETENTION_DAYS env,
        cc_cleanupBatchSize = CHAT_CLEANUP_BATCH_SIZE env,
        cc_cleanupIntervalMs = CHAT_CLEANUP_INTERVAL_MS env\<rparr>)"

section \<open>What a loaded section guarantees\<close>

definition outbox_config_ok :: "outbox_config \<Rightarrow> bool" where
  "outbox_config_ok c =
     (between 1 500 (oc_batchSize c) \<and> between 1 100 (oc_concurrency c) \<and>
      between 1000 300000 (oc_leaseMs c) \<and> between 1 100 (oc_maxAttempts c) \<and>
      between 100 60000 (oc_baseRetryMs c) \<and> between 1000 3600000 (oc_maxRetryMs c) \<and>
      oc_baseRetryMs c \<le> oc_maxRetryMs c)"

lemma loadOutboxConfig_ok:
  "outboxRanges env \<Longrightarrow> loadOutboxConfig env = Inr c \<Longrightarrow> outbox_config_ok c"
  by (auto simp: outboxRanges_def loadOutboxConfig_def outbox_config_ok_def split: if_splits)

definition chat_config_ok :: "chat_config \<Rightarrow> bool" where
  "chat_config_ok c =
     (between 64 49152 (cc_maxCiphertextBytes c) \<and> between 1 500 (cc_historyPageMax c) \<and>
      between 1 (cc_historyPageMax c) (cc_historyPageDefault c) \<and>
      between 1 100 (cc_ratePerParticipant c) \<and>
      between (cc_ratePerParticipant c) 500 (cc_rateBurst c) \<and>
      between 1000 30000 (cc_fastPathLeaseMs c) \<and> between 8 2000 (cc_reorderBufferMessages c) \<and>
      between 1 365 (cc_retentionDays c) \<and> between 10 10000 (cc_cleanupBatchSize c))"

lemma loadChatConfig_ok:
  "chatRanges env \<Longrightarrow> loadChatConfig env role meetingsEnabled realtime = Inr c \<Longrightarrow> chat_config_ok c"
  by (auto simp: chatRanges_def loadChatConfig_def chat_config_ok_def between_def Let_def
      split: if_splits)

end
