(* ===== verification/Outbox.thy ===== *)
theory Outbox
  imports Transactions Config
begin

text \<open>
  The durable outbox (\<open>src/modules/outbox\<close>): leases taken with \<open>FOR UPDATE SKIP LOCKED\<close>, the two
  acknowledgements, the backoff, the registry of publishers and one relay cycle. The table is the
  state; one reading of \<open>clock_timestamp()\<close> is the argument \<open>now\<close> of a statement.
\<close>

section \<open>Deliveries and argument checks\<close>

record outbox_delivery =
  od_deliveryId :: uuid
  od_eventId :: uuid
  od_eventType :: string
  od_eventVersion :: int
  od_destination :: outbox_destination
  od_partitionKey :: string
  od_payload :: "(string \<times> json) list"
  od_attempts :: int
  od_lockedUntil :: instant

definition assertWorkerId :: "string \<Rightarrow> unit outcome" where
  "assertWorkerId workerId =
     ensure (canonical_worker_id workerId)
       (RangeError ''Outbox worker ID must use a bounded canonical format'')"

definition assertUuid :: "string \<Rightarrow> string \<Rightarrow> unit outcome" where
  "assertUuid value label =
     ensure (uuid_format value) (RangeError (''Outbox '' @ label @ '' must be a UUID''))"

definition assertIntegerRange :: "int \<Rightarrow> int \<Rightarrow> int \<Rightarrow> string \<Rightarrow> unit outcome" where
  "assertIntegerRange value minimum maximum label =
     ensure (\<not> (value < minimum \<or> value > maximum))
       (RangeError (label @ '' is outside its allowed range''))"

definition assertLeaseOwned :: "nat \<Rightarrow> unit outcome" where
  "assertLeaseOwned rowCount =
     ensure (rowCount = 1)
       (app_failure ''OUTBOX_LEASE_LOST'' Conflict
         ''The outbox delivery lease is no longer owned by this worker.'')"

definition mapDeliveryRow :: "zod \<Rightarrow> outbox_row \<Rightarrow> outbox_delivery outcome" where
  "mapDeliveryRow z row =
     (case ob_locked_until row of
       None \<Rightarrow> Inl ZodError
     | Some locked_until \<Rightarrow>
         if z_uuid z (ob_delivery_id row) \<and> z_uuid z (ob_event_id row) \<and>
            1 \<le> length (ob_event_type row) \<and> length (ob_event_type row) \<le> 128 \<and>
            0 < ob_event_version row \<and>
            1 \<le> length (ob_partition_key row) \<and> length (ob_partition_key row) \<le> 128 \<and>
            0 < ob_attempts row
         then Inr \<lparr>od_deliveryId = ob_delivery_id row, od_eventId = ob_event_id row,
                od_eventType = ob_event_type row, od_eventVersion = ob_event_version row,
                od_destination = ob_destination row, od_partitionKey = ob_partition_key row,
                od_payload = ob_payload row, od_attempts = ob_attempts row,
                od_lockedUntil = locked_until\<rparr>
         else Inl ZodError)"

fun map_rows :: "('r \<Rightarrow> 'a outcome) \<Rightarrow> 'r list \<Rightarrow> 'a list outcome" where
  "map_rows f [] = Inr []"
| "map_rows f (r # rs) = and_then (f r) (\<lambda>x. and_then (map_rows f rs) (\<lambda>xs. Inr (x # xs)))"

lemma map_rows_Inr_iff:
  "map_rows f rs = Inr xs \<longleftrightarrow> list_all2 (\<lambda>r x. f r = Inr x) rs xs"
  by (induction rs arbitrary: xs) (auto simp: outcome_iffs list_all2_Cons1)

section \<open>Claiming a batch\<close>

definition claimable :: "instant \<Rightarrow> outbox_destination list \<Rightarrow> outbox_row \<Rightarrow> bool" where
  "claimable now destinations r =
     (ob_published_at r = None \<and> ob_dead_at r = None \<and> ob_destination r \<in> set destinations \<and>
      ob_available_at r \<le> now \<and>
      (case ob_locked_until r of None \<Rightarrow> True | Some u \<Rightarrow> u < now))"

definition claim_order :: "outbox_row \<Rightarrow> instant \<times> instant \<times> uuid" where
  "claim_order r = (ob_available_at r, ob_created_at r, ob_delivery_id r)"

definition take_lease :: "instant \<Rightarrow> string \<Rightarrow> int \<Rightarrow> outbox_row \<Rightarrow> outbox_row" where
  "take_lease now workerId leaseMs r =
     r\<lparr>ob_locked_by := Some workerId, ob_locked_until := Some (now + leaseMs),
       ob_attempts := ob_attempts r + 1\<rparr>"

text \<open>\<open>skip\<close> is the set of rows other transactions hold locked: \<open>SKIP LOCKED\<close> passes over them.\<close>

definition claimBatch ::
  "zod \<Rightarrow> instant \<Rightarrow> (uuid \<Rightarrow> bool) \<Rightarrow> string \<Rightarrow> int \<Rightarrow> int \<Rightarrow> outbox_destination list
     \<Rightarrow> (outbox_row list, outbox_delivery list) tx" where
  "claimBatch z now skip workerId batchSize leaseMs destinations rows =
     and_then (assertWorkerId workerId) (\<lambda>_.
     and_then (assertIntegerRange batchSize 1 500 ''outbox batch size'') (\<lambda>_.
     and_then (assertIntegerRange leaseMs 1000 300000 ''outbox lease'') (\<lambda>_.
     if length destinations < 1 \<or> length destinations > 3
     then Inl (RangeError ''Outbox destination allow-list is outside its allowed range'')
     else
       let candidates = map ob_delivery_id (select_limit
             (\<lambda>r. claimable now destinations r \<and> \<not> skip (ob_delivery_id r))
             claim_order (nat batchSize) rows);
           picked = (\<lambda>r. ob_delivery_id r \<in> set candidates);
           rows' = update_where picked (take_lease now workerId leaseMs) rows
       in and_then (map_rows (mapDeliveryRow z) (filter picked rows')) (\<lambda>deliveries.
          Inr (deliveries, rows')))))"

section \<open>Acknowledging\<close>

definition owned_and_live :: "instant \<Rightarrow> uuid \<Rightarrow> string \<Rightarrow> outbox_row \<Rightarrow> bool" where
  "owned_and_live now deliveryId workerId r =
     (ob_delivery_id r = deliveryId \<and> ob_locked_by r = Some workerId \<and>
      (case ob_locked_until r of None \<Rightarrow> False | Some u \<Rightarrow> u \<ge> now) \<and>
      ob_published_at r = None \<and> ob_dead_at r = None)"

definition set_published :: "instant \<Rightarrow> outbox_row \<Rightarrow> outbox_row" where
  "set_published now r =
     r\<lparr>ob_published_at := Some now, ob_locked_by := None, ob_locked_until := None,
       ob_last_error_code := None\<rparr>"

definition markPublished ::
  "instant \<Rightarrow> uuid \<Rightarrow> string \<Rightarrow> outbox_row list \<Rightarrow> unit outcome \<times> outbox_row list" where
  "markPublished now deliveryId workerId rows =
     (case and_then (assertUuid deliveryId ''delivery ID'') (\<lambda>_. assertWorkerId workerId) of
       Inl e \<Rightarrow> (Inl e, rows)
     | Inr _ \<Rightarrow>
         let P = owned_and_live now deliveryId workerId
         in (assertLeaseOwned (count_where P rows), update_where P (set_published now) rows))"

definition owned :: "uuid \<Rightarrow> string \<Rightarrow> outbox_row \<Rightarrow> bool" where
  "owned deliveryId workerId r =
     (ob_delivery_id r = deliveryId \<and> ob_locked_by r = Some workerId \<and>
      ob_published_at r = None \<and> ob_dead_at r = None)"

definition set_failed :: "instant \<Rightarrow> string \<Rightarrow> int \<Rightarrow> int \<Rightarrow> outbox_row \<Rightarrow> outbox_row" where
  "set_failed now errorCode retryDelayMs maxAttempts r =
     r\<lparr>ob_dead_at := (if ob_attempts r \<ge> maxAttempts then Some now else None),
       ob_available_at := (if ob_attempts r \<ge> maxAttempts then ob_available_at r
                           else now + retryDelayMs),
       ob_locked_by := None, ob_locked_until := None, ob_last_error_code := Some errorCode\<rparr>"

definition markFailed ::
  "instant \<Rightarrow> uuid \<Rightarrow> string \<Rightarrow> string \<Rightarrow> int \<Rightarrow> int \<Rightarrow> outbox_row list
     \<Rightarrow> bool outcome \<times> outbox_row list" where
  "markFailed now deliveryId workerId errorCode retryDelayMs maxAttempts rows =
     (case and_then (assertUuid deliveryId ''delivery ID'') (\<lambda>_.
           and_then (assertWorkerId workerId) (\<lambda>_.
           and_then (ensure (canonical_error_code errorCode)
             (RangeError ''Outbox error code must use a bounded canonical format'')) (\<lambda>_.
           and_then (assertIntegerRange retryDelayMs 0 3600000 ''outbox retry delay'') (\<lambda>_.
           assertIntegerRange maxAttempts 1 100 ''outbox max attempts'')))) of
       Inl e \<Rightarrow> (Inl e, rows)
     | Inr _ \<Rightarrow>
         let P = owned deliveryId workerId;
             updated = map (set_failed now errorCode retryDelayMs maxAttempts) (filter P rows);
             dead = (case first_row updated of None \<Rightarrow> False | Some r \<Rightarrow> ob_dead_at r \<noteq> None)
         in (and_then (assertLeaseOwned (count_where P rows)) (\<lambda>_. Inr dead),
             update_where P (set_failed now errorCode retryDelayMs maxAttempts) rows))"

text \<open>\<open>Math.random()\<close> is the argument \<open>random\<close>.\<close>

definition calculateRetryDelay :: "rat \<Rightarrow> int \<Rightarrow> int \<Rightarrow> int \<Rightarrow> int" where
  "calculateRetryDelay random attempts baseMs maximumMs =
     (let exponential = min maximumMs (baseMs * 2 ^ nat (max 0 (attempts - 1)));
          jitter = \<lfloor>random * max 1 (of_int exponential * (1 / 5))\<rfloor>
      in min maximumMs (exponential + jitter))"

lemma calculateRetryDelay_range:
  assumes "0 < baseMs" and "baseMs \<le> maximumMs" and "0 \<le> random"
  shows "baseMs \<le> calculateRetryDelay random attempts baseMs maximumMs \<and>
    calculateRetryDelay random attempts baseMs maximumMs \<le> maximumMs"
proof -
  define ex where "ex = min maximumMs (baseMs * 2 ^ nat (max 0 (attempts - 1)))"
  have "baseMs * 1 \<le> baseMs * 2 ^ nat (max 0 (attempts - 1))"
    using assms(1) by (intro mult_left_mono) auto
  then have "baseMs \<le> ex" using assms(2) by (simp add: ex_def)
  moreover have "0 \<le> \<lfloor>random * max 1 (of_int ex * (1 / 5))\<rfloor>"
    using assms(3) by simp
  moreover have "calculateRetryDelay random attempts baseMs maximumMs =
      min maximumMs (ex + \<lfloor>random * max 1 (of_int ex * (1 / 5))\<rfloor>)"
    by (simp add: calculateRetryDelay_def ex_def Let_def)
  ultimately show ?thesis using assms(2) by linarith
qed

section \<open>The table invariant\<close>

definition outbox_inv :: "outbox_row list \<Rightarrow> bool" where
  "outbox_inv rows =
     (distinct (map ob_delivery_id rows) \<and>
      distinct (map (\<lambda>r. (ob_event_id r, ob_destination r)) rows) \<and>
      list_all outbox_row_checks rows \<and> list_all (\<lambda>r. uuid_format (ob_delivery_id r)) rows)"

text \<open>A row nothing may touch again: published or dead.\<close>

definition finished :: "outbox_row \<Rightarrow> bool" where
  "finished r = (ob_published_at r \<noteq> None \<or> ob_dead_at r \<noteq> None)"

lemma take_lease_simps [simp]:
  "ob_delivery_id (take_lease n w l r) = ob_delivery_id r"
  "ob_event_id (take_lease n w l r) = ob_event_id r"
  "ob_destination (take_lease n w l r) = ob_destination r"
  "ob_locked_by (take_lease n w l r) = Some w"
  "ob_locked_until (take_lease n w l r) = Some (n + l)"
  "ob_attempts (take_lease n w l r) = ob_attempts r + 1"
  "ob_published_at (take_lease n w l r) = ob_published_at r"
  "ob_dead_at (take_lease n w l r) = ob_dead_at r"
  by (simp_all add: take_lease_def)

lemma set_published_simps [simp]:
  "ob_delivery_id (set_published n r) = ob_delivery_id r"
  "ob_event_id (set_published n r) = ob_event_id r"
  "ob_destination (set_published n r) = ob_destination r"
  "ob_published_at (set_published n r) = Some n"
  "ob_locked_by (set_published n r) = None"
  by (simp_all add: set_published_def)

lemma set_failed_simps [simp]:
  "ob_delivery_id (set_failed n c d m r) = ob_delivery_id r"
  "ob_event_id (set_failed n c d m r) = ob_event_id r"
  "ob_destination (set_failed n c d m r) = ob_destination r"
  "ob_locked_by (set_failed n c d m r) = None"
  "ob_published_at (set_failed n c d m r) = ob_published_at r"
  by (simp_all add: set_failed_def)

lemma outbox_inv_update [inv_intros]:
  assumes "outbox_inv rows"
    and "\<And>r. ob_delivery_id (f r) = ob_delivery_id r"
    and "\<And>r. (ob_event_id (f r), ob_destination (f r)) = (ob_event_id r, ob_destination r)"
    and "\<And>r. r \<in> set rows \<Longrightarrow> P r \<Longrightarrow> outbox_row_checks r \<Longrightarrow> outbox_row_checks (f r)"
  shows "outbox_inv (update_where P f rows)"
  using assms
  by (auto simp: outbox_inv_def map_update_where list_all_iff mem_update_where)

lemma take_lease_checks: "outbox_row_checks r \<Longrightarrow> outbox_row_checks (take_lease n w l r)"
  by (simp add: outbox_row_checks_def take_lease_def)

lemma set_published_checks:
  "outbox_row_checks r \<Longrightarrow> ob_dead_at r = None \<Longrightarrow> outbox_row_checks (set_published n r)"
  by (simp add: outbox_row_checks_def set_published_def)

lemma set_failed_checks:
  "outbox_row_checks r \<Longrightarrow> ob_published_at r = None \<Longrightarrow> canonical_error_code c \<Longrightarrow>
     outbox_row_checks (set_failed n c d m r)"
  unfolding canonical_error_code_def
  by (drule head_tail_length) (auto simp: outbox_row_checks_def set_failed_def Suc_le_eq)

section \<open>Events on the table\<close>

datatype outbox_event =
    Enqueue outbox_row
  | Claim instant "uuid \<Rightarrow> bool" string int int "outbox_destination list"
  | Published instant uuid string
  | Failed instant uuid string string int int

fun outbox_step :: "zod \<Rightarrow> outbox_row list \<Rightarrow> outbox_event \<Rightarrow> outbox_row list" where
  "outbox_step z rows (Enqueue r) =
     (case insert_row outbox_row_checks outbox_row_same_key r rows of
       Inl _ \<Rightarrow> rows | Inr rows' \<Rightarrow> rows')"
| "outbox_step z rows (Claim now skip w b l ds) = snd (atomically (claimBatch z now skip w b l ds) rows)"
| "outbox_step z rows (Published now d w) = snd (markPublished now d w rows)"
| "outbox_step z rows (Failed now d w c delay m) = snd (markFailed now d w c delay m rows)"

lemma claimBatch_cases:
  assumes "claimBatch z now skip w b l ds rows = Inr (deliveries, rows')"
  obtains picked where
    "\<And>i. picked i \<longleftrightarrow> i \<in> ob_delivery_id ` set (select_limit
       (\<lambda>r. claimable now ds r \<and> \<not> skip (ob_delivery_id r)) claim_order (nat b) rows)"
    "rows' = update_where (\<lambda>r. picked (ob_delivery_id r)) (take_lease now w l) rows"
    "list_all2 (\<lambda>r x. mapDeliveryRow z r = Inr x)
       (filter (\<lambda>r. picked (ob_delivery_id r)) rows') deliveries"
    "canonical_worker_id w" "1 \<le> b" "b \<le> 500" "1000 \<le> l" "l \<le> 300000" "1 \<le> length ds"
  using assms
  by (intro that [of "\<lambda>i. i \<in> ob_delivery_id ` set (select_limit
       (\<lambda>r. claimable now ds r \<and> \<not> skip (ob_delivery_id r)) claim_order (nat b) rows)"])
    (auto simp: claimBatch_def outcome_iffs map_rows_Inr_iff assertWorkerId_def
      assertIntegerRange_def Let_def Suc_le_eq split: if_splits)

lemma claim_picks_claimable:
  assumes "outbox_inv rows" "r \<in> set rows"
    "ob_delivery_id r \<in> ob_delivery_id ` set (select_limit
       (\<lambda>r. claimable now ds r \<and> \<not> skip (ob_delivery_id r)) claim_order n rows)"
  shows "claimable now ds r"
  using picked_rows_satisfy [of ob_delivery_id rows r "\<lambda>r. claimable now ds r \<and> \<not> skip (ob_delivery_id r)"]
    assms by (auto simp: outbox_inv_def)

lemma claimBatch_keeps:
  assumes "outbox_inv rows" "claimBatch z now skip w b l ds rows = Inr (deliveries, rows')"
  shows "outbox_inv rows'"
  using assms(2)
proof (cases rule: claimBatch_cases)
  case (1 picked)
  then show ?thesis using assms(1) by (auto intro!: outbox_inv_update take_lease_checks)
qed

lemma markPublished_state:
  "snd (markPublished now d w rows) = rows \<or>
   snd (markPublished now d w rows) = update_where (owned_and_live now d w) (set_published now) rows"
  by (auto simp: markPublished_def Let_def split: sum.splits)

lemma markFailed_state:
  "snd (markFailed now d w c delay m rows) = rows \<or> canonical_error_code c \<and>
   snd (markFailed now d w c delay m rows) = update_where (owned d w) (set_failed now c delay m) rows"
  by (auto simp: markFailed_def Let_def outcome_iffs split: sum.splits)

lemma enqueue_keeps:
  "outbox_inv rows \<Longrightarrow> uuid_format (ob_delivery_id r) \<Longrightarrow> insert_row outbox_row_checks outbox_row_same_key r rows = Inr rows' \<Longrightarrow>
     outbox_inv rows'"
  by (auto simp: outbox_inv_def insert_row_Inr_iff outbox_row_same_key_def)

lemma markPublished_keeps: "outbox_inv rows \<Longrightarrow> outbox_inv (snd (markPublished now d w rows))"
  using markPublished_state [of now d w rows]
  by (auto intro!: outbox_inv_update set_published_checks simp: owned_and_live_def)

lemma markFailed_keeps: "outbox_inv rows \<Longrightarrow> outbox_inv (snd (markFailed now d w c delay m rows))"
  using markFailed_state [of now d w c delay m rows]
  by (auto intro!: outbox_inv_update set_failed_checks simp: owned_def)

text \<open>The identifier of a new delivery is generated by \<open>uuidv7()\<close>.\<close>

fun outbox_enabled :: "outbox_row list \<Rightarrow> outbox_event \<Rightarrow> bool" where
  "outbox_enabled rows (Enqueue r) = uuid_format (ob_delivery_id r)"
| "outbox_enabled rows _ = True"

lemma outbox_step_keeps:
  "outbox_inv rows \<Longrightarrow> outbox_enabled rows e \<Longrightarrow> outbox_inv (outbox_step z rows e)"
proof (cases e)
  case (Claim now skip w b l ds)
  assume "outbox_inv rows"
  with Claim show ?thesis
    by (cases "claimBatch z now skip w b l ds rows")
       (auto simp: atomically_def intro: claimBatch_keeps)
qed (auto intro: enqueue_keeps markPublished_keeps markFailed_keeps split: sum.splits)

interpretation outbox_hist: stepwise_invariant "outbox_step z" outbox_enabled outbox_inv
  by unfold_locales (rule outbox_step_keeps)

section \<open>Finished deliveries\<close>

lemma update_where_keeps_row: "r \<in> set rows \<Longrightarrow> \<not> P r \<Longrightarrow> r \<in> set (update_where P f rows)"
  by (auto simp: mem_update_where)

lemma outbox_step_finished:
  assumes "outbox_inv rows" "r \<in> set rows" "finished r"
  shows "r \<in> set (outbox_step z rows e)"
proof (cases e)
  case (Enqueue q)
  then show ?thesis using assms by (auto simp: insert_row_def)
next
  case (Claim now skip w b l ds)
  show ?thesis
  proof (cases "claimBatch z now skip w b l ds rows")
    case (Inr res)
    then obtain deliveries rows' where res: "claimBatch z now skip w b l ds rows = Inr (deliveries, rows')"
      by (cases res) auto
    then show ?thesis
    proof (cases rule: claimBatch_cases)
      case (1 picked)
      have "\<not> claimable now ds r" using assms(3) by (auto simp: claimable_def finished_def)
      then have "\<not> picked (ob_delivery_id r)"
        using 1(1) claim_picks_claimable [OF assms(1,2)] by blast
      then show ?thesis
        using 1(2) assms(2) res Claim by (simp add: atomically_def update_where_keeps_row)
    qed
  qed (use assms Claim in \<open>simp add: atomically_def\<close>)
next
  case (Published now d w)
  have "\<not> owned_and_live now d w r" using assms(3) by (auto simp: owned_and_live_def finished_def)
  then show ?thesis using Published assms(2) markPublished_state [of now d w rows]
    by (auto intro: update_where_keeps_row)
next
  case (Failed now d w c delay m)
  have "\<not> owned d w r" using assms(3) by (auto simp: owned_def finished_def)
  then show ?thesis using Failed assms(2) markFailed_state [of now d w c delay m rows]
    by (auto intro: update_where_keeps_row)
qed

lemma outbox_history_finished:
  "outbox_inv rows \<Longrightarrow> enabled_history (outbox_step z) outbox_enabled rows es \<Longrightarrow>
     r \<in> set rows \<Longrightarrow> finished r \<Longrightarrow> r \<in> set (foldl (outbox_step z) rows es)"
  by (induction es arbitrary: rows) (auto intro: outbox_step_finished outbox_step_keeps)

section \<open>Leases\<close>

text \<open>\<open>leased rows d w u\<close>: the live row of delivery \<open>d\<close> is owned by \<open>w\<close> until \<open>u\<close>.\<close>

definition leased :: "outbox_row list \<Rightarrow> uuid \<Rightarrow> string \<Rightarrow> instant \<Rightarrow> bool" where
  "leased rows d w u =
     (\<exists>r \<in> set rows. ob_delivery_id r = d \<and> ob_locked_by r = Some w \<and> ob_locked_until r = Some u \<and>
        ob_published_at r = None \<and> ob_dead_at r = None)"

text \<open>\<open>touches e d w\<close>: the event is an acknowledgement of \<open>d\<close> by \<open>w\<close>. \<open>no_later u e\<close>: the event
  happens no later than \<open>u\<close>.\<close>

fun touches :: "outbox_event \<Rightarrow> uuid \<Rightarrow> string \<Rightarrow> bool" where
  "touches (Published now d' w') d w = (d' = d \<and> w' = w)"
| "touches (Failed now d' w' c delay m) d w = (d' = d \<and> w' = w)"
| "touches _ d w = False"

fun no_later :: "instant \<Rightarrow> outbox_event \<Rightarrow> bool" where
  "no_later u (Claim now skip w b l ds) = (now \<le> u)"
| "no_later u _ = True"

lemma mapDeliveryRow_id:
  "mapDeliveryRow z r = Inr x \<Longrightarrow>
     od_deliveryId x = ob_delivery_id r \<and> ob_locked_until r = Some (od_lockedUntil x)"
  by (auto simp: mapDeliveryRow_def split: option.splits if_splits)

lemma list_all2_exE: "list_all2 P xs ys \<Longrightarrow> y \<in> set ys \<Longrightarrow> (\<exists>x \<in> set xs. P x y)"
  by (induction rule: list_all2_induct) auto

lemma claimBatch_row:
  assumes "claimBatch z now skip w b l ds rows = Inr (deliveries, rows')" and "x \<in> set deliveries"
    and "outbox_inv rows"
  obtains r where "r \<in> set rows" "claimable now ds r" "ob_delivery_id r = od_deliveryId x"
    "take_lease now w l r \<in> set rows'" "od_lockedUntil x = now + l"
  using assms(1)
proof (cases rule: claimBatch_cases)
  case (1 picked)
  from list_all2_exE [OF 1(3) assms(2)] obtain q where
    q: "q \<in> set rows'" "picked (ob_delivery_id q)" "mapDeliveryRow z q = Inr x" by auto
  then obtain r where r: "r \<in> set rows" "q = take_lease now w l r"
    using 1(2) by (auto simp: mem_update_where)
  with q have "claimable now ds r" using 1(1) claim_picks_claimable [OF assms(3) r(1)] by auto
  with q r show ?thesis using mapDeliveryRow_id [OF q(3)] that by auto
qed

lemma claim_takes_lease:
  assumes "claimBatch z now skip w b l ds rows = Inr (deliveries, rows')" and "x \<in> set deliveries"
    and "outbox_inv rows"
  shows "leased rows' (od_deliveryId x) w (now + l)"
  using assms
proof (rule claimBatch_row)
  fix r
  assume "claimable now ds r" "ob_delivery_id r = od_deliveryId x" "take_lease now w l r \<in> set rows'"
  then show ?thesis
    unfolding leased_def by (intro bexI [of _ "take_lease now w l r"]) (auto simp: claimable_def)
qed

lemma leased_not_claimed:
  assumes "claimBatch z now skip w' b l ds rows = Inr (deliveries, rows')" and "outbox_inv rows"
    and "leased rows d w u" and "now \<le> u"
  shows "d \<notin> od_deliveryId ` set deliveries"
proof
  assume "d \<in> od_deliveryId ` set deliveries"
  then obtain x where x: "x \<in> set deliveries" "d = od_deliveryId x" by auto
  from assms(1) x(1) assms(2) obtain r where r: "r \<in> set rows" "claimable now ds r"
    "ob_delivery_id r = d" by (rule claimBatch_row) (use x in auto)
  from assms(3) obtain q where q: "q \<in> set rows" "ob_delivery_id q = d" "ob_locked_until q = Some u"
    by (auto simp: leased_def)
  then have "q = r" using r assms(2) distinct_key_eq [of ob_delivery_id rows q r]
    by (simp add: outbox_inv_def)
  with q r assms(4) show False by (simp add: claimable_def)
qed

lemma leased_update_where:
  assumes "leased rows d w u"
    and "\<And>r. r \<in> set rows \<Longrightarrow> ob_delivery_id r = d \<Longrightarrow> ob_locked_by r = Some w \<Longrightarrow>
      ob_locked_until r = Some u \<Longrightarrow> \<not> P r"
  shows "leased (update_where P f rows) d w u"
  using assms unfolding leased_def by (fastforce simp: mem_update_where)

lemma outbox_step_leased:
  assumes "outbox_inv rows" "leased rows d w u" "\<not> touches e d w" "no_later u e"
  shows "leased (outbox_step z rows e) d w u"
proof (cases e)
  case (Enqueue q)
  then show ?thesis using assms(2) by (auto simp: insert_row_def leased_def)
next
  case (Claim now skip w' b l ds)
  show ?thesis
  proof (cases "claimBatch z now skip w' b l ds rows")
    case (Inr res)
    then obtain deliveries rows' where
      res: "claimBatch z now skip w' b l ds rows = Inr (deliveries, rows')" by (cases res) auto
    then show ?thesis
    proof (cases rule: claimBatch_cases)
      case (1 picked)
      have "\<not> picked (ob_delivery_id r)"
        if r: "r \<in> set rows" "ob_locked_until r = Some u" for r
      proof -
        have "\<not> claimable now ds r" using r assms(4) Claim by (simp add: claimable_def)
        then show ?thesis using 1(1) claim_picks_claimable [OF assms(1) r(1)] by blast
      qed
      then have "leased rows' d w u" using 1(2) assms(2) by (auto intro: leased_update_where)
      then show ?thesis using res Claim by (simp add: atomically_def)
    qed
  qed (use assms Claim in \<open>simp add: atomically_def\<close>)
next
  case (Published now d' w')
  then show ?thesis using assms(2,3) markPublished_state [of now d' w' rows]
    by (auto intro!: leased_update_where simp: owned_and_live_def)
next
  case (Failed now d' w' c delay m)
  then show ?thesis using assms(2,3) markFailed_state [of now d' w' c delay m rows]
    by (auto intro!: leased_update_where simp: owned_def)
qed

lemma outbox_history_leased:
  "outbox_inv rows \<Longrightarrow> enabled_history (outbox_step z) outbox_enabled rows es \<Longrightarrow>
     leased rows d w u \<Longrightarrow> list_all (\<lambda>e. \<not> touches e d w \<and> no_later u e) es \<Longrightarrow>
     leased (foldl (outbox_step z) rows es) d w u"
  by (induction es arbitrary: rows) (auto intro: outbox_step_leased outbox_step_keeps)

section \<open>The repository's contract\<close>

text \<open>
  What the relay and the fast path rely on: a lease that is still valid can be settled by either
  acknowledgement, an acknowledgement settles its delivery for good or hands it back, and never
  touches the lease of another delivery.
\<close>

definition settled :: "outbox_row list \<Rightarrow> uuid \<Rightarrow> bool" where
  "settled rows d =
     (\<exists>r \<in> set rows. ob_delivery_id r = d \<and> ob_locked_by r = None)"

locale outbox_repository =
  fixes claim :: "string \<Rightarrow> int \<Rightarrow> int \<Rightarrow> outbox_destination list \<Rightarrow> 's \<Rightarrow>
      outbox_delivery list outcome \<times> 's"
    and publish_ack :: "instant \<Rightarrow> uuid \<Rightarrow> string \<Rightarrow> 's \<Rightarrow> unit outcome \<times> 's"
    and fail_ack :: "instant \<Rightarrow> uuid \<Rightarrow> string \<Rightarrow> string \<Rightarrow> int \<Rightarrow> int \<Rightarrow> 's \<Rightarrow> bool outcome \<times> 's"
    and invar :: "'s \<Rightarrow> bool"
    and has_lease :: "'s \<Rightarrow> uuid \<Rightarrow> string \<Rightarrow> instant \<Rightarrow> bool"
    and is_settled :: "'s \<Rightarrow> uuid \<Rightarrow> bool"
  assumes claim_invar: "invar s \<Longrightarrow> invar (snd (claim w b l ds s))"
    and claim_leases: "invar s \<Longrightarrow> claim w b l ds s = (Inr xs, s') \<Longrightarrow> x \<in> set xs \<Longrightarrow>
      has_lease s' (od_deliveryId x) w (od_lockedUntil x) \<and> uuid_format (od_deliveryId x)"
    and claim_distinct: "invar s \<Longrightarrow> claim w b l ds s = (Inr xs, s') \<Longrightarrow> distinct (map od_deliveryId xs)"
    and publish_invar: "invar s \<Longrightarrow> invar (snd (publish_ack now d w s))"
    and fail_invar: "invar s \<Longrightarrow> invar (snd (fail_ack now d w c delay m s))"
    and publish_settles: "invar s \<Longrightarrow> has_lease s d w u \<Longrightarrow> now \<le> u \<Longrightarrow> uuid_format d \<Longrightarrow>
      canonical_worker_id w \<Longrightarrow>
      fst (publish_ack now d w s) = Inr () \<and> is_settled (snd (publish_ack now d w s)) d"
    and fail_settles: "invar s \<Longrightarrow> has_lease s d w u \<Longrightarrow> uuid_format d \<Longrightarrow>
      canonical_worker_id w \<Longrightarrow> canonical_error_code c \<Longrightarrow> 0 \<le> delay \<Longrightarrow> delay \<le> 3600000 \<Longrightarrow>
      1 \<le> m \<Longrightarrow> m \<le> 100 \<Longrightarrow>
      (\<exists>dead. fst (fail_ack now d w c delay m s) = Inr dead) \<and>
      is_settled (snd (fail_ack now d w c delay m s)) d"
    and publish_frame: "d \<noteq> d' \<Longrightarrow> has_lease s d' w' u \<Longrightarrow> has_lease (snd (publish_ack now d w s)) d' w' u"
    and fail_frame: "d \<noteq> d' \<Longrightarrow> has_lease s d' w' u \<Longrightarrow>
      has_lease (snd (fail_ack now d w c delay m s)) d' w' u"
    and publish_settled: "is_settled s d' \<Longrightarrow> is_settled (snd (publish_ack now d w s)) d'"
    and fail_settled: "is_settled s d' \<Longrightarrow> is_settled (snd (fail_ack now d w c delay m s)) d'"

lemma leasedE:
  assumes "leased rows d w u"
  obtains r where "r \<in> set rows" "ob_delivery_id r = d" "ob_locked_by r = Some w"
    "ob_locked_until r = Some u" "ob_published_at r = None" "ob_dead_at r = None"
  using assms by (auto simp: leased_def)

lemma leased_owned:
  assumes "outbox_inv rows" "leased rows d w u"
  shows "count_where (owned d w) rows = 1"
    and "settled (update_where (owned d w) (set_failed now c delay m) rows) d"
proof -
  from assms(2) obtain r where r: "r \<in> set rows" "ob_delivery_id r = d" "owned d w r"
    by (rule leasedE) (auto simp: owned_def)
  have "distinct (map ob_delivery_id rows)" using assms(1) by (simp add: outbox_inv_def)
  from this r(1,3) show "count_where (owned d w) rows = 1"
    by (rule count_where_unique) (auto simp: owned_def r(2))
  show "settled (update_where (owned d w) (set_failed now c delay m) rows) d"
    unfolding settled_def using r
    by (intro bexI [of _ "set_failed now c delay m r"]) (auto simp: mem_update_where)
qed

lemma leased_live:
  assumes "outbox_inv rows" "leased rows d w u" "now \<le> u"
  shows "count_where (owned_and_live now d w) rows = 1"
    and "settled (update_where (owned_and_live now d w) (set_published now) rows) d"
proof -
  from assms(2) obtain r where r: "r \<in> set rows" "ob_delivery_id r = d" "owned_and_live now d w r"
    by (rule leasedE) (use assms(3) in \<open>auto simp: owned_and_live_def\<close>)
  have "distinct (map ob_delivery_id rows)" using assms(1) by (simp add: outbox_inv_def)
  from this r(1,3) show "count_where (owned_and_live now d w) rows = 1"
    by (rule count_where_unique) (auto simp: owned_and_live_def r(2))
  show "settled (update_where (owned_and_live now d w) (set_published now) rows) d"
    unfolding settled_def using r
    by (intro bexI [of _ "set_published now r"]) (auto simp: mem_update_where)
qed

lemma settled_update_where:
  "settled rows d \<Longrightarrow> (\<And>r. P r \<Longrightarrow> ob_locked_by r \<noteq> None) \<Longrightarrow> settled (update_where P f rows) d"
  unfolding settled_def by (fastforce simp: mem_update_where)

lemma claimBatch_distinct:
  assumes "outbox_inv rows" "claimBatch z now skip w b l ds rows = Inr (xs, rows')"
  shows "distinct (map od_deliveryId xs)"
  using assms(2)
proof (cases rule: claimBatch_cases)
  case (1 picked)
  have "map od_deliveryId xs = map ob_delivery_id (filter (\<lambda>r. picked (ob_delivery_id r)) rows')"
    using 1(3) by (induction rule: list_all2_induct) (auto dest: mapDeliveryRow_id)
  moreover have "distinct (map ob_delivery_id rows')"
    using claimBatch_keeps [OF assms] by (simp add: outbox_inv_def)
  ultimately show ?thesis by (simp add: distinct_map_filterI)
qed

lemma claimBatch_uuid:
  assumes "outbox_inv rows" "claimBatch z now skip w b l ds rows = Inr (xs, rows')" "x \<in> set xs"
  shows "uuid_format (od_deliveryId x)"
  using assms(2,3,1)
  by (rule claimBatch_row) (use assms(1) in \<open>auto simp: outbox_inv_def list_all_iff\<close>)

lemma claimBatch_lockedUntil:
  assumes "outbox_inv rows" "claimBatch z now skip w b l ds rows = Inr (xs, rows')" "x \<in> set xs"
  shows "od_lockedUntil x = now + l"
  using assms(2,3,1) by (rule claimBatch_row)

text \<open>The PostgreSQL repository honours the contract.\<close>

interpretation pg_outbox: outbox_repository
  "\<lambda>w b l ds. atomically (claimBatch z now skip w b l ds)" markPublished markFailed
  outbox_inv leased settled
proof (unfold_locales, goal_cases)
  case (1 s w b l ds)
  then show ?case
    by (cases "claimBatch z now skip w b l ds s") (auto simp: atomically_def intro: claimBatch_keeps)
next
  case (2 s w b l ds xs s' x)
  then have "claimBatch z now skip w b l ds s = Inr (xs, s')" by (simp add: atomically_Inr_iff)
  with 2 show ?case
    using claim_takes_lease claimBatch_uuid claimBatch_lockedUntil by metis
next
  case (3 s w b l ds xs s')
  then show ?case by (auto simp: atomically_Inr_iff intro: claimBatch_distinct)
next
  case (6 s d w u now)
  then show ?case using leased_live [of s d w u now]
    by (simp add: markPublished_def assertUuid_def assertWorkerId_def assertLeaseOwned_def Let_def)
next
  case (7 s d w u c delay m now)
  then show ?case using leased_owned(1) [of s d w u]
      leased_owned(2) [of s d w u now c delay m]
    by (simp add: markFailed_def assertUuid_def assertWorkerId_def assertIntegerRange_def
        assertLeaseOwned_def Let_def)
next
  case (8 d d' s w' u now w)
  then show ?case using markPublished_state [of now d w s]
    by (auto intro!: leased_update_where simp: owned_and_live_def)
next
  case (9 d d' s w' u now w c delay m)
  then show ?case using markFailed_state [of now d w c delay m s]
    by (auto intro!: leased_update_where simp: owned_def)
next
  case (10 s d' now d w)
  then show ?case using markPublished_state [of now d w s]
    by (auto intro!: settled_update_where simp: owned_and_live_def)
next
  case (11 s d' now d w c delay m)
  then show ?case using markFailed_state [of now d w c delay m s]
    by (auto intro!: settled_update_where simp: owned_def)
qed (auto intro: markPublished_keeps markFailed_keeps)

section \<open>Guarantees of the outbox\<close>

definition sample_row :: outbox_row where
  "sample_row = \<lparr>ob_delivery_id = ''0190a1b2-c3d4-7abc-8def-0123456789ab'',
     ob_event_id = ''0190a1b2-c3d4-7abc-8def-0123456789ac'', ob_aggregate_type = ''chat_message'',
     ob_aggregate_id = ''0190a1b2-c3d4-7abc-8def-0123456789ac'', ob_meeting_id = None,
     ob_event_type = ''chat.message.created'', ob_event_version = 1, ob_destination = RedisRealtime,
     ob_partition_key = ''m'', ob_payload = [], ob_available_at = 0, ob_created_at = 0,
     ob_attempts = 0, ob_locked_by = None, ob_locked_until = None, ob_published_at = None,
     ob_dead_at = None, ob_last_error_code = None\<rparr>"

definition sample_claim :: "(outbox_delivery list \<times> outbox_row list) outcome" where
  "sample_claim = claimBatch strict_zod 1000 (\<lambda>_. False) ''worker:a'' 10 30000 [RedisRealtime] [sample_row]"

definition sample_events :: "outbox_event list" where
  "sample_events = [Claim 2000 (\<lambda>_. False) ''worker:b'' 10 30000 [RedisRealtime],
     Published 2500 ''0190a1b2-c3d4-7abc-8def-0123456789ab'' ''worker:b'']"

definition sample_second_claim :: "(outbox_delivery list \<times> outbox_row list) outcome" where
  "sample_second_claim = claimBatch strict_zod 31000 (\<lambda>_. False) ''worker:b'' 10 30000 [RedisRealtime]
     (foldl (outbox_step strict_zod) (snd (projr sample_claim)) sample_events)"

text \<open>C6. A lease is exclusive. Once a worker has claimed a delivery, no claim made before the lease
  expires returns it again, to that worker or to any other, whatever else happens to the table in
  between, as long as the owner itself has not acknowledged it.\<close>

theorem outbox_lease_exclusive:
  assumes "outbox_inv rows"
    and "claimBatch z t skip w b l ds rows = Inr (xs, rows')" and "x \<in> set xs"
    and "enabled_history (outbox_step z) outbox_enabled rows' es"
    and "list_all (\<lambda>e. \<not> touches e (od_deliveryId x) w \<and> no_later (t + l) e) es"
    and "claimBatch z t' skip' w' b' l' ds' (foldl (outbox_step z) rows' es) = Inr (ys, rows'')"
    and "t' \<le> t + l"
  shows "od_deliveryId x \<notin> od_deliveryId ` set ys"
proof (rule leased_not_claimed [OF assms(6)])
  have inv: "outbox_inv rows'" using assms(1,2) by (rule claimBatch_keeps)
  then show "outbox_inv (foldl (outbox_step z) rows' es)"
    using assms(4) by (rule outbox_hist.history_keeps)
  show "leased (foldl (outbox_step z) rows' es) (od_deliveryId x) w (t + l)"
    using inv assms(4) claim_takes_lease [OF assms(2,3,1)] assms(5) by (rule outbox_history_leased)
  show "t' \<le> t + l" by (rule assms(7))
qed

theorem outbox_lease_exclusive_witness:
  "od_deliveryId (hd (fst (projr sample_claim))) \<notin> od_deliveryId ` set (fst (projr sample_second_claim))"
proof -
  let ?x = "hd (fst (projr sample_claim))"
  have "fst (projr sample_claim) \<noteq> []" by code_simp
  then have x: "?x \<in> set (fst (projr sample_claim))" by simp
  have "\<not> isl sample_claim" "\<not> isl sample_second_claim" by code_simp+
  note evaluated = this [THEN Inr_pair_of_eval]
  have first: "claimBatch strict_zod 1000 (\<lambda>_. False) ''worker:a'' 10 30000 [RedisRealtime] [sample_row] =
      Inr (fst (projr sample_claim), snd (projr sample_claim))"
    using evaluated(1) sample_claim_def by metis
  have second: "claimBatch strict_zod 31000 (\<lambda>_. False) ''worker:b'' 10 30000 [RedisRealtime]
      (foldl (outbox_step strict_zod) (snd (projr sample_claim)) sample_events) =
      Inr (fst (projr sample_second_claim), snd (projr sample_second_claim))"
    using evaluated(2) sample_second_claim_def by metis
  show ?thesis
  proof (rule outbox_lease_exclusive [OF _ first x _ _ second])
    show "outbox_inv [sample_row]" by code_simp
    show "enabled_history (outbox_step strict_zod) outbox_enabled (snd (projr sample_claim)) sample_events"
      by (simp add: sample_events_def)
    show "list_all (\<lambda>e. \<not> touches e (od_deliveryId ?x) ''worker:a'' \<and> no_later (1000 + 30000) e) sample_events"
      by (simp add: sample_events_def)
  qed simp
qed

text \<open>Publication and dead-lettering are terminal: a row that was published or marked dead stays
  in the table unchanged through every later history of claims, acknowledgements and new events.\<close>

theorem outbox_finished_terminal:
  assumes "outbox_inv rows" and "enabled_history (outbox_step z) outbox_enabled rows es"
    and "r \<in> set rows" and "finished r"
  shows "r \<in> set (foldl (outbox_step z) rows es)"
  using assms by (rule outbox_history_finished)

theorem outbox_finished_terminal_witness:
  "set_published 5 sample_row \<in> set (foldl (outbox_step strict_zod) [set_published 5 sample_row] sample_events)"
proof (rule outbox_finished_terminal)
  show "outbox_inv [set_published 5 sample_row]" by code_simp
  show "enabled_history (outbox_step strict_zod) outbox_enabled [set_published 5 sample_row] sample_events"
    by (simp add: sample_events_def)
qed (simp_all add: finished_def)

text \<open>An acknowledgement needs the lease: for well-formed arguments, when no live row of the
  delivery is owned by the caller, both acknowledgements fail with \<open>OUTBOX_LEASE_LOST\<close> and leave the
  table as it was; a publication is also refused once the lease has expired.\<close>

theorem outbox_ack_needs_lease:
  assumes "outbox_inv rows" and "uuid_format d" and "canonical_worker_id w"
    and "canonical_error_code c" and "0 \<le> delay" and "delay \<le> 3600000" and "1 \<le> m" and "m \<le> 100"
  shows "((\<forall>u. leased rows d w u \<longrightarrow> u < now) \<longrightarrow>
       (\<exists>e. markPublished now d w rows = (Inl e, rows) \<and> has_code ''OUTBOX_LEASE_LOST'' e)) \<and>
     ((\<forall>u. \<not> leased rows d w u) \<longrightarrow>
       (\<exists>e. markFailed now d w c delay m rows = (Inl e, rows) \<and> has_code ''OUTBOX_LEASE_LOST'' e))"
proof (intro conjI impI)
  assume "\<forall>u. leased rows d w u \<longrightarrow> u < now"
  then have none: "\<forall>r \<in> set rows. \<not> owned_and_live now d w r"
    by (fastforce simp: owned_and_live_def leased_def split: option.splits)
  then have zero: "count_where (owned_and_live now d w) rows = 0" by simp
  from assms none show "\<exists>e. markPublished now d w rows = (Inl e, rows) \<and> has_code ''OUTBOX_LEASE_LOST'' e"
    by (simp add: markPublished_def assertUuid_def assertWorkerId_def assertLeaseOwned_def
        update_where_none zero)
next
  assume no: "\<forall>u. \<not> leased rows d w u"
  have none: "\<forall>r \<in> set rows. \<not> owned d w r"
  proof
    fix r assume r: "r \<in> set rows"
    then have "outbox_row_checks r" using assms(1) by (simp add: outbox_inv_def list_all_iff)
    then show "\<not> owned d w r" using no r by (auto simp: owned_def leased_def outbox_row_checks_def)
  qed
  then have zero: "count_where (owned d w) rows = 0" by simp
  from assms none show "\<exists>e. markFailed now d w c delay m rows = (Inl e, rows) \<and> has_code ''OUTBOX_LEASE_LOST'' e"
    by (simp add: markFailed_def assertUuid_def assertWorkerId_def assertIntegerRange_def
        assertLeaseOwned_def update_where_none zero)
qed

theorem outbox_ack_needs_lease_witness:
  "(\<exists>e. markPublished 31001 ''0190a1b2-c3d4-7abc-8def-0123456789ab'' ''worker:a''
        [take_lease 1000 ''worker:a'' 30000 sample_row] =
      (Inl e, [take_lease 1000 ''worker:a'' 30000 sample_row]) \<and> has_code ''OUTBOX_LEASE_LOST'' e)"
proof -
  have "outbox_inv [take_lease 1000 ''worker:a'' 30000 sample_row]"
    "uuid_format ''0190a1b2-c3d4-7abc-8def-0123456789ab''" "canonical_worker_id ''worker:a''"
    "canonical_error_code ''PUBLISH_FAILED''" by code_simp+
  from outbox_ack_needs_lease [OF this, of 0 1 31001] show ?thesis by (simp add: leased_def)
qed

text \<open>The backoff stays within what \<open>markFailed\<close> accepts: for a loaded outbox configuration and
  any random draw, the delay is at least the base delay, never above the configured maximum, and so
  always inside the repository's range of 0 to 3600000 milliseconds.\<close>

theorem retry_delay_bounds:
  assumes "outbox_config_ok cfg" and "0 \<le> random" and "random < 1" and "1 \<le> attempts"
  shows "oc_baseRetryMs cfg \<le> calculateRetryDelay random attempts (oc_baseRetryMs cfg) (oc_maxRetryMs cfg) \<and>
    calculateRetryDelay random attempts (oc_baseRetryMs cfg) (oc_maxRetryMs cfg) \<le> oc_maxRetryMs cfg \<and>
    assertIntegerRange (calculateRetryDelay random attempts (oc_baseRetryMs cfg) (oc_maxRetryMs cfg))
      0 3600000 ''outbox retry delay'' = Inr ()"
  using calculateRetryDelay_range [of "oc_baseRetryMs cfg" "oc_maxRetryMs cfg" random attempts] assms
  by (auto simp: outbox_config_ok_def between_def assertIntegerRange_def)

definition sample_outbox_config :: outbox_config where
  "sample_outbox_config = \<lparr>oc_batchSize = 50, oc_concurrency = 10, oc_leaseMs = 30000,
     oc_maxAttempts = 12, oc_baseRetryMs = 1000, oc_maxRetryMs = 300000, oc_pollIntervalMs = 500\<rparr>"

theorem retry_delay_bounds_witness:
  "1000 \<le> calculateRetryDelay (1/2) 3 1000 300000 \<and> calculateRetryDelay (1/2) 3 1000 300000 \<le> 300000"
  using retry_delay_bounds [of sample_outbox_config "1/2" 3]
  by (simp add: sample_outbox_config_def outbox_config_ok_def between_def)

end
