(* ===== verification/Base64Url.thy ===== *)
theory Base64Url
  imports Formats
begin

text \<open>
  \<open>Buffer.toString("base64url")\<close> and \<open>Buffer.from(text, "base64url")\<close> without padding, the
  encoding of every ciphertext and of every opaque credential, and the canonicity check the schemas
  place on it.
\<close>

section \<open>The alphabet\<close>

definition sextet_char :: "nat \<Rightarrow> char" where
  "sextet_char n =
     (if n < 26 then char_of (65 + n)
      else if n < 52 then char_of (71 + n)
      else if n < 62 then char_of (n - 4)
      else if n = 62 then CHR ''-'' else CHR ''_'')"

definition char_sextet :: "char \<Rightarrow> nat option" where
  "char_sextet c =
     (if is_upper c then Some (of_char c - 65)
      else if is_lower c then Some (of_char c - 71)
      else if is_digit c then Some (of_char c + 4)
      else if c = CHR ''-'' then Some 62
      else if c = CHR ''_'' then Some 63 else None)"

lemma char_sextet_sextet_char [simp]: "n < 64 \<Longrightarrow> char_sextet (sextet_char n) = Some n"
proof -
  assume n: "n < 64"
  then consider "n < 26" | "26 \<le> n" "n < 52" | "52 \<le> n" "n < 62" | "n = 62" | "n = 63" by linarith
  then show ?thesis
    by cases (auto simp: char_sextet_def sextet_char_def is_upper_def is_lower_def is_digit_def
      in_range_def)
qed

lemma sextet_char_alphabet:
  "n < 64 \<Longrightarrow> is_alnum (sextet_char n) \<or> sextet_char n \<in> set ''_-''"
  by (auto simp: sextet_char_def is_alnum_def is_upper_def is_lower_def is_digit_def in_range_def)

section \<open>Encoding and decoding\<close>

fun base64url_encode :: "bytes \<Rightarrow> string" where
  "base64url_encode [] = []"
| "base64url_encode [a] =
     [sextet_char (unat a div 4), sextet_char (unat a mod 4 * 16)]"
| "base64url_encode [a, b] =
     [sextet_char (unat a div 4), sextet_char (unat a mod 4 * 16 + unat b div 16),
      sextet_char (unat b mod 16 * 4)]"
| "base64url_encode (a # b # c # rest) =
     sextet_char (unat a div 4) # sextet_char (unat a mod 4 * 16 + unat b div 16) #
     sextet_char (unat b mod 16 * 4 + unat c div 64) # sextet_char (unat c mod 64) #
     base64url_encode rest"

fun decode_sextets :: "nat list \<Rightarrow> bytes" where
  "decode_sextets (a # b # c # d # rest) =
     of_nat (a * 4 + b div 16) # of_nat (b mod 16 * 16 + c div 4) # of_nat (c mod 4 * 64 + d) #
     decode_sextets rest"
| "decode_sextets [a, b, c] = [of_nat (a * 4 + b div 16), of_nat (b mod 16 * 16 + c div 4)]"
| "decode_sextets [a, b] = [of_nat (a * 4 + b div 16)]"
| "decode_sextets _ = []"

text \<open>The decoder skips the characters outside the alphabet.\<close>

definition base64url_decode :: "string \<Rightarrow> bytes" where
  "base64url_decode s = decode_sextets (List.map_filter char_sextet s)"

lemma unat_byte_less [simp]: "unat (b :: byte) < 256"
  using unsigned_less [of b] by simp

lemma unat_byte_sextet [simp]:
  "unat (b :: byte) div 4 < 64" "unat b mod 64 < 64"
  "unat (a :: byte) mod 4 * 16 < 64"
  "unat (b :: byte) mod 16 * 4 < 64"
  "unat (a :: byte) mod 4 * 16 + unat b div 16 < 64"
  "unat (b :: byte) mod 16 * 4 + unat (c :: byte) div 64 < 64"
  using unat_byte_less [of a] unat_byte_less [of b] unat_byte_less [of c] by linarith+

lemma byte_split:
  "r < 16 \<Longrightarrow> a div 4 * 4 + (a mod 4 * 16 + r) div 16 = (a::nat)"
  "r' < 4 \<Longrightarrow> b < 256 \<Longrightarrow> (q * 16 + b div 16) mod 16 * 16 + (b mod 16 * 4 + r') div 4 = (b::nat)"
  "c < 256 \<Longrightarrow> (q' * 4 + c div 64) mod 4 * 64 + c mod 64 = (c::nat)"
proof -
  assume "r < 16"
  then have "(a mod 4 * 16 + r) div 16 = a mod 4" by simp
  then show "a div 4 * 4 + (a mod 4 * 16 + r) div 16 = a" by simp
next
  assume "r' < 4" "b < 256"
  then have "(q * 16 + b div 16) mod 16 = b div 16" "(b mod 16 * 4 + r') div 4 = b mod 16"
    by simp_all
  then show "(q * 16 + b div 16) mod 16 * 16 + (b mod 16 * 4 + r') div 4 = b"
    by (simp only: div_mult_mod_eq)
next
  assume "c < 256"
  then have "(q' * 4 + c div 64) mod 4 = c div 64" by simp
  then show "(q' * 4 + c div 64) mod 4 * 64 + c mod 64 = c"
    by (simp only: div_mult_mod_eq)
qed

lemma decode_encode [simp]: "base64url_decode (base64url_encode bs) = bs"
proof (induction bs rule: base64url_encode.induct)
  case (2 a)
  have "unat a div 4 * 4 + (unat a mod 4 * 16) div 16 = unat a" by presburger
  then show ?case by (simp add: base64url_decode_def map_filter_simps)
next
  case (3 a b)
  have "unat b div 16 < 16" using unat_byte_less [of b] by linarith
  then show ?case
    using byte_split(1) [of "unat b div 16" "unat a"]
      byte_split(2) [of 0 "unat b" "unat a mod 4"]
    by (simp add: base64url_decode_def map_filter_simps)
next
  case (4 a b c rest)
  have "unat b div 16 < 16" "unat c div 64 < 4"
    using unat_byte_less [of b] unat_byte_less [of c] by linarith+
  then show ?case
    using 4 byte_split(1) [of "unat b div 16" "unat a"]
      byte_split(2) [of "unat c div 64" "unat b" "unat a mod 4"]
      byte_split(3) [of "unat c" "unat b mod 16"]
    by (simp add: base64url_decode_def map_filter_simps)
qed (simp add: base64url_decode_def map_filter_simps)

lemma length_encode: "length (base64url_encode bs) = (4 * length bs + 2) div 3"
  by (induction bs rule: base64url_encode.induct) auto

lemma encode_inject [simp]: "base64url_encode a = base64url_encode b \<longleftrightarrow> a = b"
  by (metis decode_encode)

lemma encode_alphabet: "list_all (\<lambda>c. is_alnum c \<or> c \<in> set ''_-'') (base64url_encode bs)"
  by (induction bs rule: base64url_encode.induct) (auto dest: sextet_char_alphabet
      simp: sextet_char_alphabet [simplified])

lemma encode_nonempty [simp]: "base64url_encode bs = [] \<longleftrightarrow> bs = []"
  by (cases bs rule: base64url_encode.cases) auto

section \<open>Canonical text\<close>

text \<open>
  \<open>canonicalBase64UrlSchema\<close>: \<open>/^[A-Za-z0-9_-]{1,65536}$/\<close>, and decoding then encoding gives
  the text back, so that one byte string has one accepted text.
\<close>

definition canonicalBase64UrlSchema :: "string \<Rightarrow> bool" where
  "canonicalBase64UrlSchema value =
     (1 \<le> length value \<and> length value \<le> 65536 \<and>
      list_all (\<lambda>c. is_alnum c \<or> c \<in> set ''_-'') value \<and>
      (let decoded = base64url_decode value
       in 0 < length decoded \<and> base64url_encode decoded = value))"

lemma canonical_encode:
  "canonicalBase64UrlSchema (base64url_encode bs) \<longleftrightarrow> bs \<noteq> [] \<and> length bs \<le> 49152"
proof -
  have "(4 * n + 2) div 3 \<le> 65536 \<longleftrightarrow> n \<le> 49152" "1 \<le> (4 * n + 2) div 3 \<longleftrightarrow> 0 < n" for n :: nat
    by linarith+
  then show ?thesis
    unfolding canonicalBase64UrlSchema_def Let_def decode_encode length_encode
    using encode_alphabet [of bs] by (simp only: length_greater_0_conv) blast
qed

lemma canonical_decode_inject:
  "canonicalBase64UrlSchema s \<Longrightarrow> canonicalBase64UrlSchema t \<Longrightarrow>
     base64url_decode s = base64url_decode t \<Longrightarrow> s = t"
  unfolding canonicalBase64UrlSchema_def Let_def by metis

end
