(* ===== verification/ChatContracts.thy ===== *)
theory ChatContracts
  imports Schema Config Base64Url
begin

text \<open>
  The chat types, the stored chat policy and the boundary schemas (\<open>chat.types.ts\<close>,
  \<open>chat-policy.ts\<close>, \<open>chat.schemas.ts\<close>). A schema is a partial function from JSON values; a strict
  object refuses unknown keys. Stream positions and epochs, decimal strings on the wire, are integers
  behind \<open>chatPositionSchema\<close>.
\<close>

section \<open>Reading JSON\<close>

definition field :: "(string \<times> json) list \<Rightarrow> string \<Rightarrow> json option" where
  "field obj k = map_of obj k"

fun as_string :: "json \<Rightarrow> string option" where
  "as_string (JStr s) = Some s"
| "as_string _ = None"

fun as_int :: "json \<Rightarrow> int option" where
  "as_int (JInt i) = Some i"
| "as_int _ = None"

definition strict_keys :: "string list \<Rightarrow> (string \<times> json) list \<Rightarrow> bool" where
  "strict_keys ks obj = list_all (\<lambda>(k, _). k \<in> set ks) obj"

definition string_field :: "(string \<times> json) list \<Rightarrow> string \<Rightarrow> string option" where
  "string_field obj k = Option.bind (field obj k) as_string"

definition guarded :: "('a \<Rightarrow> bool) \<Rightarrow> 'a option \<Rightarrow> 'a option" where
  "guarded P x = (case x of None \<Rightarrow> None | Some v \<Rightarrow> if P v then Some v else None)"

lemma guarded_simps [simp]:
  "guarded P None = None" "guarded P (Some v) = (if P v then Some v else None)"
  by (simp_all add: guarded_def)

lemma guarded_eq_Some [simp]: "guarded P x = Some v \<longleftrightarrow> x = Some v \<and> P v"
  by (cases x) auto

section \<open>Content types and positions\<close>

fun content_type_name :: "content_type \<Rightarrow> string" where
  "content_type_name CText = ''text''"
| "content_type_name CSystem = ''system''"
| "content_type_name CReaction = ''reaction''"
| "content_type_name CReceipt = ''receipt''"

text \<open>\<open>z.enum(["text", "reaction", "receipt"])\<close>: clients never submit or receive \<open>system\<close>.\<close>

definition chatContentTypeSchema :: "string \<Rightarrow> content_type option" where
  "chatContentTypeSchema s =
     (if s = ''text'' then Some CText else if s = ''reaction'' then Some CReaction
      else if s = ''receipt'' then Some CReceipt else None)"

definition chatPositionSchema :: "string \<Rightarrow> int option" where
  "chatPositionSchema s =
     (if canonical_decimal s \<and> int (undec s) \<le> MAX_SIGNED_BIGINT then Some (int (undec s)) else None)"

lemma chatContentTypeSchema_name:
  "chatContentTypeSchema (content_type_name c) = (if c = CSystem then None else Some c)"
  by (cases c) (simp_all add: chatContentTypeSchema_def)

lemma chatPositionSchema_dec:
  assumes "0 \<le> p" "p \<le> MAX_SIGNED_BIGINT"
  shows "chatPositionSchema (dec_int p) = Some p"
proof -
  have "nat p < 10 ^ 19" using assms by (simp add: MAX_SIGNED_BIGINT_def nat_less_iff)
  then show ?thesis
    using assms canonical_decimal_dec [of "nat p"] by (simp add: chatPositionSchema_def dec_int_def)
qed

lemma chatPositionSchema_canonical:
  "chatPositionSchema s = Some p \<Longrightarrow> dec_int p = s \<and> 0 \<le> p \<and> p \<le> MAX_SIGNED_BIGINT"
  by (auto simp: chatPositionSchema_def dec_int_def dec_undec split: if_splits)

section \<open>The stored chat policy\<close>

datatype chat_writers = WParticipants | WHostPresenters | WHostOnly | WDisabled

record chat_policy =
  pol_writers :: chat_writers
  pol_slowModeSeconds :: int
  pol_contentTypes :: "content_type list"

definition writersSchema :: "string \<Rightarrow> chat_writers option" where
  "writersSchema s =
     (if s = ''participants'' then Some WParticipants
      else if s = ''host_presenters'' then Some WHostPresenters
      else if s = ''host_only'' then Some WHostOnly
      else if s = ''disabled'' then Some WDisabled else None)"

fun all_some :: "'a option list \<Rightarrow> 'a list option" where
  "all_some [] = Some []"
| "all_some (x # xs) =
     (case x of None \<Rightarrow> None | Some v \<Rightarrow> (case all_some xs of None \<Rightarrow> None | Some vs \<Rightarrow> Some (v # vs)))"

fun contentTypesSchema :: "json \<Rightarrow> content_type list option" where
  "contentTypesSchema (JArr js) =
     guarded (\<lambda>vs. 1 \<le> length vs \<and> length vs \<le> 3)
       (all_some (map (\<lambda>j. Option.bind (as_string j) chatContentTypeSchema) js))"
| "contentTypesSchema _ = None"

definition policySchema :: "json \<Rightarrow> chat_policy option" where
  "policySchema v =
     (case v of
       JObj obj \<Rightarrow>
         if strict_keys [''version'', ''writers'', ''slowModeSeconds'', ''contentTypes''] obj \<and>
            field obj ''version'' = Some (JInt 1)
         then
           (case Option.bind (string_field obj ''writers'') writersSchema of
             None \<Rightarrow> None
           | Some writers \<Rightarrow>
               (case (case field obj ''slowModeSeconds'' of
                       None \<Rightarrow> Some 0
                     | Some j \<Rightarrow> guarded (\<lambda>n. 0 \<le> n \<and> n \<le> 3600) (as_int j)) of
                 None \<Rightarrow> None
               | Some slow \<Rightarrow>
                   (case (case field obj ''contentTypes'' of
                           None \<Rightarrow> Some [CText, CReaction, CReceipt]
                         | Some j \<Rightarrow> contentTypesSchema j) of
                     None \<Rightarrow> None
                   | Some types \<Rightarrow> Some \<lparr>pol_writers = writers, pol_slowModeSeconds = slow,
                       pol_contentTypes = types\<rparr>)))
         else None
     | _ \<Rightarrow> None)"

definition parseChatPolicy :: "json \<Rightarrow> chat_policy outcome" where
  "parseChatPolicy value =
     require (policySchema value) (PlainError ''Stored chat policy is invalid or unsupported'')"

definition role_may_write :: "chat_writers \<Rightarrow> product_role \<Rightarrow> bool" where
  "role_may_write writers role =
     (writers = WParticipants \<or>
      (writers = WHostPresenters \<and> (role = Host \<or> role = Presenter)) \<or>
      (writers = WHostOnly \<and> role = Host))"

definition assertChatWriteAllowed :: "chat_policy \<Rightarrow> product_role \<Rightarrow> content_type \<Rightarrow> unit outcome" where
  "assertChatWriteAllowed policy role contentType =
     (if \<not> role_may_write (pol_writers policy) role \<or> contentType \<notin> set (pol_contentTypes policy)
      then Inl (app_failure ''CHAT_WRITE_FORBIDDEN'' Authorization
        ''The current meeting policy does not allow this chat message.'')
      else Inr ())"

lemma all_some_SomeD: "all_some xs = Some vs \<Longrightarrow> xs = map Some vs"
  by (induction xs arbitrary: vs) (auto split: option.splits)

lemma policySchema_ranges:
  assumes "policySchema v = Some p"
  shows "0 \<le> pol_slowModeSeconds p \<and> pol_slowModeSeconds p \<le> 3600 \<and> CSystem \<notin> set (pol_contentTypes p)"
proof -
  have client: "CSystem \<notin> set vs" if "contentTypesSchema j = Some vs" for j vs
  proof (cases j)
    case (JArr js)
    then have vs: "map (\<lambda>j. Option.bind (as_string j) chatContentTypeSchema) js = map Some vs"
      using that by (auto dest: all_some_SomeD)
    show ?thesis
    proof
      assume "CSystem \<in> set vs"
      then have "Some CSystem \<in> set (map (\<lambda>j. Option.bind (as_string j) chatContentTypeSchema) js)"
        by (simp add: vs)
      then show False
        by (auto simp: chatContentTypeSchema_def Option.bind_eq_Some_conv split: if_splits
            dest!: sym [of "Some CSystem"])
    qed
  qed (use that in simp_all)
  show ?thesis using assms
    by (auto simp: policySchema_def guarded_def dest: client
        split: json.splits option.splits if_splits)
qed

section \<open>Messages on the wire\<close>

record submit_command =
  sm_principal :: principal
  sm_clientMessageId :: uuid
  sm_deviceId :: uuid
  sm_groupId :: uuid
  sm_epoch :: int
  sm_protocolVersion :: int
  sm_contentType :: content_type
  sm_ciphertext :: bytes

record chat_message =
  cm_eventId :: uuid
  cm_messageId :: uuid
  cm_meetingId :: uuid
  cm_senderParticipantId :: uuid
  cm_position :: int
  cm_clientMessageId :: uuid
  cm_protocolVersion :: int
  cm_groupId :: uuid
  cm_epoch :: int
  cm_contentType :: content_type
  cm_ciphertext :: string
  cm_createdAt :: string

record submit_payload =
  sp_clientMessageId :: uuid
  sp_deviceId :: uuid
  sp_groupId :: uuid
  sp_epoch :: int
  sp_protocolVersion :: int
  sp_contentType :: content_type
  sp_ciphertext :: string

definition submit_keys :: "string list" where
  "submit_keys = [''clientMessageId'', ''deviceId'', ''groupId'', ''epoch'', ''protocolVersion'',
     ''contentType'', ''ciphertext'']"

definition chatSubmitPayloadSchema :: "zod \<Rightarrow> json \<Rightarrow> submit_payload option" where
  "chatSubmitPayloadSchema z v =
     (case v of
       JObj obj \<Rightarrow>
         (case (guarded (z_uuid z) (string_field obj ''clientMessageId''),
                guarded (z_uuid z) (string_field obj ''deviceId''),
                guarded (z_uuid z) (string_field obj ''groupId''),
                Option.bind (string_field obj ''epoch'') chatPositionSchema,
                Option.bind (string_field obj ''contentType'') chatContentTypeSchema,
                guarded canonicalBase64UrlSchema (string_field obj ''ciphertext'')) of
           (Some cid, Some dev, Some grp, Some epoch, Some ctype, Some cipher) \<Rightarrow>
             if strict_keys submit_keys obj \<and> field obj ''protocolVersion'' = Some (JInt 1)
             then Some \<lparr>sp_clientMessageId = cid, sp_deviceId = dev, sp_groupId = grp,
               sp_epoch = epoch, sp_protocolVersion = 1, sp_contentType = ctype,
               sp_ciphertext = cipher\<rparr>
             else None
         | _ \<Rightarrow> None)
     | _ \<Rightarrow> None)"

definition parseSubmitChatMessage ::
  "submit_payload \<Rightarrow> principal \<Rightarrow> chat_config \<Rightarrow> submit_command outcome" where
  "parseSubmitChatMessage payload who config =
     (let ciphertext = base64url_decode (sp_ciphertext payload)
      in if length ciphertext < 1 \<or> int (length ciphertext) > cc_maxCiphertextBytes config \<or>
            base64url_encode ciphertext \<noteq> sp_ciphertext payload
         then Inl (app_failure ''CHAT_CIPHERTEXT_INVALID'' Validation
           ''The encrypted chat payload is malformed or outside its size limit.'')
         else Inr \<lparr>sm_principal = who, sm_clientMessageId = sp_clientMessageId payload,
           sm_deviceId = sp_deviceId payload, sm_groupId = sp_groupId payload,
           sm_epoch = sp_epoch payload, sm_protocolVersion = sp_protocolVersion payload,
           sm_contentType = sp_contentType payload, sm_ciphertext = ciphertext\<rparr>)"

definition message_keys :: "string list" where
  "message_keys = [''eventId'', ''messageId'', ''meetingId'', ''senderParticipantId'', ''position'',
     ''clientMessageId'', ''protocolVersion'', ''groupId'', ''epoch'', ''contentType'',
     ''ciphertext'', ''createdAt'']"

definition chatMessageSchema :: "zod \<Rightarrow> json \<Rightarrow> chat_message option" where
  "chatMessageSchema z v =
     (case v of
       JObj obj \<Rightarrow>
         (case (guarded (z_uuid z) (string_field obj ''eventId''),
                guarded (z_uuid z) (string_field obj ''messageId''),
                guarded (z_uuid z) (string_field obj ''meetingId''),
                guarded (z_uuid z) (string_field obj ''senderParticipantId''),
                guarded (z_uuid z) (string_field obj ''clientMessageId''),
                guarded (z_uuid z) (string_field obj ''groupId''),
                Option.bind (string_field obj ''position'') chatPositionSchema,
                Option.bind (string_field obj ''epoch'') chatPositionSchema,
                Option.bind (string_field obj ''contentType'') chatContentTypeSchema,
                guarded canonicalBase64UrlSchema (string_field obj ''ciphertext''),
                guarded (z_iso_datetime z) (string_field obj ''createdAt'')) of
           (Some ev, Some msg, Some meeting, Some sender, Some cid, Some grp, Some pos, Some epoch,
            Some ctype, Some cipher, Some created) \<Rightarrow>
             if strict_keys message_keys obj \<and> field obj ''protocolVersion'' = Some (JInt 1)
             then Some \<lparr>cm_eventId = ev, cm_messageId = msg, cm_meetingId = meeting,
               cm_senderParticipantId = sender, cm_position = pos, cm_clientMessageId = cid,
               cm_protocolVersion = 1, cm_groupId = grp, cm_epoch = epoch, cm_contentType = ctype,
               cm_ciphertext = cipher, cm_createdAt = created\<rparr>
             else None
         | _ \<Rightarrow> None)
     | _ \<Rightarrow> None)"

definition parseChatMessage :: "zod \<Rightarrow> json \<Rightarrow> chat_message outcome" where
  "parseChatMessage z value =
     require (chatMessageSchema z value) (PlainError ''Invalid durable chat event payload'')"

text \<open>\<open>{ ...message }\<close>, the payload of the outbox row and of the published event.\<close>

definition message_payload :: "chat_message \<Rightarrow> (string \<times> json) list" where
  "message_payload m =
     [(''eventId'', JStr (cm_eventId m)), (''messageId'', JStr (cm_messageId m)),
      (''meetingId'', JStr (cm_meetingId m)),
      (''senderParticipantId'', JStr (cm_senderParticipantId m)),
      (''position'', JStr (dec_int (cm_position m))),
      (''clientMessageId'', JStr (cm_clientMessageId m)),
      (''protocolVersion'', JInt (cm_protocolVersion m)), (''groupId'', JStr (cm_groupId m)),
      (''epoch'', JStr (dec_int (cm_epoch m))),
      (''contentType'', JStr (content_type_name (cm_contentType m))),
      (''ciphertext'', JStr (cm_ciphertext m)), (''createdAt'', JStr (cm_createdAt m))]"

definition message_ok :: "zod \<Rightarrow> chat_message \<Rightarrow> bool" where
  "message_ok z m =
     (z_uuid z (cm_eventId m) \<and> z_uuid z (cm_messageId m) \<and> z_uuid z (cm_meetingId m) \<and>
      z_uuid z (cm_senderParticipantId m) \<and> z_uuid z (cm_clientMessageId m) \<and>
      z_uuid z (cm_groupId m) \<and> 0 \<le> cm_position m \<and> cm_position m \<le> MAX_SIGNED_BIGINT \<and>
      0 \<le> cm_epoch m \<and> cm_epoch m \<le> MAX_SIGNED_BIGINT \<and> cm_protocolVersion m = 1 \<and>
      cm_contentType m \<noteq> CSystem \<and> canonicalBase64UrlSchema (cm_ciphertext m) \<and>
      z_iso_datetime z (cm_createdAt m))"

lemma message_payload_fields [simp]:
  "string_field (message_payload m) ''eventId'' = Some (cm_eventId m)"
  "string_field (message_payload m) ''messageId'' = Some (cm_messageId m)"
  "string_field (message_payload m) ''meetingId'' = Some (cm_meetingId m)"
  "string_field (message_payload m) ''senderParticipantId'' = Some (cm_senderParticipantId m)"
  "string_field (message_payload m) ''position'' = Some (dec_int (cm_position m))"
  "string_field (message_payload m) ''clientMessageId'' = Some (cm_clientMessageId m)"
  "field (message_payload m) ''protocolVersion'' = Some (JInt (cm_protocolVersion m))"
  "string_field (message_payload m) ''groupId'' = Some (cm_groupId m)"
  "string_field (message_payload m) ''epoch'' = Some (dec_int (cm_epoch m))"
  "string_field (message_payload m) ''contentType'' = Some (content_type_name (cm_contentType m))"
  "string_field (message_payload m) ''ciphertext'' = Some (cm_ciphertext m)"
  "string_field (message_payload m) ''createdAt'' = Some (cm_createdAt m)"
  by (simp_all add: string_field_def field_def message_payload_def)

lemma strict_message_payload: "strict_keys message_keys (message_payload m)"
  by (simp add: strict_keys_def message_keys_def message_payload_def)

lemma chatMessageSchema_payload:
  assumes "message_ok z m"
  shows "chatMessageSchema z (JObj (message_payload m)) = Some m"
  using assms
  by (cases m) (simp add: chatMessageSchema_def message_ok_def chatPositionSchema_dec
      chatContentTypeSchema_name strict_message_payload)

lemma chatMessageSchema_ok:
  assumes "chatMessageSchema z v = Some m"
  shows "message_ok z m"
  using assms
  by (auto simp: chatMessageSchema_def message_ok_def Option.bind_eq_Some_conv
      chatContentTypeSchema_def dest: chatPositionSchema_canonical
      split: json.splits option.splits prod.splits if_splits)

lemma chatMessageSchema_inverse:
  assumes "chatMessageSchema z (JObj (message_payload m)) = Some m'"
  shows "m' = m"
  using assms
  by (cases m) (auto simp: chatMessageSchema_def Option.bind_eq_Some_conv chatContentTypeSchema_name
      dest!: chatPositionSchema_canonical split: option.splits if_splits)

section \<open>Guarantees of the boundary\<close>

text \<open>The durable event round-trips through its own boundary schema exactly when it is
  well-formed: parsing the payload the server writes gives the message back if its identifiers,
  position, epoch, content type, canonical ciphertext and timestamp are valid, and an event with any
  of them invalid, a \<open>system\<close> message included, is refused.\<close>

theorem chat_event_roundtrip:
  "parseChatMessage z (JObj (message_payload m)) =
     (if message_ok z m then Inr m else Inl (PlainError ''Invalid durable chat event payload''))"
proof (cases "chatMessageSchema z (JObj (message_payload m))")
  case None
  then show ?thesis using chatMessageSchema_payload [of z m] by (auto simp: parseChatMessage_def)
next
  case (Some m')
  then have "m' = m" by (rule chatMessageSchema_inverse)
  with Some show ?thesis using chatMessageSchema_ok by (auto simp: parseChatMessage_def)
qed

text \<open>A submit payload that passes its schema and the size check becomes a command whose
  ciphertext is exactly the decoded text, is not empty and is within the configured limit, and whose
  meeting and sender are those of the authenticated session; a longer ciphertext is refused with
  \<open>CHAT_CIPHERTEXT_INVALID\<close>.\<close>

theorem submit_parse_bounds:
  assumes "chatSubmitPayloadSchema z v = Some payload"
  shows "parseSubmitChatMessage payload who config =
    (if int (length (base64url_decode (sp_ciphertext payload))) > cc_maxCiphertextBytes config
     then Inl (app_failure ''CHAT_CIPHERTEXT_INVALID'' Validation
       ''The encrypted chat payload is malformed or outside its size limit.'')
     else Inr \<lparr>sm_principal = who, sm_clientMessageId = sp_clientMessageId payload,
       sm_deviceId = sp_deviceId payload, sm_groupId = sp_groupId payload,
       sm_epoch = sp_epoch payload, sm_protocolVersion = 1,
       sm_contentType = sp_contentType payload,
       sm_ciphertext = base64url_decode (sp_ciphertext payload)\<rparr>) \<and>
    base64url_decode (sp_ciphertext payload) \<noteq> [] \<and> sp_contentType payload \<noteq> CSystem \<and>
    0 \<le> sp_epoch payload \<and> sp_epoch payload \<le> MAX_SIGNED_BIGINT"
  using assms
  by (auto simp: chatSubmitPayloadSchema_def parseSubmitChatMessage_def Let_def
      Option.bind_eq_Some_conv canonicalBase64UrlSchema_def chatContentTypeSchema_def
      dest: chatPositionSchema_canonical
      split: json.splits option.splits prod.splits if_splits)

definition sample_submit :: json where
  "sample_submit = JObj [
     (''clientMessageId'', JStr ''0190a1b2-c3d4-7abc-8def-0123456789c1''),
     (''deviceId'', JStr ''0190a1b2-c3d4-7abc-8def-0123456789d1''),
     (''groupId'', JStr ''0190a1b2-c3d4-7abc-8def-0123456789e1''),
     (''epoch'', JStr ''7''), (''protocolVersion'', JInt 1), (''contentType'', JStr ''text''),
     (''ciphertext'', JStr ''AQID'')]"

definition sample_payload :: submit_payload where
  "sample_payload = \<lparr>sp_clientMessageId = ''0190a1b2-c3d4-7abc-8def-0123456789c1'',
     sp_deviceId = ''0190a1b2-c3d4-7abc-8def-0123456789d1'',
     sp_groupId = ''0190a1b2-c3d4-7abc-8def-0123456789e1'', sp_epoch = 7, sp_protocolVersion = 1,
     sp_contentType = CText, sp_ciphertext = ''AQID''\<rparr>"

theorem submit_parse_bounds_witness:
  "base64url_decode (sp_ciphertext sample_payload) \<noteq> [] \<and> sp_contentType sample_payload \<noteq> CSystem \<and>
   0 \<le> sp_epoch sample_payload \<and> sp_epoch sample_payload \<le> MAX_SIGNED_BIGINT"
proof -
  have "chatSubmitPayloadSchema strict_zod sample_submit = Some sample_payload" by code_simp
  from submit_parse_bounds [OF this] show ?thesis by blast
qed

end
