(* ===== verification/ChatRepository.thy ===== *)
theory ChatRepository
  imports Outbox ChatContracts
begin

text \<open>
  \<open>PostgresChatRepository\<close>: acceptance of one encrypted message (access, membership, epoch, policy,
  idempotency, slow mode, position, message row and outbox row in one transaction), authorized
  history pages, stream heads and retention. One reading of \<open>clock_timestamp()\<close> per statement is
  taken from \<open>clk\<close>, SHA-256 is the argument \<open>sha256\<close>, and the identifiers \<open>uuidv7()\<close> generates are
  part of the environment of a call.
\<close>

section \<open>Environment of a call\<close>

text \<open>Under \<open>READ COMMITTED\<close> every statement sees what has been committed when it starts.
  \<open>waited\<close> is what other transactions committed while this one waited for the stream head's row
  lock; from then on the lock keeps them out of the meeting's stream.\<close>

record chat_env =
  clk :: "nat \<Rightarrow> instant"
  waited :: "database \<Rightarrow> database"
  new_message_id :: uuid
  new_delivery_id :: uuid

record accepted_message =
  am_message :: chat_message
  am_replayed :: bool
  am_delivery :: "outbox_delivery option"

definition assertFastPathOwner :: "string \<Rightarrow> unit outcome" where
  "assertFastPathOwner value =
     ensure (fast_path_owner_format value) (RangeError ''Chat fast-path owner has an invalid format'')"

definition invalidChatSession :: failure where
  "invalidChatSession = app_failure ''CHAT_SESSION_INVALID'' Authentication
     ''The chat session is no longer active.''"

definition keySyncRequired :: failure where
  "keySyncRequired = app_failure ''CHAT_KEY_SYNC_REQUIRED'' Authorization
     ''The current device is not an active member of the encrypted chat group.''"

definition epochStale :: "int \<Rightarrow> failure" where
  "epochStale current = app_failure_with ''CHAT_E2EE_EPOCH_STALE'' Conflict
     ''The encrypted message does not target the current chat epoch.''
     [(''currentEpoch'', JStr (dec_int current))]"

definition idempotencyConflict :: failure where
  "idempotencyConflict = app_failure ''CHAT_IDEMPOTENCY_CONFLICT'' Conflict
     ''The client message identifier was already used with different encrypted content.''"

definition slowModeActive :: "int \<Rightarrow> failure" where
  "slowModeActive seconds = app_failure_with ''CHAT_SLOW_MODE'' RateLimited
     ''The meeting chat slow mode is active.'' [(''retryAfterMs'', JInt (seconds * 1000))]"

section \<open>Authorization queries\<close>

text \<open>The conditions shared by \<open>requireAccess\<close> and \<open>requireHistoryAccess\<close> on the joined rows.\<close>

definition live_access :: "instant \<Rightarrow> principal \<Rightarrow> psession \<Rightarrow> participant \<Rightarrow> meeting \<Rightarrow> bool" where
  "live_access now pr s p m =
     (p_id p = s_participant_id s \<and> m_id m = p_meeting_id p \<and>
      s_id s = pr_sessionId pr \<and> p_id p = pr_participantId pr \<and> m_id m = pr_meetingId pr \<and>
      s_state s \<in> {SActive, SRotating} \<and> s_idle_expires_at s > now \<and>
      s_absolute_expires_at s > now \<and> p_state p = PActive \<and>
      m_state m \<in> {MOpen, MActive} \<and> m_expires_at m > now)"

definition requireAccess ::
  "instant \<Rightarrow> submit_command \<Rightarrow> database \<Rightarrow> (chat_policy \<times> product_role) outcome" where
  "requireAccess now command db =
     (let pr = sm_principal command;
          rows = [(p, m). s \<leftarrow> sessions db, p \<leftarrow> participants db, m \<leftarrow> meetings db,
                  live_access now pr s p m \<and>
                  p_permission_profile p = pr_permissionProfile pr \<and>
                  p_permission_profile_version p = pr_permissionProfileVersion pr]
      in and_then (require (first_row rows) invalidChatSession) (\<lambda>(p, m).
         and_then (parseChatPolicy (m_chat_policy m)) (\<lambda>policy.
         Inr (policy, p_product_role p))))"

definition requireMembership :: "instant \<Rightarrow> submit_command \<Rightarrow> database \<Rightarrow> int outcome" where
  "requireMembership now command db =
     (let pr = sm_principal command;
          rows = [g_epoch g. g \<leftarrow> e2ee_groups db, d \<leftarrow> e2ee_devices db, k \<leftarrow> group_members db,
                  d_public_device_id d = sm_deviceId command \<and>
                  d_participant_id d = pr_participantId pr \<and> d_state d = DevActive \<and>
                  d_expires_at d > now \<and>
                  gm_group_id k = g_id g \<and> gm_device_id k = d_id d \<and>
                  gm_participant_id k = pr_participantId pr \<and> gm_state k = MemberActive \<and>
                  gm_added_epoch k \<le> g_epoch g \<and> gm_removed_epoch k = None \<and>
                  g_id g = sm_groupId command \<and> g_meeting_id g = pr_meetingId pr \<and>
                  g_purpose g = PurposeChat \<and> g_state g = GroupActive]
      in require (first_row rows) keySyncRequired)"

section \<open>Rows and messages\<close>

definition messageRowSchema :: "zod \<Rightarrow> chat_row \<Rightarrow> bool" where
  "messageRowSchema z r =
     (z_uuid z (c_id r) \<and> z_uuid z (c_meeting_id r) \<and> z_uuid z (c_sender_participant_id r) \<and>
      0 < c_position r \<and> z_uuid z (c_client_message_id r) \<and> c_protocol_version r = 1 \<and>
      z_uuid z (c_group_id r) \<and> 0 \<le> c_e2ee_epoch r \<and> c_content_type r \<noteq> CSystem \<and>
      length (c_ciphertext_hash r) = 32)"

definition row_message :: "chat_row \<Rightarrow> chat_message" where
  "row_message r = \<lparr>cm_eventId = c_id r, cm_messageId = c_id r, cm_meetingId = c_meeting_id r,
     cm_senderParticipantId = c_sender_participant_id r, cm_position = c_position r,
     cm_clientMessageId = c_client_message_id r, cm_protocolVersion = c_protocol_version r,
     cm_groupId = c_group_id r, cm_epoch = c_e2ee_epoch r, cm_contentType = c_content_type r,
     cm_ciphertext = base64url_encode (c_ciphertext r), cm_createdAt = toISOString (c_created_at r)\<rparr>"

definition parseMessageRow :: "zod \<Rightarrow> chat_row \<Rightarrow> chat_message outcome" where
  "parseMessageRow z r = and_then (ensure (messageRowSchema z r) ZodError) (\<lambda>_. Inr (row_message r))"

definition findExisting :: "submit_command \<Rightarrow> database \<Rightarrow> chat_row option" where
  "findExisting command db = first_row (filter
     (\<lambda>r. c_meeting_id r = pr_meetingId (sm_principal command) \<and>
          c_sender_participant_id r = pr_participantId (sm_principal command) \<and>
          c_client_message_id r = sm_clientMessageId command) (chat_messages db))"

definition replayExisting ::
  "zod \<Rightarrow> (bytes \<Rightarrow> bytes) \<Rightarrow> chat_row \<Rightarrow> submit_command \<Rightarrow> accepted_message outcome" where
  "replayExisting z sha256 row command =
     and_then (ensure (messageRowSchema z row) ZodError) (\<lambda>_.
       if c_ciphertext_hash row \<noteq> sha256 (sm_ciphertext command) \<or>
          c_group_id row \<noteq> sm_groupId command \<or> c_e2ee_epoch row \<noteq> sm_epoch command \<or>
          c_content_type row \<noteq> sm_contentType command
       then Inl idempotencyConflict
       else and_then (parseMessageRow z row) (\<lambda>message.
         Inr \<lparr>am_message = message, am_replayed = True, am_delivery = None\<rparr>))"

section \<open>The stream head\<close>

definition lockStreamHead :: "uuid \<Rightarrow> database \<Rightarrow> unit outcome" where
  "lockStreamHead meetingId db =
     ensure (count_where (\<lambda>h. sh_meeting_id h = meetingId) (stream_heads db) = 1)
       (PlainError ''Chat stream head is missing'')"

definition enforceSlowMode ::
  "instant \<Rightarrow> submit_command \<Rightarrow> chat_policy \<Rightarrow> database \<Rightarrow> unit outcome" where
  "enforceSlowMode now command policy db =
     (if pol_slowModeSeconds policy = 0 then Inr ()
      else if list_ex (\<lambda>r. c_meeting_id r = pr_meetingId (sm_principal command) \<and>
               c_sender_participant_id r = pr_participantId (sm_principal command) \<and>
               c_created_at r > now - pol_slowModeSeconds policy * 1000) (chat_messages db)
      then Inl (slowModeActive (pol_slowModeSeconds policy))
      else Inr ())"

definition advanceStreamHead :: "instant \<Rightarrow> uuid \<Rightarrow> (database, int) tx" where
  "advanceStreamHead now meetingId db =
     (let P = (\<lambda>h. sh_meeting_id h = meetingId);
          advance = (\<lambda>h. h\<lparr>sh_last_position := sh_last_position h + 1, sh_updated_at := now\<rparr>);
          updated = map advance (filter P (stream_heads db))
      in if list_ex (\<lambda>h. sh_last_position h > MAX_SIGNED_BIGINT) updated
         then Inl numeric_out_of_range
         else and_then (require (first_row updated)
                (PlainError ''PostgreSQL returned no row for chat stream advance'')) (\<lambda>h.
              Inr (sh_last_position h,
                db\<lparr>stream_heads := update_where P advance (stream_heads db)\<rparr>)))"

section \<open>Inserts\<close>

definition new_chat_row ::
  "(bytes \<Rightarrow> bytes) \<Rightarrow> chat_config \<Rightarrow> uuid \<Rightarrow> instant \<Rightarrow> submit_command \<Rightarrow> int \<Rightarrow> chat_row" where
  "new_chat_row sha256 config i now command position =
     \<lparr>c_id = i, c_meeting_id = pr_meetingId (sm_principal command),
      c_sender_participant_id = pr_participantId (sm_principal command), c_position = position,
      c_client_message_id = sm_clientMessageId command,
      c_protocol_version = sm_protocolVersion command, c_group_id = sm_groupId command,
      c_e2ee_epoch = sm_epoch command, c_content_type = sm_contentType command,
      c_ciphertext = sm_ciphertext command, c_ciphertext_hash = sha256 (sm_ciphertext command),
      c_created_at = now, c_expires_at = now + cc_retentionDays config * 86400000\<rparr>"

definition insertMessage :: "chat_row \<Rightarrow> (database, chat_row) tx" where
  "insertMessage r db =
     (if \<not> list_ex (\<lambda>p. p_id p = c_sender_participant_id r \<and> p_meeting_id p = c_meeting_id r)
            (participants db) \<or>
         \<not> list_ex (\<lambda>g. g_id g = c_group_id r \<and> g_meeting_id g = c_meeting_id r) (e2ee_groups db)
      then Inl foreign_key_violation
      else and_then (insert_row chat_row_checks chat_row_same_key r (chat_messages db)) (\<lambda>rows.
           Inr (r, db\<lparr>chat_messages := rows\<rparr>)))"

definition new_outbox_row ::
  "chat_config \<Rightarrow> uuid \<Rightarrow> instant \<Rightarrow> chat_message \<Rightarrow> string \<Rightarrow> outbox_row" where
  "new_outbox_row config i now message fastPathOwner =
     \<lparr>ob_delivery_id = i, ob_event_id = cm_eventId message, ob_aggregate_type = ''chat_message'',
      ob_aggregate_id = cm_messageId message, ob_meeting_id = Some (cm_meetingId message),
      ob_event_type = ''chat.message.created'', ob_event_version = 1,
      ob_destination = RedisRealtime, ob_partition_key = cm_meetingId message,
      ob_payload = message_payload message, ob_available_at = now, ob_created_at = now,
      ob_attempts = 1, ob_locked_by = Some fastPathOwner,
      ob_locked_until = Some (now + cc_fastPathLeaseMs config), ob_published_at = None,
      ob_dead_at = None, ob_last_error_code = None\<rparr>"

definition insertOutbox ::
  "zod \<Rightarrow> chat_config \<Rightarrow> uuid \<Rightarrow> instant \<Rightarrow> chat_message \<Rightarrow> string \<Rightarrow> (database, outbox_delivery) tx" where
  "insertOutbox z config i now message fastPathOwner db =
     (let r = new_outbox_row config i now message fastPathOwner
      in and_then (insert_row outbox_row_checks outbox_row_same_key r (outbox_events db)) (\<lambda>rows.
         and_then (ensure (z_uuid z i) ZodError) (\<lambda>_.
         Inr (\<lparr>od_deliveryId = i, od_eventId = cm_eventId message,
            od_eventType = ''chat.message.created'', od_eventVersion = 1,
            od_destination = RedisRealtime, od_partitionKey = cm_meetingId message,
            od_payload = message_payload message, od_attempts = 1,
            od_lockedUntil = now + cc_fastPathLeaseMs config\<rparr>,
          db\<lparr>outbox_events := rows\<rparr>))))"

section \<open>Acceptance\<close>

text \<open>What happens once the head is locked and no earlier message has the client's identifier.\<close>

definition append_message ::
  "zod \<Rightarrow> (bytes \<Rightarrow> bytes) \<Rightarrow> chat_config \<Rightarrow> chat_env \<Rightarrow> submit_command \<Rightarrow> string \<Rightarrow> chat_policy
     \<Rightarrow> (database, accepted_message) tx" where
  "append_message z sha256 config env command fastPathOwner policy db =
     and_then (enforceSlowMode (clk env 2) command policy db) (\<lambda>_.
     and_then (advanceStreamHead (clk env 3) (pr_meetingId (sm_principal command)) db)
       (\<lambda>(position, db1).
     and_then (insertMessage (new_chat_row sha256 config (new_message_id env) (clk env 4)
         command position) db1) (\<lambda>(row, db2).
     and_then (parseMessageRow z row) (\<lambda>stored.
     and_then (insertOutbox z config (new_delivery_id env) (clk env 5) stored fastPathOwner db2)
       (\<lambda>(delivery, db3).
     Inr (\<lparr>am_message = stored, am_replayed = False, am_delivery = Some delivery\<rparr>, db3))))))"

definition accept_work ::
  "zod \<Rightarrow> (bytes \<Rightarrow> bytes) \<Rightarrow> chat_config \<Rightarrow> chat_env \<Rightarrow> submit_command \<Rightarrow> string
     \<Rightarrow> (database, accepted_message) tx" where
  "accept_work z sha256 config env command fastPathOwner db =
     and_then (requireAccess (clk env 0) command db) (\<lambda>(policy, role).
     and_then (requireMembership (clk env 1) command db) (\<lambda>epoch.
     and_then (ensure (epoch = sm_epoch command) (epochStale epoch)) (\<lambda>_.
     and_then (assertChatWriteAllowed policy role (sm_contentType command)) (\<lambda>_.
     (case findExisting command db of
       Some row \<Rightarrow> and_then (replayExisting z sha256 row command) (\<lambda>a. Inr (a, db))
     | None \<Rightarrow>
         (let db0 = waited env db
          in and_then (lockStreamHead (pr_meetingId (sm_principal command)) db0) (\<lambda>_.
          (case findExisting command db0 of
             Some row \<Rightarrow> and_then (replayExisting z sha256 row command) (\<lambda>a. Inr (a, db0))
           | None \<Rightarrow> append_message z sha256 config env command fastPathOwner policy db0))))))))"

definition chat_accept ::
  "zod \<Rightarrow> (bytes \<Rightarrow> bytes) \<Rightarrow> chat_config \<Rightarrow> chat_env \<Rightarrow> submit_command \<Rightarrow> string
     \<Rightarrow> (database, accepted_message) tx" where
  "chat_accept z sha256 config env command fastPathOwner db =
     and_then (assertFastPathOwner fastPathOwner) (\<lambda>_.
       accept_work z sha256 config env command fastPathOwner db)"

section \<open>History\<close>

record history_query =
  hq_principal :: principal
  hq_deviceId :: uuid
  hq_afterPosition :: int
  hq_limit :: nat

record chat_page =
  cp_messages :: "chat_message list"
  cp_nextAfterPosition :: int
  cp_highWatermark :: int
  cp_hasMore :: bool

definition e2ee_ready :: "instant \<Rightarrow> uuid \<Rightarrow> participant \<Rightarrow> meeting \<Rightarrow> database \<Rightarrow> bool" where
  "e2ee_ready now deviceId p m db =
     list_ex (\<lambda>d. d_public_device_id d = deviceId \<and> d_participant_id d = p_id p \<and>
         d_state d = DevActive \<and> d_expires_at d > now \<and>
         list_ex (\<lambda>k. gm_device_id k = d_id d \<and> gm_participant_id k = p_id p \<and>
             gm_state k = MemberActive \<and> gm_removed_epoch k = None \<and>
             list_ex (\<lambda>g. g_id g = gm_group_id k \<and> g_meeting_id g = m_id m \<and>
                 g_purpose g = PurposeChat \<and> g_state g = GroupActive) (e2ee_groups db))
           (group_members db)) (e2ee_devices db)"

definition requireHistoryAccess ::
  "instant \<Rightarrow> history_query \<Rightarrow> database \<Rightarrow> (history_policy \<times> int) outcome" where
  "requireHistoryAccess now query db =
     (let rows = [(p, m). s \<leftarrow> sessions db, p \<leftarrow> participants db, m \<leftarrow> meetings db,
                  live_access now (hq_principal query) s p m]
      in and_then (require (first_row rows) invalidChatSession) (\<lambda>(p, m).
         and_then (ensure (e2ee_ready now (hq_deviceId query) p m db) keySyncRequired) (\<lambda>_.
         Inr (m_history_policy m, p_chat_join_position p))))"

text \<open>A message is visible to a device that was a member of its group at its epoch, while the
  message has not expired.\<close>

definition member_at :: "history_query \<Rightarrow> database \<Rightarrow> chat_row \<Rightarrow> e2ee_device \<Rightarrow> group_member \<Rightarrow> bool" where
  "member_at query db r d k =
     (d_public_device_id d = hq_deviceId query \<and>
      d_participant_id d = pr_participantId (hq_principal query) \<and>
      gm_group_id k = c_group_id r \<and> gm_device_id k = d_id d \<and>
      gm_participant_id k = pr_participantId (hq_principal query) \<and>
      gm_added_epoch k \<le> c_e2ee_epoch r \<and>
      (case gm_removed_epoch k of None \<Rightarrow> True | Some e \<Rightarrow> c_e2ee_epoch r < e))"

definition page_rows :: "instant \<Rightarrow> history_query \<Rightarrow> int \<Rightarrow> int \<Rightarrow> nat \<Rightarrow> database \<Rightarrow> chat_row list" where
  "page_rows now query effectiveAfter highWatermark n db =
     take n (sort_key c_position
       [r. r \<leftarrow> chat_messages db, d \<leftarrow> e2ee_devices db, k \<leftarrow> group_members db,
           member_at query db r d k \<and>
           c_meeting_id r = pr_meetingId (hq_principal query) \<and>
           c_position r > effectiveAfter \<and> c_position r \<le> highWatermark \<and>
           c_expires_at r > now])"

definition readPage :: "zod \<Rightarrow> chat_env \<Rightarrow> history_query \<Rightarrow> database \<Rightarrow> chat_page outcome" where
  "readPage z env query db =
     and_then (requireHistoryAccess (clk env 0) query db) (\<lambda>(policy, joinPosition).
     let visibilityFloor = (if policy = StrictMembership then joinPosition else 0);
         effectiveAfter = max (hq_afterPosition query) visibilityFloor
     in and_then (require (first_row (filter
            (\<lambda>h. sh_meeting_id h = pr_meetingId (hq_principal query)) (stream_heads db)))
            (PlainError ''PostgreSQL returned no row for chat stream head'')) (\<lambda>h.
        let highWatermark = sh_last_position h;
            rows = page_rows (clk env 1) query effectiveAfter highWatermark (hq_limit query + 1) db;
            hasMore = length rows > hq_limit query
        in and_then (map_rows (parseMessageRow z) (take (hq_limit query) rows)) (\<lambda>messages.
           Inr \<lparr>cp_messages = messages,
             cp_nextAfterPosition = (if hasMore
               then (if messages = [] then effectiveAfter else cm_position (last messages))
               else highWatermark),
             cp_highWatermark = highWatermark, cp_hasMore = hasMore\<rparr>)))"

definition readHighWatermarks :: "uuid list \<Rightarrow> database \<Rightarrow> (uuid \<times> int) list outcome" where
  "readHighWatermarks meetingIds db =
     (if meetingIds = [] then Inr []
      else if length meetingIds > 1000
      then Inl (RangeError ''Chat watermark batch exceeds 1000 rooms'')
      else Inr (map (\<lambda>h. (sh_meeting_id h, sh_last_position h))
             (filter (\<lambda>h. sh_meeting_id h \<in> set meetingIds) (stream_heads db))))"

section \<open>Retention\<close>

definition deleteExpired :: "instant \<Rightarrow> (uuid \<Rightarrow> bool) \<Rightarrow> int \<Rightarrow> (database, nat) tx" where
  "deleteExpired now skip batchSize db =
     (if batchSize < 1 \<or> batchSize > 10000
      then Inl (RangeError ''Chat cleanup batch size is outside its allowed range'')
      else
        let expired = map c_id (select_limit
              (\<lambda>r. c_expires_at r \<le> now \<and> \<not> skip (c_id r))
              (\<lambda>r. (c_expires_at r, c_id r)) (nat batchSize) (chat_messages db));
            picked = (\<lambda>r. c_id r \<in> set expired)
        in Inr (count_where picked (chat_messages db),
             db\<lparr>chat_messages := filter (\<lambda>r. \<not> picked r) (chat_messages db)\<rparr>))"

end
