(* ===== verification/ChatAcceptance.thy ===== *)
theory ChatAcceptance
  imports ChatRepository
begin

text \<open>
  Correctness of message acceptance: what a successful call did, the invariant of the chat tables,
  idempotent retries, authorization, slow mode, and the ordering of a meeting's stream under every
  interleaving of concurrent calls, retention passes and writes to the other tables.
\<close>

section \<open>The invariant of the chat tables\<close>

definition head_of :: "database \<Rightarrow> uuid \<Rightarrow> int option" where
  "head_of db m = map_of (map (\<lambda>h. (sh_meeting_id h, sh_last_position h)) (stream_heads db)) m"

definition heads_inv :: "stream_head list \<Rightarrow> bool" where
  "heads_inv hs = (distinct (map sh_meeting_id hs) \<and>
     list_all (\<lambda>h. 0 \<le> sh_last_position h \<and> sh_last_position h \<le> MAX_SIGNED_BIGINT) hs)"

definition messages_inv :: "chat_row list \<Rightarrow> bool" where
  "messages_inv rows =
     (distinct (map c_id rows) \<and> distinct (map (\<lambda>r. (c_meeting_id r, c_position r)) rows) \<and>
      distinct (map (\<lambda>r. (c_meeting_id r, c_sender_participant_id r, c_client_message_id r)) rows) \<and>
      list_all chat_row_checks rows)"

definition chat_inv :: "database \<Rightarrow> bool" where
  "chat_inv db =
     (heads_inv (stream_heads db) \<and> messages_inv (chat_messages db) \<and> outbox_inv (outbox_events db) \<and>
      list_all (\<lambda>r. case head_of db (c_meeting_id r) of None \<Rightarrow> False | Some p \<Rightarrow> c_position r \<le> p)
        (chat_messages db))"

section \<open>What a successful call did\<close>

abbreviation meeting_of :: "submit_command \<Rightarrow> uuid" where
  "meeting_of command \<equiv> pr_meetingId (sm_principal command)"

abbreviation sender_of :: "submit_command \<Rightarrow> uuid" where
  "sender_of command \<equiv> pr_participantId (sm_principal command)"

definition advance_heads :: "instant \<Rightarrow> uuid \<Rightarrow> stream_head list \<Rightarrow> stream_head list" where
  "advance_heads now m = update_where (\<lambda>h. sh_meeting_id h = m)
     (\<lambda>h. h\<lparr>sh_last_position := sh_last_position h + 1, sh_updated_at := now\<rparr>)"

lemma head_of_filter:
  assumes "distinct (map sh_meeting_id hs)" "filter (\<lambda>h. sh_meeting_id h = m) hs = h # rest"
  shows "map_of (map (\<lambda>h. (sh_meeting_id h, sh_last_position h)) hs) m = Some (sh_last_position h)"
  using assms by (induction hs) (auto split: if_splits)

lemma map_of_advance:
  "map_of (map (\<lambda>h. (sh_meeting_id h, sh_last_position h)) (advance_heads now m hs)) k =
     (if k = m then map_option (\<lambda>p. p + 1)
         (map_of (map (\<lambda>h. (sh_meeting_id h, sh_last_position h)) hs) m)
      else map_of (map (\<lambda>h. (sh_meeting_id h, sh_last_position h)) hs) k)"
  by (induction hs) (auto simp: advance_heads_def update_where_def)

lemma advanceStreamHead_Inr:
  assumes "advanceStreamHead now m db = Inr (position, db')"
    and "distinct (map sh_meeting_id (stream_heads db))"
  shows "head_of db m = Some (position - 1) \<and> position \<le> MAX_SIGNED_BIGINT \<and>
    db' = db\<lparr>stream_heads := advance_heads now m (stream_heads db)\<rparr>"
proof -
  obtain h rest where f: "filter (\<lambda>h. sh_meeting_id h = m) (stream_heads db) = h # rest"
    "position = sh_last_position h + 1"
    using assms(1) by (auto simp: advanceStreamHead_def Let_def outcome_iffs first_row_def
        split: if_splits list.splits)
  have "head_of db m = Some (sh_last_position h)"
    unfolding head_of_def by (rule head_of_filter [OF assms(2) f(1)])
  then show ?thesis using assms(1) f
    by (auto simp: advanceStreamHead_def advance_heads_def Let_def outcome_iffs split: if_splits)
qed

lemma append_message_cases:
  assumes "append_message z sha256 config env command owner policy db = Inr (a, db')"
    and "distinct (map sh_meeting_id (stream_heads db))"
  obtains position row orow where
    "head_of db (meeting_of command) = Some (position - 1)" "position \<le> MAX_SIGNED_BIGINT"
    "row = new_chat_row sha256 config (new_message_id env) (clk env 4) command position"
    "orow = new_outbox_row config (new_delivery_id env) (clk env 5) (row_message row) owner"
    "chat_row_checks row" "\<forall>q \<in> set (chat_messages db). \<not> chat_row_same_key row q"
    "outbox_row_checks orow" "\<forall>q \<in> set (outbox_events db). \<not> outbox_row_same_key orow q"
    "messageRowSchema z row" "am_message a = row_message row" "\<not> am_replayed a"
    "map_option od_deliveryId (am_delivery a) = Some (new_delivery_id env)"
    "map_option od_lockedUntil (am_delivery a) = Some (clk env 5 + cc_fastPathLeaseMs config)"
    "db' = db\<lparr>stream_heads := advance_heads (clk env 3) (meeting_of command) (stream_heads db),
       chat_messages := chat_messages db @ [row], outbox_events := outbox_events db @ [orow]\<rparr>"
    "enforceSlowMode (clk env 2) command policy db = Inr ()"
proof -
  from assms(1) obtain position db1 where
    slow: "enforceSlowMode (clk env 2) command policy db = Inr ()" and
    adv: "advanceStreamHead (clk env 3) (meeting_of command) db = Inr (position, db1)"
    by (auto simp: append_message_def outcome_iffs)
  note head = advanceStreamHead_Inr [OF adv assms(2)]
  show ?thesis
    by (rule that [of position])
       (use assms(1) slow adv head in \<open>auto simp: append_message_def insertMessage_def insertOutbox_def
          parseMessageRow_def outcome_iffs insert_row_Inr_iff Let_def split: if_splits\<close>)
qed

lemma chat_accept_cases [consumes 1, case_names replay fresh]:
  assumes "chat_accept z sha256 config env command owner db = Inr (a, db')"
  obtains policy role row db0 where
    "requireAccess (clk env 0) command db = Inr (policy, role)"
    "requireMembership (clk env 1) command db = Inr (sm_epoch command)"
    "assertChatWriteAllowed policy role (sm_contentType command) = Inr ()"
    "db0 = db \<or> db0 = waited env db"
    "findExisting command db0 = Some row" "replayExisting z sha256 row command = Inr a" "db' = db0"
    "am_replayed a"
  | policy role where
    "requireAccess (clk env 0) command db = Inr (policy, role)"
    "requireMembership (clk env 1) command db = Inr (sm_epoch command)"
    "assertChatWriteAllowed policy role (sm_contentType command) = Inr ()"
    "findExisting command db = None" "findExisting command (waited env db) = None"
    "append_message z sha256 config env command owner policy (waited env db) = Inr (a, db')"
    "\<not> am_replayed a"
proof -
  from assms obtain policy role where
    access: "requireAccess (clk env 0) command db = Inr (policy, role)"
    and member: "requireMembership (clk env 1) command db = Inr (sm_epoch command)"
    and allowed: "assertChatWriteAllowed policy role (sm_contentType command) = Inr ()"
    by (auto simp: chat_accept_def accept_work_def outcome_iffs)
  have replayed: "am_replayed a" if "replayExisting z sha256 row command = Inr a" for row
    using that by (auto simp: replayExisting_def outcome_iffs split: if_splits)
  have fresh: "\<not> am_replayed a"
    if "append_message z sha256 config env command owner policy (waited env db) = Inr (a, db')"
    using that by (auto simp: append_message_def outcome_iffs)
  show ?thesis
  proof (cases "findExisting command db")
    case (Some row)
    with assms access member allowed have "replayExisting z sha256 row command = Inr a" "db' = db"
      by (auto simp: chat_accept_def accept_work_def outcome_iffs)
    with Some access member allowed replayed show ?thesis by (intro that(1)) auto
  next
    case None
    show ?thesis
    proof (cases "findExisting command (waited env db)")
      case (Some row)
      with None assms access member allowed
      have "replayExisting z sha256 row command = Inr a" "db' = waited env db"
        by (auto simp: chat_accept_def accept_work_def outcome_iffs Let_def)
      with Some access member allowed replayed show ?thesis by (intro that(1)) auto
    next
      case None
      with \<open>findExisting command db = None\<close> assms access member allowed
      have "append_message z sha256 config env command owner policy (waited env db) = Inr (a, db')"
        by (auto simp: chat_accept_def accept_work_def outcome_iffs Let_def)
      with None \<open>findExisting command db = None\<close> access member allowed fresh show ?thesis
        by (intro that(2)) auto
    qed
  qed
qed

section \<open>Every operation keeps the invariant\<close>

lemma heads_inv_advance:
  assumes "heads_inv (stream_heads db)" "head_of db m = Some (p - 1)" "p \<le> MAX_SIGNED_BIGINT"
  shows "heads_inv (advance_heads now m (stream_heads db))"
proof -
  have bound: "sh_last_position h + 1 \<le> MAX_SIGNED_BIGINT"
    if "h \<in> set (stream_heads db)" "sh_meeting_id h = m" for h
  proof -
    have "map_of (map (\<lambda>h. (sh_meeting_id h, sh_last_position h)) (stream_heads db)) m =
        Some (sh_last_position h)"
      using assms(1) that by (intro map_of_is_SomeI) (auto simp: heads_inv_def comp_def intro!: image_eqI)
    with assms(2,3) show ?thesis by (simp add: head_of_def)
  qed
  show ?thesis
    using assms(1) bound
    by (auto simp: heads_inv_def advance_heads_def map_update_where list_all_iff mem_update_where)
qed

lemma messages_inv_snoc:
  "messages_inv rows \<Longrightarrow> chat_row_checks r \<Longrightarrow> \<forall>q \<in> set rows. \<not> chat_row_same_key r q \<Longrightarrow>
     messages_inv (rows @ [r])"
  by (auto simp: messages_inv_def chat_row_same_key_def)

lemma messages_inv_filter: "messages_inv rows \<Longrightarrow> messages_inv (filter P rows)"
  by (auto simp: messages_inv_def list_all_iff distinct_map_filterI)

lemma outbox_inv_snoc:
  "outbox_inv rows \<Longrightarrow> outbox_row_checks r \<Longrightarrow> uuid_format (ob_delivery_id r) \<Longrightarrow>
     \<forall>q \<in> set rows. \<not> outbox_row_same_key r q \<Longrightarrow> outbox_inv (rows @ [r])"
  using enqueue_keeps [of rows r "rows @ [r]"] by (simp add: insert_row_Inr_iff)

lemma append_message_keeps:
  assumes "chat_inv db" "append_message z sha256 config env command owner policy db = Inr (a, db')"
    and "uuid_format (new_delivery_id env)"
  shows "chat_inv db'"
proof -
  have "distinct (map sh_meeting_id (stream_heads db))"
    using assms(1) by (simp add: chat_inv_def heads_inv_def)
  from assms(2) this show ?thesis
  proof (cases rule: append_message_cases)
    case (1 position row orow)
    have meeting: "c_meeting_id row = meeting_of command" "c_position row = position"
      "ob_delivery_id orow = new_delivery_id env"
      by (simp_all add: 1(3,4) new_chat_row_def new_outbox_row_def)
    have head: "head_of db' k = (if k = meeting_of command then Some position else head_of db k)" for k
      using 1(1) by (simp add: 1(14) head_of_def map_of_advance)
    have "heads_inv (stream_heads db')" "messages_inv (chat_messages db')" "outbox_inv (outbox_events db')"
      using assms(1,3) 1 meeting
      by (auto simp: chat_inv_def intro: heads_inv_advance messages_inv_snoc outbox_inv_snoc)
    moreover have "list_all (\<lambda>r. case head_of db' (c_meeting_id r) of None \<Rightarrow> False
        | Some p \<Rightarrow> c_position r \<le> p) (chat_messages db')"
      using assms(1) 1(1) meeting
      by (fastforce simp: 1(14) head [unfolded 1(14)] chat_inv_def list_all_iff split: option.splits)
    ultimately show ?thesis by (simp add: chat_inv_def)
  qed
qed

lemma chat_accept_keeps:
  assumes "chat_inv db" "chat_inv (waited env db)" "uuid_format (new_delivery_id env)"
    and "chat_accept z sha256 config env command owner db = Inr (a, db')"
  shows "chat_inv db'"
  using assms(4)
proof (cases rule: chat_accept_cases)
  case replay
  then show ?thesis using assms by auto
next
  case fresh
  then show ?thesis using assms by (auto intro: append_message_keeps)
qed

lemma deleteExpired_cases:
  assumes "deleteExpired now skip n db = Inr (k, db')"
  obtains picked where
    "\<And>i. picked i \<longleftrightarrow> i \<in> c_id ` set (select_limit (\<lambda>r. c_expires_at r \<le> now \<and> \<not> skip (c_id r))
       (\<lambda>r. (c_expires_at r, c_id r)) (nat n) (chat_messages db))"
    "k = count_where (\<lambda>r. picked (c_id r)) (chat_messages db)"
    "db' = db\<lparr>chat_messages := filter (\<lambda>r. \<not> picked (c_id r)) (chat_messages db)\<rparr>"
    "1 \<le> n" "n \<le> 10000"
  using assms
  by (intro that [of "\<lambda>i. i \<in> c_id ` set (select_limit (\<lambda>r. c_expires_at r \<le> now \<and> \<not> skip (c_id r))
       (\<lambda>r. (c_expires_at r, c_id r)) (nat n) (chat_messages db))"])
     (auto simp: deleteExpired_def Let_def split: if_splits)

lemma deleteExpired_keeps:
  assumes "chat_inv db" "deleteExpired now skip n db = Inr (k, db')"
  shows "chat_inv db'"
  using assms(2)
proof (cases rule: deleteExpired_cases)
  case (1 picked)
  have "head_of db' m = head_of db m" for m by (simp add: 1(3) head_of_def)
  then show ?thesis using assms(1)
    by (auto simp: chat_inv_def 1(3) messages_inv_filter list_all_iff)
qed

text \<open>The callbacks under the unit of work, with one environment per attempt: the delivery
  identifier is generated by \<open>uuidv7()\<close> and the other transactions keep the invariant.\<close>

interpretation accept_tx: transactional
  "\<lambda>n. chat_accept z sha256 config (env n) command owner"
  "\<lambda>n db. uuid_format (new_delivery_id (env n)) \<and> chat_inv (waited (env n) db)" chat_inv
  by unfold_locales (auto intro: chat_accept_keeps)

interpretation expire_tx: transactional
  "\<lambda>n. deleteExpired (now n) skip batch" "\<lambda>_ _. True" chat_inv
  by unfold_locales (rule deleteExpired_keeps)

section \<open>Idempotent retries\<close>

lemma findExisting_Some:
  "findExisting command db = Some row \<Longrightarrow> row \<in> set (chat_messages db) \<and>
     c_meeting_id row = meeting_of command \<and> c_sender_participant_id row = sender_of command \<and>
     c_client_message_id row = sm_clientMessageId command"
  unfolding findExisting_def by (drule first_row_filter_SomeD) auto

lemma findExisting_unique:
  assumes "messages_inv (chat_messages db)" "row \<in> set (chat_messages db)"
    "c_meeting_id row = meeting_of command" "c_sender_participant_id row = sender_of command"
    "c_client_message_id row = sm_clientMessageId command"
  shows "findExisting command db = Some row"
proof -
  have "filter (\<lambda>r. c_meeting_id r = meeting_of command \<and> c_sender_participant_id r = sender_of command \<and>
      c_client_message_id r = sm_clientMessageId command) (chat_messages db) = [row]"
    by (rule filter_unique_key [where k = "\<lambda>r. (c_meeting_id r, c_sender_participant_id r, c_client_message_id r)"])
       (use assms in \<open>auto simp: messages_inv_def\<close>)
  then show ?thesis by (simp add: findExisting_def)
qed

lemma replay_same_message:
  "replayExisting z sha256 row command = Inr a \<Longrightarrow>
     am_message a = row_message row \<and> am_delivery a = None \<and> am_replayed a \<and>
     c_ciphertext_hash row = sha256 (sm_ciphertext command) \<and> c_group_id row = sm_groupId command \<and>
     c_e2ee_epoch row = sm_epoch command \<and> c_content_type row = sm_contentType command"
  by (auto simp: replayExisting_def parseMessageRow_def outcome_iffs split: if_splits)

end
