(* ===== verification/ChatOrdering.thy ===== *)
theory ChatOrdering
  imports ChatAcceptance
begin

text \<open>
  The guarantees of chat acceptance: authorization, atomicity of message and outbox event, idempotent
  retries, slow mode, the invariant under the unit of work, and the order of a meeting's stream for
  every interleaving of committed transactions.
\<close>

section \<open>A concrete database\<close>

definition sample_meeting :: meeting where
  "sample_meeting = \<lparr>m_id = ''0190a1b2-c3d4-7abc-8def-00000000000a'', m_mode = VideoConference,
     m_state = MOpen,
     m_chat_policy = JObj [(''version'', JInt 1), (''writers'', JStr ''participants''),
       (''slowModeSeconds'', JInt 10)],
     m_media_e2ee_policy = E2eeRequired, m_history_policy = StrictMembership,
     m_created_at = 0, m_expires_at = 100000000, m_activated_at = None, m_version = 1\<rparr>"

definition sample_participant :: participant where
  "sample_participant = \<lparr>p_id = ''0190a1b2-c3d4-7abc-8def-00000000000b'',
     p_meeting_id = ''0190a1b2-c3d4-7abc-8def-00000000000a'', p_display_name = [65, 100, 97],
     p_product_role = Participant, p_sfu_role = SfuSpeaker, p_permission_profile = ''standard'',
     p_permission_profile_version = 1, p_state = PActive, p_chat_join_position = 0\<rparr>"

definition sample_session :: psession where
  "sample_session = \<lparr>s_id = ''0190a1b2-c3d4-7abc-8def-00000000000c'',
     s_participant_id = ''0190a1b2-c3d4-7abc-8def-00000000000b'', s_token_digest = replicate 32 1,
     s_pepper_version = 1, s_device_binding_digest = replicate 32 2,
     s_csrf_token_digest = replicate 32 3, s_state = SActive, s_issued_at = 0, s_last_seen_at = 0,
     s_idle_expires_at = 3600000, s_absolute_expires_at = 21600000\<rparr>"

definition sample_db :: database where
  "sample_db = \<lparr>meetings = [sample_meeting], capabilities = [], participants = [sample_participant],
     sessions = [sample_session], ticket_audits = [],
     stream_heads = [\<lparr>sh_meeting_id = ''0190a1b2-c3d4-7abc-8def-00000000000a'', sh_last_position = 41,
       sh_updated_at = 0\<rparr>],
     e2ee_devices = [\<lparr>d_id = ''0190a1b2-c3d4-7abc-8def-00000000000d'',
       d_participant_id = ''0190a1b2-c3d4-7abc-8def-00000000000b'',
       d_public_device_id = ''0190a1b2-c3d4-7abc-8def-00000000000e'', d_state = DevActive,
       d_expires_at = 90000000\<rparr>],
     e2ee_groups = [\<lparr>g_id = ''0190a1b2-c3d4-7abc-8def-00000000000f'',
       g_meeting_id = ''0190a1b2-c3d4-7abc-8def-00000000000a'', g_purpose = PurposeChat, g_epoch = 7,
       g_state = GroupActive\<rparr>],
     group_members = [\<lparr>gm_group_id = ''0190a1b2-c3d4-7abc-8def-00000000000f'',
       gm_device_id = ''0190a1b2-c3d4-7abc-8def-00000000000d'',
       gm_participant_id = ''0190a1b2-c3d4-7abc-8def-00000000000b'', gm_state = MemberActive,
       gm_added_epoch = 3, gm_removed_epoch = None\<rparr>],
     chat_messages = [], outbox_events = [], command_results = [], security_audit = [],
     sfu_admissions = []\<rparr>"

definition sample_principal :: principal where
  "sample_principal = \<lparr>pr_sessionId = ''0190a1b2-c3d4-7abc-8def-00000000000c'',
     pr_participantId = ''0190a1b2-c3d4-7abc-8def-00000000000b'',
     pr_meetingId = ''0190a1b2-c3d4-7abc-8def-00000000000a'', pr_meetingMode = VideoConference,
     pr_productRole = Participant, pr_sfuRole = SfuSpeaker, pr_permissionProfile = ''standard'',
     pr_permissionProfileVersion = 1, pr_absoluteExpiresAtMs = 21600000\<rparr>"

definition sample_command :: submit_command where
  "sample_command = \<lparr>sm_principal = sample_principal,
     sm_clientMessageId = ''0190a1b2-c3d4-7abc-8def-0000000000c1'',
     sm_deviceId = ''0190a1b2-c3d4-7abc-8def-00000000000e'',
     sm_groupId = ''0190a1b2-c3d4-7abc-8def-00000000000f'', sm_epoch = 7, sm_protocolVersion = 1,
     sm_contentType = CText, sm_ciphertext = [1, 2, 3]\<rparr>"

definition sample_chat_config :: chat_config where
  "sample_chat_config = \<lparr>cc_enabled = True, cc_maxCiphertextBytes = 8192, cc_historyPageDefault = 50,
     cc_historyPageMax = 200, cc_ratePerParticipant = 5, cc_rateBurst = 10,
     cc_fastPathLeaseMs = 3000, cc_highWatermarkIntervalMs = 5000, cc_reorderBufferMessages = 256,
     cc_retentionDays = 30, cc_cleanupBatchSize = 500, cc_cleanupIntervalMs = 300000\<rparr>"

definition sample_env :: "instant \<Rightarrow> chat_env" where
  "sample_env t = \<lparr>clk = (\<lambda>n. t + int n), waited = id,
     new_message_id = ''0190a1b2-c3d4-7abc-8def-0000000000a1'',
     new_delivery_id = ''0190a1b2-c3d4-7abc-8def-0000000000b1''\<rparr>"

definition sample_owner :: string where
  "sample_owner = ''realtime:0190a1b2-c3d4-4abc-8def-0000000000ff''"

definition toy_sha256 :: "bytes \<Rightarrow> bytes" where
  "toy_sha256 bs = replicate 31 0 @ [of_nat (sum_list (map unat bs))]"

definition sample_accept :: "(accepted_message \<times> database) outcome" where
  "sample_accept = chat_accept strict_zod toy_sha256 sample_chat_config (sample_env 1000) sample_command
     sample_owner sample_db"

lemma sample_accept_evaluated:
  "chat_accept strict_zod toy_sha256 sample_chat_config (sample_env 1000) sample_command sample_owner sample_db =
     Inr (fst (projr sample_accept), snd (projr sample_accept))"
proof -
  have "\<not> isl sample_accept" by code_simp
  then show ?thesis unfolding sample_accept_def by (rule Inr_pair_of_eval)
qed

lemma sample_db_inv: "chat_inv sample_db"
  by code_simp

section \<open>Authorization\<close>

lemma first_row_comprehensionD:
  "first_row [f s p m. s \<leftarrow> ss, p \<leftarrow> ps, m \<leftarrow> ms, P s p m] = Some x \<Longrightarrow>
     \<exists>s \<in> set ss. \<exists>p \<in> set ps. \<exists>m \<in> set ms. P s p m \<and> x = f s p m"
  by (drule first_row_Some_mem) auto

lemma requireAccess_sound:
  assumes "requireAccess now command db = Inr (policy, role)"
  shows "\<exists>s \<in> set (sessions db). \<exists>p \<in> set (participants db). \<exists>m \<in> set (meetings db).
    live_access now (sm_principal command) s p m \<and>
    p_permission_profile p = pr_permissionProfile (sm_principal command) \<and>
    p_permission_profile_version p = pr_permissionProfileVersion (sm_principal command) \<and>
    parseChatPolicy (m_chat_policy m) = Inr policy \<and> role = p_product_role p"
proof -
  let ?rows = "[(p, m). s \<leftarrow> sessions db, p \<leftarrow> participants db, m \<leftarrow> meetings db,
      live_access now (sm_principal command) s p m \<and>
      p_permission_profile p = pr_permissionProfile (sm_principal command) \<and>
      p_permission_profile_version p = pr_permissionProfileVersion (sm_principal command)]"
  from assms obtain p m where "first_row ?rows = Some (p, m)"
    "parseChatPolicy (m_chat_policy m) = Inr policy" "role = p_product_role p"
    by (auto simp: requireAccess_def Let_def outcome_iffs)
  then show ?thesis by (auto dest!: first_row_comprehensionD)
qed

definition active_member :: "instant \<Rightarrow> submit_command \<Rightarrow> database \<Rightarrow> int \<Rightarrow> bool" where
  "active_member now command db epoch =
     (\<exists>g \<in> set (e2ee_groups db). \<exists>d \<in> set (e2ee_devices db). \<exists>k \<in> set (group_members db).
        g_id g = sm_groupId command \<and> g_meeting_id g = meeting_of command \<and>
        g_purpose g = PurposeChat \<and> g_state g = GroupActive \<and> g_epoch g = epoch \<and>
        d_public_device_id d = sm_deviceId command \<and> d_participant_id d = sender_of command \<and>
        d_state d = DevActive \<and> d_expires_at d > now \<and>
        gm_group_id k = g_id g \<and> gm_device_id k = d_id d \<and> gm_participant_id k = sender_of command \<and>
        gm_state k = MemberActive \<and> gm_added_epoch k \<le> epoch \<and> gm_removed_epoch k = None)"

lemma requireMembership_sound:
  assumes "requireMembership now command db = Inr epoch"
  shows "active_member now command db epoch"
proof -
  let ?rows = "[g_epoch g. g \<leftarrow> e2ee_groups db, d \<leftarrow> e2ee_devices db, k \<leftarrow> group_members db,
      d_public_device_id d = sm_deviceId command \<and> d_participant_id d = sender_of command \<and>
      d_state d = DevActive \<and> d_expires_at d > now \<and>
      gm_group_id k = g_id g \<and> gm_device_id k = d_id d \<and> gm_participant_id k = sender_of command \<and>
      gm_state k = MemberActive \<and> gm_added_epoch k \<le> g_epoch g \<and> gm_removed_epoch k = None \<and>
      g_id g = sm_groupId command \<and> g_meeting_id g = meeting_of command \<and>
      g_purpose g = PurposeChat \<and> g_state g = GroupActive]"
  from assms have "first_row ?rows = Some epoch" by (simp add: requireMembership_def Let_def)
  then show ?thesis unfolding active_member_def by (auto dest!: first_row_comprehensionD)
qed

lemma chat_accept_checks:
  assumes "chat_accept z sha256 config env command owner db = Inr (a, db')"
  obtains policy role where
    "requireAccess (clk env 0) command db = Inr (policy, role)"
    "requireMembership (clk env 1) command db = Inr (sm_epoch command)"
    "assertChatWriteAllowed policy role (sm_contentType command) = Inr ()"
  using assms by (cases rule: chat_accept_cases) blast+

text \<open>C3. Only an authorized sender is served. Whenever a submission succeeds, new or replayed, the
  database holds an active unexpired session of the authenticated participant, the participant is
  active with the permission profile version of the socket, the meeting is open and its stored policy
  lets that role write that content type, and the sender's device is an unexpired active member of the
  meeting's active chat group at exactly the epoch the message was encrypted for.\<close>

theorem accept_requires_authorization:
  assumes "chat_accept z sha256 config env command owner db = Inr (a, db')"
  shows "\<exists>s \<in> set (sessions db). \<exists>p \<in> set (participants db). \<exists>m \<in> set (meetings db). \<exists>policy.
      live_access (clk env 0) (sm_principal command) s p m \<and>
      p_permission_profile p = pr_permissionProfile (sm_principal command) \<and>
      p_permission_profile_version p = pr_permissionProfileVersion (sm_principal command) \<and>
      parseChatPolicy (m_chat_policy m) = Inr policy \<and>
      role_may_write (pol_writers policy) (p_product_role p) \<and>
      sm_contentType command \<in> set (pol_contentTypes policy) \<and>
      active_member (clk env 1) command db (sm_epoch command)"
  using assms
proof (rule chat_accept_checks)
  fix policy role
  assume access: "requireAccess (clk env 0) command db = Inr (policy, role)"
    and member: "requireMembership (clk env 1) command db = Inr (sm_epoch command)"
    and allowed: "assertChatWriteAllowed policy role (sm_contentType command) = Inr ()"
  have "role_may_write (pol_writers policy) role" "sm_contentType command \<in> set (pol_contentTypes policy)"
    using allowed by (auto simp: assertChatWriteAllowed_def split: if_splits)
  with requireAccess_sound [OF access] requireMembership_sound [OF member] show ?thesis by blast
qed

theorem accept_requires_authorization_witness:
  "active_member (clk (sample_env 1000) 1) sample_command sample_db (sm_epoch sample_command)"
  using accept_requires_authorization [OF sample_accept_evaluated] by blast

section \<open>Atomicity\<close>

text \<open>C2. Accepting a new message writes exactly three things in one commit: the meeting's head
  advances by one, the message is stored at that position with the authenticated meeting and sender,
  and one outbox event carrying the same message is stored, leased to the fast path; every other row
  of every table is left as the transaction found it.\<close>

theorem accept_is_atomic:
  assumes "chat_inv (waited env db)"
    and "chat_accept z sha256 config env command owner db = Inr (a, db')" and "\<not> am_replayed a"
  shows "\<exists>position row orow.
      head_of (waited env db) (pr_meetingId (sm_principal command)) = Some (position - 1) \<and>
      head_of db' (pr_meetingId (sm_principal command)) = Some position \<and>
      row = new_chat_row sha256 config (new_message_id env) (clk env 4) command position \<and>
      orow = new_outbox_row config (new_delivery_id env) (clk env 5) (row_message row) owner \<and>
      am_message a = row_message row \<and> leased [orow] (new_delivery_id env) owner
        (clk env 5 + cc_fastPathLeaseMs config) \<and>
      db' = (waited env db)\<lparr>
        stream_heads := advance_heads (clk env 3) (pr_meetingId (sm_principal command))
          (stream_heads (waited env db)),
        chat_messages := chat_messages (waited env db) @ [row],
        outbox_events := outbox_events (waited env db) @ [orow]\<rparr>"
  using assms(2)
proof (cases rule: chat_accept_cases)
  case (fresh policy role)
  have "distinct (map sh_meeting_id (stream_heads (waited env db)))"
    using assms(1) by (simp add: chat_inv_def heads_inv_def)
  with fresh(6) show ?thesis
  proof (rule append_message_cases, goal_cases)
    case (1 position row orow)
    then have "head_of db' (meeting_of command) = Some position"
      by (simp add: head_of_def map_of_advance)
    moreover have "leased [orow] (new_delivery_id env) owner (clk env 5 + cc_fastPathLeaseMs config)"
      using 1(4) by (simp add: leased_def new_outbox_row_def)
    ultimately show ?case using 1 by blast
  qed
qed (use assms(3) in simp)

theorem accept_is_atomic_witness:
  "\<exists>position. head_of (snd (projr sample_accept)) ''0190a1b2-c3d4-7abc-8def-00000000000a'' = Some position \<and>
     head_of sample_db ''0190a1b2-c3d4-7abc-8def-00000000000a'' = Some (position - 1)"
proof -
  have w: "waited (sample_env 1000) sample_db = sample_db" by (simp add: sample_env_def)
  have "\<not> am_replayed (fst (projr sample_accept))" by code_simp
  from accept_is_atomic [OF _ sample_accept_evaluated this] show ?thesis
    unfolding w using sample_db_inv by (auto simp: sample_command_def sample_principal_def)
qed

section \<open>Idempotency\<close>

text \<open>The checks made on every submission before its identifier is looked up.\<close>

definition submission_checks :: "chat_env \<Rightarrow> submit_command \<Rightarrow> string \<Rightarrow> database \<Rightarrow> unit outcome" where
  "submission_checks env command owner db =
     and_then (assertFastPathOwner owner) (\<lambda>_.
     and_then (requireAccess (clk env 0) command db) (\<lambda>(policy, role).
     and_then (requireMembership (clk env 1) command db) (\<lambda>epoch.
     and_then (ensure (epoch = sm_epoch command) (epochStale epoch)) (\<lambda>_.
     assertChatWriteAllowed policy role (sm_contentType command)))))"

lemma chat_accept_existing:
  assumes "findExisting command db = Some row"
  shows "chat_accept z sha256 config env command owner db =
    and_then (submission_checks env command owner db) (\<lambda>_.
      and_then (replayExisting z sha256 row command) (\<lambda>a. Inr (a, db)))"
  using assms
  by (cases "assertFastPathOwner owner"; cases "requireAccess (clk env 0) command db")
     (auto simp: chat_accept_def accept_work_def submission_checks_def and_then_assoc
      split: prod.splits)


definition sample_stored :: chat_row where
  "sample_stored = new_chat_row toy_sha256 sample_chat_config ''0190a1b2-c3d4-7abc-8def-0000000000a1''
     1004 sample_command 42"

definition sample_after :: database where
  "sample_after = sample_db\<lparr>chat_messages := [sample_stored],
     stream_heads := [\<lparr>sh_meeting_id = ''0190a1b2-c3d4-7abc-8def-00000000000a'', sh_last_position = 42,
       sh_updated_at = 1003\<rparr>]\<rparr>"


section \<open>Slow mode\<close>

text \<open>Slow mode separates a sender's messages: when a new message is accepted in a meeting whose
  stored policy asks for a slow mode of \<open>n\<close> seconds, every message of the same sender in that meeting
  was created at least \<open>n\<close> seconds before the new one.\<close>

theorem slow_mode_spacing:
  assumes "chat_inv (waited env db)" and "\<And>i. clk env i \<le> clk env (Suc i)"
    and "chat_accept z sha256 config env command owner db = Inr (a, db')" and "\<not> am_replayed a"
    and "requireAccess (clk env 0) command db = Inr (policy, role)"
    and "0 < pol_slowModeSeconds policy"
    and "r \<in> set (chat_messages (waited env db))"
    and "c_meeting_id r = pr_meetingId (sm_principal command)"
    and "c_sender_participant_id r = pr_participantId (sm_principal command)"
  shows "\<exists>row. set (chat_messages db') = insert row (set (chat_messages (waited env db))) \<and>
    am_message a = row_message row \<and>
    c_created_at row \<ge> c_created_at r + pol_slowModeSeconds policy * 1000"
  using assms(3)
proof (cases rule: chat_accept_cases)
  case (fresh policy' role')
  have policy: "policy' = policy" using fresh(1) assms(5) by simp
  have "distinct (map sh_meeting_id (stream_heads (waited env db)))"
    using assms(1) by (simp add: chat_inv_def heads_inv_def)
  with fresh(6) show ?thesis
  proof (rule append_message_cases, goal_cases)
    case (1 position row orow)
    have "c_created_at r \<le> clk env 2 - pol_slowModeSeconds policy * 1000"
      using 1(15) assms(6-9) policy
      by (fastforce simp: enforceSlowMode_def list_ex_iff split: if_splits)
    moreover have "clk env 2 \<le> clk env 4"
      using assms(2) [of 2] assms(2) [of 3] by (simp add: eval_nat_numeral)
    moreover have "c_created_at row = clk env 4" using 1(3) by (simp add: new_chat_row_def)
    ultimately show ?case using 1(10,14) by (intro exI [of _ row]) auto
  qed
qed (use assms(4) in simp)

definition sample_second_command :: submit_command where
  "sample_second_command = sample_command\<lparr>sm_clientMessageId := ''0190a1b2-c3d4-7abc-8def-0000000000c2''\<rparr>"

definition sample_second_env :: chat_env where
  "sample_second_env = (sample_env 20000)\<lparr>new_message_id := ''0190a1b2-c3d4-7abc-8def-0000000000a2'',
     new_delivery_id := ''0190a1b2-c3d4-7abc-8def-0000000000b2''\<rparr>"

definition sample_second_accept :: "(accepted_message \<times> database) outcome" where
  "sample_second_accept = chat_accept strict_zod toy_sha256 sample_chat_config sample_second_env
     sample_second_command sample_owner sample_after"

theorem slow_mode_spacing_witness:
  "\<exists>row. am_message (fst (projr sample_second_accept)) = row_message row \<and>
     c_created_at row \<ge> 1004 + 10 * 1000"
proof -
  have w: "waited sample_second_env sample_after = sample_after"
    by (simp add: sample_second_env_def sample_env_def)
  have "\<not> isl sample_second_accept" by code_simp
  then have acc: "chat_accept strict_zod toy_sha256 sample_chat_config sample_second_env
      sample_second_command sample_owner sample_after =
      Inr (fst (projr sample_second_accept), snd (projr sample_second_accept))"
    unfolding sample_second_accept_def by (rule Inr_pair_of_eval)
  have fresh: "\<not> am_replayed (fst (projr sample_second_accept))" by code_simp
  have inv: "chat_inv (waited sample_second_env sample_after)" unfolding w by code_simp
  have access: "requireAccess (clk sample_second_env 0) sample_second_command sample_after =
      Inr (\<lparr>pol_writers = WParticipants, pol_slowModeSeconds = 10,
        pol_contentTypes = [CText, CReaction, CReceipt]\<rparr>, Participant)" by code_simp
  have mono: "clk sample_second_env i \<le> clk sample_second_env (Suc i)" for i
    by (simp add: sample_second_env_def sample_env_def)
  from slow_mode_spacing [OF inv mono acc fresh access, of sample_stored] show ?thesis
    unfolding w
    by (auto simp: sample_after_def sample_stored_def new_chat_row_def sample_second_command_def
        sample_command_def)
qed

section \<open>The invariant under the unit of work\<close>

text \<open>Whatever the pool, the server and the other clients do, the chat tables stay consistent:
  after every run of a submission under the unit of work (acquisition failures, rollbacks, retries,
  commits in doubt), identifiers, positions and client identifiers are unique, every message has a
  positive position no greater than its meeting's head, and the outbox rows satisfy their
  constraints.\<close>

theorem accept_run_keeps_invariant:
  assumes "chat_inv db"
    and "\<And>n t. chat_inv t \<Longrightarrow> chat_inv (before_attempt (tx_env n) t)"
    and "\<And>n t. chat_inv t \<Longrightarrow> chat_inv (waited (env n) t)"
    and "\<And>n. uuid_format (new_delivery_id (env n))"
    and "run tx_env (\<lambda>n. chat_accept z sha256 config (env n) command owner) lvl maxRetries db = (r, db', ops)"
  shows "chat_inv db'"
  using assms(2) _ assms(1,5)
proof (rule accept_tx.run_keeps)
  show "uuid_format (new_delivery_id (env n)) \<and> chat_inv (waited (env n) t)" if "chat_inv t" for n t
    using that assms(3,4) by blast
qed

theorem accept_run_keeps_invariant_witness:
  "chat_inv (fst (snd (run (\<lambda>_. quiet\<lparr>commit_fate := CommitInDoubt (DependencyFault ''lost'')\<rparr>)
     (\<lambda>n. chat_accept strict_zod toy_sha256 sample_chat_config (sample_env 1000) sample_command sample_owner)
     None None sample_db)))"
proof (rule accept_run_keeps_invariant [OF sample_db_inv])
  show "run (\<lambda>_. quiet\<lparr>commit_fate := CommitInDoubt (DependencyFault ''lost'')\<rparr>)
     (\<lambda>n. chat_accept strict_zod toy_sha256 sample_chat_config (sample_env 1000) sample_command sample_owner)
     None None sample_db = (fst (run (\<lambda>_. quiet\<lparr>commit_fate := CommitInDoubt (DependencyFault ''lost'')\<rparr>)
     (\<lambda>n. chat_accept strict_zod toy_sha256 sample_chat_config (sample_env 1000) sample_command sample_owner)
     None None sample_db), fst (snd (run (\<lambda>_. quiet\<lparr>commit_fate := CommitInDoubt (DependencyFault ''lost'')\<rparr>)
     (\<lambda>n. chat_accept strict_zod toy_sha256 sample_chat_config (sample_env 1000) sample_command sample_owner)
     None None sample_db)), snd (snd (run (\<lambda>_. quiet\<lparr>commit_fate := CommitInDoubt (DependencyFault ''lost'')\<rparr>)
     (\<lambda>n. chat_accept strict_zod toy_sha256 sample_chat_config (sample_env 1000) sample_command sample_owner)
     None None sample_db)))" by simp
  show "uuid_format (new_delivery_id (sample_env 1000))" for n :: nat by code_simp
qed (simp_all add: quiet_def sample_env_def)

section \<open>The order of a stream\<close>

text \<open>
  The committed states of the database, latest first, with the messages accepted on the way, latest
  first. A submission starts on any earlier committed state, waits for the head's lock while the
  others commit, and goes on from the latest state; retention passes and every other writer of the
  program commit in between.
\<close>

inductive stream ::
  "zod \<Rightarrow> (bytes \<Rightarrow> bytes) \<Rightarrow> chat_config \<Rightarrow> database \<Rightarrow> database list \<Rightarrow> chat_message list \<Rightarrow> bool"
  for z sha256 config db0
where
  start: "stream z sha256 config db0 [db0] []"
| accepted: "stream z sha256 config db0 (db # past) msgs \<Longrightarrow> old \<in> set (db # past) \<Longrightarrow>
    waited env old = db \<Longrightarrow> uuid_format (new_delivery_id env) \<Longrightarrow>
    chat_accept z sha256 config env command owner old = Inr (a, db') \<Longrightarrow> \<not> am_replayed a \<Longrightarrow>
    stream z sha256 config db0 (db' # db # past) (am_message a # msgs)"
| replayed: "stream z sha256 config db0 (db # past) msgs \<Longrightarrow> old \<in> set (db # past) \<Longrightarrow>
    waited env old = db \<Longrightarrow>
    chat_accept z sha256 config env command owner old = Inr (a, db') \<Longrightarrow> am_replayed a \<Longrightarrow>
    stream z sha256 config db0 (db # db # past) msgs"
| expired: "stream z sha256 config db0 (db # past) msgs \<Longrightarrow>
    deleteExpired now skip n db = Inr (k, db') \<Longrightarrow> stream z sha256 config db0 (db' # db # past) msgs"
| others: "stream z sha256 config db0 (db # past) msgs \<Longrightarrow>
    stream_heads db' = stream_heads db \<Longrightarrow> chat_messages db' = chat_messages db \<Longrightarrow>
    outbox_inv (outbox_events db') \<Longrightarrow> stream z sha256 config db0 (db' # db # past) msgs"

inductive_cases stream_NilE: "stream z sha256 config db0 [] msgs"

definition positions_in :: "uuid \<Rightarrow> chat_message list \<Rightarrow> int list" where
  "positions_in m msgs = map cm_position (filter (\<lambda>x. cm_meetingId x = m) (rev msgs))"

lemma head_of_deleteExpired: "deleteExpired now skip n db = Inr (k, db') \<Longrightarrow> head_of db' m = head_of db m"
  by (elim deleteExpired_cases) (simp add: head_of_def)

lemma stream_sound:
  assumes "chat_inv db0" and "stream z sha256 config db0 hist msgs"
  shows "hist \<noteq> [] \<and> chat_inv (hd hist) \<and>
    (\<forall>m p. head_of db0 m = Some p \<longrightarrow>
      positions_in m msgs = [p + 1 .. p + int (length (positions_in m msgs))] \<and>
      head_of (hd hist) m = Some (p + int (length (positions_in m msgs)))) \<and>
    (\<forall>m. head_of db0 m = None \<longrightarrow> positions_in m msgs = [] \<and> head_of (hd hist) m = None)"
  using assms(2)
proof induction
  case start
  then show ?case using assms(1) by (simp add: positions_in_def)
next
  case (accepted db past msgs old env command owner a db')
  from accepted.hyps(5) show ?case
  proof (cases rule: chat_accept_cases)
    case (fresh policy role)
    have inv: "chat_inv db" using accepted.IH by simp
    then have dist: "distinct (map sh_meeting_id (stream_heads db))"
      by (simp add: chat_inv_def heads_inv_def)
    have app: "append_message z sha256 config env command owner policy db = Inr (a, db')"
      using fresh(6) accepted.hyps(3) by simp
    from app dist show ?thesis
    proof (rule append_message_cases, goal_cases)
      case (1 position row orow)
      have "chat_inv db'"
        using inv app accepted.hyps(4) by (rule append_message_keeps)
      moreover have msg: "cm_meetingId (am_message a) = meeting_of command"
        "cm_position (am_message a) = position"
        using 1 by (simp_all add: row_message_def new_chat_row_def)
      moreover have "head_of db' m = (if m = meeting_of command then Some position else head_of db m)" for m
        using 1 by (simp add: head_of_def map_of_advance)
      moreover have "positions_in m (am_message a # msgs) =
          (if m = meeting_of command then positions_in m msgs @ [position] else positions_in m msgs)" for m
        by (simp add: positions_in_def msg)
      ultimately show ?case
        using accepted.IH 1 by (auto simp: upto_rec2)
    qed
  qed (use accepted.hyps(6) in simp)
next
  case (replayed db past msgs old env command owner a db')
  then show ?case by simp
next
  case (expired db past msgs now skip n k db')
  then show ?case using head_of_deleteExpired [OF expired.hyps(2)]
    by (auto intro: deleteExpired_keeps)
next
  case (others db past msgs db')
  then show ?case by (simp add: chat_inv_def head_of_def)
qed

text \<open>C1. A meeting's stream has no gap, no duplicate and no reordering. For every interleaving of
  concurrent submissions, replays, retention passes and other writers, the messages accepted for a
  meeting, in commit order, have exactly the positions that follow the initial head one by one, and
  the stored head is the last of them; retention never frees a position for reuse.\<close>

theorem stream_positions_consecutive:
  assumes "chat_inv db0" and "stream z sha256 config db0 (db # past) msgs"
    and "head_of db0 m = Some p"
  shows "map cm_position (filter (\<lambda>x. cm_meetingId x = m) (rev msgs)) =
      [p + 1 .. p + int (length (filter (\<lambda>x. cm_meetingId x = m) msgs))] \<and>
    head_of db m = Some (p + int (length (filter (\<lambda>x. cm_meetingId x = m) msgs)))"
proof -
  have "length (positions_in m msgs) = length (filter (\<lambda>x. cm_meetingId x = m) msgs)"
    by (simp add: positions_in_def rev_filter [symmetric])
  with stream_sound [OF assms(1,2)] assms(3) show ?thesis by (simp add: positions_in_def)
qed

theorem stream_positions_consecutive_witness:
  "head_of (snd (projr sample_accept)) ''0190a1b2-c3d4-7abc-8def-00000000000a'' = Some 42"
proof -
  have fresh: "\<not> am_replayed (fst (projr sample_accept))"
    "uuid_format (new_delivery_id (sample_env 1000))" by code_simp+
  have "stream strict_zod toy_sha256 sample_chat_config sample_db
      [snd (projr sample_accept), sample_db] [am_message (fst (projr sample_accept))]"
    by (rule stream.accepted [OF stream.start _ _ fresh(2) sample_accept_evaluated fresh(1)])
       (simp_all add: sample_env_def)
  moreover have "head_of sample_db ''0190a1b2-c3d4-7abc-8def-00000000000a'' = Some 41" by code_simp
  moreover have "cm_meetingId (am_message (fst (projr sample_accept))) =
      ''0190a1b2-c3d4-7abc-8def-00000000000a''" by code_simp
  ultimately show ?thesis
    using stream_positions_consecutive [OF sample_db_inv] by fastforce
qed

end
