(* ===== verification/ChatHistory.thy ===== *)
theory ChatHistory
  imports ChatOrdering
begin

text \<open>
  Authorized history and retention: a page holds exactly the messages the device may see between the
  cursor and the next cursor, following the cursors reads every visible message once and in order,
  and a retention pass deletes at most one batch of expired messages and nothing else.
\<close>

section \<open>Visible messages\<close>

text \<open>\<open>UNIQUE (participant_id, public_device_id)\<close> and \<open>PRIMARY KEY (group_id, device_id)\<close>.\<close>

definition membership_inv :: "database \<Rightarrow> bool" where
  "membership_inv db =
     (distinct (map (\<lambda>d. (d_participant_id d, d_public_device_id d)) (e2ee_devices db)) \<and>
      distinct (map (\<lambda>k. (gm_group_id k, gm_device_id k)) (group_members db)))"

definition visible :: "instant \<Rightarrow> history_query \<Rightarrow> database \<Rightarrow> chat_row \<Rightarrow> bool" where
  "visible now query db r =
     (c_meeting_id r = pr_meetingId (hq_principal query) \<and> c_expires_at r > now \<and>
      list_ex (\<lambda>d. list_ex (\<lambda>k. member_at query db r d k) (group_members db)) (e2ee_devices db))"

lemma concat_map_filter_single:
  "concat (map (\<lambda>x. if P x then [y] else []) xs) = map (\<lambda>_. y) (filter P xs)"
  by (induction xs) auto

lemma comprehension_unique:
  assumes "distinct (map f ds)" "distinct (map g ks)"
    and "\<And>d k. P d k \<Longrightarrow> f d = c" "\<And>d k. P d k \<Longrightarrow> g k = h d"
  shows "[r. d \<leftarrow> ds, k \<leftarrow> ks, P d k] = (if list_ex (\<lambda>d. list_ex (P d) ks) ds then [r] else [])"
proof -
  have inner: "[r. k \<leftarrow> ks, P d k] = (if list_ex (P d) ks then [r] else [])" for d
  proof (cases "list_ex (P d) ks")
    case True
    then obtain k where k: "k \<in> set ks" "P d k" by (auto simp: list_ex_iff)
    have "filter (P d) ks = [k]"
      by (rule filter_unique_key [where k = g]) (use assms(2,4) k in \<open>auto\<close>)
    with True show ?thesis by (simp add: concat_map_filter_single)
  next
    case False
    then show ?thesis by (auto simp: concat_map_filter_single list_ex_iff)
  qed
  show ?thesis
  proof (cases "list_ex (\<lambda>d. list_ex (P d) ks) ds")
    case True
    then obtain d where d: "d \<in> set ds" "list_ex (P d) ks" by (auto simp: list_ex_iff)
    have "f q = f d" if "list_ex (P q) ks" for q
      using that d(2) assms(3) by (auto simp: list_ex_iff)
    then have "filter (\<lambda>d. list_ex (P d) ks) ds = [d]"
      by (intro filter_unique_key [where k = f]) (use assms(1) d in blast)+
    with True show ?thesis unfolding inner by (simp add: concat_map_filter_single)
  next
    case False
    then show ?thesis unfolding inner by (auto simp: concat_map_filter_single list_ex_iff)
  qed
qed

lemma page_rows_visible:
  assumes "membership_inv db"
  shows "page_rows now query after high n db =
    take n (sort_key c_position (filter
      (\<lambda>r. visible now query db r \<and> after < c_position r \<and> c_position r \<le> high) (chat_messages db)))"
proof -
  have one: "[r. d \<leftarrow> e2ee_devices db, k \<leftarrow> group_members db, member_at query db r d k \<and>
        c_meeting_id r = pr_meetingId (hq_principal query) \<and>
        c_position r > after \<and> c_position r \<le> high \<and> c_expires_at r > now] =
      (if visible now query db r \<and> after < c_position r \<and> c_position r \<le> high then [r] else [])" for r
    by (subst comprehension_unique [where
          f = "\<lambda>d. (d_participant_id d, d_public_device_id d)" and
          g = "\<lambda>k. (gm_group_id k, gm_device_id k)" and
          c = "(pr_participantId (hq_principal query), hq_deviceId query)" and
          h = "\<lambda>d. (c_group_id r, d_id d)"])
       (use assms in \<open>auto simp: membership_inv_def member_at_def visible_def list_ex_iff\<close>)
  have "concat (map (\<lambda>r. if Q r then [r] else []) xs) = filter Q xs" for Q and xs :: "chat_row list"
    by (induction xs) auto
  then show ?thesis unfolding page_rows_def one by simp
qed

section \<open>Strictly ordered pages\<close>

lemma sorted_wrt_less_sort_key:
  assumes "distinct (map f xs)"
  shows "sorted_wrt (<) (map (f :: 'a \<Rightarrow> int) (sort_key f xs))"
proof -
  have "distinct (map f (sort_key f xs))" using assms by (simp add: distinct_map)
  moreover have "sorted (map f (sort_key f xs))" by simp
  ultimately show ?thesis by (simp add: strict_sorted_iff)
qed

lemma split_at_position:
  assumes "sorted_wrt (<) (map (f :: 'a \<Rightarrow> int) xs)" "0 < n" "n < length xs"
  shows "filter (\<lambda>x. f x \<le> f (last (take n xs))) xs = take n xs"
    and "filter (\<lambda>x. f (last (take n xs)) < f x) xs = drop n xs"
proof -
  have xs: "xs = take n xs @ drop n xs" by simp
  have sorted: "sorted_wrt (\<lambda>x y. f x < f y) (take n xs @ drop n xs)"
    using assms(1) by (simp add: sorted_wrt_map)
  have ne: "take n xs \<noteq> []" using assms(2,3) by auto
  have low: "f x \<le> f (last (take n xs))" if "x \<in> set (take n xs)" for x
  proof -
    have tk: "take n xs = butlast (take n xs) @ [last (take n xs)]" using ne by simp
    have "sorted_wrt (\<lambda>x y. f x < f y) (take n xs)" using sorted sorted_wrt_append by blast
    then have "sorted_wrt (\<lambda>x y. f x < f y) (butlast (take n xs) @ [last (take n xs)])"
      using tk by metis
    then have "\<forall>y \<in> set (butlast (take n xs)). f y < f (last (take n xs))"
      by (auto simp: sorted_wrt_append)
    moreover have "x \<in> set (butlast (take n xs)) \<or> x = last (take n xs)"
      using that tk by (metis Un_iff empty_iff empty_set set_ConsD set_append)
    ultimately show ?thesis by auto
  qed
  have high: "f (last (take n xs)) < f x" if "x \<in> set (drop n xs)" for x
    using sorted that ne last_in_set [OF ne] unfolding sorted_wrt_append by blast
  have "filter (\<lambda>x. f x \<le> f (last (take n xs))) (take n xs) = take n xs"
    "filter (\<lambda>x. f x \<le> f (last (take n xs))) (drop n xs) = []"
    "filter (\<lambda>x. f (last (take n xs)) < f x) (take n xs) = []"
    "filter (\<lambda>x. f (last (take n xs)) < f x) (drop n xs) = drop n xs"
    using low high by (fastforce simp: filter_id_conv filter_empty_conv)+
  then have "filter (\<lambda>x. f x \<le> f (last (take n xs))) (take n xs @ drop n xs) = take n xs"
    "filter (\<lambda>x. f (last (take n xs)) < f x) (take n xs @ drop n xs) = drop n xs"
    by (simp_all only: filter_append append_Nil append_Nil2)
  then show "filter (\<lambda>x. f x \<le> f (last (take n xs))) xs = take n xs"
    "filter (\<lambda>x. f (last (take n xs)) < f x) xs = drop n xs" by simp_all
qed

section \<open>What a page holds\<close>

lemma row_message_position [simp]: "cm_position (row_message r) = c_position r"
  by (simp add: row_message_def)

definition effective_after :: "history_query \<Rightarrow> history_policy \<Rightarrow> int \<Rightarrow> int" where
  "effective_after query policy joinPosition =
     max (hq_afterPosition query) (if policy = StrictMembership then joinPosition else 0)"

definition visible_after :: "instant \<Rightarrow> history_query \<Rightarrow> database \<Rightarrow> int \<Rightarrow> chat_row list" where
  "visible_after now query db after =
     sort_key c_position (filter (\<lambda>r. visible now query db r \<and> after < c_position r) (chat_messages db))"

lemma distinct_positions_visible:
  assumes "chat_inv db"
  shows "sorted_wrt (<) (map c_position (visible_after now query db after))"
proof -
  let ?rows = "filter (\<lambda>r. visible now query db r \<and> after < c_position r) (chat_messages db)"
  have "distinct (map (\<lambda>r. (c_meeting_id r, c_position r)) ?rows)"
    using assms by (auto simp: chat_inv_def messages_inv_def)
  then have "distinct (map c_position ?rows)"
    by (fastforce simp: distinct_map inj_on_def visible_def)
  then show ?thesis unfolding visible_after_def by (rule sorted_wrt_less_sort_key)
qed

lemma positions_below_head:
  "chat_inv db \<Longrightarrow> head_of db m = Some p \<Longrightarrow> r \<in> set (chat_messages db) \<Longrightarrow> c_meeting_id r = m \<Longrightarrow>
     c_position r \<le> p"
  by (auto simp: chat_inv_def list_all_iff)

lemma head_row_of_filter:
  assumes "chat_inv db"
    "first_row (filter (\<lambda>h. sh_meeting_id h = m) (stream_heads db)) = Some h"
  shows "head_of db m = Some (sh_last_position h)"
  using assms head_of_filter [of "stream_heads db" m h]
  by (auto simp: head_of_def chat_inv_def heads_inv_def first_row_def split: list.splits)

lemma page_rows_visible_after:
  assumes "chat_inv db" "membership_inv db"
    and "head_of db (pr_meetingId (hq_principal query)) = Some high"
  shows "page_rows now query after high n db = take n (visible_after now query db after)"
proof -
  have "visible now query db r \<and> after < c_position r \<and> c_position r \<le> high \<longleftrightarrow>
      visible now query db r \<and> after < c_position r" if "r \<in> set (chat_messages db)" for r
    using positions_below_head [OF assms(1,3) that] by (auto simp: visible_def)
  then show ?thesis
    unfolding page_rows_visible [OF assms(2)] visible_after_def by (metis (mono_tags, lifting) filter_cong)
qed

lemma map_rows_parseMessageRow:
  "map_rows (parseMessageRow z) rows = Inr ms \<longleftrightarrow>
     list_all (messageRowSchema z) rows \<and> ms = map row_message rows"
  by (induction rows arbitrary: ms) (auto simp: parseMessageRow_def outcome_iffs)

lemma readPage_cases:
  assumes "chat_inv db" "membership_inv db" "readPage z env query db = Inr page"
  obtains policy joinPosition rows where
    "requireHistoryAccess (clk env 0) query db = Inr (policy, joinPosition)"
    "head_of db (pr_meetingId (hq_principal query)) = Some (cp_highWatermark page)"
    "rows = visible_after (clk env 1) query db (effective_after query policy joinPosition)"
    "list_all (messageRowSchema z) (take (hq_limit query) rows)"
    "cp_messages page = map row_message (take (hq_limit query) rows)"
    "cp_hasMore page \<longleftrightarrow> length rows > hq_limit query"
    "cp_nextAfterPosition page = (if length rows > hq_limit query
       then (if cp_messages page = [] then effective_after query policy joinPosition
             else cm_position (last (cp_messages page)))
       else cp_highWatermark page)"
proof -
  from assms(3) obtain policy joinPosition h where
    access: "requireHistoryAccess (clk env 0) query db = Inr (policy, joinPosition)" and
    h: "first_row (filter (\<lambda>h. sh_meeting_id h = pr_meetingId (hq_principal query)) (stream_heads db)) = Some h"
    by (auto simp: readPage_def outcome_iffs Let_def)
  note head = head_row_of_filter [OF assms(1) h]
  have rows: "page_rows (clk env 1) query (effective_after query policy joinPosition)
      (sh_last_position h) (hq_limit query + 1) db =
      take (hq_limit query + 1) (visible_after (clk env 1) query db (effective_after query policy joinPosition))"
    by (rule page_rows_visible_after [OF assms(1,2) head])
  show ?thesis
    by (rule that [OF access _ refl])
       (use assms(3) access h head rows in \<open>auto simp: readPage_def outcome_iffs Let_def
          effective_after_def [symmetric] map_rows_parseMessageRow min_def split: if_splits\<close>)
qed

lemma readPage_take:
  assumes "chat_inv db" "membership_inv db" "readPage z env query db = Inr page"
    and "requireHistoryAccess (clk env 0) query db = Inr (policy, joinPosition)"
    and "0 < hq_limit query"
  shows "cp_messages page = map row_message (filter
      (\<lambda>r. c_position r \<le> cp_nextAfterPosition page)
      (visible_after (clk env 1) query db (effective_after query policy joinPosition)))"
    and "cp_hasMore page \<Longrightarrow> filter (\<lambda>r. cp_nextAfterPosition page < c_position r)
      (visible_after (clk env 1) query db (effective_after query policy joinPosition)) =
      drop (hq_limit query) (visible_after (clk env 1) query db (effective_after query policy joinPosition))"
proof -
  let ?rows = "visible_after (clk env 1) query db (effective_after query policy joinPosition)"
  from assms(1-3) have page: "cp_messages page = map row_message (take (hq_limit query) ?rows)"
    "cp_hasMore page \<longleftrightarrow> length ?rows > hq_limit query"
    "head_of db (pr_meetingId (hq_principal query)) = Some (cp_highWatermark page)"
    "cp_nextAfterPosition page = (if length ?rows > hq_limit query
       then (if cp_messages page = [] then effective_after query policy joinPosition
             else cm_position (last (cp_messages page)))
       else cp_highWatermark page)"
    by (rule readPage_cases; use assms(4) in simp)+
  note sorted = distinct_positions_visible [OF assms(1), of "clk env 1" query "effective_after query policy joinPosition"]
  have next_pos: "cp_nextAfterPosition page = c_position (last (take (hq_limit query) ?rows))"
    if "length ?rows > hq_limit query"
  proof -
    have "take (hq_limit query) ?rows \<noteq> []" using that assms(5) by auto
    then show ?thesis using that page(1,4) by (simp add: last_map)
  qed
  show "cp_messages page = map row_message (filter (\<lambda>r. c_position r \<le> cp_nextAfterPosition page) ?rows)"
  proof (cases "length ?rows > hq_limit query")
    case True
    then show ?thesis
      using split_at_position(1) [OF sorted assms(5) True] next_pos page(1) by simp
  next
    case False
    have "c_position r \<le> cp_nextAfterPosition page" if "r \<in> set ?rows" for r
      using that False page(4) positions_below_head [OF assms(1) page(3)]
      by (auto simp: visible_after_def visible_def)
    then have "filter (\<lambda>r. c_position r \<le> cp_nextAfterPosition page) ?rows = ?rows"
      by (simp add: filter_id_conv)
    then show ?thesis using False page(1) by simp
  qed
  show "filter (\<lambda>r. cp_nextAfterPosition page < c_position r) ?rows = drop (hq_limit query) ?rows"
    if "cp_hasMore page"
    using that page(2) split_at_position(2) [OF sorted assms(5)] next_pos by simp
qed

text \<open>C27. A history page is exact. It holds, in strictly increasing position, precisely the
  messages of the meeting that the device may read (member of the message's group at the message's
  epoch, not expired), that lie above the client's cursor and above the participant's join position
  when the meeting asks for strict membership, and at or below the next cursor; it holds at most
  \<open>limit\<close> of them, and reports more exactly when a readable message lies above the next cursor.\<close>

theorem read_page_exact:
  assumes "chat_inv db" and "membership_inv db" and "0 < hq_limit query"
    and "readPage z env query db = Inr page"
    and "requireHistoryAccess (clk env 0) query db = Inr (policy, joinPosition)"
  shows "sorted_wrt (<) (map cm_position (cp_messages page)) \<and>
    length (cp_messages page) \<le> hq_limit query \<and>
    set (cp_messages page) = row_message ` {r \<in> set (chat_messages db). visible (clk env 1) query db r \<and>
      effective_after query policy joinPosition < c_position r \<and>
      c_position r \<le> cp_nextAfterPosition page} \<and>
    (cp_hasMore page \<longleftrightarrow> (\<exists>r \<in> set (chat_messages db). visible (clk env 1) query db r \<and>
      effective_after query policy joinPosition < c_position r \<and>
      cp_nextAfterPosition page < c_position r))"
proof -
  let ?rows = "visible_after (clk env 1) query db (effective_after query policy joinPosition)"
  note sorted = distinct_positions_visible [OF assms(1), of "clk env 1" query "effective_after query policy joinPosition"]
  note page = readPage_take [OF assms(1,2,4,5,3)]
  from assms(1,2,4) have more: "cp_hasMore page \<longleftrightarrow> length ?rows > hq_limit query"
    and len: "length (cp_messages page) \<le> hq_limit query"
    and high: "head_of db (pr_meetingId (hq_principal query)) = Some (cp_highWatermark page)"
    and next_high: "\<not> cp_hasMore page \<Longrightarrow> cp_nextAfterPosition page = cp_highWatermark page"
    by (rule readPage_cases; use assms(5) in simp)+
  have "sorted_wrt (<) (map cm_position (cp_messages page))"
    unfolding page(1) using sorted sorted_wrt_filter by (simp add: sorted_wrt_map)
  moreover have "cp_hasMore page \<longleftrightarrow> (\<exists>r \<in> set ?rows. cp_nextAfterPosition page < c_position r)"
  proof
    assume "cp_hasMore page"
    then have "filter (\<lambda>r. cp_nextAfterPosition page < c_position r) ?rows \<noteq> []"
      using page(2) more by simp
    then show "\<exists>r \<in> set ?rows. cp_nextAfterPosition page < c_position r"
      by (auto simp: filter_empty_conv)
  next
    assume "\<exists>r \<in> set ?rows. cp_nextAfterPosition page < c_position r"
    then obtain r where r: "r \<in> set (chat_messages db)" "cp_nextAfterPosition page < c_position r"
      "c_meeting_id r = pr_meetingId (hq_principal query)"
      by (auto simp: visible_after_def visible_def)
    then have "c_position r \<le> cp_highWatermark page"
      using positions_below_head [OF assms(1) high] by blast
    with r(2) next_high show "cp_hasMore page" by linarith
  qed
  moreover have "(\<exists>r \<in> set ?rows. cp_nextAfterPosition page < c_position r) \<longleftrightarrow>
      (\<exists>r \<in> set (chat_messages db). visible (clk env 1) query db r \<and>
        effective_after query policy joinPosition < c_position r \<and>
        cp_nextAfterPosition page < c_position r)" by (auto simp: visible_after_def)
  moreover have "set (cp_messages page) = row_message ` {r \<in> set (chat_messages db).
      visible (clk env 1) query db r \<and> effective_after query policy joinPosition < c_position r \<and>
      c_position r \<le> cp_nextAfterPosition page}"
    unfolding page(1) by (auto simp: visible_after_def)
  ultimately show ?thesis using len by blast
qed

definition sample_query :: history_query where
  "sample_query = \<lparr>hq_principal = sample_principal,
     hq_deviceId = ''0190a1b2-c3d4-7abc-8def-00000000000e'', hq_afterPosition = 41, hq_limit = 2\<rparr>"

definition sample_page :: chat_page where
  "sample_page = projr (readPage strict_zod (sample_env 2000) sample_query sample_after)"

lemma sample_page_evaluated:
  "readPage strict_zod (sample_env 2000) sample_query sample_after = Inr sample_page"
proof -
  have "\<not> isl (readPage strict_zod (sample_env 2000) sample_query sample_after)" by code_simp
  then show ?thesis by (simp add: sample_page_def)
qed

lemma sample_after_inv: "chat_inv sample_after" "membership_inv sample_after"
  by code_simp+

theorem read_page_exact_witness:
  "sorted_wrt (<) (map cm_position (cp_messages sample_page)) \<and> length (cp_messages sample_page) \<le> 2 \<and>
   (row_message sample_stored \<in> set (cp_messages sample_page))"
proof -
  have a: "requireHistoryAccess (clk (sample_env 2000) 0) sample_query sample_after =
      Inr (StrictMembership, 0)" by code_simp
  have v: "visible (clk (sample_env 2000) 1) sample_query sample_after sample_stored"
    "effective_after sample_query StrictMembership 0 < c_position sample_stored"
    "c_position sample_stored \<le> cp_nextAfterPosition sample_page" by code_simp+
  have "0 < hq_limit sample_query" "hq_limit sample_query = 2" by (simp_all add: sample_query_def)
  with read_page_exact [OF sample_after_inv _ sample_page_evaluated a] v show ?thesis
    by (simp add: sample_after_def)
qed

section \<open>Following the cursors\<close>

text \<open>A reader that asks for the next page until there is no more. The fuel bounds the number of
  pages; one more than the number of stored messages is enough.\<close>

fun read_all :: "zod \<Rightarrow> chat_env \<Rightarrow> history_query \<Rightarrow> database \<Rightarrow> nat \<Rightarrow> chat_message list option" where
  "read_all z env query db 0 = None"
| "read_all z env query db (Suc fuel) =
     (case readPage z env query db of
       Inl _ \<Rightarrow> None
     | Inr page \<Rightarrow>
         if cp_hasMore page
         then map_option (\<lambda>rest. cp_messages page @ rest)
           (read_all z env (query\<lparr>hq_afterPosition := cp_nextAfterPosition page\<rparr>) db fuel)
         else Some (cp_messages page))"

lemma readPage_defined:
  assumes "chat_inv db" "membership_inv db"
    and "requireHistoryAccess (clk env 0) query db = Inr (policy, joinPosition)"
    and "head_of db (pr_meetingId (hq_principal query)) = Some p"
    and "list_all (messageRowSchema z) (visible_after (clk env 1) query db
      (effective_after query policy joinPosition))"
  shows "\<exists>page. readPage z env query db = Inr page"
proof -
  let ?rows = "visible_after (clk env 1) query db (effective_after query policy joinPosition)"
  obtain h where h: "first_row (filter (\<lambda>h. sh_meeting_id h = pr_meetingId (hq_principal query))
      (stream_heads db)) = Some h"
  proof (cases "filter (\<lambda>h. sh_meeting_id h = pr_meetingId (hq_principal query)) (stream_heads db)")
    case Nil
    then have "head_of db (pr_meetingId (hq_principal query)) = None"
      unfolding head_of_def map_of_eq_None_iff by (auto simp: filter_empty_conv)
    with assms(4) show ?thesis by simp
  qed (use that in simp)
  have rows: "page_rows (clk env 1) query (effective_after query policy joinPosition)
      (sh_last_position h) (hq_limit query + 1) db = take (hq_limit query + 1) ?rows"
    by (rule page_rows_visible_after [OF assms(1,2) head_row_of_filter [OF assms(1) h]])
  have "list_all (messageRowSchema z) (take (hq_limit query) (take (hq_limit query + 1) ?rows))"
    using assms(5) by (auto simp: list_all_iff dest: in_set_takeD)
  then have "map_rows (parseMessageRow z) (take (hq_limit query) (take (hq_limit query + 1) ?rows)) =
      Inr (map row_message (take (hq_limit query) (take (hq_limit query + 1) ?rows)))"
    by (simp add: map_rows_parseMessageRow)
  with assms(3) h rows show ?thesis
    by (simp add: readPage_def Let_def effective_after_def [symmetric])
qed

lemma requireHistoryAccess_cursor [simp]:
  "requireHistoryAccess now (query\<lparr>hq_afterPosition := p\<rparr>) db = requireHistoryAccess now query db"
  by (simp add: requireHistoryAccess_def)

lemma visible_cursor [simp]: "visible now (query\<lparr>hq_afterPosition := p\<rparr>) db r = visible now query db r"
  by (simp add: visible_def member_at_def)

lemma visible_after_cursor [simp]:
  "visible_after now (query\<lparr>hq_afterPosition := p\<rparr>) db after = visible_after now query db after"
  by (simp add: visible_after_def)

lemma visible_after_higher:
  "after \<le> p \<Longrightarrow> visible_after now query db p =
     filter (\<lambda>r. p < c_position r) (visible_after now query db after)"
  unfolding visible_after_def filter_sort [symmetric] filter_filter
  by (rule filter_cong) auto

lemma read_all_complete:
  assumes "chat_inv db" "membership_inv db"
    and "requireHistoryAccess (clk env 0) query db = Inr (policy, joinPosition)"
    and "head_of db (pr_meetingId (hq_principal query)) = Some p" and "0 < hq_limit query"
  shows "list_all (messageRowSchema z) (visible_after (clk env 1) query db
      (effective_after query policy joinPosition)) \<Longrightarrow>
    length (visible_after (clk env 1) query db (effective_after query policy joinPosition)) < fuel \<Longrightarrow>
    read_all z env query db fuel =
      Some (map row_message (visible_after (clk env 1) query db (effective_after query policy joinPosition)))"
  using assms(3-5)
proof (induction fuel arbitrary: query)
  case (Suc fuel)
  let ?after = "effective_after query policy joinPosition"
  let ?rows = "visible_after (clk env 1) query db ?after"
  obtain page where page: "readPage z env query db = Inr page"
    using readPage_defined [OF assms(1,2) Suc.prems(3,4,1)] by blast
  note take = readPage_take [OF assms(1,2) page Suc.prems(3,5)]
  from assms(1,2) page have messages: "cp_messages page = map row_message (take (hq_limit query) ?rows)"
    and more: "cp_hasMore page \<longleftrightarrow> length ?rows > hq_limit query"
    by (rule readPage_cases; use Suc.prems(3) in simp)+
  show ?case
  proof (cases "cp_hasMore page")
    case False
    then show ?thesis using page messages more by simp
  next
    case True
    let ?q = "query\<lparr>hq_afterPosition := cp_nextAfterPosition page\<rparr>"
    have ge: "?after \<le> cp_nextAfterPosition page"
    proof -
      have "take (hq_limit query) ?rows \<noteq> []" using True more Suc.prems(5) by auto
      then have "filter (\<lambda>r. c_position r \<le> cp_nextAfterPosition page) ?rows \<noteq> []"
        using take(1) messages by (metis map_is_Nil_conv)
      then obtain r where "r \<in> set ?rows" "c_position r \<le> cp_nextAfterPosition page"
        by (auto simp: filter_empty_conv)
      then show ?thesis by (simp add: visible_after_def)
    qed
    then have eff: "effective_after ?q policy joinPosition = cp_nextAfterPosition page"
      by (auto simp: effective_after_def)
    have rest: "visible_after (clk env 1) ?q db (effective_after ?q policy joinPosition) =
        drop (hq_limit query) ?rows"
      unfolding eff visible_after_cursor visible_after_higher [OF ge] using take(2) True by simp
    have "read_all z env ?q db fuel = Some (map row_message (drop (hq_limit query) ?rows))"
      unfolding rest [symmetric]
    proof (rule Suc.IH)
      show "list_all (messageRowSchema z) (visible_after (clk env 1) ?q db (effective_after ?q policy joinPosition))"
        unfolding rest using Suc.prems(1) by (auto simp: list_all_iff dest: in_set_dropD)
      show "length (visible_after (clk env 1) ?q db (effective_after ?q policy joinPosition)) < fuel"
        unfolding rest using Suc.prems(2,5) True more by simp
    qed (use Suc.prems in simp_all)
    then show ?thesis
      using True page messages by (simp flip: map_append)
  qed
qed simp

text \<open>C28. Following the cursors reads everything once: for any positive page size, a reader that
  passes each page's next cursor to the next request obtains every readable message above its starting
  point exactly once and in stream order, in at most one page more than there are messages.\<close>

theorem pagination_complete:
  assumes "chat_inv db" and "membership_inv db"
    and "requireHistoryAccess (clk env 0) query db = Inr (policy, joinPosition)"
    and "head_of db (pr_meetingId (hq_principal query)) = Some p" and "0 < hq_limit query"
    and "list_all (messageRowSchema z) (chat_messages db)"
  shows "read_all z env query db (Suc (length (chat_messages db))) =
    Some (map row_message (sort_key c_position (filter
      (\<lambda>r. visible (clk env 1) query db r \<and> effective_after query policy joinPosition < c_position r)
      (chat_messages db))))"
proof -
  have "length (filter P xs) < Suc (length xs)" for P and xs :: "chat_row list"
    using length_filter_le [of P xs] by (simp only: less_Suc_eq_le)
  then show ?thesis
    using read_all_complete [OF assms(1-5), of z "Suc (length (chat_messages db))"] assms(6)
    by (simp add: visible_after_def list_all_iff)
qed

theorem pagination_complete_witness:
  "read_all strict_zod (sample_env 2000) sample_query sample_after 2 = Some [row_message sample_stored]"
proof -
  have a: "requireHistoryAccess (clk (sample_env 2000) 0) sample_query sample_after =
      Inr (StrictMembership, 0)" by code_simp
  have h: "head_of sample_after (pr_meetingId (hq_principal sample_query)) = Some 42" by code_simp
  have z: "list_all (messageRowSchema strict_zod) (chat_messages sample_after)" by code_simp
  have v: "visible (clk (sample_env 2000) 1) sample_query sample_after sample_stored"
    "effective_after sample_query StrictMembership 0 < c_position sample_stored" by code_simp+
  have c: "chat_messages sample_after = [sample_stored]" by (simp add: sample_after_def)
  from pagination_complete [OF sample_after_inv a h _ z] show ?thesis
    unfolding c using v by (simp add: sample_query_def eval_nat_numeral)
qed

section \<open>Retention\<close>

text \<open>A retention pass is bounded and deletes only what has expired: it removes at most one
  batch of messages, every one of them expired, reports how many, keeps every other message and every
  head, and empties the expired set when the batch is large enough and nothing is locked.\<close>

theorem retention_deletes_only_expired:
  assumes "chat_inv db" and "deleteExpired now skip n db = Inr (k, db')"
  shows "k \<le> nat n \<and> k + length (chat_messages db') = length (chat_messages db) \<and>
    set (chat_messages db') \<subseteq> set (chat_messages db) \<and>
    (\<forall>r \<in> set (chat_messages db). c_expires_at r > now \<longrightarrow> r \<in> set (chat_messages db')) \<and>
    stream_heads db' = stream_heads db \<and>
    (length (chat_messages db) \<le> nat n \<longrightarrow> (\<forall>i. \<not> skip i) \<longrightarrow>
      (\<forall>r \<in> set (chat_messages db'). c_expires_at r > now))"
  using assms(2)
proof (cases rule: deleteExpired_cases)
  case (1 picked)
  let ?P = "\<lambda>r. c_expires_at r \<le> now \<and> \<not> skip (c_id r)"
  let ?sel = "select_limit ?P (\<lambda>r. (c_expires_at r, c_id r)) (nat n) (chat_messages db)"
  have dist: "distinct (map c_id (chat_messages db))"
    using assms(1) by (simp add: chat_inv_def messages_inv_def)
  have sat: "?P r" if "r \<in> set (chat_messages db)" "picked (c_id r)" for r
    by (rule picked_rows_satisfy [OF dist that(1)]) (use that(2) 1(1) in blast)
  have "distinct (map c_id (filter (\<lambda>r. picked (c_id r)) (chat_messages db)))"
    using dist by (rule distinct_map_filterI)
  then have "k = card (set (map c_id (filter (\<lambda>r. picked (c_id r)) (chat_messages db))))"
    unfolding 1(2) count_where_def using distinct_card by fastforce
  also have "\<dots> \<le> card (set (map c_id ?sel))"
    by (rule card_mono) (auto simp: 1(1))
  also have "\<dots> \<le> nat n"
    using card_length [of "map c_id ?sel"] length_select_limit [of ?P _ "nat n" "chat_messages db"]
    by (metis (no_types, lifting) le_trans length_map)
  finally have "k \<le> nat n" .
  moreover have "k + length (chat_messages db') = length (chat_messages db)"
    by (simp add: 1(2,3) count_where_def sum_length_filter_compl)
  moreover have "c_expires_at r > now" if "length (chat_messages db) \<le> nat n" "\<forall>i. \<not> skip i"
      "r \<in> set (chat_messages db')" for r
  proof (rule ccontr)
    assume "\<not> c_expires_at r > now"
    moreover have "set ?sel = {r \<in> set (chat_messages db). ?P r}"
      using that(1) by (simp add: select_limit_def take_all le_trans [OF length_filter_le])
    ultimately have "picked (c_id r)" using that(2,3) 1(1,3) by auto
    with that(3) 1(3) show False by simp
  qed
  moreover have "\<not> picked (c_id r)" if "r \<in> set (chat_messages db)" "c_expires_at r > now" for r
    using sat [OF that(1)] that(2) by linarith
  ultimately show ?thesis by (auto simp: 1(3))
qed

theorem retention_deletes_only_expired_witness:
  "sample_stored \<in> set (chat_messages (snd (projr (deleteExpired 5000 (\<lambda>_. False) 10 sample_after))))"
proof -
  let ?run = "deleteExpired 5000 (\<lambda>_. False) 10 sample_after"
  have "\<not> isl ?run" by code_simp
  then have run: "?run = Inr (fst (projr ?run), snd (projr ?run))" by (rule Inr_pair_of_eval)
  have "c_expires_at sample_stored > 5000" by code_simp
  moreover have "sample_stored \<in> set (chat_messages sample_after)" by (simp add: sample_after_def)
  ultimately show ?thesis
    using retention_deletes_only_expired [OF sample_after_inv(1) run] by blast
qed

end
