(* ===== verification/Keyring.thy ===== *)
theory Keyring
  imports ChatContracts
begin

text \<open>
  The two HMAC keyrings (\<open>modules/capabilities/hmac-keyring.service.ts\<close>): loading and checking a
  keyring, digesting with the current key, the bounded candidates for verification during a rotation,
  and the separation of contexts. HMAC-SHA-256, \<open>JSON.parse\<close> and the reading of a secret file are
  arguments.
\<close>

section \<open>Keyrings\<close>

record loaded_keyring =
  lk_currentVersion :: int
  lk_keys :: "(int \<times> bytes) list"

record versioned_digest =
  vd_version :: int
  vd_digest :: bytes

record session_credential_digests =
  scd_version :: int
  scd_tokenDigest :: bytes
  scd_csrfDigest :: bytes
  scd_deviceBindingDigest :: bytes

text \<open>\<open>/^[A-Za-z0-9_-]{43}$/\<close>: 256 bits in unpadded base64url.\<close>

definition BASE64URL_256 :: "string \<Rightarrow> bool" where
  "BASE64URL_256 s = (length s = 43 \<and> list_all (\<lambda>c. is_alnum c \<or> c \<in> set ''_-'') s)"

definition key_version_format :: "string \<Rightarrow> bool" where
  "key_version_format = head_tail (in_range 49 57) is_digit 4"

definition keyringSchema :: "json \<Rightarrow> (int \<times> (string \<times> string) list) option" where
  "keyringSchema v =
     (case v of
       JObj obj \<Rightarrow>
         (case (Option.bind (field obj ''currentVersion'') as_int, field obj ''keys'') of
           (Some i, Some (JObj ks)) \<Rightarrow>
             (if strict_keys [''currentVersion'', ''keys''] obj \<and> 1 \<le> i \<and> i \<le> 32767 \<and>
                 list_all (\<lambda>(k, _). key_version_format k) ks
              then (case all_some (map (\<lambda>(k, w). map_option (Pair k) (as_string w)) ks) of
                     None \<Rightarrow> None | Some entries \<Rightarrow> Some (i, entries))
              else None)
         | _ \<Rightarrow> None)
     | _ \<Rightarrow> None)"

fun decode_keys :: "string \<Rightarrow> (string \<times> string) list \<Rightarrow> (int \<times> bytes) list outcome" where
  "decode_keys label [] = Inr []"
| "decode_keys label ((rawVersion, encoded) # entries) =
     (if \<not> BASE64URL_256 encoded
      then Inl (ConfigurationError (label @ '' keyring contains an invalid 256-bit key''))
      else and_then (decode_keys label entries) (\<lambda>keys.
        Inr ((int (undec rawVersion), base64url_decode encoded) # keys)))"

definition loadKeyring ::
  "(string \<Rightarrow> string outcome) \<Rightarrow> (string \<Rightarrow> json option) \<Rightarrow> keyring_source \<Rightarrow> string \<Rightarrow> loaded_keyring outcome" where
  "loadKeyring readSecretFile json_parse source label =
     and_then (case ks_inlineSecret source of
         Some s \<Rightarrow> Inr s
       | None \<Rightarrow> (case ks_secretFile source of
           None \<Rightarrow> Inl (ConfigurationError (label @ '' keyring source is missing''))
         | Some f \<Rightarrow> readSecretFile f)) (\<lambda>serialized.
     and_then (require (json_parse serialized)
         (ConfigurationError (label @ '' keyring is not valid JSON''))) (\<lambda>input.
     and_then (require (keyringSchema input)
         (ConfigurationError (label @ '' keyring structure is invalid''))) (\<lambda>(currentVersion, entries).
     if length entries = 0 \<or> length entries > 3
     then Inl (ConfigurationError (label @ '' keyring must contain between one and three keys''))
     else and_then (decode_keys label entries) (\<lambda>keys.
       if map_of keys currentVersion = None
       then Inl (ConfigurationError (label @ '' keyring does not contain its current version''))
       else Inr \<lparr>lk_currentVersion = currentVersion, lk_keys = keys\<rparr>))))"

section \<open>Digests\<close>

definition hmac_input :: "string \<Rightarrow> bytes \<Rightarrow> bytes" where
  "hmac_input context v = utf8 (''hf:'' @ context @ '':v1'' @ [CHR 0x00]) @ v"

definition digest :: "(bytes \<Rightarrow> bytes \<Rightarrow> bytes) \<Rightarrow> bytes \<Rightarrow> string \<Rightarrow> bytes \<Rightarrow> bytes" where
  "digest hmac key context v = hmac key (hmac_input context v)"

definition decodeOpaqueSecret :: "string \<Rightarrow> string \<Rightarrow> bytes outcome" where
  "decodeOpaqueSecret value label =
     (if \<not> BASE64URL_256 value
      then Inl (ConfigurationError (label @ '' must be an unpadded 256-bit base64url value''))
      else Inr (base64url_decode value))"

definition digestCurrent ::
  "(bytes \<Rightarrow> bytes \<Rightarrow> bytes) \<Rightarrow> loaded_keyring \<Rightarrow> string \<Rightarrow> bytes \<Rightarrow> versioned_digest outcome" where
  "digestCurrent hmac keyring context v =
     and_then (require (map_of (lk_keys keyring) (lk_currentVersion keyring))
         (ConfigurationError ''Current HMAC key is unavailable'')) (\<lambda>key.
       Inr \<lparr>vd_version = lk_currentVersion keyring, vd_digest = digest hmac key context v\<rparr>)"

definition newest_first :: "loaded_keyring \<Rightarrow> (int \<times> bytes) list" where
  "newest_first keyring = sort_key (\<lambda>(version, _). - version) (lk_keys keyring)"

definition digestAll ::
  "(bytes \<Rightarrow> bytes \<Rightarrow> bytes) \<Rightarrow> loaded_keyring \<Rightarrow> string \<Rightarrow> bytes \<Rightarrow> versioned_digest list" where
  "digestAll hmac keyring context v =
     map (\<lambda>(version, key). \<lparr>vd_version = version, vd_digest = digest hmac key context v\<rparr>)
       (newest_first keyring)"

section \<open>The service\<close>

record hmac_service =
  hs_capability :: "loaded_keyring option"
  hs_session :: "loaded_keyring option"

definition hasEqualCurrentKey :: "loaded_keyring \<Rightarrow> loaded_keyring \<Rightarrow> bool" where
  "hasEqualCurrentKey left right =
     (case (map_of (lk_keys left) (lk_currentVersion left), map_of (lk_keys right) (lk_currentVersion right)) of
       (Some a, Some b) \<Rightarrow> a = b | _ \<Rightarrow> False)"

definition keyrings_init ::
  "(string \<Rightarrow> string outcome) \<Rightarrow> (string \<Rightarrow> json option) \<Rightarrow> meetings_config \<Rightarrow> hmac_service outcome" where
  "keyrings_init readSecretFile json_parse config =
     (if \<not> mc_enabled config then Inr \<lparr>hs_capability = None, hs_session = None\<rparr>
      else case (mc_capabilityKeyring config, mc_sessionKeyring config) of
        (Some capabilitySource, Some sessionSource) \<Rightarrow>
          and_then (loadKeyring readSecretFile json_parse capabilitySource ''capability'') (\<lambda>capability.
          and_then (loadKeyring readSecretFile json_parse sessionSource ''session'') (\<lambda>session.
          if hasEqualCurrentKey capability session
          then Inl (ConfigurationError ''Capability and session keyrings must use distinct keys'')
          else Inr \<lparr>hs_capability = Some capability, hs_session = Some session\<rparr>))
      | _ \<Rightarrow> Inl (ConfigurationError ''Anonymous meeting keyring sources are missing''))"

text \<open>Shutdown: the buffers are overwritten and the references dropped.\<close>

definition zeroKeyring :: "loaded_keyring \<Rightarrow> loaded_keyring" where
  "zeroKeyring k = k\<lparr>lk_keys := map (\<lambda>(version, key). (version, replicate (length key) 0)) (lk_keys k)\<rparr>"

definition keyrings_destroy :: "hmac_service \<Rightarrow> loaded_keyring list \<times> hmac_service" where
  "keyrings_destroy s =
     (map zeroKeyring (List.map_filter id [hs_capability s, hs_session s]),
      \<lparr>hs_capability = None, hs_session = None\<rparr>)"

definition requireCapability :: "hmac_service \<Rightarrow> loaded_keyring outcome" where
  "requireCapability s = require (hs_capability s) (ConfigurationError ''Capability keyring is not loaded'')"

definition requireSession :: "hmac_service \<Rightarrow> loaded_keyring outcome" where
  "requireSession s = require (hs_session s) (ConfigurationError ''Session keyring is not loaded'')"

definition digestCapability ::
  "(bytes \<Rightarrow> bytes \<Rightarrow> bytes) \<Rightarrow> hmac_service \<Rightarrow> string \<Rightarrow> versioned_digest outcome" where
  "digestCapability hmac s capability =
     and_then (decodeOpaqueSecret capability ''capability'') (\<lambda>secret.
     and_then (requireCapability s) (\<lambda>k. digestCurrent hmac k ''capability'' secret))"

definition capabilityCandidates ::
  "(bytes \<Rightarrow> bytes \<Rightarrow> bytes) \<Rightarrow> hmac_service \<Rightarrow> string \<Rightarrow> versioned_digest list outcome" where
  "capabilityCandidates hmac s capability =
     and_then (decodeOpaqueSecret capability ''capability'') (\<lambda>secret.
     and_then (requireCapability s) (\<lambda>k. Inr (digestAll hmac k ''capability'' secret)))"

definition digestSessionValue ::
  "(bytes \<Rightarrow> bytes \<Rightarrow> bytes) \<Rightarrow> hmac_service \<Rightarrow> string \<Rightarrow> string \<Rightarrow> versioned_digest outcome" where
  "digestSessionValue hmac s context value =
     and_then (decodeOpaqueSecret value context) (\<lambda>secret.
     and_then (requireSession s) (\<lambda>k. digestCurrent hmac k context secret))"

definition digestSession :: "(bytes \<Rightarrow> bytes \<Rightarrow> bytes) \<Rightarrow> hmac_service \<Rightarrow> string \<Rightarrow> versioned_digest outcome" where
  "digestSession hmac s token = digestSessionValue hmac s ''session'' token"

definition digestCsrf :: "(bytes \<Rightarrow> bytes \<Rightarrow> bytes) \<Rightarrow> hmac_service \<Rightarrow> string \<Rightarrow> versioned_digest outcome" where
  "digestCsrf hmac s token = digestSessionValue hmac s ''csrf'' token"

definition digestDeviceBinding :: "(bytes \<Rightarrow> bytes \<Rightarrow> bytes) \<Rightarrow> hmac_service \<Rightarrow> string \<Rightarrow> versioned_digest outcome" where
  "digestDeviceBinding hmac s value = digestSessionValue hmac s ''device-binding'' value"

definition sessionCredentialCandidates ::
  "(bytes \<Rightarrow> bytes \<Rightarrow> bytes) \<Rightarrow> hmac_service \<Rightarrow> string \<Rightarrow> string \<Rightarrow> string
     \<Rightarrow> session_credential_digests list outcome" where
  "sessionCredentialCandidates hmac s token csrfToken deviceBinding =
     and_then (decodeOpaqueSecret token ''session'') (\<lambda>tokenSecret.
     and_then (decodeOpaqueSecret csrfToken ''csrf'') (\<lambda>csrfSecret.
     and_then (decodeOpaqueSecret deviceBinding ''device-binding'') (\<lambda>deviceSecret.
     and_then (requireSession s) (\<lambda>k.
       Inr (map (\<lambda>(version, key).
              \<lparr>scd_version = version, scd_tokenDigest = digest hmac key ''session'' tokenSecret,
               scd_csrfDigest = digest hmac key ''csrf'' csrfSecret,
               scd_deviceBindingDigest = digest hmac key ''device-binding'' deviceSecret\<rparr>)
            (newest_first k))))))"

text \<open>\<open>randomBytes(32)\<close> is the argument.\<close>

definition generateOpaqueToken :: "bytes \<Rightarrow> string" where
  "generateOpaqueToken random = base64url_encode random"

definition digestsEqual :: "bytes \<Rightarrow> bytes \<Rightarrow> bool" where
  "digestsEqual left right = (length left = length right \<and> left = right)"

section \<open>What a loaded keyring satisfies\<close>

definition keyring_ok :: "loaded_keyring \<Rightarrow> bool" where
  "keyring_ok k =
     (distinct (map fst (lk_keys k)) \<and> 1 \<le> length (lk_keys k) \<and> length (lk_keys k) \<le> 3 \<and>
      list_all (\<lambda>(version, key). 1 \<le> version \<and> version < 100000 \<and> length key = 32) (lk_keys k) \<and>
      1 \<le> lk_currentVersion k \<and> lk_currentVersion k \<le> 32767 \<and>
      map_of (lk_keys k) (lk_currentVersion k) \<noteq> None)"

text \<open>\<open>JSON.parse\<close> makes objects, whose names are distinct.\<close>

definition distinct_names :: "json \<Rightarrow> bool" where
  "distinct_names v = (case v of JObj obj \<Rightarrow>
     (case field obj ''keys'' of Some (JObj ks) \<Rightarrow> distinct (map fst ks) | _ \<Rightarrow> True) | _ \<Rightarrow> True)"

lemma length_decode_sextets: "length (decode_sextets xs) = length xs * 3 div 4"
  by (induction xs rule: decode_sextets.induct) auto

lemma char_sextet_alphabet: "is_alnum c \<or> c \<in> set ''_-'' \<Longrightarrow> char_sextet c \<noteq> None"
  by (auto simp: char_sextet_def is_alnum_def)

lemma length_sextets:
  "list_all (\<lambda>c. is_alnum c \<or> c \<in> set ''_-'') s \<Longrightarrow> length (List.map_filter char_sextet s) = length s"
proof (induction s)
  case (Cons c s)
  then obtain n where "char_sextet c = Some n" using char_sextet_alphabet [of c] by auto
  then show ?case using Cons by (simp add: List.map_filter_simps)
qed (simp add: List.map_filter_simps)

lemma length_opaque_secret: "BASE64URL_256 s \<Longrightarrow> length (base64url_decode s) = 32"
  by (simp add: BASE64URL_256_def base64url_decode_def length_decode_sextets length_sextets)

lemma key_version_canonical: "key_version_format s \<Longrightarrow> canonical_decimal s"
  by (auto simp: key_version_format_def canonical_decimal_def head_tail_def split: list.splits)

lemma key_version_bounds: 
  assumes "key_version_format s"
  shows "1 \<le> undec s \<and> undec s < 100000"
proof -
  have s: "dec (undec s) = s" using assms by (intro dec_undec key_version_canonical)
  have head: "in_range 49 57 (hd s)" "s \<noteq> []" "length s \<le> 5"
    using assms by (auto simp: key_version_format_def head_tail_def split: list.splits)
  have digits: "list_all is_digit s"
    using assms by (auto simp: key_version_format_def head_tail_def is_digit_def in_range_def list_all_iff
      split: list.splits)
  have "undec s \<noteq> 0" using undec_pos [OF digits head(2,1)] by simp
  moreover have "undec s < 100000"
  proof -
    have "undec t < 10 ^ length t" if "list_all is_digit t" for t
      using that
    proof (induction t rule: rev_induct)
      case (snoc c t)
      then have "char_digit c < 10" by (simp add: char_digit_less)
      then show ?case using snoc by auto
    qed (simp add: undec_def)
    then have "undec s < 10 ^ length s" using digits by blast
    also have "\<dots> \<le> (10::nat) ^ 5" using head(3) by (intro power_increasing) auto
    finally show ?thesis by simp
  qed
  ultimately show ?thesis by simp
qed

lemma decode_keys_Inr:
  assumes "decode_keys label entries = Inr keys" "list_all (\<lambda>e. key_version_format (fst e)) entries"
  shows "map fst keys = map (\<lambda>e. int (undec (fst e))) entries \<and>
    list_all (\<lambda>(version, key). 1 \<le> version \<and> version < 100000 \<and> length key = 32) keys"
  using assms
proof (induction entries arbitrary: keys)
  case (Cons e entries)
  obtain k w where e: "e = (k, w)" by force
  from Cons.prems obtain ks where ks: "decode_keys label entries = Inr ks" "BASE64URL_256 w"
    "keys = (int (undec k), base64url_decode w) # ks"
    by (auto simp: e and_then_Inr_iff split: if_splits)
  have "1 \<le> undec k \<and> undec k < 100000" using Cons.prems(2) e key_version_bounds by simp
  then show ?case using Cons.IH [OF ks(1)] Cons.prems(2) ks e length_opaque_secret [of w] by simp
qed simp

lemma distinct_versions:
  assumes "distinct (map fst entries)" "list_all (\<lambda>e. key_version_format (fst e)) entries"
  shows "distinct (map (\<lambda>e. int (undec (fst e))) entries)"
proof -
  have "inj_on (\<lambda>e. int (undec (fst e))) (set entries)"
  proof (intro inj_onI)
    fix x y assume xy: "x \<in> set entries" "y \<in> set entries" "int (undec (fst x)) = int (undec (fst y))"
    then have "canonical_decimal (fst x)" "canonical_decimal (fst y)"
      using assms(2) by (auto simp: list_all_iff intro: key_version_canonical)
    with xy(3) have "fst x = fst y" by (metis dec_undec of_nat_eq_iff)
    then show "x = y" using assms(1) xy by (metis distinct_key_eq)
  qed
  then show ?thesis using assms(1) by (simp add: distinct_map)
qed

lemma keyringSchema_Some:
  assumes "keyringSchema v = Some (i, entries)" "distinct_names v"
  shows "1 \<le> i \<and> i \<le> 32767 \<and> list_all (\<lambda>e. key_version_format (fst e)) entries \<and> distinct (map fst entries)"
proof -
  from assms(1) obtain obj ks where v: "v = JObj obj" "field obj ''keys'' = Some (JObj ks)"
    "1 \<le> i" "i \<le> 32767" "list_all (\<lambda>(k, _). key_version_format k) ks"
    "all_some (map (\<lambda>(k, w). map_option (Pair k) (as_string w)) ks) = Some entries"
    by (auto simp: keyringSchema_def split: json.splits option.splits prod.splits if_splits)
  have "map fst entries = map fst ks"
    using all_some_SomeD [OF v(6)]
  proof (induction ks arbitrary: entries)
    case (Cons a ks)
    then show ?case by (cases entries) (auto split: prod.splits)
  qed simp
  then have names: "map fst entries = map fst ks" .
  have "list_all key_version_format (map fst entries)"
    unfolding names using v(5) by (auto simp: list_all_iff)
  then have "list_all (\<lambda>e. key_version_format (fst e)) entries" by (simp add: list_all_iff)
  then show ?thesis using v assms(2) names by (simp add: distinct_names_def)
qed

lemma loadKeyring_ok:
  assumes "loadKeyring readSecretFile json_parse source label = Inr k"
    and "\<And>s v. json_parse s = Some v \<Longrightarrow> distinct_names v"
  shows "keyring_ok k"
proof -
  from assms(1) obtain s v i entries keys where l: "json_parse s = Some v" "keyringSchema v = Some (i, entries)"
    "length entries \<noteq> 0" "length entries \<le> 3" "decode_keys label entries = Inr keys"
    "map_of keys i \<noteq> None" "k = \<lparr>lk_currentVersion = i, lk_keys = keys\<rparr>"
    by (auto simp: loadKeyring_def and_then_Inr_iff split: if_splits)
  note schema = keyringSchema_Some [OF l(2) assms(2) [OF l(1)]]
  then have "map fst keys = map (\<lambda>e. int (undec (fst e))) entries"
    and sizes: "list_all (\<lambda>(version, key). 1 \<le> version \<and> version < 100000 \<and> length key = 32) keys"
    using decode_keys_Inr [OF l(5)] by auto
  moreover from this have "length keys = length entries" by (metis length_map)
  ultimately show ?thesis
    using l schema distinct_versions [of entries] by (cases entries) (auto simp: keyring_ok_def)
qed

section \<open>Rotation and separation of contexts\<close>

lemma set_newest_first [simp]: "set (newest_first k) = set (lk_keys k)"
  by (simp add: newest_first_def)

lemma length_newest_first [simp]: "length (newest_first k) = length (lk_keys k)"
  by (simp add: newest_first_def)

lemma newest_first_descending:
  assumes "distinct (map fst (lk_keys k))"
  shows "sorted_wrt (\<lambda>a b. fst a > fst b) (newest_first k)"
proof -
  have "sorted (map (\<lambda>e. - fst e) (newest_first k))"
    unfolding newest_first_def by (simp add: case_prod_unfold)
  then have "sorted_wrt (\<lambda>a b. fst a \<ge> fst b) (newest_first k)"
    by (simp add: sorted_map)
  moreover have "distinct (map fst (newest_first k))"
    using assms by (simp add: newest_first_def distinct_map)
  ultimately show ?thesis
    by (auto simp: sorted_wrt_iff_nth_less distinct_conv_nth le_neq_trans)
qed

lemma digestCurrent_candidate:
  assumes "digestCurrent hmac k context v = Inr d"
    and "map_of (lk_keys k') (vd_version d) = map_of (lk_keys k) (vd_version d)"
  shows "d \<in> set (digestAll hmac k' context v)"
proof -
  from assms(1) obtain key where key: "map_of (lk_keys k) (lk_currentVersion k) = Some key"
    "d = \<lparr>vd_version = lk_currentVersion k, vd_digest = digest hmac key context v\<rparr>"
    by (auto simp: digestCurrent_def and_then_Inr_iff)
  then have "(lk_currentVersion k, key) \<in> set (lk_keys k')"
    using assms(2) by (auto intro: map_of_SomeD)
  then show ?thesis using key(2) by (force simp: digestAll_def)
qed

text \<open>Rotating the capability keyring does not invalidate what was issued under it: a capability
  digested with the current key of one keyring is among the candidates computed under any later keyring
  that still holds that key under its version, and the candidates are between one and three, newest
  version first and no version twice.\<close>

theorem rotation_keeps_capabilities:
  assumes "digestCapability hmac s capability = Inr d" and "hs_capability s = Some k"
    and "hs_capability s' = Some k'" and "keyring_ok k'"
    and "map_of (lk_keys k') (vd_version d) = map_of (lk_keys k) (vd_version d)"
  shows "\<exists>candidates. capabilityCandidates hmac s' capability = Inr candidates \<and> d \<in> set candidates \<and>
    1 \<le> length candidates \<and> length candidates \<le> 3 \<and>
    sorted_wrt (\<lambda>a b. vd_version a > vd_version b) candidates"
proof -
  from assms(1,2) obtain secret where secret: "decodeOpaqueSecret capability ''capability'' = Inr secret"
    "digestCurrent hmac k ''capability'' secret = Inr d"
    by (auto simp: digestCapability_def requireCapability_def and_then_Inr_iff)
  let ?c = "digestAll hmac k' ''capability'' secret"
  have "capabilityCandidates hmac s' capability = Inr ?c"
    using secret(1) assms(3) by (simp add: capabilityCandidates_def requireCapability_def)
  moreover have "d \<in> set ?c" using digestCurrent_candidate [OF secret(2) assms(5)] .
  moreover have "sorted_wrt (\<lambda>a b. vd_version a > vd_version b) ?c"
    using newest_first_descending [of k'] assms(4)
    by (simp add: digestAll_def sorted_wrt_map case_prod_unfold keyring_ok_def)
  ultimately show ?thesis using assms(4) by (simp add: digestAll_def keyring_ok_def)
qed

definition toy_hmac :: "bytes \<Rightarrow> bytes \<Rightarrow> bytes" where
  "toy_hmac key m = take 32 (key @ m)"

definition sample_keyring :: loaded_keyring where
  "sample_keyring = \<lparr>lk_currentVersion = 3, lk_keys = [(3, replicate 32 7)]\<rparr>"

definition sample_rotated :: loaded_keyring where
  "sample_rotated = \<lparr>lk_currentVersion = 4, lk_keys = [(3, replicate 32 7), (4, replicate 32 9)]\<rparr>"

definition sample_capability :: string where
  "sample_capability = replicate 43 (CHR ''A'')"

theorem rotation_keeps_capabilities_witness:
  "projr (digestCapability toy_hmac \<lparr>hs_capability = Some sample_keyring, hs_session = None\<rparr> sample_capability) \<in>
     set (projr (capabilityCandidates toy_hmac \<lparr>hs_capability = Some sample_rotated, hs_session = None\<rparr>
       sample_capability))"
proof -
  let ?s = "\<lparr>hs_capability = Some sample_keyring, hs_session = None\<rparr>"
  let ?s' = "\<lparr>hs_capability = Some sample_rotated, hs_session = None\<rparr>"
  have eval: "\<not> isl (digestCapability toy_hmac ?s sample_capability)" by code_simp
  then have d: "digestCapability toy_hmac ?s sample_capability =
      Inr (projr (digestCapability toy_hmac ?s sample_capability))" by (cases "digestCapability toy_hmac ?s sample_capability") auto
  have ok: "keyring_ok sample_rotated" by code_simp
  have same: "map_of (lk_keys sample_rotated) (vd_version (projr (digestCapability toy_hmac ?s sample_capability))) =
      map_of (lk_keys sample_keyring) (vd_version (projr (digestCapability toy_hmac ?s sample_capability)))"
    by code_simp
  from rotation_keeps_capabilities [OF d, of sample_keyring ?s' sample_rotated] ok same show ?thesis by auto
qed

text \<open>The inputs of HMAC separate the contexts: no value of one context is digested as a value of
  another.\<close>

definition nul_free :: "string \<Rightarrow> bool" where
  "nul_free s = (CHR 0x00 \<notin> set s)"

lemma zero_not_in_utf8: "nul_free s \<Longrightarrow> 0 \<notin> set (utf8 s)"
proof (induction s)
  case (Cons c s)
  have small: "(of_nat n :: byte) = 0 \<Longrightarrow> n < 256 \<Longrightarrow> n = 0" for n
    by (metis unat_small_byte unsigned_0)
  have nul: "of_char c \<noteq> (0::nat)"
  proof
    assume "of_char c = (0::nat)"
    then have "of_char c = (of_char (CHR 0x00) :: nat)" by simp
    then have "c = CHR 0x00" by (simp only: of_char_eq_iff)
    then show False using Cons.prems by (simp add: nul_free_def)
  qed
  have "0 \<notin> set (utf8_char c)"
  proof (cases rule: utf8_char_cases [of c])
    case one
    then show ?thesis using small [of "of_char c"] nul by auto
  next
    case two
    have "192 + of_char c div 64 < (256::nat)" "128 + of_char c mod 64 < (256::nat)"
      using of_char_less_256 [of c] by linarith+
    then show ?thesis unfolding two(1)
      using small [of "192 + of_char c div 64"] small [of "128 + of_char c mod 64"] by auto
  qed
  then show ?case using Cons by (simp add: nul_free_def)
qed simp

lemma utf8_nul: "utf8 [CHR 0x00] = [0]"
  by (simp add: utf8_char_def)

lemma split_at_nul:
  assumes "nul_free a" "nul_free b" "utf8 (a @ [CHR 0x00]) @ v = utf8 (b @ [CHR 0x00]) @ w"
  shows "a = b \<and> v = w"
  using split_at_separator [of "utf8 a" 0 v "utf8 b" w] assms zero_not_in_utf8 [OF assms(1)]
    zero_not_in_utf8 [OF assms(2)] by (simp add: utf8_nul del: utf8_simps(2))

lemma hmac_input_inject:
  assumes "nul_free context" "nul_free context'" "hmac_input context v = hmac_input context' w"
  shows "context = context' \<and> v = w"
proof -
  have "nul_free (''hf:'' @ context @ '':v1'')" "nul_free (''hf:'' @ context' @ '':v1'')"
    using assms(1,2) by (auto simp: nul_free_def)
  from split_at_nul [OF this, of v w] assms(3) show ?thesis by (simp add: hmac_input_def)
qed

end
