(* ===== verification/MeetingRepository.thy ===== *)
theory MeetingRepository
  imports Keyring ChatAcceptance
begin

text \<open>
  Creating and joining a meeting (\<open>modules/meetings/postgres-meeting.repository.ts\<close>): the two
  serializable transactions, statement by statement. Fresh identifiers and clock readings come from
  the environment of the attempt.
\<close>

section \<open>Commands and results\<close>

record session_material =
  sn_token :: string
  sn_tokenDigest :: versioned_digest
  sn_csrfToken :: string
  sn_csrfDigest :: versioned_digest
  sn_deviceBindingDigest :: versioned_digest

record persist_create =
  pc_commandId :: uuid
  pc_requestFingerprint :: bytes
  pc_mode :: meeting_mode
  pc_displayName :: code_points
  pc_hostCapability :: versioned_digest
  pc_inviteCapability :: versioned_digest
  pc_session :: session_material
  pc_traceId :: string

record persist_join =
  pj_meetingId :: uuid
  pj_commandId :: uuid
  pj_requestFingerprint :: bytes
  pj_displayName :: code_points
  pj_inviteCandidates :: "versioned_digest list"
  pj_session :: session_material
  pj_traceId :: string

record anonymous_session =
  an_meetingId :: uuid
  an_participantId :: uuid
  an_sessionToken :: string
  an_csrfToken :: string
  an_role :: product_role
  an_replayed :: bool

record meeting_env =
  mv_clk :: "nat \<Rightarrow> instant"
  mv_meetingId :: uuid
  mv_participantId :: uuid
  mv_hostCapabilityId :: uuid
  mv_inviteCapabilityId :: uuid
  mv_sessionId :: uuid
  mv_deliveryId :: uuid
  mv_eventId :: uuid

fun mode_name :: "meeting_mode \<Rightarrow> string" where
  "mode_name VideoConference = ''video_conference''"
| "mode_name AudioCall = ''audio_call''"
| "mode_name Live = ''live''"

fun role_name :: "product_role \<Rightarrow> string" where
  "role_name Host = ''host''"
| "role_name Participant = ''participant''"
| "role_name Presenter = ''presenter''"
| "role_name Viewer = ''viewer''"

definition not_null_violation :: failure where "not_null_violation = PgError ''23502''"

definition invalidInvitation :: failure where
  "invalidInvitation = app_failure ''INVITATION_INVALID'' Authentication
     ''The meeting invitation is invalid or unavailable.''"

definition requireSingleRow :: "'r list \<Rightarrow> string \<Rightarrow> 'r outcome" where
  "requireSingleRow rows operation =
     require (first_row rows) (PlainError (''PostgreSQL returned no row for '' @ operation))"

section \<open>Idempotent commands\<close>

text \<open>\<open>INSERT ... ON CONFLICT DO NOTHING\<close>, then the stored row when there was one.\<close>

definition reserveCommand ::
  "instant \<Rightarrow> string \<Rightarrow> uuid \<Rightarrow> bytes \<Rightarrow> (database, command_row option) tx" where
  "reserveCommand now scope commandId fingerprint db =
     (let r = \<lparr>cr_scope = scope, cr_command_id = commandId, cr_fingerprint = fingerprint,
            cr_status = CmdInProgress, cr_resource_id = None, cr_metadata = [], cr_created_at = now,
            cr_expires_at = now + 86400000\<rparr>;
          same = (\<lambda>q. cr_scope q = scope \<and> cr_command_id q = commandId)
      in if \<not> command_checks r then Inl check_violation
         else if \<not> list_ex same (command_results db)
         then Inr (None, db\<lparr>command_results := command_results db @ [r]\<rparr>)
         else and_then (requireSingleRow (filter same (command_results db)) ''idempotent command'') (\<lambda>row.
           if cr_fingerprint row \<noteq> fingerprint
           then Inl (app_failure ''IDEMPOTENCY_KEY_REUSED'' Conflict
             ''The command identifier was already used with different input.'')
           else Inr (Some row, db)))"

definition completeCommand :: "string \<Rightarrow> uuid \<Rightarrow> uuid \<Rightarrow> uuid \<Rightarrow> (database, unit) tx" where
  "completeCommand scope commandId meetingId participantId db =
     (let P = (\<lambda>q. cr_scope q = scope \<and> cr_command_id q = commandId \<and> cr_status q = CmdInProgress);
          done = (\<lambda>q. q\<lparr>cr_status := CmdSucceeded, cr_resource_id := Some meetingId,
            cr_metadata := [(''participantId'', JStr participantId)]\<rparr>)
      in and_then (ensure (count_where P (command_results db) = 1)
           (PlainError ''Idempotent command completion was lost'')) (\<lambda>_.
         Inr ((), db\<lparr>command_results := update_where P done (command_results db)\<rparr>)))"

section \<open>Inserts\<close>

definition insert_participant :: "participant \<Rightarrow> (database, participant) tx" where
  "insert_participant r db =
     (if \<not> list_ex (\<lambda>m. m_id m = p_meeting_id r) (meetings db) then Inl foreign_key_violation
      else and_then (insert_row participant_checks (\<lambda>a b. p_id a = p_id b) r (participants db)) (\<lambda>rows.
        Inr (r, db\<lparr>participants := rows\<rparr>)))"

text \<open>\<open>LEAST\<close> ignores \<open>NULL\<close>, which the subselect yields for an unknown meeting.\<close>

definition meeting_expiry :: "uuid \<Rightarrow> database \<Rightarrow> instant option" where
  "meeting_expiry meetingId db =
     map_option m_expires_at (first_row (filter (\<lambda>m. m_id m = meetingId) (meetings db)))"

definition least_known :: "instant \<Rightarrow> instant option \<Rightarrow> instant" where
  "least_known a b = (case b of None \<Rightarrow> a | Some t \<Rightarrow> min a t)"

definition new_capability ::
  "meetings_config \<Rightarrow> instant \<Rightarrow> uuid \<Rightarrow> capability_kind \<Rightarrow> string \<Rightarrow> versioned_digest \<Rightarrow> uuid \<Rightarrow> database \<Rightarrow> capability" where
  "new_capability config now i kind profile d meetingId db =
     \<lparr>cap_id = i, cap_meeting_id = meetingId, cap_kind = kind, cap_secret_digest = vd_digest d,
      cap_pepper_version = vd_version d, cap_grant_profile = profile,
      cap_expires_at = least_known (now + mc_capabilityTtlSeconds config * 1000) (meeting_expiry meetingId db),
      cap_revoked_at = None, cap_max_uses = None, cap_use_count = 0, cap_created_at = now,
      cap_last_used_at = None\<rparr>"

definition insertCapabilities ::
  "meetings_config \<Rightarrow> meeting_env \<Rightarrow> instant \<Rightarrow> uuid \<Rightarrow> persist_create \<Rightarrow> (database, unit) tx" where
  "insertCapabilities config env now meetingId command db =
     (let host = new_capability config now (mv_hostCapabilityId env) CapHost ''host''
            (pc_hostCapability command) meetingId db;
          invite = new_capability config now (mv_inviteCapabilityId env) CapInvite ''participant''
            (pc_inviteCapability command) meetingId db
      in and_then (insert_row capability_checks capability_same_key host (capabilities db)) (\<lambda>rows.
         and_then (insert_row capability_checks capability_same_key invite rows) (\<lambda>rows'.
         Inr ((), db\<lparr>capabilities := rows'\<rparr>))))"

definition new_session ::
  "meetings_config \<Rightarrow> instant \<Rightarrow> uuid \<Rightarrow> uuid \<Rightarrow> uuid \<Rightarrow> session_material \<Rightarrow> database \<Rightarrow> psession" where
  "new_session config now i meetingId participantId session db =
     \<lparr>s_id = i, s_participant_id = participantId, s_token_digest = vd_digest (sn_tokenDigest session),
      s_pepper_version = vd_version (sn_tokenDigest session),
      s_device_binding_digest = vd_digest (sn_deviceBindingDigest session),
      s_csrf_token_digest = vd_digest (sn_csrfDigest session), s_state = SActive, s_issued_at = now,
      s_last_seen_at = now,
      s_idle_expires_at = least_known (now + mc_sessionIdleTtlSeconds config * 1000) (meeting_expiry meetingId db),
      s_absolute_expires_at =
        least_known (now + mc_sessionAbsoluteTtlSeconds config * 1000) (meeting_expiry meetingId db)\<rparr>"

definition insertSession ::
  "meetings_config \<Rightarrow> meeting_env \<Rightarrow> instant \<Rightarrow> uuid \<Rightarrow> uuid \<Rightarrow> session_material \<Rightarrow> (database, unit) tx" where
  "insertSession config env now meetingId participantId session db =
     (if vd_version (sn_tokenDigest session) \<noteq> vd_version (sn_csrfDigest session) \<or>
         vd_version (sn_tokenDigest session) \<noteq> vd_version (sn_deviceBindingDigest session)
      then Inl (PlainError ''Session digests must use one keyring version'')
      else if \<not> list_ex (\<lambda>p. p_id p = participantId) (participants db) then Inl foreign_key_violation
      else and_then (insert_row session_checks session_same_key
             (new_session config now (mv_sessionId env) meetingId participantId session db) (sessions db)) (\<lambda>rows.
           Inr ((), db\<lparr>sessions := rows\<rparr>)))"

definition meeting_outbox_row ::
  "meeting_env \<Rightarrow> instant \<Rightarrow> uuid \<Rightarrow> uuid \<Rightarrow> string \<Rightarrow> outbox_row" where
  "meeting_outbox_row env now meetingId participantId eventType =
     \<lparr>ob_delivery_id = mv_deliveryId env, ob_event_id = mv_eventId env, ob_aggregate_type = ''meeting'',
      ob_aggregate_id = meetingId, ob_meeting_id = Some meetingId, ob_event_type = eventType,
      ob_event_version = 1, ob_destination = KafkaBackend, ob_partition_key = meetingId,
      ob_payload = [(''meetingId'', JStr meetingId), (''participantId'', JStr participantId)],
      ob_available_at = now, ob_created_at = now, ob_attempts = 0, ob_locked_by = None,
      ob_locked_until = None, ob_published_at = None, ob_dead_at = None, ob_last_error_code = None\<rparr>"

definition writeAuditAndOutbox ::
  "meeting_env \<Rightarrow> instant \<Rightarrow> uuid \<Rightarrow> uuid \<Rightarrow> string \<Rightarrow> string \<Rightarrow> string \<Rightarrow> string \<Rightarrow> (database, unit) tx" where
  "writeAuditAndOutbox env now meetingId participantId action decisionCode eventType traceId db =
     and_then (insert_row outbox_row_checks outbox_row_same_key
         (meeting_outbox_row env now meetingId participantId eventType) (outbox_events db)) (\<lambda>rows.
       Inr ((), db\<lparr>security_audit := security_audit db @ [\<lparr>au_meeting_id = Some meetingId,
           au_actor_participant_id = Some participantId, au_action = action,
           au_decision_code = decisionCode, au_trace_id = traceId\<rparr>],
         outbox_events := rows\<rparr>))"

definition sessionResult ::
  "uuid \<Rightarrow> uuid \<Rightarrow> session_material \<Rightarrow> product_role \<Rightarrow> bool \<Rightarrow> anonymous_session" where
  "sessionResult meetingId participantId session role replayed =
     \<lparr>an_meetingId = meetingId, an_participantId = participantId, an_sessionToken = sn_token session,
      an_csrfToken = sn_csrfToken session, an_role = role, an_replayed = replayed\<rparr>"

text \<open>\<open>z.object({ participantId: z.uuid() }).strict()\<close>\<close>

definition replayMetadataSchema :: "zod \<Rightarrow> (string \<times> json) list \<Rightarrow> uuid option" where
  "replayMetadataSchema z obj =
     (if strict_keys [''participantId''] obj then guarded (z_uuid z) (string_field obj ''participantId'') else None)"

definition replaySession ::
  "zod \<Rightarrow> meetings_config \<Rightarrow> meeting_env \<Rightarrow> instant \<Rightarrow> command_row \<Rightarrow> session_material \<Rightarrow> product_role
     \<Rightarrow> (database, anonymous_session) tx" where
  "replaySession z config env now existing session role db =
     (case (cr_status existing = CmdSucceeded, cr_resource_id existing) of
       (True, Some meetingId) \<Rightarrow>
         and_then (require (replayMetadataSchema z (cr_metadata existing))
             (PlainError ''Stored command metadata is invalid'')) (\<lambda>participantId.
         and_then (insertSession config env now meetingId participantId session db) (\<lambda>(_, db').
         Inr (sessionResult meetingId participantId session role True, db')))
     | _ \<Rightarrow> Inl (app_failure ''COMMAND_IN_PROGRESS'' Conflict ''The idempotent command has not completed.''))"

section \<open>Create\<close>

definition new_meeting :: "meetings_config \<Rightarrow> instant \<Rightarrow> uuid \<Rightarrow> meeting_mode \<Rightarrow> meeting" where
  "new_meeting config now i mode =
     \<lparr>m_id = i, m_mode = mode, m_state = MOpen,
      m_chat_policy = JObj [(''version'', JInt 1), (''writers'', JStr ''participants'')],
      m_media_e2ee_policy = E2eeRequired, m_history_policy = StrictMembership, m_created_at = now,
      m_expires_at = now + mc_meetingTtlSeconds config * 1000, m_activated_at = None, m_version = 1\<rparr>"

definition new_head :: "instant \<Rightarrow> uuid \<Rightarrow> stream_head" where
  "new_head now meetingId = \<lparr>sh_meeting_id = meetingId, sh_last_position = 0, sh_updated_at = now\<rparr>"

definition new_host :: "meeting_env \<Rightarrow> persist_create \<Rightarrow> participant" where
  "new_host env command =
     \<lparr>p_id = mv_participantId env, p_meeting_id = mv_meetingId env,
      p_display_name = pc_displayName command, p_product_role = Host, p_sfu_role = SfuHost,
      p_permission_profile = mode_name (pc_mode command) @ '':host'',
      p_permission_profile_version = 1, p_state = PPendingKeySync, p_chat_join_position = 0\<rparr>"

definition create_body ::
  "meetings_config \<Rightarrow> meeting_env \<Rightarrow> persist_create \<Rightarrow> (database, anonymous_session) tx" where
  "create_body config env command db =
     (let m = mv_meetingId env; p = mv_participantId env in
     and_then (insert_row meeting_checks (\<lambda>a b. m_id a = m_id b)
         (new_meeting config (mv_clk env 1) m (pc_mode command)) (meetings db)) (\<lambda>rows.
     let db1 = db\<lparr>meetings := rows\<rparr> in
     and_then (insert_row (\<lambda>_. True) (\<lambda>a b. sh_meeting_id a = sh_meeting_id b)
         (new_head (mv_clk env 2) m) (stream_heads db1)) (\<lambda>heads.
     and_then (insert_participant (new_host env command) (db1\<lparr>stream_heads := heads\<rparr>)) (\<lambda>(_, db2).
     and_then (insertCapabilities config env (mv_clk env 3) m command db2) (\<lambda>(_, db3).
     and_then (insertSession config env (mv_clk env 4) m p (pc_session command) db3) (\<lambda>(_, db4).
     and_then (writeAuditAndOutbox env (mv_clk env 5) m p ''meeting.create'' ''MEETING_CREATED''
         ''meeting.created'' (pc_traceId command) db4) (\<lambda>(_, db5).
     and_then (completeCommand ''meeting.create'' (pc_commandId command) m p db5) (\<lambda>(_, db6).
     Inr (sessionResult m p (pc_session command) Host False, db6)))))))))"

definition meeting_create ::
  "zod \<Rightarrow> meetings_config \<Rightarrow> meeting_env \<Rightarrow> persist_create \<Rightarrow> (database, anonymous_session) tx" where
  "meeting_create z config env command db =
     and_then (reserveCommand (mv_clk env 0) ''meeting.create'' (pc_commandId command)
         (pc_requestFingerprint command) db) (\<lambda>(existing, db0).
     case existing of
       Some row \<Rightarrow> replaySession z config env (mv_clk env 1) row (pc_session command) Host db0
     | None \<Rightarrow> create_body config env command db0)"

section \<open>Join\<close>

definition joinable :: "instant \<Rightarrow> uuid \<Rightarrow> meeting \<Rightarrow> bool" where
  "joinable now meetingId m =
     (m_id m = meetingId \<and> m_state m \<in> {MOpen, MActive} \<and> m_expires_at m > now)"

definition live_invite :: "instant \<Rightarrow> persist_join \<Rightarrow> capability \<Rightarrow> bool" where
  "live_invite now command c =
     (cap_meeting_id c = pj_meetingId command \<and> cap_kind c = CapInvite \<and> cap_revoked_at c = None \<and>
      cap_expires_at c > now \<and>
      (case cap_max_uses c of None \<Rightarrow> True | Some n \<Rightarrow> cap_use_count c < n) \<and>
      list_ex (\<lambda>d. cap_pepper_version c = vd_version d \<and> cap_secret_digest c = vd_digest d)
        (pj_inviteCandidates command))"

definition findInviteCapability :: "instant \<Rightarrow> persist_join \<Rightarrow> database \<Rightarrow> capability option outcome" where
  "findInviteCapability now command db =
     (if length (pj_inviteCandidates command) < 1 \<or> length (pj_inviteCandidates command) > 3
      then Inl (PlainError ''Invite candidate count is outside the keyring bound'')
      else Inr (first_row (select_limit (live_invite now command) (\<lambda>c. - cap_pepper_version c) 1
             (capabilities db))))"

definition candidateMatches :: "capability \<Rightarrow> persist_join \<Rightarrow> bool" where
  "candidateMatches c command =
     (case find (\<lambda>d. vd_version d = cap_pepper_version c) (pj_inviteCandidates command) of
       None \<Rightarrow> False
     | Some d \<Rightarrow> length (vd_digest d) = length (cap_secret_digest c) \<and> vd_digest d = cap_secret_digest c)"

definition join_role :: "meeting_mode \<Rightarrow> product_role" where
  "join_role mode = (if mode = Live then Viewer else Participant)"

definition use_capability :: "instant \<Rightarrow> uuid \<Rightarrow> (database, unit) tx" where
  "use_capability now i db =
     (let used = (\<lambda>c. c\<lparr>cap_use_count := cap_use_count c + 1, cap_last_used_at := Some now\<rparr>);
          rows = update_where (\<lambda>c. cap_id c = i) used (capabilities db)
      in if list_ex (\<lambda>c. cap_id c = i \<and> \<not> capability_checks c) rows then Inl check_violation
         else Inr ((), db\<lparr>capabilities := rows\<rparr>))"

definition new_member :: "meeting_env \<Rightarrow> persist_join \<Rightarrow> meeting \<Rightarrow> int \<Rightarrow> participant" where
  "new_member env command m position =
     (let role = join_role (m_mode m) in
     \<lparr>p_id = mv_participantId env, p_meeting_id = m_id m, p_display_name = pj_displayName command,
      p_product_role = role, p_sfu_role = (if role = Viewer then SfuViewer else SfuSpeaker),
      p_permission_profile = mode_name (m_mode m) @ '':'' @ role_name role,
      p_permission_profile_version = 1, p_state = PPendingKeySync, p_chat_join_position = position\<rparr>)"

definition join_body ::
  "meetings_config \<Rightarrow> meeting_env \<Rightarrow> persist_join \<Rightarrow> meeting \<Rightarrow> capability \<Rightarrow> (database, anonymous_session) tx" where
  "join_body config env command m c db =
     (let p = mv_participantId env in
     and_then (use_capability (mv_clk env 3) (cap_id c) db) (\<lambda>(_, db1).
     and_then (require (first_row (filter (\<lambda>h. sh_meeting_id h = m_id m) (stream_heads db1)))
         not_null_violation) (\<lambda>h.
     and_then (insert_participant (new_member env command m (sh_last_position h)) db1) (\<lambda>(_, db2).
     and_then (insertSession config env (mv_clk env 4) (m_id m) p (pj_session command) db2) (\<lambda>(_, db3).
     and_then (writeAuditAndOutbox env (mv_clk env 5) (m_id m) p ''meeting.join'' ''INVITATION_ACCEPTED''
         ''participant.joined'' (pj_traceId command) db3) (\<lambda>(_, db4).
     and_then (completeCommand ''meeting.join'' (pj_commandId command) (m_id m) p db4) (\<lambda>(_, db5).
     Inr (sessionResult (m_id m) p (pj_session command) (join_role (m_mode m)) False, db5))))))))"

definition meeting_join ::
  "zod \<Rightarrow> meetings_config \<Rightarrow> meeting_env \<Rightarrow> persist_join \<Rightarrow> (database, anonymous_session) tx" where
  "meeting_join z config env command db =
     and_then (require (first_row (filter (joinable (mv_clk env 0) (pj_meetingId command)) (meetings db)))
         invalidInvitation) (\<lambda>m.
     and_then (findInviteCapability (mv_clk env 1) command db) (\<lambda>found.
     and_then (require found invalidInvitation) (\<lambda>c.
     and_then (ensure (candidateMatches c command) invalidInvitation) (\<lambda>_.
     and_then (reserveCommand (mv_clk env 2) ''meeting.join'' (pj_commandId command)
         (pj_requestFingerprint command) db) (\<lambda>(existing, db0).
     case existing of
       Some row \<Rightarrow>
         replaySession z config env (mv_clk env 3) row (pj_session command) (join_role (m_mode m)) db0
     | None \<Rightarrow> join_body config env command m c db0)))))"

end
