(* ===== verification/Meetings.thy ===== *)
theory Meetings
  imports MeetingRepository ChatOrdering
begin

text \<open>
  What the two meeting transactions guarantee: what a creation writes, who may join and what a join
  writes, idempotency of both, and that they keep the invariants of the chat and the outbox.
\<close>

section \<open>Statements\<close>

lemma reserveCommand_None:
  assumes "reserveCommand now scope i fp db = Inr (None, db')"
  shows "\<exists>r. db' = db\<lparr>command_results := command_results db @ [r]\<rparr> \<and> cr_scope r = scope \<and>
    cr_command_id r = i \<and> cr_fingerprint r = fp \<and> cr_status r = CmdInProgress \<and>
    cr_created_at r = now \<and> cr_expires_at r = now + 86400000 \<and>
    (\<forall>q \<in> set (command_results db). \<not> (cr_scope q = scope \<and> cr_command_id q = i))"
  using assms by (auto simp: reserveCommand_def Let_def and_then_Inr_iff list_ex_iff split: if_splits)

lemma reserveCommand_Some:
  assumes "reserveCommand now scope i fp db = Inr (Some row, db')"
  shows "db' = db \<and> row \<in> set (command_results db) \<and> cr_scope row = scope \<and> cr_command_id row = i \<and>
    cr_fingerprint row = fp"
  using assms
  by (auto simp: reserveCommand_def Let_def and_then_Inr_iff requireSingleRow_def split: if_splits
      dest!: first_row_filter_SomeD)

lemma completeCommand_new:
  assumes "\<forall>q \<in> set rows. \<not> (cr_scope q = scope \<and> cr_command_id q = i)"
    and "cr_scope r = scope" "cr_command_id r = i" "cr_status r = CmdInProgress"
    and "command_results db = rows @ [r]"
  shows "completeCommand scope i m p db = Inr ((), db\<lparr>command_results := rows @
    [r\<lparr>cr_status := CmdSucceeded, cr_resource_id := Some m, cr_metadata := [(''participantId'', JStr p)]\<rparr>]\<rparr>)"
proof -
  let ?P = "\<lambda>q. cr_scope q = scope \<and> cr_command_id q = i \<and> cr_status q = CmdInProgress"
  have none: "\<And>q. q \<in> set rows \<Longrightarrow> \<not> ?P q" using assms(1) by blast
  then have "filter ?P rows = []" by (simp add: filter_empty_conv)
  moreover have "update_where ?P f rows = rows" for f
    unfolding update_where_def using none by (intro map_idI) auto
  ultimately show ?thesis using assms(2-5)
    by (simp add: completeCommand_def Let_def count_where_def update_where_def)
qed

lemma meeting_expiry_new:
  assumes "\<forall>q \<in> set rows. m_id q \<noteq> m_id m" "meetings db = rows @ [m]"
  shows "meeting_expiry (m_id m) db = Some (m_expires_at m)"
proof -
  have "filter (\<lambda>q. m_id q = m_id m) rows = []" using assms(1) by (auto simp: filter_empty_conv)
  then show ?thesis using assms(2) by (simp add: meeting_expiry_def first_row_def)
qed

lemma insert_participant_Inr:
  "insert_participant r db = Inr (x, db') \<longleftrightarrow>
     x = r \<and> list_ex (\<lambda>m. m_id m = p_meeting_id r) (meetings db) \<and> participant_checks r \<and>
     (\<forall>q \<in> set (participants db). p_id r \<noteq> p_id q) \<and> db' = db\<lparr>participants := participants db @ [r]\<rparr>"
  by (auto simp: insert_participant_def and_then_Inr_iff insert_row_Inr_iff)

lemma insertSession_Inr:
  "insertSession config env now m p s db = Inr (u, db') \<longleftrightarrow>
     vd_version (sn_tokenDigest s) = vd_version (sn_csrfDigest s) \<and>
     vd_version (sn_tokenDigest s) = vd_version (sn_deviceBindingDigest s) \<and>
     list_ex (\<lambda>q. p_id q = p) (participants db) \<and>
     session_checks (new_session config now (mv_sessionId env) m p s db) \<and>
     (\<forall>q \<in> set (sessions db). \<not> session_same_key (new_session config now (mv_sessionId env) m p s db) q) \<and>
     db' = db\<lparr>sessions := sessions db @ [new_session config now (mv_sessionId env) m p s db]\<rparr>"
  by (auto simp: insertSession_def and_then_Inr_iff insert_row_Inr_iff)

lemma writeAuditAndOutbox_Inr:
  "writeAuditAndOutbox env now m p action code event trace db = Inr (u, db') \<longleftrightarrow>
     outbox_row_checks (meeting_outbox_row env now m p event) \<and>
     (\<forall>q \<in> set (outbox_events db). \<not> outbox_row_same_key (meeting_outbox_row env now m p event) q) \<and>
     db' = db\<lparr>security_audit := security_audit db @ [\<lparr>au_meeting_id = Some m,
        au_actor_participant_id = Some p, au_action = action, au_decision_code = code, au_trace_id = trace\<rparr>],
       outbox_events := outbox_events db @ [meeting_outbox_row env now m p event]\<rparr>"
  by (auto simp: writeAuditAndOutbox_def and_then_Inr_iff insert_row_Inr_iff)

lemmas statement_iffs = insert_participant_Inr insertSession_Inr writeAuditAndOutbox_Inr insert_row_Inr_iff

lemma select_first_SomeD: "first_row (select_limit P key n rows) = Some r \<Longrightarrow> r \<in> set rows \<and> P r"
  using first_row_Some_mem select_limitD by fastforce

section \<open>Creating\<close>

text \<open>The database after a fresh creation.\<close>

definition created_db ::
  "meetings_config \<Rightarrow> meeting_env \<Rightarrow> persist_create \<Rightarrow> command_row \<Rightarrow> capability \<Rightarrow> capability \<Rightarrow> psession
     \<Rightarrow> database \<Rightarrow> database" where
  "created_db config env command reserved host invite session db =
     db\<lparr>meetings := meetings db @ [new_meeting config (mv_clk env 1) (mv_meetingId env) (pc_mode command)],
       stream_heads := stream_heads db @ [new_head (mv_clk env 2) (mv_meetingId env)],
       participants := participants db @ [new_host env command],
       capabilities := capabilities db @ [host, invite], sessions := sessions db @ [session],
       security_audit := security_audit db @ [\<lparr>au_meeting_id = Some (mv_meetingId env),
         au_actor_participant_id = Some (mv_participantId env), au_action = ''meeting.create'',
         au_decision_code = ''MEETING_CREATED'', au_trace_id = pc_traceId command\<rparr>],
       outbox_events := outbox_events db @ [meeting_outbox_row env (mv_clk env 5) (mv_meetingId env)
         (mv_participantId env) ''meeting.created''],
       command_results := command_results db @ [reserved\<lparr>cr_status := CmdSucceeded,
         cr_resource_id := Some (mv_meetingId env),
         cr_metadata := [(''participantId'', JStr (mv_participantId env))]\<rparr>]\<rparr>"

lemma meeting_create_cases [consumes 1, case_names replay fresh]:
  assumes "meeting_create z config env command db = Inr (r, db')"
  obtains row where "row \<in> set (command_results db)" "cr_scope row = ''meeting.create''"
    "cr_command_id row = pc_commandId command" "cr_fingerprint row = pc_requestFingerprint command"
    "replaySession z config env (mv_clk env 1) row (pc_session command) Host db = Inr (r, db')"
  | reserved db0 where
    "db0 = db\<lparr>command_results := command_results db @ [reserved]\<rparr>"
    "cr_scope reserved = ''meeting.create''" "cr_command_id reserved = pc_commandId command"
    "cr_fingerprint reserved = pc_requestFingerprint command" "cr_status reserved = CmdInProgress"
    "\<forall>q \<in> set (command_results db). \<not> (cr_scope q = ''meeting.create'' \<and> cr_command_id q = pc_commandId command)"
    "create_body config env command db0 = Inr (r, db')"
proof -
  from assms obtain existing db0 where res: "reserveCommand (mv_clk env 0) ''meeting.create''
      (pc_commandId command) (pc_requestFingerprint command) db = Inr (existing, db0)"
    by (auto simp: meeting_create_def and_then_Inr_iff)
  show ?thesis
  proof (cases existing)
    case None
    then show ?thesis using res assms reserveCommand_None [of "mv_clk env 0" "''meeting.create''"
        "pc_commandId command" "pc_requestFingerprint command" db db0]
      by (auto simp: meeting_create_def and_then_Inr_iff intro: that(2))
  next
    case (Some row)
    then show ?thesis using res assms reserveCommand_Some [of "mv_clk env 0" "''meeting.create''"
        "pc_commandId command" "pc_requestFingerprint command" db row db0]
      by (auto simp: meeting_create_def and_then_Inr_iff intro: that(1))
  qed
qed

lemma create_body_Inr:
  assumes "create_body config env command db0 = Inr (r, db')"
    and db0: "db0 = db\<lparr>command_results := command_results db @ [reserved]\<rparr>"
    and reserved: "cr_scope reserved = ''meeting.create''" "cr_command_id reserved = pc_commandId command"
      "cr_status reserved = CmdInProgress"
    and fresh: "\<forall>q \<in> set (command_results db).
      \<not> (cr_scope q = ''meeting.create'' \<and> cr_command_id q = pc_commandId command)"
  obtains host invite session where
    "db' = created_db config env command reserved host invite session db"
    "r = sessionResult (mv_meetingId env) (mv_participantId env) (pc_session command) Host False"
    "cap_kind host = CapHost" "cap_kind invite = CapInvite" "cap_meeting_id host = mv_meetingId env"
    "cap_meeting_id invite = mv_meetingId env" "cap_secret_digest host = vd_digest (pc_hostCapability command)"
    "cap_secret_digest invite = vd_digest (pc_inviteCapability command)"
    "cap_pepper_version invite = vd_version (pc_inviteCapability command)"
    "cap_pepper_version host = vd_version (pc_hostCapability command)"
    "cap_expires_at invite = min (mv_clk env 3 + mc_capabilityTtlSeconds config * 1000)
       (mv_clk env 1 + mc_meetingTtlSeconds config * 1000)"
    "cap_revoked_at invite = None" "cap_max_uses invite = None" "cap_use_count invite = 0"
    "cap_created_at invite = mv_clk env 3" "capability_checks invite"
    "\<forall>q \<in> set (capabilities db) \<union> {host}. cap_id q \<noteq> cap_id invite"
    "s_participant_id session = mv_participantId env"
    "s_token_digest session = vd_digest (sn_tokenDigest (pc_session command))"
    "s_absolute_expires_at session \<le> mv_clk env 1 + mc_meetingTtlSeconds config * 1000"
    "session_checks session" "s_state session = SActive"
    "\<forall>q \<in> set (meetings db). m_id q \<noteq> mv_meetingId env"
    "\<forall>q \<in> set (stream_heads db). sh_meeting_id q \<noteq> mv_meetingId env"
    "\<forall>q \<in> set (participants db). p_id q \<noteq> mv_participantId env"
    "outbox_row_checks (meeting_outbox_row env (mv_clk env 5) (mv_meetingId env) (mv_participantId env) ''meeting.created'')"
    "\<forall>q \<in> set (outbox_events db). \<not> outbox_row_same_key
      (meeting_outbox_row env (mv_clk env 5) (mv_meetingId env) (mv_participantId env) ''meeting.created'') q"
proof -
  let ?m = "mv_meetingId env" and ?p = "mv_participantId env"
  let ?meeting = "new_meeting config (mv_clk env 1) ?m (pc_mode command)"
  let ?db2 = "db0\<lparr>meetings := meetings db0 @ [?meeting], stream_heads := stream_heads db0 @ [new_head (mv_clk env 2) ?m],
     participants := participants db0 @ [new_host env command]\<rparr>"
  let ?host = "new_capability config (mv_clk env 3) (mv_hostCapabilityId env) CapHost ''host''
      (pc_hostCapability command) ?m ?db2"
  let ?invite = "new_capability config (mv_clk env 3) (mv_inviteCapabilityId env) CapInvite ''participant''
      (pc_inviteCapability command) ?m ?db2"
  let ?db3 = "?db2\<lparr>capabilities := capabilities db0 @ [?host, ?invite]\<rparr>"
  let ?session = "new_session config (mv_clk env 4) (mv_sessionId env) ?m ?p (pc_session command) ?db3"
  have distinct: "\<forall>q \<in> set (meetings db0). m_id q \<noteq> ?m"
    "\<forall>q \<in> set (stream_heads db0). sh_meeting_id q \<noteq> ?m" "\<forall>q \<in> set (participants db0). p_id q \<noteq> ?p"
    using assms(1)
    by (auto simp: create_body_def Let_def and_then_Inr_iff statement_iffs new_meeting_def new_head_def new_host_def)
  have expiry: "meeting_expiry ?m ?db2 = Some (mv_clk env 1 + mc_meetingTtlSeconds config * 1000)"
    "meeting_expiry ?m ?db3 = Some (mv_clk env 1 + mc_meetingTtlSeconds config * 1000)"
    using meeting_expiry_new [of "meetings db0" ?meeting ?db2] meeting_expiry_new [of "meetings db0" ?meeting ?db3]
      distinct(1) by (simp_all add: new_meeting_def)
  from assms(1) have session: "session_checks ?session"
    and invite: "capability_checks ?invite" "\<forall>q \<in> set (capabilities db0) \<union> {?host}. \<not> capability_same_key ?invite q"
    and rows: "outbox_row_checks (meeting_outbox_row env (mv_clk env 5) ?m ?p ''meeting.created'')"
      "\<forall>q \<in> set (outbox_events db0). \<not> outbox_row_same_key
        (meeting_outbox_row env (mv_clk env 5) ?m ?p ''meeting.created'') q"
    and result: "r = sessionResult ?m ?p (pc_session command) Host False"
    and last: "completeCommand ''meeting.create'' (pc_commandId command) ?m ?p
      (?db3\<lparr>sessions := sessions db0 @ [?session], security_audit := security_audit db0 @
          [\<lparr>au_meeting_id = Some ?m, au_actor_participant_id = Some ?p, au_action = ''meeting.create'',
            au_decision_code = ''MEETING_CREATED'', au_trace_id = pc_traceId command\<rparr>],
        outbox_events := outbox_events db0 @
          [meeting_outbox_row env (mv_clk env 5) ?m ?p ''meeting.created'']\<rparr>) = Inr ((), db')"
    by (auto simp: create_body_def Let_def and_then_Inr_iff statement_iffs insertCapabilities_def)
  have "db' = created_db config env command reserved ?host ?invite ?session db"
    using last completeCommand_new [OF fresh reserved, of _ ?m ?p] unfolding db0
    by (simp add: created_db_def)
  moreover have "\<forall>q \<in> set (capabilities db) \<union> {?host}. cap_id q \<noteq> cap_id ?invite"
    using invite(2) db0 by (auto simp: capability_same_key_def)
  ultimately show ?thesis
    using that [of ?host ?invite ?session] result session invite(1) rows distinct expiry db0
    by (simp add: new_capability_def new_session_def least_known_def)
qed

section \<open>Joining\<close>

definition joined_db ::
  "meeting_env \<Rightarrow> persist_join \<Rightarrow> command_row \<Rightarrow> meeting \<Rightarrow> capability \<Rightarrow> int \<Rightarrow> psession \<Rightarrow> database \<Rightarrow> database" where
  "joined_db env command reserved m c position session db =
     db\<lparr>capabilities := map (\<lambda>q. if cap_id q = cap_id c
           then q\<lparr>cap_use_count := cap_use_count q + 1, cap_last_used_at := Some (mv_clk env 3)\<rparr> else q)
         (capabilities db),
       participants := participants db @ [new_member env command m position],
       sessions := sessions db @ [session],
       security_audit := security_audit db @ [\<lparr>au_meeting_id = Some (m_id m),
         au_actor_participant_id = Some (mv_participantId env), au_action = ''meeting.join'',
         au_decision_code = ''INVITATION_ACCEPTED'', au_trace_id = pj_traceId command\<rparr>],
       outbox_events := outbox_events db @ [meeting_outbox_row env (mv_clk env 5) (m_id m)
         (mv_participantId env) ''participant.joined''],
       command_results := command_results db @ [reserved\<lparr>cr_status := CmdSucceeded,
         cr_resource_id := Some (m_id m),
         cr_metadata := [(''participantId'', JStr (mv_participantId env))]\<rparr>]\<rparr>"

lemma head_of_first:
  "head_of db m = map_option sh_last_position (first_row (filter (\<lambda>h. sh_meeting_id h = m) (stream_heads db)))"
proof -
  have "map_of (map (\<lambda>h. (sh_meeting_id h, sh_last_position h)) hs) m =
      map_option sh_last_position (first_row (filter (\<lambda>h. sh_meeting_id h = m) hs))" for hs
    by (induction hs) auto
  then show ?thesis by (simp add: head_of_def)
qed

lemma meeting_join_guards:
  assumes "meeting_join z config env command db = Inr (r, db')"
  obtains m c existing db0 where
    "m \<in> set (meetings db)" "joinable (mv_clk env 0) (pj_meetingId command) m"
    "c \<in> set (capabilities db)" "live_invite (mv_clk env 1) command c" "candidateMatches c command"
    "reserveCommand (mv_clk env 2) ''meeting.join'' (pj_commandId command) (pj_requestFingerprint command) db =
       Inr (existing, db0)"
    "(case existing of Some row \<Rightarrow>
         replaySession z config env (mv_clk env 3) row (pj_session command) (join_role (m_mode m)) db0
     | None \<Rightarrow> join_body config env command m c db0) = Inr (r, db')"
proof -
  from assms obtain m found where m: "first_row (filter (joinable (mv_clk env 0) (pj_meetingId command))
      (meetings db)) = Some m" "findInviteCapability (mv_clk env 1) command db = Inr found"
    by (auto simp: meeting_join_def and_then_Inr_iff)
  with assms obtain c existing db0 where c: "found = Some c" "candidateMatches c command"
    "reserveCommand (mv_clk env 2) ''meeting.join'' (pj_commandId command) (pj_requestFingerprint command) db =
       Inr (existing, db0)"
    "(case existing of Some row \<Rightarrow>
         replaySession z config env (mv_clk env 3) row (pj_session command) (join_role (m_mode m)) db0
     | None \<Rightarrow> join_body config env command m c db0) = Inr (r, db')"
    by (auto simp: meeting_join_def and_then_Inr_iff)
  have "c \<in> set (capabilities db) \<and> live_invite (mv_clk env 1) command c"
    using m(2) c(1) by (auto simp: findInviteCapability_def split: if_splits dest: select_first_SomeD)
  with m c first_row_filter_SomeD [OF m(1)] show ?thesis by (intro that) auto
qed

lemma replaySession_Inr:
  assumes "replaySession z config env now row session role db = Inr (r, db')"
  obtains m p s where "cr_status row = CmdSucceeded" "cr_resource_id row = Some m"
    "replayMetadataSchema z (cr_metadata row) = Some p" "r = sessionResult m p session role True"
    "db' = db\<lparr>sessions := sessions db @ [s]\<rparr>" "s_participant_id s = p" "s_state s = SActive"
  using assms
  by (auto simp: replaySession_def and_then_Inr_iff insertSession_Inr new_session_def
      split: option.splits bool.splits intro: that)

lemma join_body_Inr:
  assumes "join_body config env command m c db0 = Inr (r, db')"
    and db0: "db0 = db\<lparr>command_results := command_results db @ [reserved]\<rparr>"
    and reserved: "cr_scope reserved = ''meeting.join''" "cr_command_id reserved = pj_commandId command"
      "cr_status reserved = CmdInProgress"
    and fresh: "\<forall>q \<in> set (command_results db).
      \<not> (cr_scope q = ''meeting.join'' \<and> cr_command_id q = pj_commandId command)"
  obtains position session where
    "head_of db (m_id m) = Some position"
    "db' = joined_db env command reserved m c position session db"
    "r = sessionResult (m_id m) (mv_participantId env) (pj_session command) (join_role (m_mode m)) False"
    "s_participant_id session = mv_participantId env" "s_state session = SActive" "session_checks session"
    "s_token_digest session = vd_digest (sn_tokenDigest (pj_session command))"
    "s_absolute_expires_at session \<le> or_else (meeting_expiry (m_id m) db) (s_absolute_expires_at session)"
    "\<forall>q \<in> set (participants db). p_id q \<noteq> mv_participantId env"
    "outbox_row_checks (meeting_outbox_row env (mv_clk env 5) (m_id m) (mv_participantId env) ''participant.joined'')"
    "\<forall>q \<in> set (outbox_events db). \<not> outbox_row_same_key
      (meeting_outbox_row env (mv_clk env 5) (m_id m) (mv_participantId env) ''participant.joined'') q"
proof -
  let ?p = "mv_participantId env"
  let ?caps = "update_where (\<lambda>q. cap_id q = cap_id c)
    (\<lambda>q. q\<lparr>cap_use_count := cap_use_count q + 1, cap_last_used_at := Some (mv_clk env 3)\<rparr>) (capabilities db0)"
  let ?db1 = "db0\<lparr>capabilities := ?caps\<rparr>"
  from assms(1) obtain h where h: "first_row (filter (\<lambda>h. sh_meeting_id h = m_id m) (stream_heads db0)) = Some h"
    by (auto simp: join_body_def Let_def and_then_Inr_iff use_capability_def split: if_splits)
  let ?member = "new_member env command m (sh_last_position h)"
  let ?db2 = "?db1\<lparr>participants := participants db0 @ [?member]\<rparr>"
  let ?session = "new_session config (mv_clk env 4) (mv_sessionId env) (m_id m) ?p (pj_session command) ?db2"
  let ?row = "meeting_outbox_row env (mv_clk env 5) (m_id m) ?p ''participant.joined''"
  from assms(1) h have session: "session_checks ?session"
    and rows: "outbox_row_checks ?row" "\<forall>q \<in> set (outbox_events db0). \<not> outbox_row_same_key ?row q"
    and fresh_p: "\<forall>q \<in> set (participants db0). p_id q \<noteq> ?p"
    and result: "r = sessionResult (m_id m) ?p (pj_session command) (join_role (m_mode m)) False"
    and last: "completeCommand ''meeting.join'' (pj_commandId command) (m_id m) ?p
      (?db2\<lparr>sessions := sessions db0 @ [?session], security_audit := security_audit db0 @
          [\<lparr>au_meeting_id = Some (m_id m), au_actor_participant_id = Some ?p, au_action = ''meeting.join'',
            au_decision_code = ''INVITATION_ACCEPTED'', au_trace_id = pj_traceId command\<rparr>],
        outbox_events := outbox_events db0 @ [?row]\<rparr>) = Inr ((), db')"
    by (auto simp: join_body_def Let_def and_then_Inr_iff statement_iffs use_capability_def new_member_def
        split: if_splits)
  have "db' = joined_db env command reserved m c (sh_last_position h) ?session db"
    using last completeCommand_new [OF fresh reserved, of _ "m_id m" ?p] unfolding db0
    by (simp add: joined_db_def update_where_def)
  moreover have "head_of db (m_id m) = Some (sh_last_position h)" using h db0 by (simp add: head_of_first)
  moreover have "meeting_expiry (m_id m) db = meeting_expiry (m_id m) ?db2"
    by (simp add: meeting_expiry_def db0)
  ultimately show ?thesis
    using that [of "sh_last_position h" ?session] result session rows fresh_p db0
    by (cases "meeting_expiry (m_id m) ?db2") (auto simp: new_session_def least_known_def)
qed
section \<open>Guarantees\<close>

text \<open>A meeting is created completely and once: a creation that is not a replay writes the meeting
  with its stream head at zero, its host, one host and one invite capability under the digests of the
  command, one session whose absolute expiry is within the meeting's, one audit row, one
  \<open>meeting.created\<close> event and the completed command, and changes nothing else; a replay of a completed
  command only adds a session.\<close>

theorem create_writes_exactly:
  assumes "meeting_create z config env command db = Inr (r, db')"
  shows "if an_replayed r
    then \<exists>row s. row \<in> set (command_results db) \<and> cr_scope row = ''meeting.create'' \<and>
      cr_command_id row = pc_commandId command \<and> cr_fingerprint row = pc_requestFingerprint command \<and>
      cr_status row = CmdSucceeded \<and> cr_resource_id row = Some (an_meetingId r) \<and>
      db' = db\<lparr>sessions := sessions db @ [s]\<rparr> \<and> s_participant_id s = an_participantId r
    else an_meetingId r = mv_meetingId env \<and> an_participantId r = mv_participantId env \<and> an_role r = Host \<and>
      (\<forall>q \<in> set (meetings db). m_id q \<noteq> mv_meetingId env) \<and>
      (\<exists>reserved host invite session. db' = created_db config env command reserved host invite session db \<and>
        cap_kind host = CapHost \<and> cap_kind invite = CapInvite \<and>
        cap_meeting_id host = mv_meetingId env \<and> cap_meeting_id invite = mv_meetingId env \<and>
        cap_secret_digest host = vd_digest (pc_hostCapability command) \<and>
        cap_secret_digest invite = vd_digest (pc_inviteCapability command) \<and>
        cap_pepper_version host = vd_version (pc_hostCapability command) \<and>
        cap_pepper_version invite = vd_version (pc_inviteCapability command) \<and>
        s_participant_id session = mv_participantId env \<and>
        s_token_digest session = vd_digest (sn_tokenDigest (pc_session command)) \<and>
        s_absolute_expires_at session \<le> mv_clk env 1 + mc_meetingTtlSeconds config * 1000 \<and>
        cr_command_id reserved = pc_commandId command \<and>
        cr_fingerprint reserved = pc_requestFingerprint command)"
  using assms
proof (cases rule: meeting_create_cases)
  case (replay row)
  from replay(5) show ?thesis
    by (rule replaySession_Inr) (use replay(1-4) in \<open>auto simp: sessionResult_def\<close>)
next
  case (fresh reserved db0)
  from create_body_Inr [OF fresh(7,1,2,3,5,6)] obtain host invite session where b:
    "db' = created_db config env command reserved host invite session db"
    "r = sessionResult (mv_meetingId env) (mv_participantId env) (pc_session command) Host False"
    "cap_kind host = CapHost" "cap_kind invite = CapInvite" "cap_meeting_id host = mv_meetingId env"
    "cap_meeting_id invite = mv_meetingId env" "cap_secret_digest host = vd_digest (pc_hostCapability command)"
    "cap_secret_digest invite = vd_digest (pc_inviteCapability command)"
    "cap_pepper_version invite = vd_version (pc_inviteCapability command)"
    "cap_pepper_version host = vd_version (pc_hostCapability command)"
    "s_participant_id session = mv_participantId env"
    "s_token_digest session = vd_digest (sn_tokenDigest (pc_session command))"
    "s_absolute_expires_at session \<le> mv_clk env 1 + mc_meetingTtlSeconds config * 1000"
    "\<forall>q \<in> set (meetings db). m_id q \<noteq> mv_meetingId env" by metis
  have r: "\<not> an_replayed r" "an_meetingId r = mv_meetingId env" "an_participantId r = mv_participantId env"
    "an_role r = Host" by (simp_all add: b(2) sessionResult_def)
  show ?thesis using b r fresh(3,4) by (simp only: if_False) blast
qed

text \<open>C12. Nobody joins without a live invitation, and nobody joins as the host: a join that succeeds
  found the meeting open or active and not expired, an invite capability of that meeting that is
  neither revoked, expired nor used up and whose digest is one of the candidates under its own key
  version; a fresh join adds one participant with the role of the mode, starting at the stream's
  current head, counts one use of the capability, adds one session, audit row, event and completed
  command, and changes nothing else.\<close>

theorem join_requires_invitation:
  assumes "meeting_join z config env command db = Inr (r, db')"
  shows "\<exists>m \<in> set (meetings db). \<exists>c \<in> set (capabilities db).
    m_id m = pj_meetingId command \<and> m_state m \<in> {MOpen, MActive} \<and> m_expires_at m > mv_clk env 0 \<and>
    cap_meeting_id c = m_id m \<and> cap_kind c = CapInvite \<and> cap_revoked_at c = None \<and>
    cap_expires_at c > mv_clk env 1 \<and> (\<forall>n. cap_max_uses c = Some n \<longrightarrow> cap_use_count c < n) \<and>
    (\<exists>d \<in> set (pj_inviteCandidates command). vd_version d = cap_pepper_version c \<and>
      vd_digest d = cap_secret_digest c) \<and>
    an_role r = join_role (m_mode m) \<and> an_role r \<noteq> Host \<and>
    (if an_replayed r then \<exists>s. db' = db\<lparr>sessions := sessions db @ [s]\<rparr> \<and> s_participant_id s = an_participantId r
     else an_meetingId r = m_id m \<and> an_participantId r = mv_participantId env \<and>
       (\<forall>q \<in> set (participants db). p_id q \<noteq> mv_participantId env) \<and>
       (\<exists>position reserved session. head_of db (m_id m) = Some position \<and>
         db' = joined_db env command reserved m c position session db \<and>
         s_participant_id session = mv_participantId env))"
  using assms
proof (cases rule: meeting_join_guards)
  case (1 m c existing db0)
  have m: "m_id m = pj_meetingId command" "m_state m \<in> {MOpen, MActive}" "m_expires_at m > mv_clk env 0"
    using 1(2) by (auto simp: joinable_def)
  have c: "cap_meeting_id c = m_id m" "cap_kind c = CapInvite" "cap_revoked_at c = None"
    "cap_expires_at c > mv_clk env 1" "\<forall>n. cap_max_uses c = Some n \<longrightarrow> cap_use_count c < n"
    "\<exists>d \<in> set (pj_inviteCandidates command). vd_version d = cap_pepper_version c \<and>
      vd_digest d = cap_secret_digest c"
    using 1(4) m(1) by (auto simp: live_invite_def list_ex_iff)
  have role: "join_role (m_mode m) \<noteq> Host" by (simp add: join_role_def)
  have outcome: "an_role r = join_role (m_mode m) \<and>
    (if an_replayed r then \<exists>s. db' = db\<lparr>sessions := sessions db @ [s]\<rparr> \<and> s_participant_id s = an_participantId r
     else an_meetingId r = m_id m \<and> an_participantId r = mv_participantId env \<and>
       (\<forall>q \<in> set (participants db). p_id q \<noteq> mv_participantId env) \<and>
       (\<exists>position reserved session. head_of db (m_id m) = Some position \<and>
         db' = joined_db env command reserved m c position session db \<and>
         s_participant_id session = mv_participantId env))"
  proof (cases existing)
    case None
    from reserveCommand_None [OF 1(6) [unfolded None]] obtain reserved where res:
      "db0 = db\<lparr>command_results := command_results db @ [reserved]\<rparr>" "cr_scope reserved = ''meeting.join''"
      "cr_command_id reserved = pj_commandId command" "cr_status reserved = CmdInProgress"
      "\<forall>q \<in> set (command_results db). \<not> (cr_scope q = ''meeting.join'' \<and> cr_command_id q = pj_commandId command)"
      by blast
    have "join_body config env command m c db0 = Inr (r, db')" using 1(7) None by simp
    from join_body_Inr [OF this res] obtain position session where j:
      "head_of db (m_id m) = Some position" "db' = joined_db env command reserved m c position session db"
      "r = sessionResult (m_id m) (mv_participantId env) (pj_session command) (join_role (m_mode m)) False"
      "s_participant_id session = mv_participantId env" "\<forall>q \<in> set (participants db). p_id q \<noteq> mv_participantId env"
      by metis
    have "an_role r = join_role (m_mode m)" "\<not> an_replayed r" "an_meetingId r = m_id m"
      "an_participantId r = mv_participantId env" by (simp_all add: j(3) sessionResult_def)
    with j(1,2,4,5) show ?thesis by (simp only: if_False) blast
  next
    case (Some row)
    then have "db0 = db" using reserveCommand_Some 1(6) by blast
    with 1(7) Some have "replaySession z config env (mv_clk env 3) row (pj_session command)
        (join_role (m_mode m)) db = Inr (r, db')" by simp
    then show ?thesis by (rule replaySession_Inr) (auto simp: sessionResult_def)
  qed
  have not_host: "an_role r \<noteq> Host" using role outcome by simp
  show ?thesis
    by (rule bexI [OF _ 1(1)], rule bexI [OF _ 1(3)], intro conjI)
      (fact m c not_host outcome [THEN conjunct1] outcome [THEN conjunct2])+
qed

section \<open>Idempotency\<close>

definition commands_distinct :: "database \<Rightarrow> bool" where
  "commands_distinct db = distinct (map (\<lambda>q. (cr_scope q, cr_command_id q)) (command_results db))"

lemma reserveCommand_known:
  assumes "commands_distinct db" "row \<in> set (command_results db)" "length fp = 32"
    and "length (cr_scope row) \<le> 64" "cr_scope row \<noteq> []"
  shows "reserveCommand now (cr_scope row) (cr_command_id row) fp db =
    (if cr_fingerprint row \<noteq> fp then Inl (app_failure ''IDEMPOTENCY_KEY_REUSED'' Conflict
       ''The command identifier was already used with different input.'')
     else Inr (Some row, db))"
proof -
  let ?same = "\<lambda>q. cr_scope q = cr_scope row \<and> cr_command_id q = cr_command_id row"
  have "filter ?same (command_results db) = [row]"
    by (rule filter_unique_key [where k = "\<lambda>q. (cr_scope q, cr_command_id q)"])
      (use assms(1,2) in \<open>simp_all add: commands_distinct_def\<close>)
  moreover have "list_ex ?same (command_results db)" using assms(2) by (auto simp: list_ex_iff)
  ultimately show ?thesis using assms(3-5)
    by (simp add: reserveCommand_def Let_def command_checks_def requireSingleRow_def Suc_le_eq)
qed

text \<open>Creating a meeting is idempotent under its command identifier: after a creation succeeded, and
  whatever other transactions have committed since, the same command returns the same meeting and the
  same host and writes nothing but the session of the retry, while the identifier with any other input is
  refused with \<open>IDEMPOTENCY_KEY_REUSED\<close>.\<close>

theorem create_is_idempotent:
  assumes "meeting_create z config env command db = Inr (r, db')" and "\<not> an_replayed r"
    and "set (command_results db') \<subseteq> set (command_results later)" and "commands_distinct later"
    and "pc_commandId again = pc_commandId command" and "length (pc_requestFingerprint again) = 32"
    and "z_uuid z (mv_participantId env)"
  shows "meeting_create z config env' again later =
    (if pc_requestFingerprint again \<noteq> pc_requestFingerprint command
     then Inl (app_failure ''IDEMPOTENCY_KEY_REUSED'' Conflict
       ''The command identifier was already used with different input.'')
     else and_then (insertSession config env' (mv_clk env' 1) (an_meetingId r) (an_participantId r)
       (pc_session again) later) (\<lambda>(_, later').
       Inr (sessionResult (an_meetingId r) (an_participantId r) (pc_session again) Host True, later')))"
  using assms(1)
proof (cases rule: meeting_create_cases)
  case (replay row)
  from replay(5) have "an_replayed r" by (rule replaySession_Inr) (simp add: sessionResult_def)
  with assms(2) show ?thesis by simp
next
  case (fresh reserved db0)
  from create_body_Inr [OF fresh(7,1,2,3,5,6)] obtain host invite session where b:
    "db' = created_db config env command reserved host invite session db"
    "r = sessionResult (mv_meetingId env) (mv_participantId env) (pc_session command) Host False" by metis
  let ?row = "reserved\<lparr>cr_status := CmdSucceeded, cr_resource_id := Some (mv_meetingId env),
    cr_metadata := [(''participantId'', JStr (mv_participantId env))]\<rparr>"
  have row: "?row \<in> set (command_results later)" using assms(3) b(1) by (auto simp: created_db_def)
  have "replayMetadataSchema z (cr_metadata ?row) = Some (mv_participantId env)"
    using assms(7) by (simp add: replayMetadataSchema_def strict_keys_def string_field_def field_def guarded_def)
  moreover have "reserveCommand (mv_clk env' 0) ''meeting.create'' (pc_commandId again) (pc_requestFingerprint again) later =
    (if pc_requestFingerprint again \<noteq> pc_requestFingerprint command
     then Inl (app_failure ''IDEMPOTENCY_KEY_REUSED'' Conflict
       ''The command identifier was already used with different input.'')
     else Inr (Some ?row, later))"
    using reserveCommand_known [OF assms(4) row assms(6), of "mv_clk env' 0"] fresh(2-4) assms(5) by auto
  ultimately show ?thesis
    by (simp add: meeting_create_def replaySession_def b(2) sessionResult_def)
qed

text \<open>The same holds of joining, once the invitation checks pass: an identical retry returns the
  participant of the first call and never a second one.\<close>

theorem join_is_idempotent:
  assumes "meeting_join z config env command db = Inr (r, db')" and "\<not> an_replayed r"
    and "set (command_results db') \<subseteq> set (command_results later)" and "commands_distinct later"
    and "pj_commandId again = pj_commandId command" and "length (pj_requestFingerprint again) = 32"
    and "meeting_join z config env' again later = Inr (r', later')"
  shows "pj_requestFingerprint again = pj_requestFingerprint command \<and> an_replayed r' \<and>
    an_meetingId r' = an_meetingId r \<and> an_participantId r' = an_participantId r \<and>
    participants later' = participants later \<and> capabilities later' = capabilities later \<and>
    (\<exists>s. later' = later\<lparr>sessions := sessions later @ [s]\<rparr> \<and> s_participant_id s = an_participantId r)"
proof -
  obtain row where row: "row \<in> set (command_results db')" "cr_scope row = ''meeting.join''"
    "cr_command_id row = pj_commandId command" "cr_fingerprint row = pj_requestFingerprint command"
    "cr_resource_id row = Some (an_meetingId r)"
    "cr_metadata row = [(''participantId'', JStr (an_participantId r))]"
    using assms(1)
  proof (cases rule: meeting_join_guards)
    case (1 m c existing db0)
    show ?thesis
    proof (cases existing)
      case None
      from reserveCommand_None [OF 1(6) [unfolded None]] obtain reserved where res:
        "db0 = db\<lparr>command_results := command_results db @ [reserved]\<rparr>" "cr_scope reserved = ''meeting.join''"
        "cr_command_id reserved = pj_commandId command" "cr_status reserved = CmdInProgress"
        "\<forall>q \<in> set (command_results db). \<not> (cr_scope q = ''meeting.join'' \<and> cr_command_id q = pj_commandId command)"
        and fp: "cr_fingerprint reserved = pj_requestFingerprint command" by blast
      have "join_body config env command m c db0 = Inr (r, db')" using 1(7) None by simp
      from join_body_Inr [OF this res] obtain position session where j:
        "db' = joined_db env command reserved m c position session db"
        "r = sessionResult (m_id m) (mv_participantId env) (pj_session command) (join_role (m_mode m)) False"
        by metis
      show ?thesis by (rule that [of "reserved\<lparr>cr_status := CmdSucceeded, cr_resource_id := Some (m_id m),
          cr_metadata := [(''participantId'', JStr (mv_participantId env))]\<rparr>"])
        (use res(2,3) fp in \<open>simp_all add: j joined_db_def sessionResult_def\<close>)
    next
      case (Some row)
      with 1(7) have "an_replayed r" by simp (erule replaySession_Inr, simp add: sessionResult_def)
      with assms(2) show ?thesis by simp
    qed
  qed
  have known: "row \<in> set (command_results later)" using row(1) assms(3) by blast
  from assms(7) show ?thesis
  proof (cases rule: meeting_join_guards)
    case (1 m c existing db0)
    from reserveCommand_known [OF assms(4) known assms(6), of "mv_clk env' 2"] row(2-4) 1(6) assms(5)
    have *: "pj_requestFingerprint again = pj_requestFingerprint command" "existing = Some row" "db0 = later"
      by (auto split: if_splits)
    with 1(7) have "replaySession z config env' (mv_clk env' 3) row (pj_session again) (join_role (m_mode m)) later =
        Inr (r', later')" by simp
    then show ?thesis
      by (rule replaySession_Inr) (use row(5,6) *(1) in \<open>auto simp: sessionResult_def replayMetadataSchema_def
        string_field_def field_def guarded_def split: if_splits\<close>)
  qed
qed
section \<open>A meeting created and joined\<close>

definition sample_meetings_config :: meetings_config where
  "sample_meetings_config = \<lparr>mc_enabled = True, mc_capabilityKeyring = None, mc_sessionKeyring = None,
     mc_capabilityTtlSeconds = 86400, mc_meetingTtlSeconds = 86400, mc_sessionIdleTtlSeconds = 3600,
     mc_sessionAbsoluteTtlSeconds = 21600, mc_sessionCookieName = ''__Host-hf_session'',
     mc_createRateLimit = 10, mc_joinRateLimit = 30, mc_rateLimitWindowSeconds = 60\<rparr>"

definition sample_material :: "byte \<Rightarrow> session_material" where
  "sample_material b = \<lparr>sn_token = ''token'',
     sn_tokenDigest = \<lparr>vd_version = 3, vd_digest = replicate 32 b\<rparr>, sn_csrfToken = ''csrf'',
     sn_csrfDigest = \<lparr>vd_version = 3, vd_digest = replicate 32 12\<rparr>,
     sn_deviceBindingDigest = \<lparr>vd_version = 3, vd_digest = replicate 32 13\<rparr>\<rparr>"

definition sample_create_env :: "instant \<Rightarrow> meeting_env" where
  "sample_create_env t = \<lparr>mv_clk = (\<lambda>n. t + int n),
     mv_meetingId = ''0190a1b2-c3d4-7abc-8def-0000000001aa'',
     mv_participantId = ''0190a1b2-c3d4-7abc-8def-0000000001bb'',
     mv_hostCapabilityId = ''0190a1b2-c3d4-7abc-8def-0000000001c0'',
     mv_inviteCapabilityId = ''0190a1b2-c3d4-7abc-8def-0000000001c1'',
     mv_sessionId = ''0190a1b2-c3d4-7abc-8def-0000000001dd'',
     mv_deliveryId = ''0190a1b2-c3d4-7abc-8def-0000000001e0'',
     mv_eventId = ''0190a1b2-c3d4-7abc-8def-0000000001e1''\<rparr>"

definition sample_join_env :: "instant \<Rightarrow> meeting_env" where
  "sample_join_env t = (sample_create_env t)\<lparr>mv_participantId := ''0190a1b2-c3d4-7abc-8def-0000000002bb'',
     mv_sessionId := ''0190a1b2-c3d4-7abc-8def-0000000002dd'',
     mv_deliveryId := ''0190a1b2-c3d4-7abc-8def-0000000002e0'',
     mv_eventId := ''0190a1b2-c3d4-7abc-8def-0000000002e1''\<rparr>"

definition sample_retry_env :: "instant \<Rightarrow> meeting_env" where
  "sample_retry_env t = (sample_create_env t)\<lparr>mv_sessionId := ''0190a1b2-c3d4-7abc-8def-0000000003dd''\<rparr>"

definition sample_create :: persist_create where
  "sample_create = \<lparr>pc_commandId = ''0190a1b2-c3d4-7abc-8def-0000000001ff'',
     pc_requestFingerprint = replicate 32 5, pc_mode = Live, pc_displayName = [65, 100, 97],
     pc_hostCapability = \<lparr>vd_version = 3, vd_digest = replicate 32 21\<rparr>,
     pc_inviteCapability = \<lparr>vd_version = 3, vd_digest = replicate 32 22\<rparr>,
     pc_session = sample_material 11, pc_traceId = ''trace''\<rparr>"

definition sample_join :: persist_join where
  "sample_join = \<lparr>pj_meetingId = ''0190a1b2-c3d4-7abc-8def-0000000001aa'',
     pj_commandId = ''0190a1b2-c3d4-7abc-8def-0000000002ff'', pj_requestFingerprint = replicate 32 6,
     pj_displayName = [66, 111, 98],
     pj_inviteCandidates = [\<lparr>vd_version = 4, vd_digest = replicate 32 23\<rparr>,
       \<lparr>vd_version = 3, vd_digest = replicate 32 22\<rparr>],
     pj_session = sample_material 14, pj_traceId = ''trace''\<rparr>"

definition sample_created :: "(anonymous_session \<times> database) outcome" where
  "sample_created = meeting_create strict_zod sample_meetings_config (sample_create_env 1000) sample_create sample_db"

definition sample_joined :: "(anonymous_session \<times> database) outcome" where
  "sample_joined = meeting_join strict_zod sample_meetings_config (sample_join_env 2000) sample_join
     (snd (projr sample_created))"

definition sample_rejoined :: "(anonymous_session \<times> database) outcome" where
  "sample_rejoined = meeting_join strict_zod sample_meetings_config (sample_retry_env 3000)
     (sample_join\<lparr>pj_session := sample_material 15\<rparr>) (snd (projr sample_joined))"

lemma sample_created_evaluated:
  "meeting_create strict_zod sample_meetings_config (sample_create_env 1000) sample_create sample_db =
     Inr (fst (projr sample_created), snd (projr sample_created))"
proof -
  have "\<not> isl sample_created" by code_simp
  then show ?thesis unfolding sample_created_def by (rule Inr_pair_of_eval)
qed

lemma sample_joined_evaluated:
  "meeting_join strict_zod sample_meetings_config (sample_join_env 2000) sample_join (snd (projr sample_created)) =
     Inr (fst (projr sample_joined), snd (projr sample_joined))"
proof -
  have "\<not> isl sample_joined" by code_simp
  then show ?thesis unfolding sample_joined_def by (rule Inr_pair_of_eval)
qed

theorem create_writes_exactly_witness:
  "an_meetingId (fst (projr sample_created)) = ''0190a1b2-c3d4-7abc-8def-0000000001aa''"
proof -
  have "\<not> an_replayed (fst (projr sample_created))" by code_simp
  with create_writes_exactly [OF sample_created_evaluated] show ?thesis by (simp add: sample_create_env_def)
qed

theorem join_requires_invitation_witness: "an_role (fst (projr sample_joined)) \<noteq> Host"
  using join_requires_invitation [OF sample_joined_evaluated] by blast

theorem create_is_idempotent_witness:
  "isl (meeting_create strict_zod sample_meetings_config (sample_retry_env 1500)
     (sample_create\<lparr>pc_requestFingerprint := replicate 32 9\<rparr>) (snd (projr sample_created)))"
proof -
  let ?again = "sample_create\<lparr>pc_requestFingerprint := replicate 32 9\<rparr>"
  have fresh: "\<not> an_replayed (fst (projr sample_created))" by code_simp
  have distinct: "commands_distinct (snd (projr sample_created))" by code_simp
  have sizes: "length (pc_requestFingerprint ?again) = 32" by code_simp
  have uuid: "z_uuid strict_zod (mv_participantId (sample_create_env 1000))" by code_simp
  have other: "pc_requestFingerprint ?again \<noteq> pc_requestFingerprint sample_create" by code_simp
  from create_is_idempotent [OF sample_created_evaluated fresh subset_refl distinct _ sizes uuid,
      of "sample_retry_env 1500"] other
  show ?thesis by simp
qed

theorem join_is_idempotent_witness:
  "an_participantId (fst (projr sample_rejoined)) = an_participantId (fst (projr sample_joined))"
proof -
  let ?again = "sample_join\<lparr>pj_session := sample_material 15\<rparr>"
  have fresh: "\<not> an_replayed (fst (projr sample_joined))" by code_simp
  have distinct: "commands_distinct (snd (projr sample_joined))" by code_simp
  have sizes: "length (pj_requestFingerprint ?again) = 32" by code_simp
  have "\<not> isl sample_rejoined" by code_simp
  then have "meeting_join strict_zod sample_meetings_config (sample_retry_env 3000) ?again (snd (projr sample_joined)) =
      Inr (fst (projr sample_rejoined), snd (projr sample_rejoined))"
    unfolding sample_rejoined_def by (rule Inr_pair_of_eval)
  from join_is_idempotent [OF sample_joined_evaluated fresh subset_refl distinct _ sizes this]
  show ?thesis by simp
qed

section \<open>Both transactions keep the chat's invariant\<close>

lemma head_of_snoc:
  assumes "\<forall>h \<in> set (stream_heads db). sh_meeting_id h \<noteq> sh_meeting_id new"
    and "stream_heads db' = stream_heads db @ [new]"
  shows "head_of db' k = (if k = sh_meeting_id new then Some (sh_last_position new) else head_of db k)"
proof -
  have "map_of (map (\<lambda>h. (sh_meeting_id h, sh_last_position h)) (hs @ [new])) k =
      (if k = sh_meeting_id new then Some (sh_last_position new)
       else map_of (map (\<lambda>h. (sh_meeting_id h, sh_last_position h)) hs) k)"
    if "\<forall>h \<in> set hs. sh_meeting_id h \<noteq> sh_meeting_id new" for hs
    using that by (induction hs) auto
  from this [OF assms(1)] show ?thesis by (simp add: head_of_def assms(2))
qed

lemma chat_inv_cong:
  assumes "chat_inv db" "stream_heads db' = stream_heads db" "chat_messages db' = chat_messages db"
    and "outbox_inv (outbox_events db')"
  shows "chat_inv db'"
  using assms by (simp add: chat_inv_def head_of_def)

lemma created_db_keeps:
  assumes inv: "chat_inv db" and uuid: "uuid_format (mv_deliveryId env)"
    and fresh: "\<forall>q \<in> set (stream_heads db). sh_meeting_id q \<noteq> mv_meetingId env"
    and row: "outbox_row_checks (meeting_outbox_row env (mv_clk env 5) (mv_meetingId env) (mv_participantId env) ''meeting.created'')"
      "\<forall>q \<in> set (outbox_events db). \<not> outbox_row_same_key
        (meeting_outbox_row env (mv_clk env 5) (mv_meetingId env) (mv_participantId env) ''meeting.created'') q"
  shows "chat_inv (created_db config env command reserved host invite session db)" (is "chat_inv ?db'")
proof -
  let ?head = "new_head (mv_clk env 2) (mv_meetingId env)"
  have heads: "stream_heads ?db' = stream_heads db @ [?head]" by (simp add: created_db_def)
  have head: "head_of ?db' k = (if k = mv_meetingId env then Some 0 else head_of db k)" for k
    using head_of_snoc [of db ?head ?db'] fresh heads by (simp add: new_head_def)
  have "heads_inv (stream_heads ?db')"
    using inv fresh by (auto simp: heads chat_inv_def heads_inv_def new_head_def MAX_SIGNED_BIGINT_def)
  moreover have "outbox_inv (outbox_events ?db')"
    using inv row uuid by (auto simp: created_db_def chat_inv_def meeting_outbox_row_def intro!: outbox_inv_snoc)
  moreover have "messages_inv (chat_messages ?db')" using inv by (simp add: created_db_def chat_inv_def)
  moreover have "list_all (\<lambda>r. case head_of ?db' (c_meeting_id r) of None \<Rightarrow> False | Some p \<Rightarrow> c_position r \<le> p)
      (chat_messages ?db')"
  proof -
    have "head_of db (mv_meetingId env) = None"
      using fresh by (auto simp: head_of_def map_of_eq_None_iff)
    moreover have "chat_messages ?db' = chat_messages db" by (simp add: created_db_def)
    ultimately show ?thesis using inv
      by (auto simp: head chat_inv_def list_all_iff split: option.splits)
  qed
  ultimately show ?thesis by (simp add: chat_inv_def)
qed

lemma replaySession_keeps:
  "chat_inv db \<Longrightarrow> replaySession z config env now row session role db = Inr (r, db') \<Longrightarrow> chat_inv db'"
  by (erule replaySession_Inr, rule chat_inv_cong, assumption) (simp_all add: chat_inv_def)

lemma meeting_create_keeps:
  assumes "chat_inv db" "uuid_format (mv_deliveryId env)"
    and "meeting_create z config env command db = Inr (r, db')"
  shows "chat_inv db'"
  using assms(3)
proof (cases rule: meeting_create_cases)
  case (replay row)
  then show ?thesis using assms(1) by (auto intro: replaySession_keeps)
next
  case (fresh reserved db0)
  show ?thesis
    by (rule create_body_Inr [OF fresh(7,1,2,3,5,6)]) (use assms(1,2) in \<open>blast intro: created_db_keeps\<close>)
qed

lemma meeting_join_keeps:
  assumes "chat_inv db" "uuid_format (mv_deliveryId env)"
    and "meeting_join z config env command db = Inr (r, db')"
  shows "chat_inv db'"
  using assms(3)
proof (cases rule: meeting_join_guards)
  case (1 m c existing db0)
  show ?thesis
  proof (cases existing)
    case None
    from reserveCommand_None [OF 1(6) [unfolded None]] obtain reserved where res:
      "db0 = db\<lparr>command_results := command_results db @ [reserved]\<rparr>" "cr_scope reserved = ''meeting.join''"
      "cr_command_id reserved = pj_commandId command" "cr_status reserved = CmdInProgress"
      "\<forall>q \<in> set (command_results db). \<not> (cr_scope q = ''meeting.join'' \<and> cr_command_id q = pj_commandId command)"
      by blast
    have "join_body config env command m c db0 = Inr (r, db')" using 1(7) None by simp
    then show ?thesis
    proof (rule join_body_Inr [OF _ res])
      fix position session
      assume db': "db' = joined_db env command reserved m c position session db"
        and row: "outbox_row_checks (meeting_outbox_row env (mv_clk env 5) (m_id m) (mv_participantId env) ''participant.joined'')"
          "\<forall>q \<in> set (outbox_events db). \<not> outbox_row_same_key
            (meeting_outbox_row env (mv_clk env 5) (m_id m) (mv_participantId env) ''participant.joined'') q"
      have "outbox_inv (outbox_events db')"
        using assms(1,2) row by (auto simp: db' joined_db_def chat_inv_def meeting_outbox_row_def intro!: outbox_inv_snoc)
      then show ?thesis using assms(1) by (rule_tac chat_inv_cong) (simp_all add: db' joined_db_def)
    qed
  next
    case (Some row)
    then have "db0 = db" using reserveCommand_Some 1(6) by blast
    then show ?thesis using 1(7) Some assms(1) by (auto intro: replaySession_keeps)
  qed
qed

interpretation create_tx: transactional
  "\<lambda>n. meeting_create z config (env n) command" "\<lambda>n _. uuid_format (mv_deliveryId (env n))" chat_inv
  by unfold_locales (rule meeting_create_keeps)

interpretation join_tx: transactional
  "\<lambda>n. meeting_join z config (env n) command" "\<lambda>n _. uuid_format (mv_deliveryId (env n))" chat_inv
  by unfold_locales (rule meeting_join_keeps)
end
