(* ===== verification/RateLimits.thy ===== *)
theory RateLimits
  imports Config "HOL-Library.AList"
begin

text \<open>
  The limiters: the Redis token bucket of the chat with its process-local fallback
  (\<open>chat-rate-limiter.ts\<close>), the per-socket message bucket (\<open>realtime-message-rate-limiter.ts\<close>) and the
  fixed-window quotas of the public, ticket and admission endpoints. The scripts run atomically in
  Redis; a key past its expiry is absent. Token amounts of the script are integer millitokens, those
  of the processes are rationals.
\<close>

section \<open>What a token bucket promises\<close>

text \<open>How many of the requests at the given times a limiter grants.\<close>

fun granted :: "('t \<Rightarrow> 's \<Rightarrow> bool \<times> 's) \<Rightarrow> 's \<Rightarrow> 't list \<Rightarrow> nat" where
  "granted limiter s [] = 0"
| "granted limiter s (t # ts) =
     (if fst (limiter t s) then 1 else 0) + granted limiter (snd (limiter t s)) ts"

text \<open>\<open>take\<close> asks for one allowance at a time, \<open>level\<close> is what the bucket holds then. The bucket never
  holds more than its capacity, gains at most \<open>rate\<close> per unit of time, pays \<open>cost\<close> for an allowance
  and refuses exactly when it holds less.\<close>

locale token_bucket =
  fixes take :: "'t::linordered_idom \<Rightarrow> 'b \<Rightarrow> bool \<times> 'b"
    and level :: "'t \<Rightarrow> 'b \<Rightarrow> 't"
    and ok :: "'t \<Rightarrow> 'b \<Rightarrow> bool"
    and rate capacity cost :: 't
  assumes ok_take: "ok t b \<Longrightarrow> ok t (snd (take t b))"
    and ok_later: "ok t b \<Longrightarrow> t \<le> t' \<Longrightarrow> ok t' b"
    and level_capacity: "ok t b \<Longrightarrow> 0 \<le> level t b \<and> level t b \<le> capacity"
    and refill: "ok t b \<Longrightarrow> t \<le> t' \<Longrightarrow> level t' b \<le> level t b + rate * (t' - t)"
    and grants: "ok t b \<Longrightarrow> fst (take t b) \<longleftrightarrow> cost \<le> level t b"
    and paid: "ok t b \<Longrightarrow> level t (snd (take t b)) = (if fst (take t b) then level t b - cost else level t b)"
begin

lemma grants_from:
  "ok t0 b \<Longrightarrow> sorted (t0 # ts) \<Longrightarrow>
     of_nat (granted take b ts) * cost \<le> level t0 b + rate * (last (t0 # ts) - t0)"
proof (induction ts arbitrary: t0 b)
  case Nil
  then show ?case using level_capacity by simp
next
  case (Cons t ts)
  have ok: "ok t b" "ok t (snd (take t b))" using Cons.prems ok_later ok_take by auto
  have "of_nat (granted take (snd (take t b)) ts) * cost \<le>
      level t (snd (take t b)) + rate * (last (t # ts) - t)"
    using Cons.IH [OF ok(2)] Cons.prems(2) by simp
  moreover have "level t b \<le> level t0 b + rate * (t - t0)"
    using refill Cons.prems by simp
  ultimately show ?case
    using paid [OF ok(1)] by (auto simp: algebra_simps)
qed

theorem grants_bounded:
  "ok t0 b \<Longrightarrow> sorted (t0 # ts) \<Longrightarrow>
     of_nat (granted take b ts) * cost \<le> capacity + rate * (last (t0 # ts) - t0)"
  using grants_from [of t0 b ts] level_capacity [of t0 b] by linarith

end

section \<open>The chat token bucket in Redis\<close>

text \<open>The hash of one participant: millitokens, last update, and the expiry of the key.\<close>

record redis_bucket =
  rb_tokens :: int
  rb_updated :: int
  rb_expires :: int

definition ceil_div :: "int \<Rightarrow> int \<Rightarrow> int" where
  "ceil_div a b = \<lceil>rat_of_int a / rat_of_int b\<rceil>"

text \<open>\<open>TOKEN_BUCKET_SCRIPT\<close>; \<open>rate\<close> and \<open>burst\<close> are its two arguments.\<close>

definition refilled :: "int \<Rightarrow> int \<Rightarrow> int \<Rightarrow> redis_bucket option \<Rightarrow> int" where
  "refilled rate burst now b =
     (let capacity = burst * 1000;
          live = (case b of None \<Rightarrow> None | Some r \<Rightarrow> if now < rb_expires r then Some r else None);
          tokens = (case live of None \<Rightarrow> capacity | Some r \<Rightarrow> rb_tokens r);
          updated = (case live of None \<Rightarrow> now | Some r \<Rightarrow> rb_updated r)
      in min capacity (tokens + max 0 (now - updated) * rate))"

definition TOKEN_BUCKET_SCRIPT ::
  "int \<Rightarrow> int \<Rightarrow> int \<Rightarrow> redis_bucket option \<Rightarrow> (bool \<times> int) \<times> redis_bucket option" where
  "TOKEN_BUCKET_SCRIPT rate burst now b =
     (let tokens = refilled rate burst now b;
          allowed = (tokens \<ge> 1000);
          tokens' = (if allowed then tokens - 1000 else tokens);
          retry = (if allowed then 0 else ceil_div (1000 - tokens) rate)
      in ((allowed, retry),
          Some \<lparr>rb_tokens = tokens', rb_updated = now,
            rb_expires = now + ceil_div (burst * 2000) rate\<rparr>))"

definition redis_take :: "int \<Rightarrow> int \<Rightarrow> int \<Rightarrow> redis_bucket option \<Rightarrow> bool \<times> redis_bucket option" where
  "redis_take rate burst now b =
     (fst (fst (TOKEN_BUCKET_SCRIPT rate burst now b)), snd (TOKEN_BUCKET_SCRIPT rate burst now b))"

text \<open>What the stored hash satisfies: it was written by the script no later than \<open>now\<close>.\<close>

definition redis_ok :: "int \<Rightarrow> int \<Rightarrow> int \<Rightarrow> redis_bucket option \<Rightarrow> bool" where
  "redis_ok rate burst now b =
     (1 \<le> rate \<and> 1 \<le> burst \<and>
      (case b of None \<Rightarrow> True
       | Some r \<Rightarrow> 0 \<le> rb_tokens r \<and> rb_tokens r \<le> burst * 1000 \<and> rb_updated r \<le> now \<and>
           rb_expires r = rb_updated r + ceil_div (burst * 2000) rate))"

lemma ceil_div_bounds:
  assumes "0 < b"
  shows "a \<le> ceil_div a b * b" "(ceil_div a b - 1) * b < a"
proof -
  have pos: "(0::rat) < rat_of_int b" using assms by simp
  have "rat_of_int a / rat_of_int b \<le> rat_of_int (ceil_div a b)"
    "rat_of_int (ceil_div a b) - 1 < rat_of_int a / rat_of_int b"
    unfolding ceil_div_def by linarith+
  then have "rat_of_int a \<le> rat_of_int (ceil_div a b) * rat_of_int b"
    "(rat_of_int (ceil_div a b) - 1) * rat_of_int b < rat_of_int a"
    using pos by (simp_all add: pos_divide_le_eq pos_less_divide_eq)
  then have "rat_of_int a \<le> rat_of_int (ceil_div a b * b)"
    "rat_of_int ((ceil_div a b - 1) * b) < rat_of_int a" by simp_all
  then show "a \<le> ceil_div a b * b" "(ceil_div a b - 1) * b < a"
    by (simp_all only: of_int_le_iff of_int_less_iff)
qed

text \<open>An expired key is not observable: by then the bucket would be full anyway.\<close>

lemma refilled_ignores_expiry:
  assumes "redis_ok rate burst now b"
  shows "refilled rate burst now b = (case b of None \<Rightarrow> burst * 1000
    | Some r \<Rightarrow> min (burst * 1000) (rb_tokens r + (now - rb_updated r) * rate))"
proof (cases b)
  case None
  then show ?thesis using assms by (simp add: refilled_def redis_ok_def)
next
  case (Some r)
  have r: "1 \<le> rate" "1 \<le> burst" "0 \<le> rb_tokens r" "rb_updated r \<le> now"
    "rb_expires r = rb_updated r + ceil_div (burst * 2000) rate"
    using assms Some by (auto simp: redis_ok_def)
  show ?thesis
  proof (cases "now < rb_expires r")
    case True
    then show ?thesis using Some r by (simp add: refilled_def Let_def)
  next
    case False
    have "burst * 2000 \<le> ceil_div (burst * 2000) rate * rate"
      using r(1) by (intro ceil_div_bounds) simp
    also have "\<dots> \<le> (now - rb_updated r) * rate"
      using False r by (intro mult_right_mono) auto
    finally have "burst * 1000 \<le> rb_tokens r + (now - rb_updated r) * rate" using r by linarith
    then show ?thesis using Some r False by (simp add: refilled_def Let_def)
  qed
qed

lemma refilled_range:
  "redis_ok rate burst now b \<Longrightarrow> 0 \<le> refilled rate burst now b \<and> refilled rate burst now b \<le> burst * 1000"
  by (auto simp: refilled_ignores_expiry redis_ok_def split: option.splits)

lemma redis_take_simps:
  "fst (redis_take rate burst now b) \<longleftrightarrow> 1000 \<le> refilled rate burst now b"
  "snd (redis_take rate burst now b) = Some \<lparr>rb_tokens = (if 1000 \<le> refilled rate burst now b
      then refilled rate burst now b - 1000 else refilled rate burst now b), rb_updated = now,
    rb_expires = now + ceil_div (burst * 2000) rate\<rparr>"
  by (simp_all add: redis_take_def TOKEN_BUCKET_SCRIPT_def Let_def)

interpretation redis_chat: token_bucket "redis_take rate burst" "refilled rate burst"
  "redis_ok rate burst" rate "burst * 1000" 1000
proof (unfold_locales, goal_cases)
  case (1 t b)
  then show ?case using refilled_range [OF 1]
    by (auto simp: redis_ok_def redis_take_simps split: option.splits)
next
  case (2 t b t')
  then show ?case by (auto simp: redis_ok_def split: option.splits)
next
  case (3 t b)
  then show ?case by (rule refilled_range)
next
  case (4 t b t')
  then have ok: "redis_ok rate burst t' b" by (auto simp: redis_ok_def split: option.splits)
  show ?case
  proof (cases b)
    case None
    then show ?thesis using 4 ok by (auto simp: refilled_ignores_expiry redis_ok_def)
  next
    case (Some r)
    have "(t' - rb_updated r) * rate = (t - rb_updated r) * rate + rate * (t' - t)"
      by (simp add: algebra_simps)
    moreover have "0 \<le> rate * (t' - t)" using 4 by (auto simp: redis_ok_def)
    ultimately show ?thesis using 4 ok Some
      by (simp add: refilled_ignores_expiry min_def)
  qed
next
  case (5 t b)
  then show ?case by (simp add: redis_take_simps)
next
  case (6 t b)
  have "redis_ok rate burst t (snd (redis_take rate burst t b))"
    using 6 refilled_range [OF 6] by (auto simp: redis_ok_def redis_take_simps split: option.splits)
  from refilled_ignores_expiry [OF this] show ?case
    using refilled_range [OF 6] by (simp add: redis_take_simps)
qed

section \<open>Process-local buckets\<close>

record local_bucket =
  lb_tokens :: rat
  lb_updatedAtMs :: rat

definition local_refill :: "rat \<Rightarrow> rat \<Rightarrow> rat \<Rightarrow> local_bucket option \<Rightarrow> rat" where
  "local_refill rate capacity nowMs b =
     (case b of None \<Rightarrow> capacity
      | Some r \<Rightarrow> min capacity (lb_tokens r + max 0 (nowMs - lb_updatedAtMs r) / 1000 * rate))"

definition local_take :: "rat \<Rightarrow> rat \<Rightarrow> rat \<Rightarrow> local_bucket option \<Rightarrow> bool \<times> local_bucket option" where
  "local_take rate capacity nowMs b =
     (let tokens = local_refill rate capacity nowMs b
      in if tokens < 1 then (False, Some \<lparr>lb_tokens = tokens, lb_updatedAtMs = nowMs\<rparr>)
         else (True, Some \<lparr>lb_tokens = tokens - 1, lb_updatedAtMs = nowMs\<rparr>))"

definition local_ok :: "rat \<Rightarrow> rat \<Rightarrow> rat \<Rightarrow> local_bucket option \<Rightarrow> bool" where
  "local_ok rate capacity nowMs b =
     (0 < rate \<and> 1 \<le> capacity \<and>
      (case b of None \<Rightarrow> True
       | Some r \<Rightarrow> 0 \<le> lb_tokens r \<and> lb_tokens r \<le> capacity \<and> lb_updatedAtMs r \<le> nowMs))"

lemma local_refill_range:
  "local_ok rate capacity t b \<Longrightarrow> 0 \<le> local_refill rate capacity t b \<and> local_refill rate capacity t b \<le> capacity"
  by (auto simp: local_ok_def local_refill_def split: option.splits)

interpretation local: token_bucket "local_take rate capacity" "local_refill rate capacity"
  "local_ok rate capacity" "rate / 1000" capacity 1
proof (unfold_locales, goal_cases)
  case (1 t b)
  then show ?case using local_refill_range [OF 1]
    by (auto simp: local_ok_def local_take_def Let_def)
next
  case (2 t b t')
  then show ?case by (auto simp: local_ok_def split: option.splits)
next
  case (3 t b)
  then show ?case by (rule local_refill_range)
next
  case (4 t b t')
  show ?case
  proof (cases b)
    case None
    then show ?thesis using 4 by (auto simp: local_refill_def local_ok_def)
  next
    case (Some r)
    have gain: "0 \<le> rate / 1000 * (t' - t)" using 4 by (auto simp: local_ok_def)
    have times: "max 0 (t - lb_updatedAtMs r) = t - lb_updatedAtMs r"
      "max 0 (t' - lb_updatedAtMs r) = t' - lb_updatedAtMs r"
      using 4 Some by (auto simp: local_ok_def)
    have "(t' - lb_updatedAtMs r) / 1000 * rate =
        (t - lb_updatedAtMs r) / 1000 * rate + rate / 1000 * (t' - t)"
      by (simp add: field_simps)
    then show ?thesis using gain unfolding Some local_refill_def option.case times by linarith
  qed
next
  case (5 t b)
  then show ?case by (auto simp: local_take_def Let_def)
next
  case (6 t b)
  then show ?case using local_refill_range [OF 6]
    by (auto simp: local_take_def local_refill_def [of rate capacity t "Some _"] Let_def local_ok_def)
qed

section \<open>The chat limiter\<close>

record rate_decision =
  rd_allowed :: bool
  rd_retryAfterMs :: int
  rd_degraded :: bool

type_synonym fallback_map = "(string \<times> local_bucket) list"

text \<open>The fallback is an insertion-ordered \<open>Map\<close> of at most 10000 subjects.\<close>

definition rememberFallback :: "string \<Rightarrow> local_bucket \<Rightarrow> fallback_map \<Rightarrow> fallback_map" where
  "rememberFallback subject bucket m =
     (let m1 = (if map_of m subject = None \<and> length m \<ge> 10000
                then (case m of [] \<Rightarrow> m | (oldest, _) # _ \<Rightarrow> AList.delete oldest m) else m)
      in AList.delete subject m1 @ [(subject, bucket)])"

definition consumeFallback ::
  "chat_config \<Rightarrow> string \<Rightarrow> rat \<Rightarrow> fallback_map \<Rightarrow> rate_decision \<times> fallback_map" where
  "consumeFallback config subject nowMs m =
     (let rate = rat_of_int (cc_ratePerParticipant config);
          capacity = rat_of_int (cc_rateBurst config);
          tokens = local_refill rate capacity nowMs (map_of m subject)
      in if tokens < 1
         then (\<lparr>rd_allowed = False, rd_retryAfterMs = \<lceil>(1 - tokens) / rate * 1000\<rceil>, rd_degraded = True\<rparr>,
               rememberFallback subject \<lparr>lb_tokens = tokens, lb_updatedAtMs = nowMs\<rparr> m)
         else (\<lparr>rd_allowed = True, rd_retryAfterMs = 0, rd_degraded = True\<rparr>,
               rememberFallback subject \<lparr>lb_tokens = tokens - 1, lb_updatedAtMs = nowMs\<rparr> m))"

record chat_limiter =
  cl_redis :: "string \<Rightarrow> redis_bucket option"
  cl_fallback :: fallback_map

text \<open>\<open>consume\<close>: the script when Redis answers, the fallback when it does not. \<open>subject\<close> is the digest
  of meeting and participant.\<close>

definition limiter_consume ::
  "chat_config \<Rightarrow> bool \<Rightarrow> int \<Rightarrow> rat \<Rightarrow> string \<Rightarrow> chat_limiter \<Rightarrow> rate_decision \<times> chat_limiter" where
  "limiter_consume config redis_up redis_now nowMs subject s =
     (if redis_up
      then (case TOKEN_BUCKET_SCRIPT (cc_ratePerParticipant config) (cc_rateBurst config) redis_now
              (cl_redis s subject) of
             ((allowed, retry), b) \<Rightarrow>
               (\<lparr>rd_allowed = allowed, rd_retryAfterMs = retry, rd_degraded = False\<rparr>,
                s\<lparr>cl_redis := (cl_redis s)(subject := b)\<rparr>))
      else (case consumeFallback config subject nowMs (cl_fallback s) of
             (d, m) \<Rightarrow> (d, s\<lparr>cl_fallback := m\<rparr>)))"

definition fallback_inv :: "fallback_map \<Rightarrow> bool" where
  "fallback_inv m = (distinct (map fst m) \<and> length m \<le> 10000)"

lemma delete_shorter: "map_of m k \<noteq> None \<Longrightarrow> length (AList.delete k m) < length m"
  unfolding AList.delete_eq by (induction m) (auto simp: le_imp_less_Suc split: if_splits)

lemma length_delete_le: "length (AList.delete k m) \<le> length m"
  by (simp add: AList.delete_eq)

lemma rememberFallback_inv:
  assumes "fallback_inv m"
  shows "fallback_inv (rememberFallback subject bucket m)"
proof -
  let ?m1 = "if map_of m subject = None \<and> length m \<ge> 10000
    then (case m of [] \<Rightarrow> m | (oldest, _) # _ \<Rightarrow> AList.delete oldest m) else m"
  have dist: "distinct (map fst (AList.delete k ?m1))" for k
    using assms by (auto simp: fallback_inv_def distinct_delete split: list.splits)
  have "length (AList.delete subject ?m1) < 10000"
  proof (cases "map_of m subject = None \<and> length m \<ge> 10000")
    case True
    then obtain k v rest where m: "m = (k, v) # rest" by (cases m) auto
    then have "length (AList.delete k m) < length m" by (intro delete_shorter) simp
    then show ?thesis
      using True m assms length_delete_le [of subject "AList.delete k m"]
      by (simp add: fallback_inv_def)
  next
    case False
    then show ?thesis
      using assms delete_shorter [of m subject] length_delete_le [of subject m]
      by (cases "map_of m subject = None") (auto simp: fallback_inv_def)
  qed
  then show ?thesis using dist [of subject]
    by (auto simp: fallback_inv_def rememberFallback_def Let_def AList.delete_eq)
qed

lemma consumeFallback_inv:
  "fallback_inv m \<Longrightarrow> fallback_inv (snd (consumeFallback config subject nowMs m))"
  by (simp add: consumeFallback_def Let_def rememberFallback_inv)

text \<open>A subject that is still remembered sees the local bucket.\<close>

lemma map_of_rememberFallback: "map_of (rememberFallback subject bucket m) subject = Some bucket"
proof -
  have "map_of (AList.delete subject xs @ [(subject, bucket)]) subject = Some bucket" for xs
    by (simp add: map_of_append delete_conv' map_add_def)
  then show ?thesis by (simp add: rememberFallback_def Let_def)
qed

lemma consumeFallback_local:
  "(rd_allowed (fst (consumeFallback config subject nowMs m)),
    map_of (snd (consumeFallback config subject nowMs m)) subject) =
   local_take (rat_of_int (cc_ratePerParticipant config)) (rat_of_int (cc_rateBurst config)) nowMs
     (map_of m subject)"
  by (auto simp: consumeFallback_def local_take_def Let_def map_of_rememberFallback)

section \<open>The message limiter of a socket\<close>

record message_buckets =
  mb_unauthenticated :: "local_bucket option"
  mb_authenticated :: "local_bucket option"

definition message_consume ::
  "realtime_config \<Rightarrow> bool \<Rightarrow> rat \<Rightarrow> message_buckets \<Rightarrow> bool \<times> message_buckets" where
  "message_consume config isAuthenticated nowMs s =
     (let rate = (if isAuthenticated then rat_of_int (rc_messageRatePerSecond config) else 5);
          capacity = (if isAuthenticated then rat_of_int (rc_messageBurst config) else 5);
          bucket = (if isAuthenticated then mb_authenticated s else mb_unauthenticated s);
          (allowed, bucket') = local_take rate capacity nowMs bucket
      in (allowed, if isAuthenticated then s\<lparr>mb_authenticated := bucket'\<rparr>
                   else s\<lparr>mb_unauthenticated := bucket'\<rparr>))"

section \<open>Fixed-window quotas\<close>

type_synonym counters = "string \<Rightarrow> (int \<times> instant) option"

text \<open>\<open>FIXED_WINDOW_SCRIPT\<close>: \<open>INCR\<close>, and \<open>PEXPIRE\<close> when the key is new; the reply is the count and the
  remaining time to live.\<close>

definition FIXED_WINDOW_SCRIPT :: "int \<Rightarrow> instant \<Rightarrow> string \<Rightarrow> counters \<Rightarrow> (int \<times> int) \<times> counters" where
  "FIXED_WINDOW_SCRIPT windowMs now key st =
     (case st key of
       Some (n, expires) \<Rightarrow>
         if now < expires then ((n + 1, expires - now), st(key \<mapsto> (n + 1, expires)))
         else ((1, windowMs), st(key \<mapsto> (1, now + windowMs)))
     | None \<Rightarrow> ((1, windowMs), st(key \<mapsto> (1, now + windowMs))))"

text \<open>The reply check shared by the three services, and the decision; \<open>up\<close> is whether Redis answers.\<close>

definition window_consume ::
  "bool \<Rightarrow> int \<Rightarrow> int \<Rightarrow> failure \<Rightarrow> failure \<Rightarrow> (int \<Rightarrow> failure) \<Rightarrow> string \<Rightarrow> instant \<Rightarrow> counters
     \<Rightarrow> unit outcome \<times> counters" where
  "window_consume up windowMs limit unavailable invalid limited key now st =
     (if \<not> up then (Inl unavailable, st)
      else case FIXED_WINDOW_SCRIPT windowMs now key st of
        ((n, ttlMs), st') \<Rightarrow>
          if n < 1 \<or> ttlMs < 0 then (Inl invalid, st')
          else if n > limit then (Inl (limited (max 1 \<lceil>rat_of_int ttlMs / 1000\<rceil>)), st')
          else (Inr (), st'))"

definition retry_details :: "int \<Rightarrow> (string \<times> json) list" where
  "retry_details seconds = [(''retryAfterSeconds'', JInt seconds)]"

definition consumeCreate ::
  "(string \<Rightarrow> string) \<Rightarrow> meetings_config \<Rightarrow> bool \<Rightarrow> string \<Rightarrow> instant \<Rightarrow> counters \<Rightarrow> unit outcome \<times> counters" where
  "consumeCreate sha256hex config up sourceAddress =
     window_consume up (mc_rateLimitWindowSeconds config * 1000) (mc_createRateLimit config)
       (app_failure ''ABUSE_CONTROL_UNAVAILABLE'' Dependency
         ''Public meeting admission is temporarily unavailable.'')
       (app_failure ''ABUSE_CONTROL_INVALID_RESPONSE'' Dependency
         ''Public meeting admission is temporarily unavailable.'')
       (\<lambda>s. app_failure_with ''PUBLIC_RATE_LIMITED'' RateLimited ''Too many public meeting requests.''
         (retry_details s))
       (''hf:v1:rate:meeting_create:{'' @ sha256hex sourceAddress @ ''}'')"

definition consumeJoin ::
  "(string \<Rightarrow> string) \<Rightarrow> meetings_config \<Rightarrow> bool \<Rightarrow> string \<Rightarrow> uuid \<Rightarrow> instant \<Rightarrow> counters
     \<Rightarrow> unit outcome \<times> counters" where
  "consumeJoin sha256hex config up sourceAddress meetingId =
     window_consume up (mc_rateLimitWindowSeconds config * 1000) (mc_joinRateLimit config)
       (app_failure ''ABUSE_CONTROL_UNAVAILABLE'' Dependency
         ''Public meeting admission is temporarily unavailable.'')
       (app_failure ''ABUSE_CONTROL_INVALID_RESPONSE'' Dependency
         ''Public meeting admission is temporarily unavailable.'')
       (\<lambda>s. app_failure_with ''PUBLIC_RATE_LIMITED'' RateLimited ''Too many public meeting requests.''
         (retry_details s))
       (''hf:v1:rate:meeting_join:{'' @ sha256hex (sourceAddress @ [CHR 0x00] @ meetingId) @ ''}'')"

definition ticket_consume ::
  "(string \<Rightarrow> string) \<Rightarrow> realtime_config \<Rightarrow> bool \<Rightarrow> string \<Rightarrow> uuid \<Rightarrow> instant \<Rightarrow> counters
     \<Rightarrow> unit outcome \<times> counters" where
  "ticket_consume sha256hex config up sourceAddress sessionId =
     window_consume up (rc_ticketRateLimitWindowSeconds config * 1000) (rc_ticketIssueRateLimit config)
       (app_failure ''REALTIME_ADMISSION_UNAVAILABLE'' Dependency
         ''Realtime admission is temporarily unavailable.'')
       (app_failure ''REALTIME_ADMISSION_INVALID_RESPONSE'' Dependency
         ''Realtime admission is temporarily unavailable.'')
       (\<lambda>s. app_failure_with ''REALTIME_TICKET_RATE_LIMITED'' RateLimited
         ''Too many realtime ticket requests.'' (retry_details s))
       (''hf:v1:rate:realtime_ticket:{'' @ sha256hex (sourceAddress @ [CHR 0x00] @ sessionId) @ ''}'')"

definition sfu_consume ::
  "(string \<Rightarrow> string) \<Rightarrow> sfu_config \<Rightarrow> bool \<Rightarrow> string \<Rightarrow> uuid \<Rightarrow> instant \<Rightarrow> counters
     \<Rightarrow> unit outcome \<times> counters" where
  "sfu_consume sha256hex config up sourceAddress sessionId =
     (let unavailable = app_failure ''SFU_ADMISSION_UNAVAILABLE'' Dependency
            ''SFU admission is temporarily unavailable.''
      in window_consume up (sc_rateLimitWindowSeconds config * 1000) (sc_issueRateLimit config)
       unavailable unavailable
       (\<lambda>s. app_failure_with ''SFU_ADMISSION_RATE_LIMITED'' RateLimited
         ''Too many SFU admission requests.'' (retry_details s))
       (''hf:v1:rate:sfu_admission:{'' @ sha256hex (sourceAddress @ [CHR 0x00] @ sessionId) @ ''}''))"

text \<open>The contract of a quota on one key: a window starts with the first attempt after the last one
  ended, every attempt of a window counts, and the first \<open>limit\<close> are admitted.\<close>

locale window_quota =
  fixes attempt :: "instant \<Rightarrow> 's \<Rightarrow> bool \<times> 's"
    and window :: "'s \<Rightarrow> (int \<times> instant) option"
    and limit span :: int
  assumes starts: "\<forall>c e. window s = Some (c, e) \<longrightarrow> e \<le> now \<Longrightarrow>
      window (snd (attempt now s)) = Some (1, now + span) \<and> (fst (attempt now s) \<longrightarrow> 1 \<le> limit)"
    and continues: "window s = Some (c, e) \<Longrightarrow> now < e \<Longrightarrow>
      window (snd (attempt now s)) = Some (c + 1, e) \<and> (fst (attempt now s) \<longrightarrow> c + 1 \<le> limit)"
begin

lemma admitted_append:
  "granted attempt s (ts @ us) = granted attempt s ts + granted attempt (foldl (\<lambda>s t. snd (attempt t s)) s ts) us"
  by (induction ts arbitrary: s) auto

lemma admitted_running:
  "window s = Some (c, e) \<Longrightarrow> list_all (\<lambda>t. t < e) ts \<Longrightarrow>
     int (granted attempt s ts) \<le> max 0 (limit - c) \<and>
     (\<exists>c'. window (foldl (\<lambda>s t. snd (attempt t s)) s ts) = Some (c', e))"
proof (induction ts arbitrary: s c)
  case (Cons t ts)
  from continues [OF Cons.prems(1)] Cons.prems(2)
  have step: "window (snd (attempt t s)) = Some (c + 1, e)" "fst (attempt t s) \<longrightarrow> c + 1 \<le> limit" by auto
  from Cons.IH [OF step(1)] Cons.prems(2) step(2) show ?case by auto
qed auto

lemma admitted_fresh:
  assumes "\<forall>c e. window s = Some (c, e) \<longrightarrow> e \<le> t" "list_all (\<lambda>u. u < t + span) ts" "0 \<le> limit"
  shows "int (granted attempt s (t # ts)) \<le> limit"
  using starts [OF assms(1)] admitted_running [of "snd (attempt t s)" 1 "t + span" ts]
    assms(2,3) by auto

theorem admitted_bounded:
  assumes "sorted ts" "list_all (\<lambda>t. a \<le> t \<and> t < a + span) ts" "0 \<le> limit"
    and counted: "\<And>c e. window s = Some (c, e) \<Longrightarrow> 0 \<le> c"
  shows "int (granted attempt s ts) \<le> 2 * limit"
proof -
  have fresh: "int (granted attempt s' us) \<le> limit"
    if "\<forall>c e. window s' = Some (c, e) \<longrightarrow> (\<forall>u \<in> set us. e \<le> u)" "sorted us"
      "list_all (\<lambda>t. a \<le> t \<and> t < a + span) us" for s' us
  proof (cases us)
    case Nil
    then show ?thesis using assms(3) by simp
  next
    case (Cons u vs)
    then have "list_all (\<lambda>v. v < u + span) vs" using that(3) by (auto simp: list_all_iff)
    then show ?thesis using admitted_fresh [of s' u vs] that(1) assms(3) Cons by auto
  qed
  show ?thesis
  proof (cases "window s")
    case None
    then show ?thesis using fresh [of s ts] assms by simp
  next
    case (Some w)
    obtain c e where w: "window s = Some (c, e)" using Some by (cases w) auto
    define us where "us = takeWhile (\<lambda>t. t < e) ts"
    define vs where "vs = dropWhile (\<lambda>t. t < e) ts"
    have ts: "ts = us @ vs" by (simp add: us_def vs_def)
    have low: "list_all (\<lambda>t. t < e) us" by (auto simp: us_def list_all_iff dest: set_takeWhileD)
    note first = admitted_running [OF w low]
    have "e \<le> u" if u: "u \<in> set vs" for u
    proof -
      obtain v vs' where v: "vs = v # vs'" using u by (cases vs) simp_all
      then have "\<not> v < e" unfolding vs_def using hd_dropWhile [of "\<lambda>t. t < e" ts] by auto
      moreover have "v \<le> u" using assms(1) u unfolding ts v by (auto simp: sorted_append)
      ultimately show ?thesis by linarith
    qed
    then have "int (granted attempt (foldl (\<lambda>s t. snd (attempt t s)) s us) vs) \<le> limit"
      using fresh first assms(1,2) ts by (auto simp: sorted_append)
    then show ?thesis
      using first counted [OF w] assms(3) unfolding ts admitted_append by auto
  qed
qed

end

text \<open>One request against a quota service, and the interpretation on the model's own definition.\<close>

definition quota_attempt ::
  "(instant \<Rightarrow> counters \<Rightarrow> unit outcome \<times> counters) \<Rightarrow> instant \<Rightarrow> counters \<Rightarrow> bool \<times> counters" where
  "quota_attempt service now st = (\<not> isl (fst (service now st)), snd (service now st))"

interpretation quota: window_quota
  "quota_attempt (window_consume True windowMs limit unavailable invalid limited key)"
  "\<lambda>st. st key" limit windowMs
  by unfold_locales
    (auto simp: quota_attempt_def window_consume_def FIXED_WINDOW_SCRIPT_def split: option.splits)

text \<open>Other keys are untouched, and without Redis the services fail closed.\<close>

lemma window_consume_frame:
  "k \<noteq> key \<Longrightarrow> snd (window_consume up w l u i f key now st) k = st k"
  by (auto simp: window_consume_def FIXED_WINDOW_SCRIPT_def split: option.splits prod.splits)

lemma window_consume_down: "window_consume False w l u i f key now st = (Inl u, st)"
  by (simp add: window_consume_def)

section \<open>Guarantees of the limiters\<close>

definition chat_attempt ::
  "chat_config \<Rightarrow> string \<Rightarrow> rat \<Rightarrow> int \<Rightarrow> chat_limiter \<Rightarrow> bool \<times> chat_limiter" where
  "chat_attempt config subject nowMs t s =
     (rd_allowed (fst (limiter_consume config True t nowMs subject s)),
      snd (limiter_consume config True t nowMs subject s))"

lemma chat_attempt_redis:
  "fst (chat_attempt config subject nowMs t s) =
     fst (redis_take (cc_ratePerParticipant config) (cc_rateBurst config) t (cl_redis s subject))"
  "cl_redis (snd (chat_attempt config subject nowMs t s)) subject =
     snd (redis_take (cc_ratePerParticipant config) (cc_rateBurst config) t (cl_redis s subject))"
  by (simp_all add: chat_attempt_def limiter_consume_def redis_take_def split: prod.splits)

lemma chat_granted_redis:
  "granted (chat_attempt config subject nowMs) s ts =
     granted (redis_take (cc_ratePerParticipant config) (cc_rateBurst config)) (cl_redis s subject) ts"
  by (induction ts arbitrary: s) (simp_all add: chat_attempt_redis)

lemma refilled_after_refusal:
  assumes ok: "redis_ok rate burst t b" and refused: "\<not> fst (redis_take rate burst t b)" and later: "t \<le> t'"
  shows "refilled rate burst t' (snd (redis_take rate burst t b)) =
    min (burst * 1000) (refilled rate burst t b + (t' - t) * rate)"
proof -
  have "redis_ok rate burst t' (snd (redis_take rate burst t b))"
    using redis_chat.ok_later [OF redis_chat.ok_take [OF ok] later] .
  from refilled_ignores_expiry [OF this] refused show ?thesis by (simp add: redis_take_simps)
qed

lemma retry_hint_exact:
  assumes ok: "redis_ok rate burst t b" and refused: "\<not> fst (redis_take rate burst t b)" and later: "t \<le> t'"
  shows "fst (redis_take rate burst t' (snd (redis_take rate burst t b))) \<longleftrightarrow>
    t + snd (fst (TOKEN_BUCKET_SCRIPT rate burst t b)) \<le> t'"
proof -
  have rate: "1 \<le> rate" "1 \<le> burst" using ok by (auto simp: redis_ok_def)
  define need where "need = 1000 - refilled rate burst t b"
  have hint: "snd (fst (TOKEN_BUCKET_SCRIPT rate burst t b)) = ceil_div need rate"
    using refused by (simp add: redis_take_simps TOKEN_BUCKET_SCRIPT_def Let_def need_def)
  note bounds = ceil_div_bounds [of rate need]
  have "need \<le> (t' - t) * rate \<longleftrightarrow> ceil_div need rate \<le> t' - t"
  proof
    assume "need \<le> (t' - t) * rate"
    then have "(ceil_div need rate - 1) * rate < (t' - t) * rate" using bounds(2) rate by linarith
    then show "ceil_div need rate \<le> t' - t" using rate mult_less_cancel_right_pos [of rate] by simp
  next
    assume "ceil_div need rate \<le> t' - t"
    then have "ceil_div need rate * rate \<le> (t' - t) * rate" using rate by (intro mult_right_mono) auto
    then show "need \<le> (t' - t) * rate" using bounds(1) rate by linarith
  qed
  then show ?thesis
    unfolding redis_take_simps(1) [of _ _ t'] refilled_after_refusal [OF assms] hint
    using rate by (auto simp: need_def)
qed

text \<open>C29. While Redis answers, the chat limiter admits in any interval at most the burst plus what the
  rate refills in it (in millitokens), whatever the expiry of the key did in between; and a refusal's
  \<open>retryAfterMs\<close> is exact: with no other message in between, the next attempt is admitted from that
  moment on and not before.\<close>

theorem chat_rate_bounded:
  assumes "redis_ok (cc_ratePerParticipant config) (cc_rateBurst config) t0 (cl_redis s subject)"
    and "sorted (t0 # ts)" and "t0 \<le> t"
  shows "int (granted (chat_attempt config subject nowMs) s ts) * 1000
      \<le> cc_rateBurst config * 1000 + cc_ratePerParticipant config * (last (t0 # ts) - t0) \<and>
    (\<not> fst (chat_attempt config subject nowMs t0 s) \<longrightarrow>
      (fst (chat_attempt config subject nowMs t (snd (chat_attempt config subject nowMs t0 s)))
        \<longleftrightarrow> t0 + rd_retryAfterMs (fst (limiter_consume config True t0 nowMs subject s)) \<le> t))"
proof -
  have hint: "rd_retryAfterMs (fst (limiter_consume config True t0 nowMs subject s)) =
      snd (fst (TOKEN_BUCKET_SCRIPT (cc_ratePerParticipant config) (cc_rateBurst config) t0 (cl_redis s subject)))"
    by (simp add: limiter_consume_def split: prod.splits)
  show ?thesis
    using redis_chat.grants_bounded [OF assms(1,2)] retry_hint_exact [OF assms(1) _ assms(3)]
    by (simp add: chat_granted_redis chat_attempt_redis hint)
qed

definition sample_limits :: chat_config where
  "sample_limits = \<lparr>cc_enabled = True, cc_maxCiphertextBytes = 8192, cc_historyPageDefault = 50,
     cc_historyPageMax = 100, cc_ratePerParticipant = 2, cc_rateBurst = 2, cc_fastPathLeaseMs = 5000,
     cc_highWatermarkIntervalMs = 30000, cc_reorderBufferMessages = 64, cc_retentionDays = 30,
     cc_cleanupBatchSize = 100, cc_cleanupIntervalMs = 60000\<rparr>"

definition sample_limiter :: chat_limiter where
  "sample_limiter = \<lparr>cl_redis = (\<lambda>_. Some \<lparr>rb_tokens = 100, rb_updated = 1000, rb_expires = 3000\<rparr>),
     cl_fallback = []\<rparr>"

theorem chat_rate_bounded_witness:
  "int (granted (chat_attempt sample_limits ''p'' 0) sample_limiter [1000, 1450, 1451, 2100]) * 1000
      \<le> 2 * 1000 + 2 * (2100 - 1000) \<and>
   granted (chat_attempt sample_limits ''p'' 0) sample_limiter [1000, 1450, 1451, 2100] = 2 \<and>
   fst (chat_attempt sample_limits ''p'' 0 1450 (snd (chat_attempt sample_limits ''p'' 0 1000 sample_limiter))) \<and>
   1000 + rd_retryAfterMs (fst (limiter_consume sample_limits True 1000 0 ''p'' sample_limiter)) \<le> 1450"
proof -
  have ok: "redis_ok (cc_ratePerParticipant sample_limits) (cc_rateBurst sample_limits) 1000
      (cl_redis sample_limiter ''p'')" by code_simp
  have refused: "\<not> fst (chat_attempt sample_limits ''p'' 0 1000 sample_limiter)" by code_simp
  have two: "granted (chat_attempt sample_limits ''p'' 0) sample_limiter [1000, 1450, 1451, 2100] = 2"
    by code_simp
  have again: "fst (chat_attempt sample_limits ''p'' 0 1450
      (snd (chat_attempt sample_limits ''p'' 0 1000 sample_limiter)))" by code_simp
  have "cc_rateBurst sample_limits = 2" "cc_ratePerParticipant sample_limits = 2"
    by (simp_all add: sample_limits_def)
  with chat_rate_bounded [OF ok, of "[1000, 1450, 1451, 2100]" 1450 0] refused two again
  show ?thesis by simp
qed

text \<open>The socket limiter and the fallback see the process-local bucket.\<close>

definition message_bucket :: "bool \<Rightarrow> message_buckets \<Rightarrow> local_bucket option" where
  "message_bucket isAuthenticated s = (if isAuthenticated then mb_authenticated s else mb_unauthenticated s)"

definition message_rate :: "realtime_config \<Rightarrow> bool \<Rightarrow> rat" where
  "message_rate config isAuthenticated =
     (if isAuthenticated then rat_of_int (rc_messageRatePerSecond config) else 5)"

definition message_capacity :: "realtime_config \<Rightarrow> bool \<Rightarrow> rat" where
  "message_capacity config isAuthenticated =
     (if isAuthenticated then rat_of_int (rc_messageBurst config) else 5)"

lemma message_consume_local:
  "(fst (message_consume config auth nowMs s), message_bucket auth (snd (message_consume config auth nowMs s)))
     = local_take (message_rate config auth) (message_capacity config auth) nowMs (message_bucket auth s)"
  "message_bucket (\<not> auth) (snd (message_consume config auth nowMs s)) = message_bucket (\<not> auth) s"
  by (auto simp: message_consume_def message_rate_def message_capacity_def message_bucket_def Let_def
      split: prod.splits)

lemma message_granted_local:
  "granted (message_consume config auth) s ts =
     granted (local_take (message_rate config auth) (message_capacity config auth)) (message_bucket auth s) ts"
proof (induction ts arbitrary: s)
  case (Cons t ts)
  from message_consume_local(1) [of config auth t s]
  have "fst (message_consume config auth t s) =
      fst (local_take (message_rate config auth) (message_capacity config auth) t (message_bucket auth s))"
    "message_bucket auth (snd (message_consume config auth t s)) =
      snd (local_take (message_rate config auth) (message_capacity config auth) t (message_bucket auth s))"
    by (metis fst_conv, metis snd_conv)
  then show ?case using Cons by simp
qed simp

text \<open>On a fresh socket, in any interval, the frames admitted before authentication are at most
  five plus five a second, and those admitted after it at most the configured burst plus the
  configured rate; a frame of one kind never consumes the other kind's allowance.\<close>

theorem message_rate_bounded:
  assumes "0 < rc_messageRatePerSecond config" and "1 \<le> rc_messageBurst config"
    and "sorted (t0 # ts)"
  shows "rat_of_nat (granted (message_consume config auth) \<lparr>mb_unauthenticated = None, mb_authenticated = None\<rparr> ts)
      \<le> message_capacity config auth + message_rate config auth / 1000 * (last (t0 # ts) - t0) \<and>
    message_bucket (\<not> auth) (snd (message_consume config auth t s)) = message_bucket (\<not> auth) s"
proof -
  have "local_ok (message_rate config auth) (message_capacity config auth) t0 None"
    using assms by (simp add: local_ok_def message_rate_def message_capacity_def)
  note bound = local.grants_bounded [OF this assms(3)]
  have fresh: "message_bucket auth \<lparr>mb_unauthenticated = None, mb_authenticated = None\<rparr> = None"
    by (simp add: message_bucket_def)
  show ?thesis using bound
    by (simp only: message_granted_local fresh message_consume_local(2) mult_1_right simp_thms)
qed

definition sample_realtime :: realtime_config where
  "sample_realtime = \<lparr>rc_ticketTtlSeconds = 30, rc_authenticationTimeoutMs = 5000,
     rc_heartbeatIntervalMs = 25000, rc_presenceTtlSeconds = 90, rc_maxMessageBytes = 16384,
     rc_maxBufferedBytes = 262144, rc_maxPendingCommands = 16, rc_messageRatePerSecond = 2,
     rc_messageBurst = 1, rc_maxConnectionsPerSource = 32, rc_maxConnectionsPerSession = 4,
     rc_ticketIssueRateLimit = 2, rc_ticketRateLimitWindowSeconds = 60,
     rc_sessionRevalidateSeconds = 30, rc_maxPresenceSnapshotParticipants = 1000\<rparr>"

theorem message_rate_bounded_witness:
  "rat_of_nat (granted (message_consume sample_realtime True)
       \<lparr>mb_unauthenticated = None, mb_authenticated = None\<rparr> [0, 100, 600])
     \<le> message_capacity sample_realtime True + message_rate sample_realtime True / 1000 * (600 - 0)"
  using message_rate_bounded [of sample_realtime 0 "[0, 100, 600]" True] by (simp add: sample_realtime_def)

text \<open>The four services side by side: the arguments of the request, the key it counts on, the limit and
  the window.\<close>

datatype quota =
  MeetingCreate string
| MeetingJoin string uuid
| RealtimeTicket string uuid
| SfuAdmission string uuid

record quota_configs =
  q_meetings :: meetings_config
  q_realtime :: realtime_config
  q_sfu :: sfu_config

fun quota_consume ::
  "(string \<Rightarrow> string) \<Rightarrow> quota_configs \<Rightarrow> quota \<Rightarrow> bool \<Rightarrow> instant \<Rightarrow> counters \<Rightarrow> unit outcome \<times> counters" where
  "quota_consume sha c (MeetingCreate src) up = consumeCreate sha (q_meetings c) up src"
| "quota_consume sha c (MeetingJoin src m) up = consumeJoin sha (q_meetings c) up src m"
| "quota_consume sha c (RealtimeTicket src sid) up = ticket_consume sha (q_realtime c) up src sid"
| "quota_consume sha c (SfuAdmission src sid) up = sfu_consume sha (q_sfu c) up src sid"

fun quota_limit :: "quota_configs \<Rightarrow> quota \<Rightarrow> int" where
  "quota_limit c (MeetingCreate src) = mc_createRateLimit (q_meetings c)"
| "quota_limit c (MeetingJoin src m) = mc_joinRateLimit (q_meetings c)"
| "quota_limit c (RealtimeTicket src sid) = rc_ticketIssueRateLimit (q_realtime c)"
| "quota_limit c (SfuAdmission src sid) = sc_issueRateLimit (q_sfu c)"

fun quota_window :: "quota_configs \<Rightarrow> quota \<Rightarrow> int" where
  "quota_window c (MeetingCreate src) = mc_rateLimitWindowSeconds (q_meetings c) * 1000"
| "quota_window c (MeetingJoin src m) = mc_rateLimitWindowSeconds (q_meetings c) * 1000"
| "quota_window c (RealtimeTicket src sid) = rc_ticketRateLimitWindowSeconds (q_realtime c) * 1000"
| "quota_window c (SfuAdmission src sid) = sc_rateLimitWindowSeconds (q_sfu c) * 1000"

fun quota_key :: "(string \<Rightarrow> string) \<Rightarrow> quota \<Rightarrow> string" where
  "quota_key sha (MeetingCreate src) = ''hf:v1:rate:meeting_create:{'' @ sha src @ ''}''"
| "quota_key sha (MeetingJoin src m) = ''hf:v1:rate:meeting_join:{'' @ sha (src @ [CHR 0x00] @ m) @ ''}''"
| "quota_key sha (RealtimeTicket src sid) =
     ''hf:v1:rate:realtime_ticket:{'' @ sha (src @ [CHR 0x00] @ sid) @ ''}''"
| "quota_key sha (SfuAdmission src sid) =
     ''hf:v1:rate:sfu_admission:{'' @ sha (src @ [CHR 0x00] @ sid) @ ''}''"

lemma quota_consume_window:
  "\<exists>u i f. quota_consume sha c q up =
     window_consume up (quota_window c q) (quota_limit c q) u i f (quota_key sha q)"
  by (cases q) (auto simp: consumeCreate_def consumeJoin_def ticket_consume_def sfu_consume_def Let_def)

text \<open>C30. Each fixed-window quota (meeting creation, joining, realtime tickets, SFU admissions) admits
  at most its limit of the requests of a window opened by the first of them, and at most twice its
  limit in any interval of the window's length, wherever that interval starts. It counts on its own
  key only, and with Redis unavailable it refuses and counts nothing.\<close>

theorem window_quotas_bounded:
  assumes "sorted ts" and "list_all (\<lambda>t. a \<le> t \<and> t < a + quota_window c q) ts"
    and "0 \<le> quota_limit c q"
    and "\<And>n e. st (quota_key sha q) = Some (n, e) \<Longrightarrow> 0 \<le> n"
  shows "int (granted (quota_attempt (quota_consume sha c q True)) st ts) \<le> 2 * quota_limit c q \<and>
    (st (quota_key sha q) = None \<longrightarrow>
       int (granted (quota_attempt (quota_consume sha c q True)) st ts) \<le> quota_limit c q) \<and>
    (k \<noteq> quota_key sha q \<longrightarrow> snd (quota_consume sha c q up now st) k = st k) \<and>
    isl (fst (quota_consume sha c q False now st)) \<and> snd (quota_consume sha c q False now st) = st"
proof -
  obtain u i f where up: "quota_consume sha c q True =
      window_consume True (quota_window c q) (quota_limit c q) u i f (quota_key sha q)"
    using quota_consume_window by blast
  obtain u' i' f' where any: "quota_consume sha c q up =
      window_consume up (quota_window c q) (quota_limit c q) u' i' f' (quota_key sha q)"
    using quota_consume_window by blast
  obtain u'' i'' f'' where down: "quota_consume sha c q False =
      window_consume False (quota_window c q) (quota_limit c q) u'' i'' f'' (quota_key sha q)"
    using quota_consume_window by blast
  have fresh: "int (granted (quota_attempt (quota_consume sha c q True)) st ts) \<le> quota_limit c q"
    if "st (quota_key sha q) = None"
  proof (cases ts)
    case (Cons t ts')
    then have "list_all (\<lambda>u. u < t + quota_window c q) ts'" using assms(2) by (auto simp: list_all_iff)
    then show ?thesis unfolding Cons up using that assms(3) by (intro quota.admitted_fresh) auto
  qed (use assms(3) in simp)
  show ?thesis
    using quota.admitted_bounded [OF assms(1-3), of st "quota_key sha q" u i f, folded up] assms(4) fresh
    by (simp add: any down window_consume_frame window_consume_down)
qed

definition sample_quotas :: quota_configs where
  "sample_quotas = \<lparr>q_meetings = undefined, q_realtime = sample_realtime, q_sfu = undefined\<rparr>"

theorem window_quotas_bounded_witness:
  "int (granted (quota_attempt (quota_consume id sample_quotas (RealtimeTicket ''192.0.2.1'' ''s'') True))
      (\<lambda>_. None) [100, 200, 300, 50000]) \<le> 2 \<and>
   granted (quota_attempt (quota_consume id sample_quotas (RealtimeTicket ''192.0.2.1'' ''s'') True))
      (\<lambda>_. None) [100, 200, 300, 50000] = 2"
proof -
  let ?q = "RealtimeTicket ''192.0.2.1'' ''s''"
  have w: "quota_window sample_quotas ?q = 60000" "quota_limit sample_quotas ?q = 2"
    by (simp_all add: sample_quotas_def sample_realtime_def)
  have "granted (quota_attempt (quota_consume id sample_quotas ?q True)) (\<lambda>_. None) [100, 200, 300, 50000] = 2"
    by code_simp
  then show ?thesis
    using window_quotas_bounded [of "[100, 200, 300, 50000]" 100 sample_quotas ?q "\<lambda>_. None" id]
    by (simp add: w)
qed

text \<open>The process-local fallback never remembers more than ten thousand participants, and a
  participant it remembers is held to the same bucket as with Redis: allowed exactly when a token is
  there, one token paid for it, at most the burst stored.\<close>

theorem fallback_bounded:
  assumes "fallback_inv m" and "1 \<le> cc_rateBurst config" and "1 \<le> cc_ratePerParticipant config"
    and "local_ok (rat_of_int (cc_ratePerParticipant config)) (rat_of_int (cc_rateBurst config)) nowMs (map_of m subject)"
  shows "fallback_inv (snd (consumeFallback config subject nowMs m)) \<and>
    local_ok (rat_of_int (cc_ratePerParticipant config)) (rat_of_int (cc_rateBurst config)) nowMs
      (map_of (snd (consumeFallback config subject nowMs m)) subject) \<and>
    (rd_allowed (fst (consumeFallback config subject nowMs m)),
     map_of (snd (consumeFallback config subject nowMs m)) subject) =
      local_take (rat_of_int (cc_ratePerParticipant config)) (rat_of_int (cc_rateBurst config)) nowMs
        (map_of m subject) \<and>
    (rd_allowed (fst (consumeFallback config subject nowMs m)) \<longleftrightarrow>
       1 \<le> local_refill (rat_of_int (cc_ratePerParticipant config)) (rat_of_int (cc_rateBurst config)) nowMs
         (map_of m subject))"
proof -
  note same = consumeFallback_local [of config subject nowMs m]
  have "map_of (snd (consumeFallback config subject nowMs m)) subject =
      snd (local_take (rat_of_int (cc_ratePerParticipant config)) (rat_of_int (cc_rateBurst config)) nowMs
        (map_of m subject))"
    "rd_allowed (fst (consumeFallback config subject nowMs m)) =
      fst (local_take (rat_of_int (cc_ratePerParticipant config)) (rat_of_int (cc_rateBurst config)) nowMs
        (map_of m subject))"
    by (simp_all only: same [symmetric] fst_conv snd_conv)
  then show ?thesis
    using consumeFallback_inv [OF assms(1)] same local.ok_take [OF assms(4)] local.grants [OF assms(4)]
    by simp
qed

theorem fallback_bounded_witness:
  "fallback_inv (snd (consumeFallback sample_limits ''p'' 0 [])) \<and>
   rd_allowed (fst (consumeFallback sample_limits ''p'' 0 []))"
proof -
  have "rd_allowed (fst (consumeFallback sample_limits ''p'' 0 []))" by code_simp
  then show ?thesis
    using fallback_bounded [of "[]" sample_limits 0 "''p''"]
    by (simp add: fallback_inv_def local_ok_def sample_limits_def)
qed

end
