(* ===== verification/MeetingService.thy ===== *)
theory MeetingService
  imports Meetings RateLimits
begin

text \<open>
  The public meeting endpoints (\<open>modules/meetings\<close>): normalization of display names, request bodies, the
  fingerprint of a command, the use case, the session cookie, the trusted-browser policy
  (\<open>platform/http\<close>) and the two controller methods. Unicode normalization and grapheme segmentation are
  arguments, and so are the two tokens a request draws from \<open>randomBytes\<close>.
\<close>

section \<open>Display names\<close>

record unicode =
  u_nfkc :: "code_points \<Rightarrow> code_points"
  u_graphemes :: "code_points \<Rightarrow> nat"

text \<open>The category \<open>Cc\<close>, and the bidirectional controls.\<close>

definition CONTROL :: "nat \<Rightarrow> bool" where
  "CONTROL c = (c < 32 \<or> 127 \<le> c \<and> c < 160)"

definition BIDI_CONTROL :: "nat \<Rightarrow> bool" where
  "BIDI_CONTROL c = (c = 0x061c \<or> c = 0x200e \<or> c = 0x200f \<or> 0x202a \<le> c \<and> c \<le> 0x202e \<or>
     0x2066 \<le> c \<and> c \<le> 0x2069)"

definition trim :: "code_points \<Rightarrow> code_points" where
  "trim s = rev (dropWhile js_space (rev (dropWhile js_space s)))"

text \<open>\<open>replace(/\s+/gu, " ")\<close>\<close>

function collapse :: "code_points \<Rightarrow> code_points" where
  "collapse [] = []"
| "collapse (c # cs) =
     (if js_space c then 32 # collapse (dropWhile js_space cs) else c # collapse cs)"
  by pat_completeness auto
termination
  by (relation "measure length") (auto simp: le_imp_less_Suc length_dropWhile_le)

definition normalizeDisplayName :: "unicode \<Rightarrow> code_points \<Rightarrow> code_points outcome" where
  "normalizeDisplayName u value =
     (let normalized = collapse (trim (u_nfkc u value)); n = u_graphemes u normalized
      in if n < 1 \<or> n > 64 \<or> list_ex CONTROL normalized \<or> list_ex BIDI_CONTROL normalized
         then Inl (app_failure ''INVALID_DISPLAY_NAME'' Validation
           ''The display name must contain between 1 and 64 safe characters.'')
         else Inr normalized)"

definition parseMeetingMode :: "string \<Rightarrow> meeting_mode outcome" where
  "parseMeetingMode value =
     (if value = ''video_conference'' then Inr VideoConference
      else if value = ''audio_call'' then Inr AudioCall
      else if value = ''live'' then Inr Live
      else Inl (app_failure ''INVALID_MEETING_MODE'' Validation ''The meeting mode is invalid.''))"

section \<open>Request bodies\<close>

record create_meeting =
  cm_commandId :: uuid
  cm_mode :: meeting_mode
  cm_displayName :: code_points
  cm_hostCapability :: string
  cm_inviteCapability :: string
  cm_deviceBinding :: string
  cm_traceId :: string

record join_meeting =
  jm_meetingId :: uuid
  jm_commandId :: uuid
  jm_displayName :: code_points
  jm_inviteCapability :: string
  jm_deviceBinding :: string
  jm_traceId :: string

definition invalidRequest :: failure where
  "invalidRequest = app_failure ''INVALID_REQUEST'' Validation
     ''The request body or route parameters are invalid.''"

text \<open>\<open>z.string().min(1).max(256)\<close>. A string of the JSON model holds code points below 256, one
  UTF-16 unit each.\<close>

definition bounded_name :: "string \<Rightarrow> bool" where
  "bounded_name s = (1 \<le> length s \<and> length s \<le> 256)"

definition name_points :: "string \<Rightarrow> code_points" where
  "name_points s = map of_char s"

definition createSchema :: "zod \<Rightarrow> json \<Rightarrow> (uuid \<times> string \<times> string \<times> string \<times> string \<times> string) option" where
  "createSchema z v =
     (case v of
       JObj obj \<Rightarrow>
         (case (guarded (z_uuid z) (string_field obj ''commandId''), string_field obj ''mode'',
                guarded bounded_name (string_field obj ''displayName''),
                guarded BASE64URL_256 (string_field obj ''hostCapability''),
                guarded BASE64URL_256 (string_field obj ''inviteCapability''),
                guarded BASE64URL_256 (string_field obj ''deviceBinding'')) of
           (Some i, Some mode, Some name, Some host, Some invite, Some device) \<Rightarrow>
             if strict_keys [''commandId'', ''mode'', ''displayName'', ''hostCapability'',
                  ''inviteCapability'', ''deviceBinding''] obj
             then Some (i, mode, name, host, invite, device) else None
         | _ \<Rightarrow> None)
     | _ \<Rightarrow> None)"

definition joinSchema :: "zod \<Rightarrow> json \<Rightarrow> (uuid \<times> string \<times> string \<times> string) option" where
  "joinSchema z v =
     (case v of
       JObj obj \<Rightarrow>
         (case (guarded (z_uuid z) (string_field obj ''commandId''),
                guarded bounded_name (string_field obj ''displayName''),
                guarded BASE64URL_256 (string_field obj ''inviteCapability''),
                guarded BASE64URL_256 (string_field obj ''deviceBinding'')) of
           (Some i, Some name, Some invite, Some device) \<Rightarrow>
             if strict_keys [''commandId'', ''displayName'', ''inviteCapability'', ''deviceBinding''] obj
             then Some (i, name, invite, device) else None
         | _ \<Rightarrow> None)
     | _ \<Rightarrow> None)"

definition parseCreateMeetingBody :: "zod \<Rightarrow> json \<Rightarrow> string \<Rightarrow> create_meeting outcome" where
  "parseCreateMeetingBody z value traceId =
     and_then (require (createSchema z value) invalidRequest) (\<lambda>(i, rawMode, name, host, invite, device).
     and_then (parseMeetingMode rawMode) (\<lambda>mode.
     Inr \<lparr>cm_commandId = i, cm_mode = mode, cm_displayName = name_points name, cm_hostCapability = host,
       cm_inviteCapability = invite, cm_deviceBinding = device, cm_traceId = traceId\<rparr>))"

definition parseJoinMeetingBody :: "zod \<Rightarrow> json \<Rightarrow> uuid \<Rightarrow> string \<Rightarrow> join_meeting outcome" where
  "parseJoinMeetingBody z value meetingId traceId =
     and_then (require (joinSchema z value) invalidRequest) (\<lambda>(i, name, invite, device).
     Inr \<lparr>jm_meetingId = meetingId, jm_commandId = i, jm_displayName = name_points name,
       jm_inviteCapability = invite, jm_deviceBinding = device, jm_traceId = traceId\<rparr>)"

definition parseMeetingIdentifier :: "zod \<Rightarrow> string \<Rightarrow> uuid outcome" where
  "parseMeetingIdentifier z value = (if z_uuid z value then Inr value else Inl invalidRequest)"

section \<open>The use case\<close>

definition utf8_point :: "nat \<Rightarrow> bytes" where
  "utf8_point c =
     (if c < 0x80 then [of_nat c]
      else if c < 0x800 then [of_nat (0xc0 + c div 64), of_nat (0x80 + c mod 64)]
      else if 0xd800 \<le> c \<and> c < 0xe000 then [0xef, 0xbf, 0xbd]
      else if c < 0x10000
      then [of_nat (0xe0 + c div 4096), of_nat (0x80 + c div 64 mod 64), of_nat (0x80 + c mod 64)]
      else [of_nat (0xf0 + c div 262144), of_nat (0x80 + c div 4096 mod 64),
        of_nat (0x80 + c div 64 mod 64), of_nat (0x80 + c mod 64)])"

definition utf8_points :: "code_points \<Rightarrow> bytes" where
  "utf8_points s = concat (map utf8_point s)"

definition hex_digit :: "nat \<Rightarrow> char" where
  "hex_digit n = (if n < 10 then char_of (48 + n) else char_of (87 + n))"

definition hex_byte :: "byte \<Rightarrow> string" where
  "hex_byte b = [hex_digit (unat b div 16), hex_digit (unat b mod 16)]"

definition toHex :: "bytes \<Rightarrow> string" where
  "toHex bs = concat (map hex_byte bs)"

text \<open>A part of a fingerprint is given by its UTF-8 bytes; its byte length comes first.\<close>

definition sized_part :: "bytes \<Rightarrow> bytes" where
  "sized_part value = utf8 (dec (length value)) @ utf8 '':'' @ value"

definition fingerprint_input :: "bytes list \<Rightarrow> bytes" where
  "fingerprint_input parts = concat (map sized_part parts)"

definition fingerprint :: "(bytes \<Rightarrow> bytes) \<Rightarrow> bytes list \<Rightarrow> bytes" where
  "fingerprint sha256 parts = sha256 (fingerprint_input parts)"

definition createSession ::
  "(bytes \<Rightarrow> bytes \<Rightarrow> bytes) \<Rightarrow> hmac_service \<Rightarrow> bytes \<times> bytes \<Rightarrow> string \<Rightarrow> session_material outcome" where
  "createSession hmac keyrings random deviceBinding =
     (let token = generateOpaqueToken (fst random); csrfToken = generateOpaqueToken (snd random) in
     and_then (digestSession hmac keyrings token) (\<lambda>tokenDigest.
     and_then (digestCsrf hmac keyrings csrfToken) (\<lambda>csrfDigest.
     and_then (digestDeviceBinding hmac keyrings deviceBinding) (\<lambda>deviceDigest.
     Inr \<lparr>sn_token = token, sn_tokenDigest = tokenDigest, sn_csrfToken = csrfToken,
       sn_csrfDigest = csrfDigest, sn_deviceBindingDigest = deviceDigest\<rparr>))))"

definition versioned_parts :: "versioned_digest \<Rightarrow> bytes list" where
  "versioned_parts d = [utf8 (dec_int (vd_version d)), utf8 (toHex (vd_digest d))]"

definition create_parts ::
  "meeting_mode \<Rightarrow> code_points \<Rightarrow> versioned_digest \<Rightarrow> versioned_digest \<Rightarrow> session_material \<Rightarrow> bytes list" where
  "create_parts mode displayName host invite session =
     [utf8 (mode_name mode), utf8_points displayName] @ versioned_parts host @ versioned_parts invite @
     [utf8 (toHex (vd_digest (sn_deviceBindingDigest session)))]"

definition join_parts :: "uuid \<Rightarrow> code_points \<Rightarrow> versioned_digest list \<Rightarrow> session_material \<Rightarrow> bytes list" where
  "join_parts meetingId displayName candidates session =
     [utf8 meetingId, utf8_points displayName] @ concat (map versioned_parts candidates) @
     [utf8 (toHex (vd_digest (sn_deviceBindingDigest session)))]"

record meeting_services =
  ms_unicode :: unicode
  ms_hmac :: "bytes \<Rightarrow> bytes \<Rightarrow> bytes"
  ms_sha256 :: "bytes \<Rightarrow> bytes"
  ms_keyrings :: hmac_service
  ms_random :: "bytes \<times> bytes"

definition create_command :: "meeting_services \<Rightarrow> create_meeting \<Rightarrow> persist_create outcome" where
  "create_command ms command =
     and_then (normalizeDisplayName (ms_unicode ms) (cm_displayName command)) (\<lambda>displayName.
     and_then (digestCapability (ms_hmac ms) (ms_keyrings ms) (cm_hostCapability command)) (\<lambda>host.
     and_then (digestCapability (ms_hmac ms) (ms_keyrings ms) (cm_inviteCapability command)) (\<lambda>invite.
     if digestsEqual (vd_digest host) (vd_digest invite)
     then Inl (app_failure ''CAPABILITIES_MUST_DIFFER'' Validation
       ''Host and invite capabilities must be generated independently.'')
     else and_then (createSession (ms_hmac ms) (ms_keyrings ms) (ms_random ms) (cm_deviceBinding command)) (\<lambda>session.
     Inr \<lparr>pc_commandId = cm_commandId command,
       pc_requestFingerprint = fingerprint (ms_sha256 ms)
         (create_parts (cm_mode command) displayName host invite session),
       pc_mode = cm_mode command, pc_displayName = displayName, pc_hostCapability = host,
       pc_inviteCapability = invite, pc_session = session, pc_traceId = cm_traceId command\<rparr>))))"

definition join_command :: "meeting_services \<Rightarrow> join_meeting \<Rightarrow> persist_join outcome" where
  "join_command ms command =
     and_then (normalizeDisplayName (ms_unicode ms) (jm_displayName command)) (\<lambda>displayName.
     and_then (capabilityCandidates (ms_hmac ms) (ms_keyrings ms) (jm_inviteCapability command)) (\<lambda>candidates.
     and_then (createSession (ms_hmac ms) (ms_keyrings ms) (ms_random ms) (jm_deviceBinding command)) (\<lambda>session.
     Inr \<lparr>pj_meetingId = jm_meetingId command, pj_commandId = jm_commandId command,
       pj_requestFingerprint = fingerprint (ms_sha256 ms)
         (join_parts (jm_meetingId command) displayName candidates session),
       pj_displayName = displayName, pj_inviteCandidates = candidates, pj_session = session,
       pj_traceId = jm_traceId command\<rparr>)))"

text \<open>The repository runs each command serializably, with two retries.\<close>

definition repository_create ::
  "zod \<Rightarrow> meetings_config \<Rightarrow> (nat \<Rightarrow> database attempt_env) \<Rightarrow> (nat \<Rightarrow> meeting_env) \<Rightarrow> persist_create \<Rightarrow> database
     \<Rightarrow> anonymous_session outcome \<times> database" where
  "repository_create z config faults env command db =
     (case run faults (\<lambda>n. meeting_create z config (env n) command) (Some Serializable) (Some 2) db of
       (r, db', _) \<Rightarrow> (r, db'))"

definition repository_join ::
  "zod \<Rightarrow> meetings_config \<Rightarrow> (nat \<Rightarrow> database attempt_env) \<Rightarrow> (nat \<Rightarrow> meeting_env) \<Rightarrow> persist_join \<Rightarrow> database
     \<Rightarrow> anonymous_session outcome \<times> database" where
  "repository_join z config faults env command db =
     (case run faults (\<lambda>n. meeting_join z config (env n) command) (Some Serializable) (Some 2) db of
       (r, db', _) \<Rightarrow> (r, db'))"

definition use_case_create ::
  "zod \<Rightarrow> meetings_config \<Rightarrow> meeting_services \<Rightarrow> (nat \<Rightarrow> database attempt_env) \<Rightarrow> (nat \<Rightarrow> meeting_env)
     \<Rightarrow> create_meeting \<Rightarrow> database \<Rightarrow> anonymous_session outcome \<times> database" where
  "use_case_create z config ms faults env command db =
     (case create_command ms command of
       Inl e \<Rightarrow> (Inl e, db) | Inr c \<Rightarrow> repository_create z config faults env c db)"

definition use_case_join ::
  "zod \<Rightarrow> meetings_config \<Rightarrow> meeting_services \<Rightarrow> (nat \<Rightarrow> database attempt_env) \<Rightarrow> (nat \<Rightarrow> meeting_env)
     \<Rightarrow> join_meeting \<Rightarrow> database \<Rightarrow> anonymous_session outcome \<times> database" where
  "use_case_join z config ms faults env command db =
     (case join_command ms command of
       Inl e \<Rightarrow> (Inl e, db) | Inr c \<Rightarrow> repository_join z config faults env c db)"

section \<open>The HTTP boundary\<close>

record browser_request =
  br_origin :: "string option"
  br_fetch_site :: "string option"
  br_ip :: string
  br_id :: string
  br_body :: json

definition trusted_assert :: "string list \<Rightarrow> browser_request \<Rightarrow> unit outcome" where
  "trusted_assert allowedOrigins request =
     (case br_origin request of
       Some origin \<Rightarrow>
         ensure (origin \<in> set allowedOrigins \<and>
             (br_fetch_site request = Some ''same-origin'' \<or> br_fetch_site request = Some ''same-site''))
           (app_failure ''UNTRUSTED_BROWSER_CONTEXT'' Authorization
             ''The request did not originate from the trusted application.'')
     | None \<Rightarrow> Inl (app_failure ''UNTRUSTED_BROWSER_CONTEXT'' Authorization
         ''The request did not originate from the trusted application.''))"

record session_response =
  sr_meetingId :: uuid
  sr_participantId :: uuid
  sr_role :: product_role
  sr_replayed :: bool
  sr_csrfToken :: string

record http_reply =
  hr_set_cookie :: string
  hr_cache_control :: string
  hr_body :: session_response

fun join_text :: "string \<Rightarrow> string list \<Rightarrow> string" where
  "join_text sep [] = []"
| "join_text sep [s] = s"
| "join_text sep (s # t # ss) = s @ sep @ join_text sep (t # ss)"

definition cookie_write :: "meetings_config \<Rightarrow> bool \<Rightarrow> anonymous_session \<Rightarrow> http_reply" where
  "cookie_write config secure session =
     \<lparr>hr_set_cookie = join_text ''; '' ([mc_sessionCookieName config @ ''='' @ an_sessionToken session,
        ''Path=/'', ''HttpOnly'', ''SameSite=Strict'',
        ''Max-Age='' @ dec_int (mc_sessionAbsoluteTtlSeconds config)] @ (if secure then [''Secure''] else [])),
      hr_cache_control = ''no-store'',
      hr_body = \<lparr>sr_meetingId = an_meetingId session, sr_participantId = an_participantId session,
        sr_role = an_role session, sr_replayed = an_replayed session,
        sr_csrfToken = an_csrfToken session\<rparr>\<rparr>"

record http_settings =
  ht_allowedOrigins :: "string list"
  ht_secure :: bool
  ht_redis_up :: bool
  ht_now :: instant
  ht_sha256hex :: "string \<Rightarrow> string"

definition controller_create ::
  "zod \<Rightarrow> meetings_config \<Rightarrow> http_settings \<Rightarrow> meeting_services \<Rightarrow> (nat \<Rightarrow> database attempt_env) \<Rightarrow> (nat \<Rightarrow> meeting_env)
     \<Rightarrow> browser_request \<Rightarrow> counters \<Rightarrow> database \<Rightarrow> http_reply outcome \<times> counters \<times> database" where
  "controller_create z config ht ms faults env request st db =
     (case trusted_assert (ht_allowedOrigins ht) request of
       Inl e \<Rightarrow> (Inl e, st, db)
     | Inr _ \<Rightarrow>
       (case consumeCreate (ht_sha256hex ht) config (ht_redis_up ht) (br_ip request) (ht_now ht) st of
         (Inl e, st') \<Rightarrow> (Inl e, st', db)
       | (Inr _, st') \<Rightarrow>
         (case parseCreateMeetingBody z (br_body request) (br_id request) of
           Inl e \<Rightarrow> (Inl e, st', db)
         | Inr command \<Rightarrow>
           (case use_case_create z config ms faults env command db of
             (Inl e, db') \<Rightarrow> (Inl e, st', db')
           | (Inr session, db') \<Rightarrow> (Inr (cookie_write config (ht_secure ht) session), st', db')))))"

definition controller_join ::
  "zod \<Rightarrow> meetings_config \<Rightarrow> http_settings \<Rightarrow> meeting_services \<Rightarrow> (nat \<Rightarrow> database attempt_env) \<Rightarrow> (nat \<Rightarrow> meeting_env)
     \<Rightarrow> string \<Rightarrow> browser_request \<Rightarrow> counters \<Rightarrow> database \<Rightarrow> http_reply outcome \<times> counters \<times> database" where
  "controller_join z config ht ms faults env meetingId request st db =
     (case and_then (trusted_assert (ht_allowedOrigins ht) request) (\<lambda>_. parseMeetingIdentifier z meetingId) of
       Inl e \<Rightarrow> (Inl e, st, db)
     | Inr parsedMeetingId \<Rightarrow>
       (case consumeJoin (ht_sha256hex ht) config (ht_redis_up ht) (br_ip request) parsedMeetingId (ht_now ht) st of
         (Inl e, st') \<Rightarrow> (Inl e, st', db)
       | (Inr _, st') \<Rightarrow>
         (case parseJoinMeetingBody z (br_body request) parsedMeetingId (br_id request) of
           Inl e \<Rightarrow> (Inl e, st', db)
         | Inr command \<Rightarrow>
           (case use_case_join z config ms faults env command db of
             (Inl e, db') \<Rightarrow> (Inl e, st', db')
           | (Inr session, db') \<Rightarrow> (Inr (cookie_write config (ht_secure ht) session), st', db')))))"

section \<open>Normalized display names\<close>

lemma collapse_Nil [simp]: "collapse s = [] \<longleftrightarrow> s = []"
  by (cases s) auto

lemma js_space_32 [simp]: "js_space 32" by (simp add: js_space_def)

lemma hd_collapse: "s \<noteq> [] \<Longrightarrow> hd (collapse s) = (if js_space (hd s) then 32 else hd s)"
  by (cases s) auto

lemma last_dropWhile: "s \<noteq> [] \<Longrightarrow> \<not> P (last s) \<Longrightarrow> dropWhile P s \<noteq> [] \<and> last (dropWhile P s) = last s"
  by (induction s) auto

lemma last_collapse: "s \<noteq> [] \<Longrightarrow> \<not> js_space (last s) \<Longrightarrow> last (collapse s) = last s"
proof (induction s rule: collapse.induct)
  case (2 c cs)
  show ?case
  proof (cases "cs = []")
    case False
    with 2(4) have l: "\<not> js_space (last cs)" by simp
    show ?thesis
    proof (cases "js_space c")
      case True
      let ?d = "dropWhile js_space cs"
      have "?d \<noteq> []" "last ?d = last cs" using False l last_dropWhile [of cs js_space] by auto
      then have "last (collapse ?d) = last cs" "collapse ?d \<noteq> []" using 2(1) True l
        by (simp_all del: dropWhile_eq_Nil_conv)
      then show ?thesis using True False by (simp del: collapse_Nil)
    next
      case _: False
      with False l 2(2) show ?thesis by simp
    qed
  qed (use 2 in simp)
qed simp

lemma set_collapse: "c \<in> set (collapse s) \<Longrightarrow> c \<in> set s \<and> \<not> js_space c \<or> c = 32 \<and> (\<exists>d \<in> set s. js_space d)"
  by (induction s rule: collapse.induct) (auto split: if_splits dest: set_dropWhileD)

lemma collapse_single_spaces: "successively (\<lambda>a b. \<not> (js_space a \<and> js_space b)) (collapse s)"
proof (induction s rule: collapse.induct)
  case (2 c cs)
  show ?case
  proof (cases "js_space c")
    case True
    let ?d = "dropWhile js_space cs"
    have "?d = [] \<or> \<not> js_space (hd ?d)" using hd_dropWhile [of js_space cs] by blast
    then have "collapse ?d = [] \<or> \<not> js_space (hd (collapse ?d))"
      using hd_collapse [of ?d] by (auto simp del: dropWhile_eq_Nil_conv)
    then show ?thesis using 2(1) True by (auto simp: successively_Cons simp del: collapse_Nil)
  next
    case False
    then show ?thesis using 2(2) by (simp add: successively_Cons)
  qed
qed simp

lemma trim_ends: "trim s \<noteq> [] \<Longrightarrow> \<not> js_space (hd (trim s)) \<and> \<not> js_space (last (trim s))"
proof -
  let ?d = "dropWhile js_space s"
  assume "trim s \<noteq> []"
  then have r: "dropWhile js_space (rev ?d) \<noteq> []" by (simp add: trim_def)
  then have "?d \<noteq> []" by (metis dropWhile.simps(1) rev.simps(1))
  then have h: "\<not> js_space (hd ?d)" using hd_dropWhile by blast
  have "\<not> js_space (last (rev ?d))" using h \<open>?d \<noteq> []\<close> by (simp add: last_rev)
  then have "last (dropWhile js_space (rev ?d)) = hd ?d"
    using last_dropWhile [of "rev ?d" js_space] \<open>?d \<noteq> []\<close> by (simp add: last_rev)
  moreover have "\<not> js_space (hd (dropWhile js_space (rev ?d)))" using r hd_dropWhile by blast
  ultimately show ?thesis using h r by (simp add: trim_def hd_rev last_rev)
qed

text \<open>A display name that is accepted is safe to show: between one and 64 graphemes, no control or
  bidirectional control character, no white space but single inner spaces; every other name is refused
  with \<open>INVALID_DISPLAY_NAME\<close>.\<close>

theorem display_name_safe:
  assumes "u_graphemes u [] = 0"
  shows "case normalizeDisplayName u value of
    Inl e \<Rightarrow> has_code ''INVALID_DISPLAY_NAME'' e
  | Inr name \<Rightarrow> name \<noteq> [] \<and> 1 \<le> u_graphemes u name \<and> u_graphemes u name \<le> 64 \<and>
      list_all (\<lambda>c. \<not> CONTROL c \<and> \<not> BIDI_CONTROL c \<and> (js_space c \<longrightarrow> c = 32)) name \<and>
      successively (\<lambda>a b. \<not> (a = 32 \<and> b = 32)) name \<and> hd name \<noteq> 32 \<and> last name \<noteq> 32"
proof (cases "normalizeDisplayName u value")
  case (Inl e)
  then show ?thesis by (auto simp: normalizeDisplayName_def Let_def split: if_splits)
next
  case (Inr name)
  then have n: "name = collapse (trim (u_nfkc u value))" "1 \<le> u_graphemes u name" "u_graphemes u name \<le> 64"
    "\<not> list_ex CONTROL name" "\<not> list_ex BIDI_CONTROL name"
    by (auto simp: normalizeDisplayName_def Let_def split: if_splits)
  from n(2) assms have ne: "name \<noteq> []" by auto
  then have "trim (u_nfkc u value) \<noteq> []" using n(1) by simp
  note ends = trim_ends [OF this]
  have "hd name \<noteq> 32" "last name \<noteq> 32"
    using ends hd_collapse [OF \<open>trim (u_nfkc u value) \<noteq> []\<close>] last_collapse [OF \<open>trim (u_nfkc u value) \<noteq> []\<close>] n(1)
    by (metis js_space_32)+
  moreover have "successively (\<lambda>a b. \<not> (a = 32 \<and> b = 32)) name"
    using collapse_single_spaces [of "trim (u_nfkc u value)"] unfolding n(1)
    by (rule successively_mono) (auto)
  moreover have "list_all (\<lambda>c. \<not> CONTROL c \<and> \<not> BIDI_CONTROL c \<and> (js_space c \<longrightarrow> c = 32)) name"
    using n(4,5) set_collapse [of _ "trim (u_nfkc u value)"] unfolding n(1)
    by (auto simp: list_all_iff list_ex_iff)
  ultimately show ?thesis using Inr ne n(2,3) by simp
qed

text \<open>A segmentation in which every code point outside the combining diacritical marks begins a
  grapheme, for evaluation.\<close>

definition marks_unicode :: unicode where
  "marks_unicode = \<lparr>u_nfkc = id, u_graphemes = (\<lambda>s. length (filter (\<lambda>c. \<not> (0x300 \<le> c \<and> c < 0x370)) s))\<rparr>"

theorem display_name_safe_witness:
  "normalizeDisplayName marks_unicode [32, 65, 9, 32, 100, 10] = Inr [65, 32, 100] \<and>
   hd (projr (normalizeDisplayName marks_unicode [32, 65, 9, 32, 100, 10])) \<noteq> 32"
proof -
  have eval: "normalizeDisplayName marks_unicode [32, 65, 9, 32, 100, 10] = Inr [65, 32, 100]" by code_simp
  have "u_graphemes marks_unicode [] = 0" by code_simp
  from display_name_safe [OF this, of "[32, 65, 9, 32, 100, 10]"] eval show ?thesis by simp
qed

section \<open>Fingerprints\<close>

lemma utf8_dec_digits: "b \<in> set (utf8 (dec n)) \<Longrightarrow> b \<noteq> (58 :: byte)"
proof -
  assume "b \<in> set (utf8 (dec n))"
  then obtain c where c: "c \<in> set (dec n)" "b \<in> set (utf8_char c)" by (auto simp: utf8_def)
  then have "is_digit c" using dec_digits [of n] by (auto simp: list_all_iff)
  then have "of_char c < (58::nat)" by (auto simp: is_digit_def in_range_def)
  then have b: "b = of_nat (of_char c)" using c(2) by (simp add: utf8_char_def Let_def)
  show ?thesis
  proof
    assume "b = 58"
    then have "unat (of_nat (of_char c) :: byte) = 58" using b by simp
    then show False using \<open>of_char c < (58::nat)\<close> by (simp add: unat_small_byte)
  qed
qed

lemma utf8_colon: "utf8 '':'' = [58]" by code_simp

text \<open>The length prefixes make the input of the fingerprint unambiguous.\<close>

lemma fingerprint_input_inject: "fingerprint_input ps = fingerprint_input qs \<Longrightarrow> ps = qs"
proof (induction ps arbitrary: qs)
  case Nil
  then show ?case by (cases qs) (auto simp: fingerprint_input_def sized_part_def)
next
  case (Cons p ps)
  then obtain q qs' where qs: "qs = q # qs'" by (cases qs) (auto simp: fingerprint_input_def sized_part_def)
  have "utf8 (dec (length p)) @ 58 # p @ fingerprint_input ps =
      utf8 (dec (length q)) @ 58 # q @ fingerprint_input qs'"
    using Cons(2) by (simp add: fingerprint_input_def sized_part_def qs utf8_colon del: utf8_simps)
  then have "utf8 (dec (length p)) = utf8 (dec (length q)) \<and> p @ fingerprint_input ps = q @ fingerprint_input qs'"
    by (rule split_at_separator) (use utf8_dec_digits in blast)+
  then have "length p = length q" "p @ fingerprint_input ps = q @ fingerprint_input qs'" by simp_all
  then have "p = q" "fingerprint_input ps = fingerprint_input qs'" by auto
  with Cons(1) qs show ?case by simp
qed
text \<open>The request fingerprint distinguishes requests: two creations hash the same bytes only if mode,
  display name, both capability digests with their versions, and the device binding agree.\<close>

theorem fingerprint_separates_requests:
  "fingerprint_input (create_parts mode name host invite session) =
     fingerprint_input (create_parts mode' name' host' invite' session') \<longleftrightarrow>
   mode = mode' \<and> utf8_points name = utf8_points name' \<and> versioned_parts host = versioned_parts host' \<and>
   versioned_parts invite = versioned_parts invite' \<and>
   toHex (vd_digest (sn_deviceBindingDigest session)) = toHex (vd_digest (sn_deviceBindingDigest session'))"
proof -
  have modes: "mode_name mode = mode_name mode' \<longleftrightarrow> mode = mode'" by (cases mode; cases mode') simp_all
  show ?thesis
    using fingerprint_input_inject [of "create_parts mode name host invite session"
        "create_parts mode' name' host' invite' session'"]
    by (auto simp: create_parts_def versioned_parts_def modes)
qed

section \<open>The boundary\<close>

lemma trusted_assert_Inr:
  "trusted_assert allowed request = Inr u \<longleftrightarrow>
     (\<exists>origin. br_origin request = Some origin \<and> origin \<in> set allowed \<and>
       (br_fetch_site request = Some ''same-origin'' \<or> br_fetch_site request = Some ''same-site''))"
  by (auto simp: trusted_assert_def split: option.splits)

lemma trusted_assert_cases:
  "trusted_assert allowed request = Inr () \<or>
   trusted_assert allowed request = Inl (app_failure ''UNTRUSTED_BROWSER_CONTEXT'' Authorization
     ''The request did not originate from the trusted application.'')"
  by (auto simp: trusted_assert_def ensure_def split: option.splits)


text \<open>The meeting commands keep the consistency of the chat and outbox tables: whatever faults, retries
  and concurrent transactions that keep it occur, the tables satisfy the invariant after every run of a
  creation and of a join.\<close>

theorem meeting_commands_keep_chat_tables:
  assumes "chat_inv db" and "\<And>n t. chat_inv t \<Longrightarrow> chat_inv (before_attempt (faults n) t)"
    and "\<And>n. uuid_format (mv_deliveryId (env n))"
  shows "chat_inv (snd (use_case_create z config ms faults env command db)) \<and>
    chat_inv (snd (use_case_join z config ms faults env command' db))"
proof (intro conjI)
  have create: "chat_inv s'"
    if "run faults (\<lambda>n. meeting_create z config (env n) c) (Some Serializable) (Some 2) db = (r, s', ops)" for c r s' ops
    by (rule create_tx.run_keeps [OF _ _ assms(1) that]) (use assms(2,3) in auto)
  show "chat_inv (snd (use_case_create z config ms faults env command db))"
    using assms(1) create by (auto simp: use_case_create_def repository_create_def split: sum.split prod.split)
  have join: "chat_inv s'"
    if "run faults (\<lambda>n. meeting_join z config (env n) c) (Some Serializable) (Some 2) db = (r, s', ops)" for c r s' ops
    by (rule join_tx.run_keeps [OF _ _ assms(1) that]) (use assms(2,3) in auto)
  show "chat_inv (snd (use_case_join z config ms faults env command' db))"
    using assms(1) join by (auto simp: use_case_join_def repository_join_def split: sum.split prod.split)
qed

definition sample_services :: "loaded_keyring \<Rightarrow> bytes \<times> bytes \<Rightarrow> meeting_services" where
  "sample_services k random = \<lparr>ms_unicode = marks_unicode, ms_hmac = toy_hmac, ms_sha256 = toy_sha256,
     ms_keyrings = \<lparr>hs_capability = Some k, hs_session = Some k\<rparr>, ms_random = random\<rparr>"

definition sample_create_meeting :: create_meeting where
  "sample_create_meeting = \<lparr>cm_commandId = ''0190a1b2-c3d4-7abc-8def-0000000001ff'', cm_mode = Live,
     cm_displayName = [65, 100, 97], cm_hostCapability = replicate 43 (CHR ''A''),
     cm_inviteCapability = replicate 43 (CHR ''B''), cm_deviceBinding = replicate 43 (CHR ''C''),
     cm_traceId = ''trace''\<rparr>"

theorem meeting_commands_keep_chat_tables_witness:
  "chat_inv (snd (use_case_create strict_zod sample_meetings_config
      (sample_services sample_keyring (replicate 32 1, replicate 32 2))
      (\<lambda>_. quiet) (\<lambda>_. sample_create_env 1000) sample_create_meeting sample_db))"
proof -
  have uuid: "uuid_format (mv_deliveryId (sample_create_env 1000))" by code_simp
  show ?thesis
    by (rule meeting_commands_keep_chat_tables [THEN conjunct1, OF sample_db_inv])
      (use uuid in \<open>simp_all add: quiet_def\<close>)
qed

definition sample_http :: http_settings where
  "sample_http = \<lparr>ht_allowedOrigins = [''https://app.example''], ht_secure = True, ht_redis_up = True,
     ht_now = 1000, ht_sha256hex = id\<rparr>"

definition foreign_request :: browser_request where
  "foreign_request = \<lparr>br_origin = Some ''https://evil.example'', br_fetch_site = Some ''cross-site'',
     br_ip = ''::1'', br_id = ''r'', br_body = JNull\<rparr>"


end
