(* ===== verification/Invitations.thy ===== *)
theory Invitations
  imports MeetingService
begin

text \<open>
  End-to-end behaviour of an invitation: a link handed out at creation admits its holder later, also
  after the keys have been rotated; and the one display name the two layers disagree on.
\<close>

section \<open>The lookup finds the invitation\<close>

lemma find_version:
  assumes "distinct (map vd_version ds)" "d \<in> set ds" "vd_version d = v"
  shows "find (\<lambda>d. vd_version d = v) ds = Some d"
  using assms by (induction ds) (auto split: if_splits)

definition capabilities_reference_meetings :: "database \<Rightarrow> bool" where
  "capabilities_reference_meetings db =
     list_all (\<lambda>c. list_ex (\<lambda>m. m_id m = cap_meeting_id c) (meetings db)) (capabilities db)"

lemma filter_only_last: "\<forall>q \<in> set rows. \<not> P q \<Longrightarrow> P r \<Longrightarrow> filter P (rows @ [r]) = [r]"
  by (simp add: filter_empty_conv)

lemma invitation_found:
  assumes "capabilities_reference_meetings db" "\<forall>q \<in> set (meetings db). m_id q \<noteq> pj_meetingId command"
    and "cap_kind host = CapHost" "live_invite now command invite"
    and "length (pj_inviteCandidates command) \<ge> 1" "length (pj_inviteCandidates command) \<le> 3"
    and "capabilities db' = capabilities db @ [host, invite]"
  shows "findInviteCapability now command db' = Inr (Some invite)"
proof -
  have "\<not> live_invite now command q" if "q \<in> set (capabilities db @ [host])" for q
    using that assms(1-3)
    by (fastforce simp: capabilities_reference_meetings_def list_all_iff list_ex_iff live_invite_def)
  then have "filter (live_invite now command) (capabilities db') = [invite]"
    using filter_only_last [of "capabilities db @ [host]" "live_invite now command" invite] assms(4,7) by auto
  then show ?thesis using assms(5,6) by (auto simp: findInviteCapability_def select_limit_def)
qed

section \<open>A join that can succeed\<close>

text \<open>What the caller contributes: a bounded name, digests of the length HMAC-SHA-256 has, and
  identifiers the tables do not hold yet.\<close>

definition join_well_formed :: "persist_join \<Rightarrow> bool" where
  "join_well_formed command =
     (length (pj_requestFingerprint command) = 32 \<and>
      1 \<le> length (pj_displayName command) \<and> length (pj_displayName command) \<le> 128 \<and>
      (let s = pj_session command in
       length (vd_digest (sn_tokenDigest s)) = 32 \<and> length (vd_digest (sn_csrfDigest s)) = 32 \<and>
       length (vd_digest (sn_deviceBindingDigest s)) = 32 \<and> 0 < vd_version (sn_tokenDigest s) \<and>
       vd_version (sn_csrfDigest s) = vd_version (sn_tokenDigest s) \<and>
       vd_version (sn_deviceBindingDigest s) = vd_version (sn_tokenDigest s)))"

definition join_fresh :: "meeting_env \<Rightarrow> persist_join \<Rightarrow> database \<Rightarrow> bool" where
  "join_fresh env command db =
     (list_all (\<lambda>q. cr_command_id q \<noteq> pj_commandId command) (command_results db) \<and>
      list_all (\<lambda>q. p_id q \<noteq> mv_participantId env) (participants db) \<and>
      list_all (\<lambda>q. s_id q \<noteq> mv_sessionId env \<and>
        s_token_digest q \<noteq> vd_digest (sn_tokenDigest (pj_session command))) (sessions db) \<and>
      list_all (\<lambda>q. ob_delivery_id q \<noteq> mv_deliveryId env \<and> ob_event_id q \<noteq> mv_eventId env) (outbox_events db))"

definition lifetimes_ordered :: "meetings_config \<Rightarrow> bool" where
  "lifetimes_ordered config =
     (0 < mc_sessionIdleTtlSeconds config \<and>
      mc_sessionIdleTtlSeconds config \<le> mc_sessionAbsoluteTtlSeconds config)"

lemma join_body_succeeds:
  assumes wf: "join_well_formed command" and fresh: "join_fresh env command db" and ttl: "lifetimes_ordered config"
    and m: "m \<in> set (meetings db)" "meeting_expiry (m_id m) db = Some t" "mv_clk env 4 < t"
    and h: "first_row (filter (\<lambda>h. sh_meeting_id h = m_id m) (stream_heads db)) = Some h" "0 \<le> sh_last_position h"
    and c: "\<forall>q \<in> set (capabilities db). cap_id q = cap_id c \<longrightarrow> q = c" "capability_checks c"
      "cap_max_uses c = None" "cap_created_at c \<le> mv_clk env 3"
    and key: "1 \<le> length (m_id m)" "length (m_id m) \<le> 128"
    and db0: "db0 = db\<lparr>command_results := command_results db @ [reserved]\<rparr>"
    and reserved: "cr_scope reserved = ''meeting.join''" "cr_command_id reserved = pj_commandId command"
      "cr_status reserved = CmdInProgress"
  shows "\<exists>db'. join_body config env command m c db0 =
    Inr (sessionResult (m_id m) (mv_participantId env) (pj_session command) (join_role (m_mode m)) False, db')"
proof -
  let ?p = "mv_participantId env"
  let ?caps = "update_where (\<lambda>q. cap_id q = cap_id c)
    (\<lambda>q. q\<lparr>cap_use_count := cap_use_count q + 1, cap_last_used_at := Some (mv_clk env 3)\<rparr>) (capabilities db)"
  let ?db1 = "db0\<lparr>capabilities := ?caps\<rparr>"
  let ?member = "new_member env command m (sh_last_position h)"
  let ?db2 = "?db1\<lparr>participants := participants db @ [?member]\<rparr>"
  let ?session = "new_session config (mv_clk env 4) (mv_sessionId env) (m_id m) ?p (pj_session command) ?db2"
  let ?db3 = "?db2\<lparr>sessions := sessions db @ [?session]\<rparr>"
  let ?row = "meeting_outbox_row env (mv_clk env 5) (m_id m) ?p ''participant.joined''"
  let ?db4 = "?db3\<lparr>security_audit := security_audit db @ [\<lparr>au_meeting_id = Some (m_id m),
      au_actor_participant_id = Some ?p, au_action = ''meeting.join'',
      au_decision_code = ''INVITATION_ACCEPTED'', au_trace_id = pj_traceId command\<rparr>],
    outbox_events := outbox_events db @ [?row]\<rparr>"
  have use: "use_capability (mv_clk env 3) (cap_id c) db0 = Inr ((), ?db1)"
  proof -
    have "capability_checks q" if "q \<in> set ?caps" "cap_id q = cap_id c" for q
    proof -
      from that obtain q' where "q' \<in> set (capabilities db)" "cap_id q' = cap_id c"
        "q = q'\<lparr>cap_use_count := cap_use_count q' + 1, cap_last_used_at := Some (mv_clk env 3)\<rparr>"
        by (auto simp: mem_update_where)
      moreover from this have "q' = c" using c(1) by blast
      ultimately show ?thesis using c(2-4) by (simp add: capability_checks_def split: option.splits)
    qed
    then show ?thesis by (auto simp: use_capability_def Let_def db0 list_ex_iff)
  qed
  have "participant_checks ?member"
    using wf h(2) by (cases "m_mode m")
      (simp_all add: participant_checks_def new_member_def Let_def join_role_def join_well_formed_def)
  then have member: "insert_participant ?member ?db1 = Inr (?member, ?db2)"
    using m(1) fresh by (auto simp: insert_participant_Inr db0 list_ex_iff new_member_def Let_def join_fresh_def list_all_iff)
  have "session_checks ?session"
    using wf ttl m(2,3) db0
    by (auto simp: session_checks_def new_session_def join_well_formed_def Let_def lifetimes_ordered_def
        least_known_def meeting_expiry_def)
  then have session: "insertSession config env (mv_clk env 4) (m_id m) ?p (pj_session command) ?db2 = Inr ((), ?db3)"
    using wf fresh by (auto simp: insertSession_Inr join_well_formed_def Let_def new_member_def db0
        join_fresh_def list_all_iff session_same_key_def new_session_def)
  have audit: "writeAuditAndOutbox env (mv_clk env 5) (m_id m) ?p ''meeting.join'' ''INVITATION_ACCEPTED''
      ''participant.joined'' (pj_traceId command) ?db3 = Inr ((), ?db4)"
    using key fresh by (auto simp: writeAuditAndOutbox_Inr db0 outbox_row_checks_def outbox_row_same_key_def
        meeting_outbox_row_def join_fresh_def list_all_iff)
  have "\<exists>db5. completeCommand ''meeting.join'' (pj_commandId command) (m_id m) ?p ?db4 = Inr ((), db5)"
    using completeCommand_new [OF _ reserved, of "command_results db" ?db4 "m_id m" ?p] fresh
    by (auto simp: db0 join_fresh_def list_all_iff)
  then show ?thesis
    using use member session audit h(1) by (auto simp: join_body_def db0)
qed
lemma new_meeting_fields [simp]:
  "m_id (new_meeting config now i mode) = i" "m_mode (new_meeting config now i mode) = mode"
  "m_state (new_meeting config now i mode) = MOpen"
  "m_expires_at (new_meeting config now i mode) = now + mc_meetingTtlSeconds config * 1000"
  by (simp_all add: new_meeting_def)

lemma reserveCommand_unused:
  assumes "length fp = 32" "1 \<le> length scope" "length scope \<le> 64"
    and "\<forall>q \<in> set (command_results db). cr_command_id q \<noteq> i"
  obtains reserved where
    "reserveCommand now scope i fp db = Inr (None, db\<lparr>command_results := command_results db @ [reserved]\<rparr>)"
    "cr_scope reserved = scope" "cr_command_id reserved = i" "cr_status reserved = CmdInProgress"
  using assms by (auto simp: reserveCommand_def Let_def command_checks_def list_ex_iff intro!: that)

text \<open>A later join with a digest of the invitation among its candidates.\<close>

lemma invited_join_succeeds:
  assumes create: "meeting_create z config env command db = Inr (r, db')" "\<not> an_replayed r"
    and refs: "capabilities_reference_meetings db"
    and target: "pj_meetingId join = mv_meetingId env"
    and candidates: "pc_inviteCapability command \<in> set (pj_inviteCandidates join)"
      "distinct (map vd_version (pj_inviteCandidates join))" "length (pj_inviteCandidates join) \<le> 3"
    and wf: "join_well_formed join" and fresh: "join_fresh env' join db'" and ttl: "lifetimes_ordered config"
    and time: "mv_clk env 3 \<le> mv_clk env' 3"
      "\<And>n. n \<le> 4 \<Longrightarrow> mv_clk env' n < min (mv_clk env 3 + mc_capabilityTtlSeconds config * 1000)
        (mv_clk env 1 + mc_meetingTtlSeconds config * 1000)"
  shows "\<exists>db''. meeting_join z config env' join db' =
    Inr (sessionResult (mv_meetingId env) (mv_participantId env') (pj_session join)
      (join_role (pc_mode command)) False, db'')"
  using create(1)
proof (cases rule: meeting_create_cases)
  case (replay row)
  from replay(5) have "an_replayed r" by (rule replaySession_Inr) (simp add: sessionResult_def)
  with create(2) show ?thesis by simp
next
  case (fresh reserved db0)
  let ?meeting = "new_meeting config (mv_clk env 1) (mv_meetingId env) (pc_mode command)"
  from create_body_Inr [OF fresh(7,1,2,3,5,6)] obtain host invite session where b:
    "db' = created_db config env command reserved host invite session db"
    "cap_kind host = CapHost" "cap_kind invite = CapInvite" "cap_meeting_id invite = mv_meetingId env"
    "cap_secret_digest invite = vd_digest (pc_inviteCapability command)"
    "cap_pepper_version invite = vd_version (pc_inviteCapability command)"
    "cap_expires_at invite = min (mv_clk env 3 + mc_capabilityTtlSeconds config * 1000)
       (mv_clk env 1 + mc_meetingTtlSeconds config * 1000)"
    "cap_revoked_at invite = None" "cap_max_uses invite = None"
    "cap_created_at invite = mv_clk env 3" "capability_checks invite"
    "\<forall>q \<in> set (capabilities db) \<union> {host}. cap_id q \<noteq> cap_id invite"
    "\<forall>q \<in> set (meetings db). m_id q \<noteq> mv_meetingId env"
    "\<forall>q \<in> set (stream_heads db). sh_meeting_id q \<noteq> mv_meetingId env"
    "outbox_row_checks (meeting_outbox_row env (mv_clk env 5) (mv_meetingId env) (mv_participantId env) ''meeting.created'')"
    by metis
  have tables: "meetings db' = meetings db @ [?meeting]" "capabilities db' = capabilities db @ [host, invite]"
    "stream_heads db' = stream_heads db @ [new_head (mv_clk env 2) (mv_meetingId env)]"
    by (simp_all add: b(1) created_db_def)
  have found_meeting: "first_row (filter (joinable (mv_clk env' 0) (pj_meetingId join)) (meetings db')) = Some ?meeting"
  proof -
    have "filter (joinable (mv_clk env' 0) (pj_meetingId join)) (meetings db @ [?meeting]) = [?meeting]"
      by (rule filter_only_last) (use b(13) target time(2) [of 0] in \<open>auto simp: joinable_def\<close>)
    then show ?thesis by (simp add: tables)
  qed
  have live: "live_invite (mv_clk env' 1) join invite"
    using b candidates(1) time(2) [of 1] target by (auto simp: live_invite_def list_ex_iff)
  have nonempty: "1 \<le> length (pj_inviteCandidates join)" using candidates(1) by (cases "pj_inviteCandidates join") auto
  have found: "findInviteCapability (mv_clk env' 1) join db' = Inr (Some invite)"
    by (rule invitation_found [OF refs _ b(2) live nonempty candidates(3) tables(2)]) (use b(13) target in simp)
  have matches: "candidateMatches invite join"
    using find_version [OF candidates(2,1) refl] b(5,6) by (simp add: candidateMatches_def)
  obtain reserved' where res: "reserveCommand (mv_clk env' 2) ''meeting.join'' (pj_commandId join)
      (pj_requestFingerprint join) db' = Inr (None, db'\<lparr>command_results := command_results db' @ [reserved']\<rparr>)"
    "cr_scope reserved' = ''meeting.join''" "cr_command_id reserved' = pj_commandId join"
    "cr_status reserved' = CmdInProgress"
    by (rule reserveCommand_unused [of "pj_requestFingerprint join" "''meeting.join''" db' "pj_commandId join"])
      (use wf assms(9) in \<open>auto simp: join_well_formed_def join_fresh_def list_all_iff\<close>)
  have expiry: "meeting_expiry (m_id ?meeting) db' = Some (m_expires_at ?meeting)"
    by (rule meeting_expiry_new [of "meetings db"]) (use b(13) tables in auto)
  have "filter (\<lambda>h. sh_meeting_id h = m_id ?meeting) (stream_heads db @ [new_head (mv_clk env 2) (mv_meetingId env)]) =
      [new_head (mv_clk env 2) (mv_meetingId env)]"
    by (rule filter_only_last) (use b(14) in \<open>auto simp: new_head_def\<close>)
  then have head: "first_row (filter (\<lambda>h. sh_meeting_id h = m_id ?meeting) (stream_heads db')) =
      Some (new_head (mv_clk env 2) (mv_meetingId env))"
    by (simp add: tables)
  have "\<exists>db''. join_body config env' join ?meeting invite (db'\<lparr>command_results := command_results db' @ [reserved']\<rparr>) =
    Inr (sessionResult (m_id ?meeting) (mv_participantId env') (pj_session join) (join_role (m_mode ?meeting)) False, db'')"
    by (rule join_body_succeeds [OF wf assms(9) ttl _ expiry _ head _ _ b(11) b(9) _ _ _ refl res(2-4)])
      (use b(10,12,15) time(1) time(2) [of 4] in \<open>auto simp: tables new_head_def outbox_row_checks_def meeting_outbox_row_def\<close>)
  then show ?thesis
    using found_meeting found matches res(1) by (auto simp: meeting_join_def)
qed
section \<open>From the raw link to the session\<close>

lemma digestAll_versions:
  assumes "keyring_ok k"
  shows "distinct (map vd_version (digestAll hmac k scope v))" "length (digestAll hmac k scope v) \<le> 3"
proof -
  have "map vd_version (digestAll hmac k scope v) = map fst (newest_first k)"
    by (simp add: digestAll_def case_prod_unfold)
  then show "distinct (map vd_version (digestAll hmac k scope v))"
    using assms by (simp add: keyring_ok_def newest_first_def distinct_map)
  show "length (digestAll hmac k scope v) \<le> 3" using assms by (simp add: digestAll_def keyring_ok_def)
qed

lemma digestSessionValue_Inr:
  assumes "digestSessionValue hmac s scope value = Inr d" "hs_session s = Some k" "keyring_ok k"
    and "\<And>key m. length (hmac key m) = 32"
  shows "length (vd_digest d) = 32 \<and> vd_version d = lk_currentVersion k \<and> 0 < lk_currentVersion k"
  using assms
  by (auto simp: digestSessionValue_def requireSession_def and_then_Inr_iff digestCurrent_def digest_def keyring_ok_def)

lemma join_command_well_formed:
  assumes "join_command ms command = Inr j" and "hs_session (ms_keyrings ms) = Some k" "keyring_ok k"
    and "\<And>key m. length (ms_hmac ms key m) = 32" "\<And>m. length (ms_sha256 ms m) = 32"
    and "u_graphemes (ms_unicode ms) [] = 0" "length (pj_displayName j) \<le> 128"
  shows "join_well_formed j"
proof -
  from assms(1) obtain name candidates session where j:
    "normalizeDisplayName (ms_unicode ms) (jm_displayName command) = Inr name"
    "createSession (ms_hmac ms) (ms_keyrings ms) (ms_random ms) (jm_deviceBinding command) = Inr session"
    "pj_displayName j = name" "pj_session j = session"
    "pj_requestFingerprint j = fingerprint (ms_sha256 ms) (join_parts (jm_meetingId command) name candidates session)"
    by (auto simp: join_command_def and_then_Inr_iff)
  have "name \<noteq> []"
    using j(1) assms(6) by (auto simp: normalizeDisplayName_def Let_def split: if_splits)
  then have "1 \<le> length name" by (cases name) auto
  moreover from j(2) obtain t c d where "sn_tokenDigest session = t" "sn_csrfDigest session = c"
    "sn_deviceBindingDigest session = d"
    "digestSessionValue (ms_hmac ms) (ms_keyrings ms) ''session'' (generateOpaqueToken (fst (ms_random ms))) = Inr t"
    "digestSessionValue (ms_hmac ms) (ms_keyrings ms) ''csrf'' (generateOpaqueToken (snd (ms_random ms))) = Inr c"
    "digestSessionValue (ms_hmac ms) (ms_keyrings ms) ''device-binding'' (jm_deviceBinding command) = Inr d"
    by (auto simp: createSession_def Let_def and_then_Inr_iff digestSession_def digestCsrf_def digestDeviceBinding_def)
  ultimately show ?thesis
    using digestSessionValue_Inr [where hmac = "ms_hmac ms", OF _ assms(2,3) assms(4)] j(3-5) assms(5,7)
    by (simp add: join_well_formed_def fingerprint_def Let_def)
qed

definition sample_hash :: "bytes \<Rightarrow> bytes" where
  "sample_hash m = take 32 (m @ replicate 32 0)"

definition link_services :: "loaded_keyring \<Rightarrow> byte \<Rightarrow> meeting_services" where
  "link_services k b = \<lparr>ms_unicode = marks_unicode, ms_hmac = (\<lambda>key m. take 32 (rev m @ key @ replicate 32 0)),
     ms_sha256 = sample_hash, ms_keyrings = \<lparr>hs_capability = Some k, hs_session = Some k\<rparr>,
     ms_random = (replicate 32 b, replicate 32 b)\<rparr>"

definition link_join :: join_meeting where
  "link_join = \<lparr>jm_meetingId = ''0190a1b2-c3d4-7abc-8def-0000000001aa'',
     jm_commandId = ''0190a1b2-c3d4-7abc-8def-0000000002ff'', jm_displayName = [66, 111, 98],
     jm_inviteCapability = replicate 43 (CHR ''B''), jm_deviceBinding = replicate 43 (CHR ''D''),
     jm_traceId = ''trace''\<rparr>"

definition link_created :: "persist_create outcome" where
  "link_created = create_command (link_services sample_keyring 1) sample_create_meeting"

definition link_stored :: "(anonymous_session \<times> database) outcome" where
  "link_stored = meeting_create strict_zod sample_meetings_config (sample_create_env 1000) (projr link_created) sample_db"

definition link_joining :: "persist_join outcome" where
  "link_joining = join_command (link_services sample_rotated 2) link_join"


section \<open>A name one layer accepts and the other refuses\<close>

text \<open>Validation counts graphemes, the table counts characters: a single letter with 200 combining marks
  is one grapheme, is accepted by the validation, and makes the creation fail with a check violation.\<close>

definition zalgo_name :: code_points where
  "zalgo_name = 113 # replicate 200 0x301"

theorem grapheme_limit_exceeds_column:
  assumes "u_nfkc u zalgo_name = zalgo_name" "u_graphemes u zalgo_name = 1"
  shows "normalizeDisplayName u zalgo_name = Inr zalgo_name \<and>
    insert_participant ((new_host env command)\<lparr>p_display_name := zalgo_name\<rparr>)
      (db\<lparr>meetings := [new_meeting config now (mv_meetingId env) mode]\<rparr>) = Inl check_violation"
proof -
  have plain: "\<not> js_space c" if "c \<in> set zalgo_name" for c
    using that by (auto simp: zalgo_name_def js_space_def)
  have "collapse s = s" if "\<forall>c \<in> set s. \<not> js_space c" for s using that by (induction s) auto
  moreover have "trim s = s" if "\<forall>c \<in> set s. \<not> js_space c" for s
  proof -
    have *: "dropWhile js_space t = t" if "\<forall>c \<in> set t. \<not> js_space c" for t using that by (cases t) auto
    show ?thesis using *[of s] *[of "rev s"] that by (simp add: trim_def)
  qed
  ultimately have "collapse (trim zalgo_name) = zalgo_name" using plain by simp
  moreover have "\<not> list_ex CONTROL zalgo_name" "\<not> list_ex BIDI_CONTROL zalgo_name" "length zalgo_name = 201"
    by (auto simp: zalgo_name_def CONTROL_def BIDI_CONTROL_def list_ex_iff)
  ultimately show ?thesis using assms
    by (simp add: normalizeDisplayName_def insert_participant_def insert_row_def participant_checks_def
        new_meeting_def new_host_def)
qed

end
