(* ===== verification/Sessions.thy ===== *)
theory Sessions
  imports MeetingService
begin

text \<open>
  Anonymous sessions (\<open>modules/sessions\<close>): the three proofs of a request, authentication by digests under
  one key version, revalidation by identifiers, the sliding idle expiry, and the use case with its
  classification of failures. The locale \<open>session_gate\<close> is what the other modules rely on.
\<close>

section \<open>The repository\<close>

definition session_live :: "instant \<Rightarrow> psession \<Rightarrow> participant \<Rightarrow> meeting \<Rightarrow> bool" where
  "session_live now s p m =
     (p_id p = s_participant_id s \<and> m_id m = p_meeting_id p \<and>
      s_state s \<in> {SActive, SRotating} \<and> s_idle_expires_at s > now \<and> s_absolute_expires_at s > now \<and>
      p_state p \<in> {PPendingKeySync, PActive} \<and> m_state m \<in> {MOpen, MActive} \<and> m_expires_at m > now)"

definition proof_matches :: "session_credential_digests \<Rightarrow> psession \<Rightarrow> bool" where
  "proof_matches d s =
     (s_pepper_version s = scd_version d \<and> s_token_digest s = scd_tokenDigest d \<and>
      s_csrf_token_digest s = scd_csrfDigest d \<and> s_device_binding_digest s = scd_deviceBindingDigest d)"

type_synonym session_row = "psession \<times> participant \<times> meeting"

text \<open>\<open>sessionRowSchema\<close>; the enumerated columns are typed.\<close>

definition sessionRowSchema :: "zod \<Rightarrow> session_row \<Rightarrow> bool" where
  "sessionRowSchema z row = (case row of (s, p, m) \<Rightarrow>
     z_uuid z (s_id s) \<and> z_uuid z (p_id p) \<and> z_uuid z (p_meeting_id p) \<and>
     1 \<le> length (p_permission_profile p) \<and> length (p_permission_profile p) \<le> 64 \<and>
     0 < p_permission_profile_version p)"

definition row_principal :: "session_row \<Rightarrow> principal" where
  "row_principal row = (case row of (s, p, m) \<Rightarrow>
     \<lparr>pr_sessionId = s_id s, pr_participantId = p_id p, pr_meetingId = p_meeting_id p,
      pr_meetingMode = m_mode m, pr_productRole = p_product_role p, pr_sfuRole = p_sfu_role p,
      pr_permissionProfile = p_permission_profile p,
      pr_permissionProfileVersion = p_permission_profile_version p,
      pr_absoluteExpiresAtMs = s_absolute_expires_at s\<rparr>)"

definition parsePrincipal :: "zod \<Rightarrow> session_row \<Rightarrow> principal outcome" where
  "parsePrincipal z row = (if sessionRowSchema z row then Inr (row_principal row) else Inl ZodError)"

text \<open>The meeting a session belongs to, by the join of the \<open>UPDATE\<close>.\<close>

definition session_meeting :: "database \<Rightarrow> psession \<Rightarrow> meeting option" where
  "session_meeting db s = first_row [m. p \<leftarrow> participants db, m \<leftarrow> meetings db,
     p_id p = s_participant_id s \<and> m_id m = p_meeting_id p]"

definition touch :: "meetings_config \<Rightarrow> instant \<Rightarrow> instant \<Rightarrow> uuid \<Rightarrow> (database, unit) tx" where
  "touch config now now' sessionId db =
     (let touched = (\<lambda>s. case session_meeting db s of
            None \<Rightarrow> s
          | Some m \<Rightarrow> s\<lparr>s_last_seen_at := now,
              s_idle_expires_at := min (min (now' + mc_sessionIdleTtlSeconds config * 1000)
                (s_absolute_expires_at s)) (m_expires_at m)\<rparr>);
          rows = update_where (\<lambda>s. s_id s = sessionId) touched (sessions db)
      in if list_ex (\<lambda>s. s_id s = sessionId \<and> \<not> session_checks s) rows then Inl check_violation
         else Inr ((), db\<lparr>sessions := rows\<rparr>))"

text \<open>\<open>proof.version\<close> is read as a \<open>smallint\<close>.\<close>

definition authenticate_rows :: "instant \<Rightarrow> session_credential_digests list \<Rightarrow> database \<Rightarrow> session_row list outcome" where
  "authenticate_rows now candidates db =
     (if list_ex (\<lambda>d. scd_version d > 32767 \<or> scd_version d < -32768) candidates then Inl numeric_out_of_range
      else Inr [(s, p, m). d \<leftarrow> candidates, s \<leftarrow> sessions db, p \<leftarrow> participants db, m \<leftarrow> meetings db,
        proof_matches d s \<and> session_live now s p m])"

definition touch_and_parse ::
  "zod \<Rightarrow> meetings_config \<Rightarrow> (nat \<Rightarrow> instant) \<Rightarrow> session_row list \<Rightarrow> (database, principal option) tx" where
  "touch_and_parse z config ck rows db =
     (case first_row rows of
       None \<Rightarrow> Inr (None, db)
     | Some row \<Rightarrow>
         and_then (touch config (ck 1) (ck 2) (s_id (fst row)) db) (\<lambda>(_, db').
         and_then (parsePrincipal z row) (\<lambda>who. Inr (Some who, db'))))"

definition session_authenticate ::
  "zod \<Rightarrow> meetings_config \<Rightarrow> (nat \<Rightarrow> instant) \<Rightarrow> session_credential_digests list \<Rightarrow> (database, principal option) tx" where
  "session_authenticate z config ck candidates db =
     and_then (authenticate_rows (ck 0) candidates db) (\<lambda>rows. touch_and_parse z config ck rows db)"

definition SELECT_ACTIVE_SESSION :: "instant \<Rightarrow> session_identity \<Rightarrow> database \<Rightarrow> session_row list" where
  "SELECT_ACTIVE_SESSION now i db =
     [(s, p, m). s \<leftarrow> sessions db, p \<leftarrow> participants db, m \<leftarrow> meetings db,
        s_id s = si_sessionId i \<and> p_id p = si_participantId i \<and> m_id m = si_meetingId i \<and> session_live now s p m]"

definition session_revalidate ::
  "zod \<Rightarrow> meetings_config \<Rightarrow> (nat \<Rightarrow> instant) \<Rightarrow> session_identity \<Rightarrow> (database, principal option) tx" where
  "session_revalidate z config ck i db =
     touch_and_parse z config ck (SELECT_ACTIVE_SESSION (ck 0) i db) db"

section \<open>The use case\<close>

record session_credentials =
  sc_token :: string
  sc_csrfToken :: string
  sc_deviceBinding :: string

definition invalidSession :: failure where
  "invalidSession = app_failure ''SESSION_INVALID'' Authentication
     ''The anonymous session credentials are invalid or expired.''"

definition storeUnavailable :: failure where
  "storeUnavailable = app_failure ''SESSION_STORE_UNAVAILABLE'' Dependency
     ''Anonymous session authentication is temporarily unavailable.''"

text \<open>\<open>catch (error) { if (error instanceof ApplicationError) throw error; throw storeUnavailable(); }\<close>
  and the check that follows.\<close>

definition settle_principal :: "principal option outcome \<Rightarrow> principal outcome" where
  "settle_principal r =
     (case r of
       Inl (ApplicationError e) \<Rightarrow> Inl (ApplicationError e)
     | Inl _ \<Rightarrow> Inl storeUnavailable
     | Inr None \<Rightarrow> Inl invalidSession
     | Inr (Some who) \<Rightarrow> Inr who)"

record session_env =
  se_faults :: "nat \<Rightarrow> database attempt_env"
  se_clk :: "nat \<Rightarrow> instant"

text \<open>Both transactions run with the defaults of the unit of work: read committed, no retry.\<close>

definition use_case_authenticate ::
  "zod \<Rightarrow> meetings_config \<Rightarrow> (bytes \<Rightarrow> bytes \<Rightarrow> bytes) \<Rightarrow> hmac_service \<Rightarrow> session_env \<Rightarrow> session_credentials
     \<Rightarrow> database \<Rightarrow> principal outcome \<times> database" where
  "use_case_authenticate z config hmac keyrings env credentials db =
     (case sessionCredentialCandidates hmac keyrings (sc_token credentials) (sc_csrfToken credentials)
         (sc_deviceBinding credentials) of
       Inl e \<Rightarrow> (settle_principal (Inl e), db)
     | Inr candidates \<Rightarrow>
         (case run (se_faults env) (\<lambda>_. session_authenticate z config (se_clk env) candidates) None None db of
           (r, db', _) \<Rightarrow> (settle_principal r, db')))"

definition use_case_revalidate ::
  "zod \<Rightarrow> meetings_config \<Rightarrow> session_env \<Rightarrow> session_identity \<Rightarrow> database \<Rightarrow> principal outcome \<times> database" where
  "use_case_revalidate z config env i db =
     (case run (se_faults env) (\<lambda>_. session_revalidate z config (se_clk env) i) None None db of
       (r, db', _) \<Rightarrow> (settle_principal r, db'))"

section \<open>The proofs of a request\<close>

definition MAX_COOKIE_HEADER_BYTES :: nat where "MAX_COOKIE_HEADER_BYTES = 4096"

text \<open>A segment with a \<open>=\<close> that is not its first character, as name and value.\<close>

definition cookie_pair :: "string \<Rightarrow> (string \<times> string) option" where
  "cookie_pair segment =
     (let name = takeWhile (\<lambda>c. c \<noteq> CHR ''='') segment; rest = dropWhile (\<lambda>c. c \<noteq> CHR ''='') segment
      in if name = [] \<or> rest = [] then None else Some (trim_string name, trim_string (tl rest)))"

fun read_segments :: "string \<Rightarrow> string list \<Rightarrow> string option \<Rightarrow> string option" where
  "read_segments expectedName [] value = value"
| "read_segments expectedName (segment # segments) value =
     (case cookie_pair segment of
       None \<Rightarrow> read_segments expectedName segments value
     | Some (name, v) \<Rightarrow>
         if name \<noteq> expectedName then read_segments expectedName segments value
         else if value \<noteq> None then None
         else read_segments expectedName segments (Some v))"

definition readCookie :: "string option \<Rightarrow> string \<Rightarrow> string option" where
  "readCookie header expectedName =
     (case header of
       None \<Rightarrow> None
     | Some h \<Rightarrow> if utf8_length h > MAX_COOKIE_HEADER_BYTES then None
         else read_segments expectedName (split_on (CHR '';'') h) None)"

text \<open>The value of a header is one string, absent, or a list of strings, of which only the first is read.\<close>

definition readSingleHeader :: "string list \<Rightarrow> string option" where
  "readSingleHeader values = (case values of [v] \<Rightarrow> Some v | _ \<Rightarrow> None)"

record proof_headers =
  ph_cookie :: "string option"
  ph_csrf :: "string list"
  ph_device :: "string list"

definition credentials_extract :: "meetings_config \<Rightarrow> proof_headers \<Rightarrow> session_credentials outcome" where
  "credentials_extract config headers =
     (case (readCookie (ph_cookie headers) (mc_sessionCookieName config), readSingleHeader (ph_csrf headers),
            readSingleHeader (ph_device headers)) of
       (Some token, Some csrfToken, Some deviceBinding) \<Rightarrow>
         if BASE64URL_256 token \<and> BASE64URL_256 csrfToken \<and> BASE64URL_256 deviceBinding
         then Inr \<lparr>sc_token = token, sc_csrfToken = csrfToken, sc_deviceBinding = deviceBinding\<rparr>
         else Inl invalidSession
     | _ \<Rightarrow> Inl invalidSession)"

section \<open>One attempt under the defaults\<close>

lemma run_once:
  "run env (\<lambda>_. work) None None s =
     (case runAttempt (env 0) work ReadCommitted s of (r, s', ops) \<Rightarrow> (r, s', ops))"
  by (simp add: run_def run_from.simps [of _ _ _ 0] split: prod.split sum.split)

lemma run_once_Inr:
  "run env (\<lambda>_. work) None None s = (Inr x, s', ops) \<Longrightarrow> work (before_attempt (env 0) s) = Inr (x, s')"
  unfolding run_once by (auto split: prod.splits dest: runAttempt_success)

lemma run_once_quiet:
  "work s = Inr (x, s') \<Longrightarrow> \<exists>ops. run (\<lambda>_. quiet) (\<lambda>_. work) None None s = (Inr x, s', ops)"
  by (simp add: run_once runAttempt_def quiet_def)

text \<open>One repository call: one transaction with the defaults of the unit of work.\<close>

definition in_transaction :: "database attempt_env \<Rightarrow> (database, 'a) tx \<Rightarrow> database \<Rightarrow> 'a outcome \<times> database" where
  "in_transaction fault work db = (case run (\<lambda>_. fault) (\<lambda>_. work) None None db of (r, db', _) \<Rightarrow> (r, db'))"

lemma in_transaction_Inr:
  "in_transaction fault work db = (Inr x, db') \<Longrightarrow> work (before_attempt fault db) = Inr (x, db')"
  unfolding in_transaction_def by (auto split: prod.splits dest: run_once_Inr)

lemma in_transaction_quiet: "work db = Inr (x, db') \<Longrightarrow> in_transaction quiet work db = (Inr x, db')"
  using run_once_quiet [of work db x db'] by (auto simp: in_transaction_def)

section \<open>What authentication establishes\<close>

definition live_principal :: "instant \<Rightarrow> principal \<Rightarrow> database \<Rightarrow> bool" where
  "live_principal now who db =
     list_ex (\<lambda>s. list_ex (\<lambda>p. list_ex (\<lambda>m. session_live now s p m \<and> who = row_principal (s, p, m))
       (meetings db)) (participants db)) (sessions db)"

lemma live_principalI:
  "s \<in> set (sessions db) \<Longrightarrow> p \<in> set (participants db) \<Longrightarrow> m \<in> set (meetings db) \<Longrightarrow> session_live now s p m \<Longrightarrow>
     live_principal now (row_principal (s, p, m)) db"
  by (auto simp: live_principal_def list_ex_iff)

lemma row_principal_simps [simp]:
  "pr_sessionId (row_principal (s, p, m)) = s_id s" "pr_participantId (row_principal (s, p, m)) = p_id p"
  "pr_meetingId (row_principal (s, p, m)) = p_meeting_id p"
  "pr_absoluteExpiresAtMs (row_principal (s, p, m)) = s_absolute_expires_at s"
  by (simp_all add: row_principal_def)

text \<open>A touch moves the activity of one session and nothing else, and never past an expiry.\<close>

definition touched_only :: "uuid \<Rightarrow> database \<Rightarrow> database \<Rightarrow> bool" where
  "touched_only i db db' =
     (db' = db\<lparr>sessions := sessions db'\<rparr> \<and>
      list_all2 (\<lambda>s s'. s' = s\<lparr>s_last_seen_at := s_last_seen_at s', s_idle_expires_at := s_idle_expires_at s'\<rparr> \<and>
        (s_id s \<noteq> i \<longrightarrow> s' = s) \<and> (s' = s \<or> s_idle_expires_at s' \<le> s_absolute_expires_at s'))
       (sessions db) (sessions db'))"

lemma touch_Inr:
  assumes "touch config now now' i db = Inr (u, db')"
  shows "touched_only i db db'"
proof -
  let ?f = "\<lambda>s. if s_id s = i then (case session_meeting db s of None \<Rightarrow> s
      | Some m \<Rightarrow> s\<lparr>s_last_seen_at := now, s_idle_expires_at := min (min (now' + mc_sessionIdleTtlSeconds config * 1000)
          (s_absolute_expires_at s)) (m_expires_at m)\<rparr>) else s"
  have "db' = db\<lparr>sessions := map ?f (sessions db)\<rparr>"
    using assms by (auto simp: touch_def Let_def update_where_def split: if_splits)
  then show ?thesis
    by (auto simp: touched_only_def list_all2_map2 intro!: list_all2_refl split: option.split)
qed

lemma touch_and_parse_Inr:
  assumes "touch_and_parse z config ck rows db = Inr (Some who, db')"
  obtains row where "first_row rows = Some row" "who = row_principal row" "sessionRowSchema z row"
    "touched_only (s_id (fst row)) db db'"
  using assms
  by (auto simp: touch_and_parse_def parsePrincipal_def and_then_Inr_iff split: option.splits if_splits
      intro: that touch_Inr)

lemma settle_principal_Inr [simp]: "settle_principal r = Inr who \<longleftrightarrow> r = Inr (Some who)"
  by (auto simp: settle_principal_def split: sum.splits option.splits failure.splits)

lemma settle_principal_Inl: "settle_principal r = Inl e \<Longrightarrow> \<exists>a. e = ApplicationError a"
  by (auto simp: settle_principal_def invalidSession_def storeUnavailable_def
      split: sum.splits option.splits failure.splits)

text \<open>C14. Authentication needs all three proofs and a live session: if a request is authenticated, one
  stored session carries the digests of its token, CSRF token and device binding under one and the same
  key version of the keyring; the session is active and neither idle nor expired, its participant has not
  left, its meeting is open; the principal is read from those rows; and the database changes in nothing
  but the activity of that session, whose idle expiry stays within its absolute expiry.\<close>

theorem authenticated_session_is_live:
  assumes "use_case_authenticate z config hmac keyrings env credentials db = (Inr who, db')"
  shows "\<exists>k s p m version key db0. hs_session keyrings = Some k \<and> (version, key) \<in> set (lk_keys k) \<and>
    db0 = before_attempt (se_faults env 0) db \<and>
    s \<in> set (sessions db0) \<and> p \<in> set (participants db0) \<and> m \<in> set (meetings db0) \<and>
    s_pepper_version s = version \<and>
    s_token_digest s = digest hmac key ''session'' (base64url_decode (sc_token credentials)) \<and>
    s_csrf_token_digest s = digest hmac key ''csrf'' (base64url_decode (sc_csrfToken credentials)) \<and>
    s_device_binding_digest s = digest hmac key ''device-binding'' (base64url_decode (sc_deviceBinding credentials)) \<and>
    s_state s \<in> {SActive, SRotating} \<and> s_idle_expires_at s > se_clk env 0 \<and> s_absolute_expires_at s > se_clk env 0 \<and>
    p_id p = s_participant_id s \<and> p_state p \<in> {PPendingKeySync, PActive} \<and>
    m_id m = p_meeting_id p \<and> m_state m \<in> {MOpen, MActive} \<and> m_expires_at m > se_clk env 0 \<and>
    who = row_principal (s, p, m) \<and> touched_only (s_id s) db0 db'"
proof -
  let ?db0 = "before_attempt (se_faults env 0) db"
  from assms obtain candidates ops where c:
    "sessionCredentialCandidates hmac keyrings (sc_token credentials) (sc_csrfToken credentials)
       (sc_deviceBinding credentials) = Inr candidates"
    "run (se_faults env) (\<lambda>_. session_authenticate z config (se_clk env) candidates) None None db =
       (Inr (Some who), db', ops)"
    by (auto simp: use_case_authenticate_def settle_principal_def split: sum.splits prod.splits failure.splits option.splits)
  from run_once_Inr [OF c(2)] obtain rows where rows: "authenticate_rows (se_clk env 0) candidates ?db0 = Inr rows"
    "touch_and_parse z config (se_clk env) rows ?db0 = Inr (Some who, db')"
    by (auto simp: session_authenticate_def and_then_Inr_iff)
  from rows(2) obtain row where row: "first_row rows = Some row" "who = row_principal row"
    "touched_only (s_id (fst row)) ?db0 db'" by (rule touch_and_parse_Inr)
  obtain s p m where row_eq: "row = (s, p, m)" by (cases row) auto
  from first_row_Some_mem [OF row(1)] rows(1) obtain d where d: "d \<in> set candidates" "proof_matches d s"
    "session_live (se_clk env 0) s p m" "s \<in> set (sessions ?db0)" "p \<in> set (participants ?db0)" "m \<in> set (meetings ?db0)"
    by (auto simp: row_eq authenticate_rows_def split: if_splits)
  from c(1) d(1) obtain k version key where k: "hs_session keyrings = Some k" "(version, key) \<in> set (lk_keys k)"
    "d = \<lparr>scd_version = version, scd_tokenDigest = digest hmac key ''session'' (base64url_decode (sc_token credentials)),
      scd_csrfDigest = digest hmac key ''csrf'' (base64url_decode (sc_csrfToken credentials)),
      scd_deviceBindingDigest = digest hmac key ''device-binding'' (base64url_decode (sc_deviceBinding credentials))\<rparr>"
    by (auto simp: sessionCredentialCandidates_def and_then_Inr_iff requireSession_def decodeOpaqueSecret_def
        split: if_splits)
  show ?thesis
    by (intro exI [of _ k] exI [of _ s] exI [of _ p] exI [of _ m] exI [of _ version] exI [of _ key] exI [of _ ?db0])
      (use k d row in \<open>simp add: row_eq proof_matches_def session_live_def\<close>)
qed
definition sample_proofs_db :: database where
  "sample_proofs_db = sample_db\<lparr>sessions := [sample_session\<lparr>s_token_digest := replicate 32 9,
     s_csrf_token_digest := replicate 32 9, s_device_binding_digest := replicate 32 9, s_pepper_version := 3\<rparr>]\<rparr>"

definition sample_session_env :: "instant \<Rightarrow> session_env" where
  "sample_session_env t = \<lparr>se_faults = (\<lambda>_. quiet), se_clk = (\<lambda>n. t + int n)\<rparr>"

definition sample_credentials :: session_credentials where
  "sample_credentials = \<lparr>sc_token = replicate 43 (CHR ''A''), sc_csrfToken = replicate 43 (CHR ''B''),
     sc_deviceBinding = replicate 43 (CHR ''C'')\<rparr>"

definition sample_authenticated :: "principal outcome \<times> database" where
  "sample_authenticated = use_case_authenticate strict_zod sample_meetings_config (\<lambda>_ _. replicate 32 9)
     \<lparr>hs_capability = None, hs_session = Some sample_keyring\<rparr> (sample_session_env 1000) sample_credentials
     sample_proofs_db"

theorem authenticated_session_is_live_witness:
  "\<exists>s. s \<in> set (sessions sample_proofs_db) \<and> s_id s = pr_sessionId (projr (fst sample_authenticated)) \<and>
     s_absolute_expires_at s > 1000"
proof -
  have "\<not> isl (fst sample_authenticated)" by code_simp
  then have "sample_authenticated = (Inr (projr (fst sample_authenticated)), snd sample_authenticated)"
    by (cases sample_authenticated) auto
  from authenticated_session_is_live [OF this [unfolded sample_authenticated_def]]
  show ?thesis unfolding sample_authenticated_def [symmetric]
    by (auto simp: sample_session_env_def quiet_def)
qed

section \<open>The contract other modules rely on\<close>

text \<open>Revalidation grants exactly the identity it was asked for, only to an entitled principal, and
  reports a refusal as a public error.\<close>

locale session_gate =
  fixes revalidate :: "session_identity \<Rightarrow> 'd \<Rightarrow> principal outcome \<times> 'd"
    and entitled :: "principal \<Rightarrow> 'd \<Rightarrow> bool"
  assumes grants_identity: "revalidate i db = (Inr who, db') \<Longrightarrow>
      pr_sessionId who = si_sessionId i \<and> pr_participantId who = si_participantId i \<and>
      pr_meetingId who = si_meetingId i"
    and grants_entitled: "revalidate i db = (Inr who, db') \<Longrightarrow> entitled who db"
    and refuses_publicly: "revalidate i db = (Inl e, db') \<Longrightarrow> \<exists>a. e = ApplicationError a"

lemma use_case_revalidate_Inr:
  assumes "use_case_revalidate z config env i db = (Inr who, db')"
  obtains s p m where "who = row_principal (s, p, m)" "s_id s = si_sessionId i" "p_id p = si_participantId i"
    "m_id m = si_meetingId i" "session_live (se_clk env 0) s p m"
    "live_principal (se_clk env 0) who (before_attempt (se_faults env 0) db)"
    "touched_only (s_id s) (before_attempt (se_faults env 0) db) db'"
proof -
  let ?db0 = "before_attempt (se_faults env 0) db"
  from assms obtain ops where "run (se_faults env) (\<lambda>_. session_revalidate z config (se_clk env) i) None None db =
       (Inr (Some who), db', ops)"
    by (auto simp: use_case_revalidate_def split: prod.splits)
  from run_once_Inr [OF this] obtain row where row: "first_row (SELECT_ACTIVE_SESSION (se_clk env 0) i ?db0) = Some row"
    "who = row_principal row" "touched_only (s_id (fst row)) ?db0 db'"
    unfolding session_revalidate_def by (rule touch_and_parse_Inr)
  obtain s p m where row_eq: "row = (s, p, m)" by (cases row) auto
  from first_row_Some_mem [OF row(1)] have r: "s_id s = si_sessionId i" "p_id p = si_participantId i"
    "m_id m = si_meetingId i" "session_live (se_clk env 0) s p m" "s \<in> set (sessions ?db0)"
    "p \<in> set (participants ?db0)" "m \<in> set (meetings ?db0)"
    by (auto simp: row_eq SELECT_ACTIVE_SESSION_def)
  show ?thesis by (rule that [of s p m]) (use r row in \<open>auto simp: row_eq intro: live_principalI\<close>)
qed

interpretation gate: session_gate "use_case_revalidate z config env"
  "\<lambda>who db. live_principal (se_clk env 0) who (before_attempt (se_faults env 0) db)"
proof
  fix i db who db' e
  show "use_case_revalidate z config env i db = (Inr who, db') \<Longrightarrow>
      pr_sessionId who = si_sessionId i \<and> pr_participantId who = si_participantId i \<and>
      pr_meetingId who = si_meetingId i"
    by (erule use_case_revalidate_Inr) (simp add: session_live_def)
  show "use_case_revalidate z config env i db = (Inr who, db') \<Longrightarrow>
      live_principal (se_clk env 0) who (before_attempt (se_faults env 0) db)"
    by (erule use_case_revalidate_Inr)
  show "use_case_revalidate z config env i db = (Inl e, db') \<Longrightarrow> \<exists>a. e = ApplicationError a"
    by (auto simp: use_case_revalidate_def split: prod.splits dest: settle_principal_Inl)
qed

section \<open>Proofs of a request are unambiguous\<close>

definition cookie_values :: "string \<Rightarrow> string list \<Rightarrow> string list" where
  "cookie_values name segments = map snd (filter (\<lambda>c. fst c = name) (List.map_filter cookie_pair segments))"

lemma cookie_values_simps [simp]:
  "cookie_values name [] = []"
  "cookie_values name (s # ss) = (case cookie_pair s of
     None \<Rightarrow> cookie_values name ss
   | Some (n, v) \<Rightarrow> if n = name then v # cookie_values name ss else cookie_values name ss)"
  by (auto simp: cookie_values_def map_filter_simps split: option.split)

lemma read_segments_again:
  "read_segments name segments (Some w) = (if cookie_values name segments = [] then Some w else None)"
  by (induction segments) (auto split: option.split)

lemma read_segments_values:
  "read_segments name segments None = (case cookie_values name segments of [v] \<Rightarrow> Some v | _ \<Rightarrow> None)"
  by (induction segments) (auto simp: read_segments_again split: option.split list.split)

text \<open>The proofs of a request are read unambiguously: credentials are extracted exactly when the cookie
  header is at most 4096 bytes and holds the session cookie once, each of the two other headers is a single
  value, and all three are 256-bit base64url tokens; anything else is the one generic refusal.\<close>

theorem credentials_unambiguous:
  "credentials_extract config headers =
     (case (ph_cookie headers, ph_csrf headers, ph_device headers) of
       (Some h, [csrf], [device]) \<Rightarrow>
         (case cookie_values (mc_sessionCookieName config) (split_on (CHR '';'') h) of
           [token] \<Rightarrow>
             if utf8_length h \<le> 4096 \<and> BASE64URL_256 token \<and> BASE64URL_256 csrf \<and> BASE64URL_256 device
             then Inr \<lparr>sc_token = token, sc_csrfToken = csrf, sc_deviceBinding = device\<rparr>
             else Inl invalidSession
         | _ \<Rightarrow> Inl invalidSession)
     | _ \<Rightarrow> Inl invalidSession)"
  by (auto simp: credentials_extract_def readCookie_def readSingleHeader_def read_segments_values MAX_COOKIE_HEADER_BYTES_def
      split: option.split list.split)

end
