(* ===== verification/RedisKeyspace.thy ===== *)
theory RedisKeyspace
  imports Failures
begin

text \<open>
  The keys and channels in Redis (\<open>platform/redis/redis-keyspace.ts\<close>). Every segment is checked for
  its canonical format before it enters a key, so that two different requests never share a key.
\<close>

definition invalidSegment :: "string \<Rightarrow> failure" where
  "invalidSegment label = ConfigurationError (''Redis '' @ label @ '' has an invalid canonical format'')"

definition assertSegmentUuid :: "string \<Rightarrow> string \<Rightarrow> unit outcome" where
  "assertSegmentUuid value label = ensure (uuid_format value) (invalidSegment label)"

definition redis_prefix :: string where
  "redis_prefix = ''hf:v1''"

definition realtimeTicket :: "string \<Rightarrow> string outcome" where
  "realtimeTicket ticketDigest =
     and_then (ensure (sha256_hex ticketDigest) (invalidSegment ''ticket digest'')) (\<lambda>_.
       Inr (redis_prefix @ '':ticket:{'' @ ticketDigest @ ''}''))"

definition meetingPresenceConnections :: "uuid \<Rightarrow> string outcome" where
  "meetingPresenceConnections meetingId =
     and_then (assertSegmentUuid meetingId ''meeting ID'') (\<lambda>_.
       Inr (redis_prefix @ '':presence:{'' @ meetingId @ ''}:connections''))"

definition meetingPresenceDetails :: "uuid \<Rightarrow> string outcome" where
  "meetingPresenceDetails meetingId =
     and_then (assertSegmentUuid meetingId ''meeting ID'') (\<lambda>_.
       Inr (redis_prefix @ '':presence:{'' @ meetingId @ ''}:details''))"

definition meetingPresenceRevision :: "uuid \<Rightarrow> string outcome" where
  "meetingPresenceRevision meetingId =
     and_then (assertSegmentUuid meetingId ''meeting ID'') (\<lambda>_.
       Inr (redis_prefix @ '':presence:{'' @ meetingId @ ''}:revision''))"

definition meetingRealtimeChannel :: "uuid \<Rightarrow> string outcome" where
  "meetingRealtimeChannel meetingId =
     and_then (assertSegmentUuid meetingId ''meeting ID'') (\<lambda>_.
       Inr (redis_prefix @ '':rt:{'' @ meetingId @ ''}''))"

definition meetingChatChannel :: "uuid \<Rightarrow> string outcome" where
  "meetingChatChannel meetingId =
     and_then (assertSegmentUuid meetingId ''meeting ID'') (\<lambda>_.
       Inr (redis_prefix @ '':chat:{'' @ meetingId @ ''}''))"

definition sessionConnections :: "uuid \<Rightarrow> string outcome" where
  "sessionConnections sessionId =
     and_then (assertSegmentUuid sessionId ''session ID'') (\<lambda>_.
       Inr (redis_prefix @ '':session:{'' @ sessionId @ ''}:connections''))"

text \<open>\<open>/^[a-z][a-z0-9_-]{0,31}$/\<close>\<close>

definition rate_scope :: "string \<Rightarrow> bool" where
  "rate_scope = head_tail is_lower (\<lambda>c. is_lower c \<or> is_digit c \<or> c \<in> set ''_-'') 31"

definition rateLimit :: "string \<Rightarrow> string \<Rightarrow> string outcome" where
  "rateLimit scope subjectDigest =
     and_then (ensure (rate_scope scope) (invalidSegment ''rate-limit scope'')) (\<lambda>_.
     and_then (ensure (sha256_hex subjectDigest) (invalidSegment ''rate-limit subject digest'')) (\<lambda>_.
       Inr (redis_prefix @ '':rate:'' @ scope @ '':{'' @ subjectDigest @ ''}'')))"

section \<open>No two requests share a key\<close>

datatype key_request =
  TicketKey string
| PresenceConnectionsKey uuid
| PresenceDetailsKey uuid
| PresenceRevisionKey uuid
| RealtimeChannelKey uuid
| ChatChannelKey uuid
| SessionConnectionsKey uuid
| RateLimitKey string string

fun redis_key :: "key_request \<Rightarrow> string outcome" where
  "redis_key (TicketKey d) = realtimeTicket d"
| "redis_key (PresenceConnectionsKey m) = meetingPresenceConnections m"
| "redis_key (PresenceDetailsKey m) = meetingPresenceDetails m"
| "redis_key (PresenceRevisionKey m) = meetingPresenceRevision m"
| "redis_key (RealtimeChannelKey m) = meetingRealtimeChannel m"
| "redis_key (ChatChannelKey m) = meetingChatChannel m"
| "redis_key (SessionConnectionsKey s) = sessionConnections s"
| "redis_key (RateLimitKey scope d) = rateLimit scope d"

text \<open>A key is a family, the hash tag between braces, and a suffix; the tag routes it to its slot.\<close>

fun family :: "key_request \<Rightarrow> string" where
  "family (TicketKey d) = ''ticket:''"
| "family (PresenceConnectionsKey m) = ''presence:''"
| "family (PresenceDetailsKey m) = ''presence:''"
| "family (PresenceRevisionKey m) = ''presence:''"
| "family (RealtimeChannelKey m) = ''rt:''"
| "family (ChatChannelKey m) = ''chat:''"
| "family (SessionConnectionsKey s) = ''session:''"
| "family (RateLimitKey scope d) = ''rate:'' @ scope @ '':''"

fun hash_tag :: "key_request \<Rightarrow> string" where
  "hash_tag (TicketKey d) = d"
| "hash_tag (PresenceConnectionsKey m) = m"
| "hash_tag (PresenceDetailsKey m) = m"
| "hash_tag (PresenceRevisionKey m) = m"
| "hash_tag (RealtimeChannelKey m) = m"
| "hash_tag (ChatChannelKey m) = m"
| "hash_tag (SessionConnectionsKey s) = s"
| "hash_tag (RateLimitKey scope d) = d"

fun key_suffix :: "key_request \<Rightarrow> string" where
  "key_suffix (PresenceConnectionsKey m) = '':connections''"
| "key_suffix (PresenceDetailsKey m) = '':details''"
| "key_suffix (PresenceRevisionKey m) = '':revision''"
| "key_suffix (SessionConnectionsKey s) = '':connections''"
| "key_suffix _ = ''''"

definition plain_segment :: "string \<Rightarrow> bool" where
  "plain_segment s = list_all (\<lambda>c. c \<noteq> CHR ''{'' \<and> c \<noteq> CHR ''}'') s"

lemma class_plain:
  "is_hex c \<Longrightarrow> c \<noteq> CHR ''{'' \<and> c \<noteq> CHR ''}''"
  "is_hex_i c \<Longrightarrow> c \<noteq> CHR ''{'' \<and> c \<noteq> CHR ''}''"
  "is_lower c \<or> is_digit c \<or> c \<in> set ''_-'' \<Longrightarrow> c \<noteq> CHR ''{'' \<and> c \<noteq> CHR ''}''"
  "in_range 49 56 c \<Longrightarrow> c \<noteq> CHR ''{'' \<and> c \<noteq> CHR ''}''"
  by (auto simp: is_hex_def is_hex_i_def is_digit_def is_lower_def in_range_def)

lemma plain_sha256: "sha256_hex s \<Longrightarrow> plain_segment s"
  by (auto simp: sha256_hex_def plain_segment_def list_all_iff dest: class_plain)

lemma plain_matches:
  "matches ps s \<Longrightarrow> list_all (\<lambda>p. \<forall>c. p c \<longrightarrow> c \<noteq> CHR ''{'' \<and> c \<noteq> CHR ''}'') ps \<Longrightarrow> plain_segment s"
  unfolding matches_def plain_segment_def by (induction ps s rule: list_all2_induct) auto

lemma plain_uuid: "uuid_format s \<Longrightarrow> plain_segment s"
  unfolding uuid_format_def
  by (erule plain_matches) (auto simp: list_all_iff dash_def dest: class_plain)

lemma plain_scope: "rate_scope s \<Longrightarrow> plain_segment s"
  by (auto simp: rate_scope_def head_tail_def plain_segment_def list_all_iff is_lower_def is_digit_def
      in_range_def split: list.splits)

lemma redis_key_shape:
  assumes "redis_key q = Inr k"
  shows "k = (redis_prefix @ '':'' @ family q) @ ''{'' @ hash_tag q @ ''}'' @ key_suffix q \<and>
    plain_segment (family q) \<and> plain_segment (hash_tag q)"
proof (cases q)
  case (RateLimitKey scope d)
  then have "rate_scope scope" "sha256_hex d"
    using assms by (auto simp: rateLimit_def and_then_Inr_iff)
  then show ?thesis using assms RateLimitKey plain_scope [of scope] plain_sha256 [of d]
    by (auto simp: rateLimit_def and_then_Inr_iff plain_segment_def)
qed (use assms in \<open>auto simp: realtimeTicket_def meetingPresenceConnections_def
    meetingPresenceDetails_def meetingPresenceRevision_def meetingRealtimeChannel_def
    meetingChatChannel_def sessionConnections_def assertSegmentUuid_def and_then_Inr_iff
    plain_uuid plain_sha256, auto simp: plain_segment_def\<close>)

lemma split_at_brace:
  assumes "plain_segment a" "plain_segment b" "a @ c # xs = b @ c # ys" "c = CHR ''{'' \<or> c = CHR ''}''"
  shows "a = b \<and> xs = ys"
  using assms
proof (induction a arbitrary: b)
  case Nil
  then show ?case by (cases b) (auto simp: plain_segment_def)
next
  case (Cons x a)
  then show ?case by (cases b) (auto simp: plain_segment_def)
qed

lemma key_parts_injective:
  assumes "redis_key q = Inr k" "redis_key q' = Inr k"
  shows "family q = family q' \<and> hash_tag q = hash_tag q' \<and> key_suffix q = key_suffix q'"
proof -
  let ?p = "redis_prefix @ '':''"
  note shape = redis_key_shape [OF assms(1)] redis_key_shape [OF assms(2)]
  have plain: "plain_segment (?p @ family q)" "plain_segment (?p @ family q')"
    using shape by (simp_all add: plain_segment_def redis_prefix_def)
  have "(?p @ family q) @ CHR ''{'' # hash_tag q @ CHR ''}'' # key_suffix q =
      (?p @ family q') @ CHR ''{'' # hash_tag q' @ CHR ''}'' # key_suffix q'"
    using shape by simp
  from split_at_brace [OF plain this] have fam: "family q = family q'"
    and rest: "hash_tag q @ CHR ''}'' # key_suffix q = hash_tag q' @ CHR ''}'' # key_suffix q'"
    by auto
  have "hash_tag q = hash_tag q' \<and> key_suffix q = key_suffix q'"
    using split_at_brace [OF _ _ rest] shape by simp
  with fam show ?thesis by simp
qed

text \<open>Keys and channels never collide: two requests that yield the same Redis key are the same
  request. In particular no meeting's chat or presence channel is another meeting's, and no quota
  counts on another quota's key.\<close>

theorem redis_keys_distinct:
  assumes "redis_key q = Inr k" and "redis_key q' = Inr k"
  shows "q = q'"
  using key_parts_injective [OF assms] by (cases q; cases q'; simp)

definition sample_uuid :: uuid where
  "sample_uuid = ''00000000-0000-4000-8000-00000000000a''"

theorem redis_keys_distinct_witness:
  "redis_key (ChatChannelKey sample_uuid) = Inr (''hf:v1:chat:{'' @ sample_uuid @ ''}'') \<and>
   redis_key (RealtimeChannelKey sample_uuid) \<noteq> Inr (''hf:v1:chat:{'' @ sample_uuid @ ''}'')"
proof -
  have "redis_key (ChatChannelKey sample_uuid) = Inr (''hf:v1:chat:{'' @ sample_uuid @ ''}'')"
    by code_simp
  then show ?thesis using redis_keys_distinct by blast
qed

end
