(* ===== verification/Tickets.thy ===== *)
theory Tickets
  imports Sessions RedisKeyspace
begin

text \<open>
  Realtime tickets (\<open>modules/realtime-tickets\<close>): the Redis store with its one-use semantics, the durable
  audit, issuing with its collision retries and compensations, and consumption with revalidation of the
  session. SHA-256 in hexadecimal is the argument \<open>sha256hex\<close>; every call to Redis or PostgreSQL has a
  fate chosen by the environment.
\<close>

section \<open>The store\<close>

record ticket_payload =
  tp_ticketId :: uuid
  tp_commandId :: uuid
  tp_sessionId :: uuid
  tp_participantId :: uuid
  tp_meetingId :: uuid
  tp_origin :: string
  tp_deviceBindingDigest :: string
  tp_issuedAtMs :: int
  tp_expiresAtMs :: int

text \<open>A value in Redis, \<open>None\<close> when it is not JSON, with the instant its TTL ends.\<close>

type_synonym ticket_store = "string \<Rightarrow> (json option \<times> instant) option"

text \<open>A command is answered, is lost before it runs, or runs without its reply arriving.\<close>

datatype redis_fate = Answered | Lost | Unacknowledged

definition redis_fault :: failure where "redis_fault = DependencyFault ''redis''"

definition invalidTicket :: failure where
  "invalidTicket = app_failure ''REALTIME_TICKET_INVALID'' Authentication
     ''The realtime ticket is invalid or expired.''"

definition invalidStoredTicket :: failure where
  "invalidStoredTicket = app_failure ''REALTIME_TICKET_STORE_INVALID'' Dependency
     ''Realtime admission is temporarily unavailable.''"

definition assertTicket :: "string \<Rightarrow> unit outcome" where
  "assertTicket ticket = ensure (BASE64URL_256 ticket) invalidTicket"

definition ticket_key :: "(string \<Rightarrow> string) \<Rightarrow> string \<Rightarrow> string outcome" where
  "ticket_key sha256hex ticket =
     and_then (assertTicket ticket) (\<lambda>_. realtimeTicket (sha256hex ticket))"

definition payload_json :: "ticket_payload \<Rightarrow> json" where
  "payload_json p = JObj [(''v'', JInt 1), (''ticketId'', JStr (tp_ticketId p)),
     (''commandId'', JStr (tp_commandId p)), (''sessionId'', JStr (tp_sessionId p)),
     (''participantId'', JStr (tp_participantId p)), (''meetingId'', JStr (tp_meetingId p)),
     (''origin'', JStr (tp_origin p)), (''deviceBindingDigest'', JStr (tp_deviceBindingDigest p)),
     (''issuedAtMs'', JInt (tp_issuedAtMs p)), (''expiresAtMs'', JInt (tp_expiresAtMs p))]"

definition ticket_keys :: "string list" where
  "ticket_keys = [''v'', ''ticketId'', ''commandId'', ''sessionId'', ''participantId'', ''meetingId'',
     ''origin'', ''deviceBindingDigest'', ''issuedAtMs'', ''expiresAtMs'']"

definition ticketPayloadSchema :: "zod \<Rightarrow> json \<Rightarrow> ticket_payload option" where
  "ticketPayloadSchema z v =
     (case v of
       JObj obj \<Rightarrow>
         (case (guarded (z_uuid z) (string_field obj ''ticketId''),
                guarded (z_uuid z) (string_field obj ''commandId''),
                guarded (z_uuid z) (string_field obj ''sessionId''),
                guarded (z_uuid z) (string_field obj ''participantId''),
                guarded (z_uuid z) (string_field obj ''meetingId''),
                guarded (\<lambda>s. z_url z s \<and> length s \<le> 2048) (string_field obj ''origin''),
                guarded sha256_hex (string_field obj ''deviceBindingDigest''),
                guarded (\<lambda>i. 0 \<le> i) (Option.bind (field obj ''issuedAtMs'') as_int),
                guarded (\<lambda>i. 0 < i) (Option.bind (field obj ''expiresAtMs'') as_int)) of
           (Some ticket, Some cmd, Some session, Some part, Some meeting, Some origin, Some device,
            Some issued, Some expires) \<Rightarrow>
             if strict_keys ticket_keys obj \<and> field obj ''v'' = Some (JInt 1)
             then Some \<lparr>tp_ticketId = ticket, tp_commandId = cmd, tp_sessionId = session,
               tp_participantId = part, tp_meetingId = meeting, tp_origin = origin,
               tp_deviceBindingDigest = device, tp_issuedAtMs = issued, tp_expiresAtMs = expires\<rparr>
             else None
         | _ \<Rightarrow> None)
     | _ \<Rightarrow> None)"

definition store_live :: "instant \<Rightarrow> string \<Rightarrow> ticket_store \<Rightarrow> bool" where
  "store_live now key st = (case st key of None \<Rightarrow> False | Some (_, expires) \<Rightarrow> now < expires)"

text \<open>\<open>SET key value PX ttl NX\<close>\<close>

definition ticket_put ::
  "(string \<Rightarrow> string) \<Rightarrow> redis_fate \<Rightarrow> instant \<Rightarrow> string \<Rightarrow> ticket_payload \<Rightarrow> int \<Rightarrow> ticket_store
     \<Rightarrow> bool outcome \<times> ticket_store" where
  "ticket_put sha256hex fate now ticket payload ttlMs st =
     (case ticket_key sha256hex ticket of
       Inl e \<Rightarrow> (Inl e, st)
     | Inr key \<Rightarrow>
         let stored = \<not> store_live now key st;
             st' = (if stored then st(key \<mapsto> (Some (payload_json payload), now + ttlMs)) else st)
         in case fate of
           Answered \<Rightarrow> (Inr stored, st') | Lost \<Rightarrow> (Inl redis_fault, st)
         | Unacknowledged \<Rightarrow> (Inl redis_fault, st'))"

text \<open>\<open>GETDEL\<close>: the value is gone before it is parsed.\<close>

definition ticket_take ::
  "zod \<Rightarrow> (string \<Rightarrow> string) \<Rightarrow> redis_fate \<Rightarrow> instant \<Rightarrow> string \<Rightarrow> ticket_store
     \<Rightarrow> ticket_payload option outcome \<times> ticket_store" where
  "ticket_take z sha256hex fate now ticket st =
     (case ticket_key sha256hex ticket of
       Inl e \<Rightarrow> (Inl e, st)
     | Inr key \<Rightarrow>
         (case fate of
           Lost \<Rightarrow> (Inl redis_fault, st)
         | Unacknowledged \<Rightarrow> (Inl redis_fault, st(key := None))
         | Answered \<Rightarrow>
             (if \<not> store_live now key st then (Inr None, st(key := None))
              else case Option.bind (Option.bind (st key) fst) (ticketPayloadSchema z) of
                None \<Rightarrow> (Inl invalidStoredTicket, st(key := None))
              | Some p \<Rightarrow>
                  if tp_expiresAtMs p \<le> tp_issuedAtMs p then (Inl invalidStoredTicket, st(key := None))
                  else (Inr (Some p), st(key := None)))))"

definition ticket_remove :: "(string \<Rightarrow> string) \<Rightarrow> redis_fate \<Rightarrow> string \<Rightarrow> ticket_store \<Rightarrow> ticket_store" where
  "ticket_remove sha256hex fate ticket st =
     (case ticket_key sha256hex ticket of
       Inl e \<Rightarrow> st | Inr key \<Rightarrow> if fate = Lost then st else st(key := None))"

section \<open>The audit\<close>

definition recordIssue :: "uuid \<Rightarrow> instant \<Rightarrow> uuid \<Rightarrow> uuid \<Rightarrow> instant \<Rightarrow> (database, unit) tx" where
  "recordIssue auditId now ticketId sessionId expiresAt db =
     (let r = \<lparr>ta_id = auditId, ta_session_id = sessionId, ta_ticket_id = ticketId, ta_issued_at = now,
            ta_expires_at = expiresAt, ta_consumed_at = None, ta_result_code = Some ''pending''\<rparr>
      in if \<not> list_ex (\<lambda>s. s_id s = sessionId) (sessions db) then Inl foreign_key_violation
         else and_then (insert_row ticket_audit_checks
             (\<lambda>a b. ta_id a = ta_id b \<or> ta_ticket_id a = ta_ticket_id b) r (ticket_audits db)) (\<lambda>rows.
           Inr ((), db\<lparr>ticket_audits := rows\<rparr>)))"

definition audit_result :: "instant \<Rightarrow> string \<Rightarrow> bool \<Rightarrow> ticket_audit \<Rightarrow> ticket_audit" where
  "audit_result now code consumed r =
     r\<lparr>ta_result_code := Some code, ta_consumed_at := (if consumed then Some now else ta_consumed_at r)\<rparr>"

definition audit_markResult :: "instant \<Rightarrow> uuid \<Rightarrow> string \<Rightarrow> bool \<Rightarrow> (database, unit) tx" where
  "audit_markResult now ticketId code consumed db =
     (let P = (\<lambda>r. ta_ticket_id r = ticketId); rows = update_where P (audit_result now code consumed) (ticket_audits db)
      in if list_ex (\<lambda>r. P r \<and> \<not> ticket_audit_checks r) rows then Inl check_violation
         else and_then (ensure (count_where P (ticket_audits db) = 1)
             (PlainError ''Realtime ticket audit row is missing'')) (\<lambda>_.
           Inr ((), db\<lparr>ticket_audits := rows\<rparr>)))"

definition outstanding :: "instant \<Rightarrow> ticket_audit \<Rightarrow> bool" where
  "outstanding now r = (ta_expires_at r \<le> now \<and> ta_consumed_at r = None \<and>
     ta_result_code r \<in> {Some ''pending'', Some ''issued''})"

definition expireOutstanding :: "instant \<Rightarrow> (uuid \<Rightarrow> bool) \<Rightarrow> nat \<Rightarrow> (database, nat) tx" where
  "expireOutstanding now locked limit db =
     (let picked = map ta_id (select_limit (\<lambda>r. outstanding now r \<and> \<not> locked (ta_id r))
            (\<lambda>r. (ta_expires_at r, ta_id r)) limit (ticket_audits db));
          P = (\<lambda>r. ta_id r \<in> set picked)
      in Inr (count_where P (ticket_audits db),
           db\<lparr>ticket_audits := update_where P (\<lambda>r. r\<lparr>ta_result_code := Some ''expired''\<rparr>) (ticket_audits db)\<rparr>))"

section \<open>Issuing\<close>

definition admissionUnavailable :: failure where
  "admissionUnavailable = app_failure ''REALTIME_ADMISSION_UNAVAILABLE'' Dependency
     ''Realtime admission is temporarily unavailable.''"

record issue_ticket =
  it_commandId :: uuid
  it_principal :: principal
  it_origin :: string
  it_deviceBinding :: string

record issued_ticket =
  is_ticket :: string
  is_expiresAt :: string
  is_realtimeUrl :: string
  is_protocol :: string

record issue_attempt =
  ia_random :: bytes
  ia_ticketId :: uuid
  ia_auditId :: uuid
  ia_record_now :: instant
  ia_record :: "database attempt_env"
  ia_put_now :: instant
  ia_put :: redis_fate
  ia_mark_now :: instant
  ia_mark :: "database attempt_env"
  ia_remove :: redis_fate

definition issue_payload :: "(string \<Rightarrow> string) \<Rightarrow> issue_ticket \<Rightarrow> instant \<Rightarrow> int \<Rightarrow> uuid \<Rightarrow> ticket_payload" where
  "issue_payload sha256hex command now ttlMs ticketId =
     \<lparr>tp_ticketId = ticketId, tp_commandId = it_commandId command,
      tp_sessionId = pr_sessionId (it_principal command),
      tp_participantId = pr_participantId (it_principal command),
      tp_meetingId = pr_meetingId (it_principal command), tp_origin = it_origin command,
      tp_deviceBindingDigest = sha256hex (it_deviceBinding command), tp_issuedAtMs = now,
      tp_expiresAtMs = now + ttlMs\<rparr>"

fun issue_attempts ::
  "(string \<Rightarrow> string) \<Rightarrow> string \<Rightarrow> issue_ticket \<Rightarrow> instant \<Rightarrow> int \<Rightarrow> issue_attempt list \<Rightarrow> ticket_store \<Rightarrow> database
     \<Rightarrow> issued_ticket outcome \<times> ticket_store \<times> database" where
  "issue_attempts sha256hex url command now ttlMs [] st db = (Inl admissionUnavailable, st, db)"
| "issue_attempts sha256hex url command now ttlMs (a # rest) st db =
     (let ticket = generateOpaqueToken (ia_random a);
          payload = issue_payload sha256hex command now ttlMs (ia_ticketId a);
          mark = (\<lambda>code. in_transaction (ia_mark a) (audit_markResult (ia_mark_now a) (ia_ticketId a) code False))
      in case in_transaction (ia_record a) (recordIssue (ia_auditId a) (ia_record_now a) (ia_ticketId a)
             (pr_sessionId (it_principal command)) (now + ttlMs)) db of
        (Inl _, db1) \<Rightarrow> (Inl admissionUnavailable, st, db1)
      | (Inr _, db1) \<Rightarrow>
          (case ticket_put sha256hex (ia_put a) (ia_put_now a) ticket payload ttlMs st of
            (Inl _, st1) \<Rightarrow> (Inl admissionUnavailable, st1, snd (mark ''store_unavailable'' db1))
          | (Inr False, st1) \<Rightarrow>
              (case mark ''digest_collision'' db1 of
                (Inl _, db2) \<Rightarrow> (Inl admissionUnavailable, st1, db2)
              | (Inr _, db2) \<Rightarrow> issue_attempts sha256hex url command now ttlMs rest st1 db2)
          | (Inr True, st1) \<Rightarrow>
              (case mark ''issued'' db1 of
                (Inl _, db2) \<Rightarrow> (Inl admissionUnavailable, ticket_remove sha256hex (ia_remove a) ticket st1, db2)
              | (Inr _, db2) \<Rightarrow>
                  (Inr \<lparr>is_ticket = ticket, is_expiresAt = toISOString (now + ttlMs), is_realtimeUrl = url,
                     is_protocol = ''hf-realtime.v1''\<rparr>, st1, db2))))"

definition MAX_COLLISION_ATTEMPTS :: nat where "MAX_COLLISION_ATTEMPTS = 3"

definition ticket_ttl :: "realtime_config \<Rightarrow> principal \<Rightarrow> instant \<Rightarrow> int" where
  "ticket_ttl config who now = min (rc_ticketTtlSeconds config * 1000) (pr_absoluteExpiresAtMs who - now)"

definition ticket_issue ::
  "(string \<Rightarrow> string) \<Rightarrow> realtime_config \<Rightarrow> string \<Rightarrow> (nat \<Rightarrow> issue_attempt) \<Rightarrow> instant \<Rightarrow> issue_ticket
     \<Rightarrow> ticket_store \<Rightarrow> database \<Rightarrow> issued_ticket outcome \<times> ticket_store \<times> database" where
  "ticket_issue sha256hex config url attempts now command st db =
     (let ttlMs = ticket_ttl config (it_principal command) now
      in if ttlMs < 1000 then (Inl invalidSession, st, db)
         else issue_attempts sha256hex url command now ttlMs (map attempts [0..<MAX_COLLISION_ATTEMPTS]) st db)"

section \<open>Consuming\<close>

fun hex_value :: "char \<Rightarrow> nat option" where
  "hex_value c = (if is_digit c then Some (of_char c - 48)
     else if in_range 97 102 c then Some (of_char c - 87)
     else if in_range 65 70 c then Some (of_char c - 55) else None)"

text \<open>\<open>Buffer.from(s, "hex")\<close> stops at the first pair that is not hexadecimal.\<close>

fun hex_decode :: "string \<Rightarrow> bytes" where
  "hex_decode (a # b # s) =
     (case (hex_value a, hex_value b) of
       (Some x, Some y) \<Rightarrow> of_nat (16 * x + y) # hex_decode s | _ \<Rightarrow> [])"
| "hex_decode _ = []"

definition safeHexEqual :: "string \<Rightarrow> string \<Rightarrow> bool" where
  "safeHexEqual left right =
     (length (hex_decode left) = length (hex_decode right) \<and> hex_decode left = hex_decode right)"

record consume_env =
  ce_take_now :: instant
  ce_take :: redis_fate
  ce_now :: instant
  ce_mark_now :: instant
  ce_mark :: "database attempt_env"

definition ticket_identity :: "ticket_payload \<Rightarrow> session_identity" where
  "ticket_identity p = \<lparr>si_sessionId = tp_sessionId p, si_participantId = tp_participantId p,
     si_meetingId = tp_meetingId p\<rparr>"

text \<open>\<open>revalidate\<close> is the session use case.\<close>

definition ticket_consume_with ::
  "(session_identity \<Rightarrow> database \<Rightarrow> principal outcome \<times> database) \<Rightarrow> zod \<Rightarrow> (string \<Rightarrow> string) \<Rightarrow> consume_env
     \<Rightarrow> string \<Rightarrow> string \<Rightarrow> string \<Rightarrow> ticket_store \<Rightarrow> database \<Rightarrow> principal outcome \<times> ticket_store \<times> database" where
  "ticket_consume_with revalidate z sha256hex env ticket expectedOrigin deviceBinding st db =
     (let mark = (\<lambda>p code. in_transaction (ce_mark env) (audit_markResult (ce_mark_now env) (tp_ticketId p) code True));
          settle = (\<lambda>p code r db. case mark p code db of
            (Inl _, db') \<Rightarrow> (Inl admissionUnavailable, db') | (Inr _, db') \<Rightarrow> (r, db'))
      in case ticket_take z sha256hex (ce_take env) (ce_take_now env) ticket st of
        (Inl (ApplicationError e), st') \<Rightarrow> (Inl (ApplicationError e), st', db)
      | (Inl _, st') \<Rightarrow> (Inl admissionUnavailable, st', db)
      | (Inr None, st') \<Rightarrow> (Inl invalidTicket, st', db)
      | (Inr (Some p), st') \<Rightarrow>
          if tp_expiresAtMs p \<le> ce_now env
          then (case settle p ''expired'' (Inl invalidTicket) db of (r, db') \<Rightarrow> (r, st', db'))
          else if tp_origin p \<noteq> expectedOrigin \<or>
            \<not> safeHexEqual (tp_deviceBindingDigest p) (sha256hex deviceBinding)
          then (case settle p ''context_mismatch'' (Inl invalidTicket) db of (r, db') \<Rightarrow> (r, st', db'))
          else (case revalidate (ticket_identity p) db of
            (Inl e, db1) \<Rightarrow> (Inl e, st', snd (mark p ''session_invalid'' db1))
          | (Inr who, db1) \<Rightarrow> (case settle p ''consumed'' (Inr who) db1 of (r, db') \<Rightarrow> (r, st', db'))))"

definition ticket_consume_use ::
  "zod \<Rightarrow> meetings_config \<Rightarrow> (string \<Rightarrow> string) \<Rightarrow> session_env \<Rightarrow> consume_env \<Rightarrow> string \<Rightarrow> string \<Rightarrow> string
     \<Rightarrow> ticket_store \<Rightarrow> database \<Rightarrow> principal outcome \<times> ticket_store \<times> database" where
  "ticket_consume_use z config sha256hex senv =
     ticket_consume_with (use_case_revalidate z config senv) z sha256hex"

section \<open>The endpoint\<close>

definition parseRealtimeTicketRequest :: "zod \<Rightarrow> json \<Rightarrow> uuid outcome" where
  "parseRealtimeTicketRequest z v =
     (case v of
       JObj obj \<Rightarrow> require (if strict_keys [''commandId''] obj
           then guarded (z_uuid z) (string_field obj ''commandId'') else None) invalidRequest
     | _ \<Rightarrow> Inl invalidRequest)"

record ticket_http =
  tk_http :: http_settings
  tk_hmac :: "bytes \<Rightarrow> bytes \<Rightarrow> bytes"
  tk_keyrings :: hmac_service
  tk_session_env :: session_env
  tk_realtime :: realtime_config
  tk_url :: string
  tk_attempts :: "nat \<Rightarrow> issue_attempt"
  tk_issue_now :: instant

definition controller_issue ::
  "zod \<Rightarrow> meetings_config \<Rightarrow> ticket_http \<Rightarrow> browser_request \<Rightarrow> proof_headers \<Rightarrow> counters \<Rightarrow> ticket_store \<Rightarrow> database
     \<Rightarrow> issued_ticket outcome \<times> counters \<times> ticket_store \<times> database" where
  "controller_issue z config h request headers cs st db =
     (let sha = ht_sha256hex (tk_http h) in
      case and_then (trusted_assert (ht_allowedOrigins (tk_http h)) request) (\<lambda>_.
          and_then (require (br_origin request) (PlainError ''Trusted browser origin is unavailable'')) (\<lambda>origin.
          and_then (credentials_extract config headers) (\<lambda>credentials. Inr (origin, credentials)))) of
        Inl e \<Rightarrow> (Inl e, cs, st, db)
      | Inr (origin, credentials) \<Rightarrow>
          (case use_case_authenticate z config (tk_hmac h) (tk_keyrings h) (tk_session_env h) credentials db of
            (Inl e, db1) \<Rightarrow> (Inl e, cs, st, db1)
          | (Inr who, db1) \<Rightarrow>
              (case ticket_consume sha (tk_realtime h) (ht_redis_up (tk_http h)) (br_ip request)
                  (pr_sessionId who) (ht_now (tk_http h)) cs of
                (Inl e, cs') \<Rightarrow> (Inl e, cs', st, db1)
              | (Inr _, cs') \<Rightarrow>
                  (case parseRealtimeTicketRequest z (br_body request) of
                    Inl e \<Rightarrow> (Inl e, cs', st, db1)
                  | Inr commandId \<Rightarrow>
                      (case ticket_issue sha (tk_realtime h) (tk_url h) (tk_attempts h) (tk_issue_now h)
                          \<lparr>it_commandId = commandId, it_principal = who, it_origin = origin,
                           it_deviceBinding = sc_deviceBinding credentials\<rparr> st db1 of
                        (r, st', db2) \<Rightarrow> (r, cs', st', db2))))))"

section \<open>Keys and effects on the store\<close>

lemma ticket_key_inject:
  assumes "ticket_key sha t = Inr key" "ticket_key sha t' = Inr key"
  shows "sha t = sha t'"
  using assms by (auto simp: ticket_key_def realtimeTicket_def and_then_Inr_iff)

lemma ticket_key_defined:
  "BASE64URL_256 t \<Longrightarrow> sha256_hex (sha t) \<Longrightarrow> \<exists>key. ticket_key sha t = Inr key"
  by (auto simp: ticket_key_def realtimeTicket_def assertTicket_def)

lemma ticket_put_frame:
  "ticket_key sha t \<noteq> Inr key \<Longrightarrow> snd (ticket_put sha fate now t p ttl st) key = st key"
  by (auto simp: ticket_put_def Let_def split: sum.split redis_fate.split)

lemma ticket_remove_absent: "st key = None \<Longrightarrow> ticket_remove sha fate t st key = None"
  by (auto simp: ticket_remove_def split: sum.split)

lemma ticket_take_clears:
  "ticket_key sha t = Inr key \<Longrightarrow> fate \<noteq> Lost \<Longrightarrow> snd (ticket_take z sha fate now t st) = st(key := None)"
  by (cases fate) (auto simp: ticket_take_def split: option.split)

lemma ticket_take_absent: "st key = None \<Longrightarrow> snd (ticket_take z sha fate now t st) key = None"
  by (auto simp: ticket_take_def split: sum.split redis_fate.split option.split)

lemma issue_attempts_absent:
  assumes "\<forall>a \<in> set as. ticket_key sha (generateOpaqueToken (ia_random a)) \<noteq> Inr key"
  shows "st key = None \<Longrightarrow> fst (snd (issue_attempts sha url command now ttl as st db)) key = None"
  using assms
proof (induction as arbitrary: st db)
  case (Cons a as)
  let ?t = "generateOpaqueToken (ia_random a)"
  have put: "st1 key = None"
    if "ticket_put sha (ia_put a) (ia_put_now a) ?t (issue_payload sha command now ttl (ia_ticketId a)) ttl st = (r, st1)"
    for r st1
    using ticket_put_frame [of sha ?t key "ia_put a" "ia_put_now a" "issue_payload sha command now ttl (ia_ticketId a)" ttl st]
      Cons(2,3) that by simp
  have IH: "fst (snd (issue_attempts sha url command now ttl as st1 db')) key = None" if "st1 key = None" for st1 db'
    using Cons(1) that Cons(3) by simp
  show ?case
    using Cons(2) put IH by (auto simp: Let_def ticket_remove_absent split: prod.split sum.split bool.split)
qed simp

lemma consume_store:
  "fst (snd (ticket_consume_with rv z sha env t origin device st db)) =
     snd (ticket_take z sha (ce_take env) (ce_take_now env) t st)"
  by (auto simp: ticket_consume_with_def Let_def split: prod.split sum.split failure.split option.split)

lemma consume_absent:
  assumes "ticket_key sha t = Inr key" "st key = None"
  shows "fst (ticket_consume_with rv z sha env t origin device st db) =
    (if ce_take env = Answered then Inl invalidTicket else Inl admissionUnavailable)"
  using assms
  by (cases "ce_take env")
    (auto simp: ticket_consume_with_def ticket_take_def store_live_def redis_fault_def Let_def)

section \<open>Histories\<close>

datatype ticket_event =
    Issue "nat \<Rightarrow> issue_attempt" instant issue_ticket
  | Consume session_env consume_env string string string
  | OtherWrites "database \<Rightarrow> database"

record ticket_world =
  tw_zod :: zod
  tw_sha256hex :: "string \<Rightarrow> string"
  tw_meetings :: meetings_config
  tw_realtime :: realtime_config
  tw_url :: string

fun ticket_step :: "ticket_world \<Rightarrow> ticket_store \<times> database \<Rightarrow> ticket_event \<Rightarrow> ticket_store \<times> database" where
  "ticket_step w (st, db) (Issue attempts now command) =
     snd (ticket_issue (tw_sha256hex w) (tw_realtime w) (tw_url w) attempts now command st db)"
| "ticket_step w (st, db) (Consume senv env ticket origin device) =
     snd (ticket_consume_use (tw_zod w) (tw_meetings w) (tw_sha256hex w) senv env ticket origin device st db)"
| "ticket_step w (st, db) (OtherWrites f) = (st, f db)"

text \<open>The random source draws a ticket of the same digest.\<close>

fun redraws :: "ticket_world \<Rightarrow> string \<Rightarrow> ticket_event \<Rightarrow> bool" where
  "redraws w ticket (Issue attempts now command) =
     list_ex (\<lambda>n. tw_sha256hex w (generateOpaqueToken (ia_random (attempts n))) = tw_sha256hex w ticket)
       [0..<MAX_COLLISION_ATTEMPTS]"
| "redraws w ticket _ = False"

interpretation spent: stepwise_invariant "ticket_step w" "\<lambda>_ e. \<not> redraws w ticket e"
  "\<lambda>s. \<forall>key. ticket_key (tw_sha256hex w) ticket = Inr key \<longrightarrow> fst s key = None"
proof
  fix s :: "ticket_store \<times> database" and e
  assume absent: "\<forall>key. ticket_key (tw_sha256hex w) ticket = Inr key \<longrightarrow> fst s key = None"
    and fresh: "\<not> redraws w ticket e"
  obtain st db where s: "s = (st, db)" by (cases s)
  show "\<forall>key. ticket_key (tw_sha256hex w) ticket = Inr key \<longrightarrow> fst (ticket_step w s e) key = None"
  proof (intro allI impI)
    fix key assume key: "ticket_key (tw_sha256hex w) ticket = Inr key"
    with absent s have none: "st key = None" by simp
    show "fst (ticket_step w s e) key = None"
    proof (cases e)
      case (Issue attempts now command)
      have "ticket_key (tw_sha256hex w) (generateOpaqueToken (ia_random a)) \<noteq> Inr key"
        if "a \<in> set (map attempts [0..<MAX_COLLISION_ATTEMPTS])" for a
        using that fresh ticket_key_inject [OF _ key] by (auto simp: Issue list_ex_iff)
      then show ?thesis using issue_attempts_absent none
        by (auto simp: s Issue ticket_issue_def Let_def)
    next
      case (Consume senv env t origin device)
      then show ?thesis
        using ticket_take_absent [of st key, OF none] by (simp add: s ticket_consume_use_def consume_store)
    qed (simp add: s none)
  qed
qed

lemma enabled_history_all:
  "list_all P es \<Longrightarrow> (\<And>s e. P e \<Longrightarrow> en s e) \<Longrightarrow> enabled_history step en s es"
  by (induction es arbitrary: s) auto

text \<open>C15. A realtime ticket works at most once: once a consumption of it has reached Redis, whatever came of
  that consumption, every later one is refused, after any history of issuing, consuming and other writes in
  which the random source does not draw a ticket of the same digest again. A consumption that fails because
  of the wrong origin or device also burns the ticket.\<close>

theorem ticket_single_use:
  assumes "ticket_consume_use (tw_zod w) (tw_meetings w) (tw_sha256hex w) senv env ticket origin device st db =
      (r, st1, db1)" and "ce_take env \<noteq> Lost"
    and "list_all (\<lambda>e. \<not> redraws w ticket e) es" and "foldl (ticket_step w) (st1, db1) es = (st2, db2)"
    and "BASE64URL_256 ticket" and "sha256_hex (tw_sha256hex w ticket)"
  shows "fst (ticket_consume_use (tw_zod w) (tw_meetings w) (tw_sha256hex w) senv' env' ticket origin' device' st2 db2) =
    (if ce_take env' = Answered then Inl invalidTicket else Inl admissionUnavailable)"
proof -
  obtain key where key: "ticket_key (tw_sha256hex w) ticket = Inr key"
    using ticket_key_defined [of ticket "tw_sha256hex w"] assms(5,6) by blast
  have "st1 = snd (ticket_take (tw_zod w) (tw_sha256hex w) (ce_take env) (ce_take_now env) ticket st)"
    using consume_store [of "use_case_revalidate (tw_zod w) (tw_meetings w) senv" "tw_zod w" "tw_sha256hex w" env ticket
        origin device st db] assms(1) by (simp add: ticket_consume_use_def)
  then have "st1 key = None" using ticket_take_clears [OF key assms(2)] by simp
  then have "\<forall>k. ticket_key (tw_sha256hex w) ticket = Inr k \<longrightarrow> fst (st1, db1) k = None" using key by simp
  moreover have "enabled_history (ticket_step w) (\<lambda>_ e. \<not> redraws w ticket e) (st1, db1) es"
    using assms(3) by (rule enabled_history_all)
  ultimately have "st2 key = None"
    using spent.history_keeps [of w ticket "(st1, db1)" es] key assms(4) by simp
  then show ?thesis unfolding ticket_consume_use_def by (rule consume_absent [OF key])
qed
section \<open>An issued ticket admits its holder\<close>

lemma count_where_update:
  "(\<And>r. Q r \<Longrightarrow> P (f r) = P r) \<Longrightarrow> count_where P (update_where Q f rows) = count_where P rows"
  unfolding count_where_def update_where_def by (induction rows) auto

lemma audit_result_simps [simp]:
  "ta_ticket_id (audit_result now code consumed r) = ta_ticket_id r"
  "ta_result_code (audit_result now code consumed r) = Some code"
  "ta_issued_at (audit_result now code consumed r) = ta_issued_at r"
  "ta_consumed_at (audit_result now code consumed r) = (if consumed then Some now else ta_consumed_at r)"
  by (simp_all add: audit_result_def)

lemma audit_markResult_Inr:
  assumes "audit_markResult now t code consumed db = Inr (u, db')"
  shows "count_where (\<lambda>r. ta_ticket_id r = t) (ticket_audits db') = 1 \<and>
    (\<forall>r \<in> set (ticket_audits db'). ta_ticket_id r = t \<longrightarrow> ticket_audit_checks r \<and> ta_result_code r = Some code) \<and>
    (\<exists>rows. db' = db\<lparr>ticket_audits := rows\<rparr>)"
proof -
  let ?rows = "update_where (\<lambda>r. ta_ticket_id r = t) (audit_result now code consumed) (ticket_audits db)"
  have m: "db' = db\<lparr>ticket_audits := ?rows\<rparr>" "count_where (\<lambda>r. ta_ticket_id r = t) (ticket_audits db) = 1"
    "\<forall>r \<in> set ?rows. ta_ticket_id r = t \<longrightarrow> ticket_audit_checks r"
    using assms by (auto simp: audit_markResult_def Let_def and_then_Inr_iff list_ex_iff split: if_splits)
  moreover have "\<forall>r \<in> set ?rows. ta_ticket_id r = t \<longrightarrow> ta_result_code r = Some code"
  proof (intro ballI impI)
    fix r assume "r \<in> set ?rows" "ta_ticket_id r = t"
    then obtain q where "r = audit_result now code consumed q" unfolding mem_update_where by blast
    then show "ta_result_code r = Some code" by simp
  qed
  moreover have "count_where (\<lambda>r. ta_ticket_id r = t) ?rows = 1" using m(2) by (simp add: count_where_update)
  ultimately show ?thesis by (intro conjI) (simp, simp, blast)
qed

text \<open>What an issued ticket leaves behind: the payload under its digest, and exactly one audit row.\<close>

lemma issue_attempts_Inr:
  assumes "issue_attempts sha url command now ttl as st db = (Inr issued, st', db')"
  obtains a key where "a \<in> set as" "is_ticket issued = generateOpaqueToken (ia_random a)"
    "ticket_key sha (is_ticket issued) = Inr key"
    "st' = st(key \<mapsto> (Some (payload_json (issue_payload sha command now ttl (ia_ticketId a))), ia_put_now a + ttl))"
    "\<not> store_live (ia_put_now a) key st"
    "count_where (\<lambda>r. ta_ticket_id r = ia_ticketId a) (ticket_audits db') = 1"
    "\<forall>r \<in> set (ticket_audits db'). ta_ticket_id r = ia_ticketId a \<longrightarrow> ticket_audit_checks r \<and> ta_result_code r = Some ''issued''"
  using assms
proof (induction as arbitrary: st db)
  case (Cons a as)
  let ?t = "generateOpaqueToken (ia_random a)" and ?p = "issue_payload sha command now ttl (ia_ticketId a)"
  obtain rr db1 where rec: "in_transaction (ia_record a) (recordIssue (ia_auditId a) (ia_record_now a) (ia_ticketId a)
      (pr_sessionId (it_principal command)) (now + ttl)) db = (rr, db1)" by (metis surj_pair)
  obtain pr st1 where put: "ticket_put sha (ia_put a) (ia_put_now a) ?t ?p ttl st = (pr, st1)" by (metis surj_pair)
  from Cons(3) rec put obtain stored where ok: "isl rr = False" "pr = Inr stored"
    by (cases rr; cases pr) (auto simp: Let_def)
  from put ok(2) obtain key where key: "ticket_key sha ?t = Inr key" "stored = (\<not> store_live (ia_put_now a) key st)"
    "st1 = (if stored then st(key \<mapsto> (Some (payload_json ?p), ia_put_now a + ttl)) else st)"
    by (auto simp: ticket_put_def Let_def split: sum.splits redis_fate.splits)
  obtain code where code: "code = (if stored then ''issued'' else ''digest_collision'')" by blast
  obtain mr db2 where mark: "in_transaction (ia_mark a) (audit_markResult (ia_mark_now a) (ia_ticketId a) code False) db1 = (mr, db2)"
    by (metis surj_pair)
  from Cons(3) rec put ok mark code have mr: "isl mr = False"
    by (cases mr; cases rr; cases stored) (auto simp: Let_def)
  show ?case
  proof (cases stored)
    case True
    have res: "is_ticket issued = ?t" "st' = st1" "db' = db2"
      using Cons(3) rec put ok mark mr code True by (cases mr; cases rr; auto simp: Let_def)+
    from mark mr obtain u where "in_transaction (ia_mark a) (audit_markResult (ia_mark_now a) (ia_ticketId a) code False) db1 =
        (Inr u, db2)" by (cases mr) auto
    note audit = audit_markResult_Inr [OF in_transaction_Inr [OF this]]
    show ?thesis
      by (rule Cons(2) [of a key]) (use res key True audit code in auto)
  next
    case False
    have "issue_attempts sha url command now ttl as st db2 = (Inr issued, st', db')"
      using Cons(3) rec put ok mark mr code False key(3) by (cases mr; cases rr; auto simp: Let_def)
    then show ?thesis using Cons(1) [of st db2] Cons(2) by (metis list.set_intros(2))
  qed
qed simp
lemma payload_schema:
  assumes "z_uuid z (tp_ticketId p)" "z_uuid z (tp_commandId p)" "z_uuid z (tp_sessionId p)"
    "z_uuid z (tp_participantId p)" "z_uuid z (tp_meetingId p)" "z_url z (tp_origin p)"
    "length (tp_origin p) \<le> 2048" "sha256_hex (tp_deviceBindingDigest p)" "0 \<le> tp_issuedAtMs p" "0 < tp_expiresAtMs p"
  shows "ticketPayloadSchema z (payload_json p) = Some p"
  using assms
  by (simp add: ticketPayloadSchema_def payload_json_def string_field_def field_def strict_keys_def ticket_keys_def)

lemma audit_markResult_unique:
  assumes "count_where (\<lambda>r. ta_ticket_id r = t) (ticket_audits db) = 1"
    and "\<forall>r \<in> set (ticket_audits db). ta_ticket_id r = t \<longrightarrow> ticket_audit_checks r"
    and "\<forall>r \<in> set (ticket_audits db). ta_issued_at r \<le> now" and "1 \<le> length code" "length code \<le> 64"
  shows "audit_markResult now t code True db = Inr ((),
    db\<lparr>ticket_audits := update_where (\<lambda>r. ta_ticket_id r = t) (audit_result now code True) (ticket_audits db)\<rparr>)"
proof -
  have "ticket_audit_checks r"
    if r: "r \<in> set (update_where (\<lambda>r. ta_ticket_id r = t) (audit_result now code True) (ticket_audits db))" "ta_ticket_id r = t" for r
  proof -
    from r obtain q where q: "q \<in> set (ticket_audits db)" "ta_ticket_id q = t" "r = audit_result now code True q"
      unfolding mem_update_where by blast
    then have "ticket_audit_checks q" "ta_issued_at q \<le> now" using assms(2,3) by blast+
    then show ?thesis using assms(4,5) by (simp add: q(3) audit_result_def ticket_audit_checks_def)
  qed
  then have "\<not> list_ex (\<lambda>r. ta_ticket_id r = t \<and> \<not> ticket_audit_checks r)
      (update_where (\<lambda>r. ta_ticket_id r = t) (audit_result now code True) (ticket_audits db))"
    by (auto simp only: list_ex_iff)
  then show ?thesis using assms(1) by (simp only: audit_markResult_def Let_def if_False ensure_simps and_then_simps simp_thms)
qed


section \<open>A ticket issued and consumed\<close>

definition sample_attempt :: "nat \<Rightarrow> issue_attempt" where
  "sample_attempt n = \<lparr>ia_random = replicate 32 (of_nat n), ia_ticketId = ''0190a1b2-c3d4-7abc-8def-0000000007a1'',
     ia_auditId = ''0190a1b2-c3d4-7abc-8def-0000000007a2'', ia_record_now = 1001, ia_record = quiet,
     ia_put_now = 1002, ia_put = Answered, ia_mark_now = 1003, ia_mark = quiet, ia_remove = Answered\<rparr>"

definition sample_hex :: "string \<Rightarrow> string" where
  "sample_hex s = replicate 64 (CHR ''a'')"

definition sample_issue :: issue_ticket where
  "sample_issue = \<lparr>it_commandId = ''0190a1b2-c3d4-7abc-8def-0000000007c1'', it_principal = sample_principal,
     it_origin = ''https://app.example'', it_deviceBinding = replicate 43 (CHR ''C'')\<rparr>"

definition sample_consume_env :: "instant \<Rightarrow> consume_env" where
  "sample_consume_env t = \<lparr>ce_take_now = t, ce_take = Answered, ce_now = t, ce_mark_now = t, ce_mark = quiet\<rparr>"

definition sample_world :: ticket_world where
  "sample_world = \<lparr>tw_zod = strict_zod, tw_sha256hex = sample_hex, tw_meetings = sample_meetings_config,
     tw_realtime = sample_realtime, tw_url = ''wss://rt.example''\<rparr>"

definition sample_issued :: "issued_ticket outcome \<times> ticket_store \<times> database" where
  "sample_issued = ticket_issue sample_hex sample_realtime ''wss://rt.example'' sample_attempt 1000 sample_issue
     (\<lambda>_. None) sample_db"

definition sample_revalidated :: "principal outcome \<times> database" where
  "sample_revalidated = use_case_revalidate strict_zod sample_meetings_config (sample_session_env 2000)
     \<lparr>si_sessionId = pr_sessionId (it_principal sample_issue), si_participantId = pr_participantId (it_principal sample_issue),
      si_meetingId = pr_meetingId (it_principal sample_issue)\<rparr> (snd (snd sample_issued))"

lemma outcome_pair_of_eval: "\<not> isl (fst x) \<Longrightarrow> x = (Inr (projr (fst x)), snd x)"
  by (cases x) auto

lemma sample_issued_evaluated:
  "ticket_issue sample_hex sample_realtime ''wss://rt.example'' sample_attempt 1000 sample_issue (\<lambda>_. None) sample_db =
     (Inr (projr (fst sample_issued)), fst (snd sample_issued), snd (snd sample_issued))"
proof -
  have "\<not> isl (fst sample_issued)" by code_simp
  from outcome_pair_of_eval [OF this] show ?thesis unfolding sample_issued_def by (metis prod.collapse)
qed


definition sample_consumed :: "principal outcome \<times> ticket_store \<times> database" where
  "sample_consumed = ticket_consume_use strict_zod sample_meetings_config sample_hex (sample_session_env 2000)
     (sample_consume_env 2000) (is_ticket (projr (fst sample_issued))) ''https://app.example''
     (replicate 43 (CHR ''C'')) (fst (snd sample_issued)) (snd (snd sample_issued))"

theorem ticket_single_use_witness:
  "\<not> isl (fst sample_consumed) \<and>
   fst (ticket_consume_use strict_zod sample_meetings_config sample_hex (sample_session_env 3000)
     (sample_consume_env 3000) (is_ticket (projr (fst sample_issued))) ''https://app.example''
     (replicate 43 (CHR ''C'')) (fst (snd sample_consumed)) (snd (snd sample_consumed))) = Inl invalidTicket"
proof -
  have first: "\<not> isl (fst sample_consumed)" by code_simp
  have format: "BASE64URL_256 (is_ticket (projr (fst sample_issued)))" by code_simp
  have hex: "sha256_hex (tw_sha256hex sample_world (is_ticket (projr (fst sample_issued))))" by code_simp
  have run: "ticket_consume_use (tw_zod sample_world) (tw_meetings sample_world) (tw_sha256hex sample_world)
      (sample_session_env 2000) (sample_consume_env 2000) (is_ticket (projr (fst sample_issued))) ''https://app.example''
      (replicate 43 (CHR ''C'')) (fst (snd sample_issued)) (snd (snd sample_issued)) =
      (fst sample_consumed, fst (snd sample_consumed), snd (snd sample_consumed))"
    by (simp add: sample_world_def sample_consumed_def)
  from ticket_single_use [OF run _ _ _ format hex, of "[]" "fst (snd sample_consumed)" "snd (snd sample_consumed)"
      "sample_session_env 3000" "sample_consume_env 3000"] first
  show ?thesis by (simp add: sample_consume_env_def sample_world_def)
qed

end
