(* ===== verification/Presence.thy ===== *)
theory Presence
  imports Tickets "HOL-Library.AList"
begin

text \<open>
  Presence in Redis (\<open>modules/presence\<close>): three keys per meeting, a sorted set of connections by the end of
  their presence, a hash of their details and a revision, and the four scripts over them. A script runs at
  one reading of the Redis clock. The last part relates the keys to what they mean: the connections that are
  present, each with its deadline and its details.
\<close>

section \<open>The keys of a meeting\<close>

record presence_keys =
  pk_connections :: "(string \<times> instant) list"
  pk_connections_expiry :: "instant option"
  pk_details :: "(string \<times> json) list"
  pk_details_expiry :: "instant option"
  pk_revision :: "int option"
  pk_revision_expiry :: "instant option"

definition no_presence :: presence_keys where
  "no_presence = \<lparr>pk_connections = [], pk_connections_expiry = None, pk_details = [], pk_details_expiry = None,
     pk_revision = None, pk_revision_expiry = None\<rparr>"

definition key_gone :: "instant \<Rightarrow> instant option \<Rightarrow> bool" where
  "key_gone now expiry = (case expiry of None \<Rightarrow> False | Some e \<Rightarrow> e \<le> now)"

text \<open>A key whose time to live has ended, or whose collection is empty, does not exist.\<close>

definition unexpired :: "instant \<Rightarrow> presence_keys \<Rightarrow> presence_keys" where
  "unexpired now k = k\<lparr>
     pk_connections := (if key_gone now (pk_connections_expiry k) then [] else pk_connections k),
     pk_details := (if key_gone now (pk_details_expiry k) then [] else pk_details k),
     pk_revision := (if key_gone now (pk_revision_expiry k) then None else pk_revision k),
     pk_connections_expiry := (if key_gone now (pk_connections_expiry k) then None else pk_connections_expiry k),
     pk_details_expiry := (if key_gone now (pk_details_expiry k) then None else pk_details_expiry k),
     pk_revision_expiry := (if key_gone now (pk_revision_expiry k) then None else pk_revision_expiry k)\<rparr>"

definition without_empty :: "presence_keys \<Rightarrow> presence_keys" where
  "without_empty k = k\<lparr>
     pk_connections_expiry := (if pk_connections k = [] then None else pk_connections_expiry k),
     pk_details_expiry := (if pk_details k = [] then None else pk_details_expiry k)\<rparr>"

definition drop_keys :: "string set \<Rightarrow> (string \<times> 'v) list \<Rightarrow> (string \<times> 'v) list" where
  "drop_keys ks al = filter (\<lambda>(i, _). i \<notin> ks) al"

definition by_score :: "(string \<times> instant) list \<Rightarrow> (string \<times> instant) list" where
  "by_score = sort_key (\<lambda>(i, score). (score, i))"

definition PURGE_BATCH_SIZE :: nat where "PURGE_BATCH_SIZE = 500"

text \<open>\<open>ZRANGEBYSCORE -inf now LIMIT 0 n\<close>, \<open>ZREM\<close> and \<open>HDEL\<close>; whether anything was stale.\<close>

definition purge :: "instant \<Rightarrow> nat \<Rightarrow> presence_keys \<Rightarrow> bool \<times> presence_keys" where
  "purge now n k =
     (let stale = map fst (take n (by_score (filter (\<lambda>(_, score). score \<le> now) (pk_connections k))))
      in (stale \<noteq> [],
          without_empty (k\<lparr>pk_connections := drop_keys (set stale) (pk_connections k),
            pk_details := drop_keys (set stale) (pk_details k)\<rparr>)))"

definition current_revision :: "presence_keys \<Rightarrow> int" where
  "current_revision k = (case pk_revision k of None \<Rightarrow> 0 | Some r \<Rightarrow> r)"

definition incr_revision :: "presence_keys \<Rightarrow> presence_keys" where
  "incr_revision k = k\<lparr>pk_revision := Some (current_revision k + 1)\<rparr>"

definition retain_all :: "instant \<Rightarrow> presence_keys \<Rightarrow> presence_keys" where
  "retain_all e k = k\<lparr>pk_connections_expiry := Some e, pk_details_expiry := Some e, pk_revision_expiry := Some e\<rparr>"

section \<open>The scripts\<close>

definition OPEN_PRESENCE_SCRIPT :: "instant \<Rightarrow> int \<Rightarrow> string \<Rightarrow> json \<Rightarrow> presence_keys \<Rightarrow> int \<times> presence_keys" where
  "OPEN_PRESENCE_SCRIPT now ttl connectionId details k =
     (let k1 = snd (purge now PURGE_BATCH_SIZE (unexpired now k));
          k2 = k1\<lparr>pk_connections := AList.update connectionId (now + ttl) (pk_connections k1),
                  pk_details := AList.update connectionId details (pk_details k1)\<rparr>;
          k3 = incr_revision k2
      in (current_revision k3, retain_all (now + ttl * 2) k3))"

definition HEARTBEAT_PRESENCE_SCRIPT ::
  "instant \<Rightarrow> int \<Rightarrow> string \<Rightarrow> presence_keys \<Rightarrow> (int \<times> bool \<times> bool) \<times> presence_keys" where
  "HEARTBEAT_PRESENCE_SCRIPT now ttl connectionId k =
     (case purge now PURGE_BATCH_SIZE (unexpired now k) of (stale, k1) \<Rightarrow>
      let k2 = (if stale then incr_revision k1 else k1)
      in if map_of (pk_details k2) connectionId = None then ((current_revision k2, stale, False), k2)
         else
           let k3 = k2\<lparr>pk_connections := AList.update connectionId (now + ttl) (pk_connections k2)\<rparr>;
               missing = (pk_revision k3 = None);
               k4 = (if missing then incr_revision k3 else k3)
           in ((current_revision k4, stale \<or> missing, True), retain_all (now + ttl * 2) k4))"

definition CLOSE_PRESENCE_SCRIPT :: "instant \<Rightarrow> int \<Rightarrow> string \<Rightarrow> presence_keys \<Rightarrow> int \<times> presence_keys" where
  "CLOSE_PRESENCE_SCRIPT now ttl connectionId k0 =
     (let k = unexpired now k0; removed = (map_of (pk_connections k) connectionId \<noteq> None);
          k1 = without_empty (k\<lparr>pk_connections := drop_keys {connectionId} (pk_connections k),
                 pk_details := drop_keys {connectionId} (pk_details k)\<rparr>)
      in if \<not> removed then (current_revision k1, k1)
         else (current_revision k1 + 1, (incr_revision k1)\<lparr>pk_revision_expiry := Some (now + ttl * 2)\<rparr>))"

definition SNAPSHOT_PRESENCE_SCRIPT ::
  "instant \<Rightarrow> nat \<Rightarrow> presence_keys \<Rightarrow> (int \<times> nat \<times> bool \<times> json list) \<times> presence_keys" where
  "SNAPSHOT_PRESENCE_SCRIPT now limit k =
     (case purge now PURGE_BATCH_SIZE (unexpired now k) of (stale, k1) \<Rightarrow>
      let k2 = (if stale then incr_revision k1 else k1);
          fresh = filter (\<lambda>(_, score). now < score) (pk_connections k2);
          ids = map fst (take limit (by_score fresh))
      in ((current_revision k2, length fresh, stale, List.map_filter (map_of (pk_details k2)) ids), k2))"

section \<open>What the keys mean\<close>

text \<open>The connections present at an instant, with deadline and details.\<close>

definition present_at :: "instant \<Rightarrow> presence_keys \<Rightarrow> string \<Rightarrow> (instant \<times> json) option" where
  "present_at now k i =
     (case map_of (pk_connections k) i of
       None \<Rightarrow> None
     | Some score \<Rightarrow> if now < score then map_option (\<lambda>d. (score, d)) (map_of (pk_details k) i) else None)"

lemma present_at_cong:
  "pk_connections k = pk_connections k' \<Longrightarrow> pk_details k = pk_details k' \<Longrightarrow> present_at now k = present_at now k'"
  by (rule ext) (simp add: present_at_def split: option.split)

text \<open>Every connection has details and the other way round; scores lie within the time to live of the last
  refresh, which the keys outlive.\<close>

definition presence_inv :: "int \<Rightarrow> instant \<Rightarrow> presence_keys \<Rightarrow> bool" where
  "presence_inv ttl now k =
     (distinct (map fst (pk_connections k)) \<and> distinct (map fst (pk_details k)) \<and>
      fst ` set (pk_connections k) = fst ` set (pk_details k) \<and>
      pk_details_expiry k = pk_connections_expiry k \<and>
      (pk_connections k \<noteq> [] \<longrightarrow> pk_connections_expiry k \<noteq> None) \<and>
      list_all (\<lambda>(_, score). score \<le> now + ttl \<and> (case pk_connections_expiry k of None \<Rightarrow> True | Some e \<Rightarrow> score \<le> e))
        (pk_connections k))"

lemma presence_inv_later: "presence_inv ttl t k \<Longrightarrow> t \<le> now \<Longrightarrow> presence_inv ttl now k"
  by (auto simp: presence_inv_def list_all_iff)

lemma no_presence_inv: "presence_inv ttl now no_presence"
  by (simp add: presence_inv_def no_presence_def)

lemma map_of_drop_keys [simp]: "map_of (drop_keys ks al) i = (if i \<in> ks then None else map_of al i)"
  unfolding drop_keys_def by (induction al) auto

lemma keys_drop_keys [simp]: "fst ` set (drop_keys ks al) = fst ` set al - ks"
  unfolding drop_keys_def by force

lemma distinct_drop_keys [simp]: "distinct (map fst al) \<Longrightarrow> distinct (map fst (drop_keys ks al))"
  unfolding drop_keys_def by (rule distinct_map_filterI)

lemma set_drop_keys: "set (drop_keys ks al) \<subseteq> set al"
  unfolding drop_keys_def by auto

lemma drop_keys_Nil: "drop_keys ks al = [] \<longleftrightarrow> fst ` set al \<subseteq> ks"
  by (auto simp: drop_keys_def filter_empty_conv)

lemma set_by_score [simp]: "set (by_score cs) = set cs" "length (by_score cs) = length cs"
  by (simp_all add: by_score_def)

lemma unexpired_inv: "presence_inv ttl now k \<Longrightarrow> presence_inv ttl now (unexpired now k)"
  by (auto simp: presence_inv_def unexpired_def)

lemma present_unexpired:
  assumes "presence_inv ttl now k"
  shows "present_at now (unexpired now k) = present_at now k"
proof
  fix i
  show "present_at now (unexpired now k) i = present_at now k i"
  proof (cases "key_gone now (pk_connections_expiry k)")
    case True
    then obtain e where e: "pk_connections_expiry k = Some e" "e \<le> now" by (auto simp: key_gone_def split: option.splits)
    have "present_at now k i = None"
    proof (cases "map_of (pk_connections k) i")
      case (Some score)
      then have "(i, score) \<in> set (pk_connections k)" by (rule map_of_SomeD)
      with assms e have "score \<le> now" by (force simp: presence_inv_def list_all_iff)
      with Some show ?thesis by (simp add: present_at_def)
    qed (simp add: present_at_def)
    with True show ?thesis by (simp add: present_at_def unexpired_def)
  next
    case False
    moreover from assms False have "\<not> key_gone now (pk_details_expiry k)" by (simp add: presence_inv_def)
    ultimately show ?thesis by (simp add: present_at_def unexpired_def split: option.split)
  qed
qed

lemma stale_members:
  assumes "distinct (map fst cs)" "i \<in> fst ` set (take n (by_score (filter (\<lambda>(_, score). score \<le> now) cs)))"
  shows "\<exists>score. map_of cs i = Some score \<and> score \<le> (now :: instant)"
proof -
  from assms(2) obtain score where "(i, score) \<in> set (take n (by_score (filter (\<lambda>(_, score). score \<le> now) cs)))" by auto
  then have "(i, score) \<in> set cs" "score \<le> now" by (auto dest!: in_set_takeD)
  with assms(1) show ?thesis by auto
qed

lemma drop_inv:
  assumes "presence_inv ttl now k"
  shows "presence_inv ttl now (without_empty (k\<lparr>pk_connections := drop_keys ks (pk_connections k),
    pk_details := drop_keys ks (pk_details k)\<rparr>))"
proof -
  have "drop_keys ks (pk_connections k) = [] \<longleftrightarrow> drop_keys ks (pk_details k) = []"
    using assms by (simp add: drop_keys_Nil presence_inv_def)
  with assms set_drop_keys [of ks "pk_connections k"] show ?thesis
    by (auto simp: presence_inv_def without_empty_def list_all_iff)
qed

lemma present_without_empty [simp]: "present_at now (without_empty k) = present_at now k"
  by (rule present_at_cong) (simp_all add: without_empty_def)

lemma present_drop:
  "present_at now (k\<lparr>pk_connections := drop_keys ks (pk_connections k), pk_details := drop_keys ks (pk_details k)\<rparr>) i =
     (if i \<in> ks then None else present_at now k i)"
  unfolding present_at_def by (auto split: option.split)

lemma purge_inv: "presence_inv ttl now k \<Longrightarrow> presence_inv ttl now (snd (purge now n k))"
  by (simp add: purge_def Let_def drop_inv)

lemma present_purge:
  assumes "presence_inv ttl now k"
  shows "present_at now (snd (purge now n k)) = present_at now k"
proof
  fix i
  have "distinct (map fst (pk_connections k))" using assms by (simp add: presence_inv_def)
  note stale = stale_members [OF this, of i n now]
  let ?stale = "fst ` set (take n (by_score (filter (\<lambda>(_, score). score \<le> now) (pk_connections k))))"
  show "present_at now (snd (purge now n k)) i = present_at now k i"
  proof (cases "i \<in> ?stale")
    case True
    with stale show ?thesis by (auto simp: purge_def Let_def present_drop) (auto simp: present_at_def)
  next
    case False
    then show ?thesis by (simp add: purge_def Let_def present_drop)
  qed
qed

lemma present_incr [simp]: "present_at now (incr_revision k) = present_at now k"
  by (rule present_at_cong) (simp_all add: incr_revision_def)

lemma incr_inv [simp]: "presence_inv ttl now (incr_revision k) = presence_inv ttl now k"
  by (simp add: presence_inv_def incr_revision_def)

lemma present_retain [simp]: "present_at now (retain_all e k) = present_at now k"
  by (rule present_at_cong) (simp_all add: retain_all_def)

lemma retain_inv: "presence_inv ttl now k \<Longrightarrow> 0 \<le> ttl \<Longrightarrow> presence_inv ttl now (retain_all (now + ttl * 2) k)"
  by (force simp: presence_inv_def retain_all_def list_all_iff)

lemma set_update_subset: "set (AList.update i v al) \<subseteq> insert (i, v) (set al)"
  by (induction al) auto

lemma refresh_inv:
  assumes "presence_inv ttl now k" and "0 \<le> ttl"
    and "fst ` set cs = insert i (fst ` set (pk_connections k))" and "fst ` set ds = insert i (fst ` set (pk_details k))"
    and "distinct (map fst cs)" and "distinct (map fst ds)" and "set cs \<subseteq> insert (i, now + ttl) (set (pk_connections k))"
  shows "presence_inv ttl now (retain_all (now + ttl * 2) (k\<lparr>pk_connections := cs, pk_details := ds, pk_revision := r\<rparr>))"
proof -
  have "score \<le> now + ttl" if "(j, score) \<in> set cs" for j score
    using that assms(1,7) by (force simp: presence_inv_def list_all_iff)
  with assms show ?thesis by (force simp: presence_inv_def retain_all_def list_all_iff)
qed

lemma purged:
  assumes "presence_inv ttl now k"
  obtains stale k1 where "purge now n (unexpired now k) = (stale, k1)" "presence_inv ttl now k1"
    "present_at now k1 = present_at now k"
proof -
  obtain stale k1 where p: "purge now n (unexpired now k) = (stale, k1)" by (cases "purge now n (unexpired now k)")
  show thesis
    using that [OF p] purge_inv [OF unexpired_inv [OF assms], of n] present_purge [OF unexpired_inv [OF assms], of n]
      present_unexpired [OF assms] by (simp add: p)
qed

lemma open_refines:
  assumes "presence_inv ttl now k" and "0 < ttl"
  shows "presence_inv ttl now (snd (OPEN_PRESENCE_SCRIPT now ttl i d k)) \<and>
    present_at now (snd (OPEN_PRESENCE_SCRIPT now ttl i d k)) = (present_at now k)(i \<mapsto> (now + ttl, d))"
proof -
  obtain stale k1 where p: "purge now PURGE_BATCH_SIZE (unexpired now k) = (stale, k1)" and inv: "presence_inv ttl now k1"
    and same: "present_at now k1 = present_at now k" by (rule purged [OF assms(1)])
  let ?k = "retain_all (now + ttl * 2) (k1\<lparr>pk_connections := AList.update i (now + ttl) (pk_connections k1),
      pk_details := AList.update i d (pk_details k1), pk_revision := Some (current_revision k1 + 1)\<rparr>)"
  have "snd (OPEN_PRESENCE_SCRIPT now ttl i d k) = ?k"
    by (simp add: OPEN_PRESENCE_SCRIPT_def p Let_def incr_revision_def current_revision_def)
  moreover have "presence_inv ttl now ?k"
    using inv assms(2) by (intro refresh_inv [where i = i] set_update_subset) (auto simp: dom_update distinct_update presence_inv_def)
  moreover have "present_at now ?k j = ((present_at now k)(i \<mapsto> (now + ttl, d))) j" for j
    using assms(2) by (simp add: same [symmetric] present_at_def retain_all_def update_conv' split: option.split)
  ultimately show ?thesis by auto
qed

lemma heartbeat_refines:
  assumes "presence_inv ttl now k" and "0 < ttl"
  shows "presence_inv ttl now (snd (HEARTBEAT_PRESENCE_SCRIPT now ttl i k)) \<and>
    (case fst (HEARTBEAT_PRESENCE_SCRIPT now ttl i k) of (_, _, present) \<Rightarrow>
      if present then \<exists>d. present_at now (snd (HEARTBEAT_PRESENCE_SCRIPT now ttl i k)) = (present_at now k)(i \<mapsto> (now + ttl, d)) \<and>
        (\<forall>t d'. present_at now k i = Some (t, d') \<longrightarrow> d = d')
      else present_at now (snd (HEARTBEAT_PRESENCE_SCRIPT now ttl i k)) = present_at now k \<and> present_at now k i = None)"
proof -
  obtain stale k1 where p: "purge now PURGE_BATCH_SIZE (unexpired now k) = (stale, k1)" and inv1: "presence_inv ttl now k1"
    and same1: "present_at now k1 = present_at now k" by (rule purged [OF assms(1)])
  define k2 where "k2 = (if stale then incr_revision k1 else k1)"
  have inv: "presence_inv ttl now k2" and same: "present_at now k2 = present_at now k"
    using inv1 same1 by (simp_all add: k2_def)
  show ?thesis
  proof (cases "map_of (pk_details k2) i")
    case None
    then have "present_at now k i = None" by (simp add: same [symmetric] present_at_def split: option.split)
    moreover have "HEARTBEAT_PRESENCE_SCRIPT now ttl i k = ((current_revision k2, stale, False), k2)"
      using None by (simp add: HEARTBEAT_PRESENCE_SCRIPT_def p k2_def Let_def)
    ultimately show ?thesis using inv same by simp
  next
    case (Some d)
    let ?cs = "AList.update i (now + ttl) (pk_connections k2)"
    have member: "i \<in> fst ` set (pk_details k2)" using Some by (force dest: map_of_SomeD)
    define r where "r = (if pk_revision k2 = None then Some (current_revision k2 + 1) else pk_revision k2)"
    obtain c where h: "HEARTBEAT_PRESENCE_SCRIPT now ttl i k =
        (c, retain_all (now + ttl * 2) (k2\<lparr>pk_connections := ?cs, pk_details := pk_details k2, pk_revision := r\<rparr>))"
      "snd (snd c)"
      using Some
      by (cases "pk_revision k2 = None")
        (simp_all add: HEARTBEAT_PRESENCE_SCRIPT_def p k2_def [symmetric] Let_def incr_revision_def r_def current_revision_def)
    have "presence_inv ttl now (snd (HEARTBEAT_PRESENCE_SCRIPT now ttl i k))"
      using inv assms(2) member unfolding h snd_conv
      by (intro refresh_inv [where i = i] set_update_subset) (auto simp: dom_update distinct_update presence_inv_def insert_absorb)
    moreover have "present_at now (snd (HEARTBEAT_PRESENCE_SCRIPT now ttl i k)) = (present_at now k)(i \<mapsto> (now + ttl, d))"
    proof (rule ext)
      fix j
      show "present_at now (snd (HEARTBEAT_PRESENCE_SCRIPT now ttl i k)) j = ((present_at now k)(i \<mapsto> (now + ttl, d))) j"
        using assms(2) Some unfolding h
        by (simp add: same [symmetric] present_at_def retain_all_def update_conv' split: option.split)
    qed
    moreover have "\<forall>t d'. present_at now k i = Some (t, d') \<longrightarrow> d = d'"
      using Some by (auto simp: same [symmetric] present_at_def split: option.splits if_splits)
    moreover have "case fst (HEARTBEAT_PRESENCE_SCRIPT now ttl i k) of (_, _, present) \<Rightarrow> present"
      using h(2) by (simp add: h(1) split_beta)
    ultimately show ?thesis by (auto simp: split_beta)
  qed
qed

lemma close_refines:
  assumes "presence_inv ttl now k"
  shows "presence_inv ttl now (snd (CLOSE_PRESENCE_SCRIPT now ttl i k)) \<and>
    present_at now (snd (CLOSE_PRESENCE_SCRIPT now ttl i k)) = (present_at now k)(i := None)"
proof -
  let ?k = "unexpired now k"
  let ?k1 = "without_empty (?k\<lparr>pk_connections := drop_keys {i} (pk_connections ?k), pk_details := drop_keys {i} (pk_details ?k)\<rparr>)"
  have inv: "presence_inv ttl now ?k1" by (rule drop_inv [OF unexpired_inv [OF assms]])
  have at: "present_at now ?k1 = (present_at now k)(i := None)"
    by (rule ext) (simp add: present_drop present_unexpired [OF assms])
  have tail: "presence_inv ttl now (k'\<lparr>pk_revision_expiry := e\<rparr>) = presence_inv ttl now k'"
    "present_at now (k'\<lparr>pk_revision_expiry := e\<rparr>) = present_at now k'" for k' e
    by (simp add: presence_inv_def) (rule present_at_cong, simp_all)
  show ?thesis using inv at by (simp add: CLOSE_PRESENCE_SCRIPT_def Let_def tail)
qed

lemma snapshot_refines:
  assumes "presence_inv ttl now k"
  shows "presence_inv ttl now (snd (SNAPSHOT_PRESENCE_SCRIPT now limit k)) \<and>
    present_at now (snd (SNAPSHOT_PRESENCE_SCRIPT now limit k)) = present_at now k \<and>
    (case fst (SNAPSHOT_PRESENCE_SCRIPT now limit k) of (_, connections, _, details) \<Rightarrow>
      connections = card {i. present_at now k i \<noteq> None} \<and>
      (\<exists>ids. distinct ids \<and> details = map (\<lambda>i. snd (the (present_at now k i))) ids \<and>
        set ids \<subseteq> {i. present_at now k i \<noteq> None} \<and> length ids = min limit connections))"
proof -
  obtain stale k1 where p: "purge now PURGE_BATCH_SIZE (unexpired now k) = (stale, k1)" and inv1: "presence_inv ttl now k1"
    and same1: "present_at now k1 = present_at now k" by (rule purged [OF assms(1)])
  define k2 where "k2 = (if stale then incr_revision k1 else k1)"
  have inv: "presence_inv ttl now k2" and same: "present_at now k2 = present_at now k"
    using inv1 same1 by (simp_all add: k2_def)
  let ?fresh = "filter (\<lambda>(_, score). now < score) (pk_connections k2)"
  let ?ids = "map fst (take limit (by_score ?fresh))"
  have d: "distinct (map fst (pk_connections k2))" "fst ` set (pk_connections k2) = fst ` set (pk_details k2)"
    using inv by (simp_all add: presence_inv_def)
  have dom: "i \<in> fst ` set ?fresh \<longleftrightarrow> present_at now k i \<noteq> None" for i
  proof
    assume "i \<in> fst ` set ?fresh"
    then obtain score where s: "(i, score) \<in> set (pk_connections k2)" "now < score" by auto
    with d(2) have "i \<in> fst ` set (pk_details k2)" by force
    then obtain x where "map_of (pk_details k2) i = Some x" by (metis map_of_eq_None_iff not_None_eq)
    with s d(1) show "present_at now k i \<noteq> None" by (simp add: same [symmetric] present_at_def)
  next
    assume "present_at now k i \<noteq> None"
    then obtain score where "map_of (pk_connections k2) i = Some score" "now < score"
      by (auto simp: same [symmetric] present_at_def split: option.splits if_splits)
    then show "i \<in> fst ` set ?fresh" by (force dest: map_of_SomeD)
  qed
  have df: "distinct (map fst ?fresh)" by (rule distinct_map_filterI [OF d(1)])
  have connections: "length ?fresh = card {i. present_at now k i \<noteq> None}"
  proof -
    have "length ?fresh = card (set (map fst ?fresh))" using distinct_card [OF df] by simp
    also have "set (map fst ?fresh) = {i. present_at now k i \<noteq> None}" using dom by auto
    finally show ?thesis .
  qed
  have dids: "distinct ?ids"
  proof -
    have "distinct (map fst (by_score ?fresh))" using df by (simp add: by_score_def distinct_map)
    then show ?thesis by (simp add: take_map [symmetric])
  qed
  have sub: "set ?ids \<subseteq> {i. present_at now k i \<noteq> None}"
  proof
    fix i assume "i \<in> set ?ids"
    then have "i \<in> fst ` set ?fresh" by (auto dest!: in_set_takeD intro: rev_image_eqI)
    with dom show "i \<in> {i. present_at now k i \<noteq> None}" by blast
  qed
  have "List.map_filter (map_of (pk_details k2)) ids = map (\<lambda>i. snd (the (present_at now k i))) ids"
    if "set ids \<subseteq> {i. present_at now k i \<noteq> None}" for ids
    using that
  proof (induction ids)
    case (Cons i ids)
    then obtain score x where "present_at now k i = Some (score, x)" by auto
    then have "map_of (pk_details k2) i = Some x"
      by (auto simp: same [symmetric] present_at_def split: option.splits if_splits)
    with Cons \<open>present_at now k i = Some (score, x)\<close> show ?case by (simp add: map_filter_simps)
  qed (simp add: map_filter_simps)
  from this [OF sub] have details: "List.map_filter (map_of (pk_details k2)) ?ids =
      map (\<lambda>i. snd (the (present_at now k i))) ?ids" .
  have "length ?ids = min limit (length ?fresh)" by simp
  with details dids sub connections have "\<exists>ids. distinct ids \<and>
      List.map_filter (map_of (pk_details k2)) ?ids = map (\<lambda>i. snd (the (present_at now k i))) ids \<and>
      set ids \<subseteq> {i. present_at now k i \<noteq> None} \<and> length ids = min limit (length ?fresh)"
    by (intro exI [of _ ?ids] conjI)
  moreover have "SNAPSHOT_PRESENCE_SCRIPT now limit k =
      ((current_revision k2, length ?fresh, stale, List.map_filter (map_of (pk_details k2)) ?ids), k2)"
    by (simp add: SNAPSHOT_PRESENCE_SCRIPT_def p k2_def [symmetric] Let_def)
  ultimately show ?thesis using inv same connections by simp
qed

section \<open>Histories of refreshes\<close>

datatype presence_event =
    POpen instant string json
  | PHeartbeat instant string
  | PClose instant string
  | PSnapshot instant nat

fun event_time :: "presence_event \<Rightarrow> instant" where
  "event_time (POpen t i d) = t"
| "event_time (PHeartbeat t i) = t"
| "event_time (PClose t i) = t"
| "event_time (PSnapshot t n) = t"

fun presence_step :: "int \<Rightarrow> presence_keys \<Rightarrow> presence_event \<Rightarrow> presence_keys" where
  "presence_step ttl k (POpen t i d) = snd (OPEN_PRESENCE_SCRIPT t ttl i d k)"
| "presence_step ttl k (PHeartbeat t i) = snd (HEARTBEAT_PRESENCE_SCRIPT t ttl i k)"
| "presence_step ttl k (PClose t i) = snd (CLOSE_PRESENCE_SCRIPT t ttl i k)"
| "presence_step ttl k (PSnapshot t n) = snd (SNAPSHOT_PRESENCE_SCRIPT t n k)"

text \<open>The specification: each connection has a deadline and details. A heartbeat extends a deadline that has
  not passed; with \<open>revives\<close> it also extends one that has.\<close>

type_synonym deadlines = "string \<Rightarrow> (instant \<times> json) option"

fun deadline_step :: "bool \<Rightarrow> int \<Rightarrow> deadlines \<Rightarrow> presence_event \<Rightarrow> deadlines" where
  "deadline_step revives ttl m (POpen t i d) = m(i \<mapsto> (t + ttl, d))"
| "deadline_step revives ttl m (PHeartbeat t i) =
     (case m i of None \<Rightarrow> m | Some (e, d) \<Rightarrow> if revives \<or> t < e then m(i \<mapsto> (t + ttl, d)) else m)"
| "deadline_step revives ttl m (PClose t i) = m(i := None)"
| "deadline_step revives ttl m (PSnapshot t n) = m"

definition in_time :: "instant \<Rightarrow> deadlines \<Rightarrow> deadlines" where
  "in_time now m i = (case m i of None \<Rightarrow> None | Some (e, d) \<Rightarrow> if now < e then Some (e, d) else None)"

definition details_from :: "presence_keys \<Rightarrow> deadlines \<Rightarrow> bool" where
  "details_from k m = (\<forall>i d. map_of (pk_details k) i = Some d \<longrightarrow> (\<exists>e. m i = Some (e, d)))"

definition bracketed :: "int \<Rightarrow> instant \<Rightarrow> presence_keys \<Rightarrow> deadlines \<Rightarrow> deadlines \<Rightarrow> bool" where
  "bracketed ttl now k low high =
     (presence_inv ttl now k \<and> in_time now low \<subseteq>\<^sub>m present_at now k \<and> present_at now k \<subseteq>\<^sub>m in_time now high \<and>
      details_from k high)"

lemma present_later: "t \<le> now \<Longrightarrow> present_at now k = in_time now (present_at t k)"
  by (rule ext) (auto simp: present_at_def in_time_def split: option.split)

lemma in_time_later: "t \<le> now \<Longrightarrow> in_time now (in_time t m) = in_time now m"
  by (rule ext) (auto simp: in_time_def split: option.split)

lemma in_time_mono: "m \<subseteq>\<^sub>m n \<Longrightarrow> in_time now m \<subseteq>\<^sub>m in_time now n"
  by (auto simp: map_le_def in_time_def dom_def split: option.splits prod.splits if_splits)

lemma bracketed_later:
  assumes "bracketed ttl t k low high" and "t \<le> now"
  shows "bracketed ttl now k low high"
proof -
  have "in_time now (in_time t low) \<subseteq>\<^sub>m in_time now (present_at t k)"
    "in_time now (present_at t k) \<subseteq>\<^sub>m in_time now (in_time t high)"
    using assms(1) by (auto simp: bracketed_def intro: in_time_mono)
  with assms show ?thesis by (auto simp: bracketed_def present_later in_time_later intro: presence_inv_later)
qed

lemma details_unexpired: "map_of (pk_details (unexpired now k)) j = Some d \<Longrightarrow> map_of (pk_details k) j = Some d"
  by (auto simp: unexpired_def split: if_splits)

lemma details_purge:
  "map_of (pk_details (snd (purge now n (unexpired now k)))) j = Some d \<Longrightarrow> map_of (pk_details k) j = Some d"
  by (auto simp: purge_def Let_def without_empty_def split: if_splits dest: details_unexpired)

lemma details_open:
  "map_of (pk_details (snd (OPEN_PRESENCE_SCRIPT t ttl i d k))) j = Some x \<Longrightarrow>
     (if j = i then x = d else map_of (pk_details k) j = Some x)"
  by (auto simp: OPEN_PRESENCE_SCRIPT_def Let_def retain_all_def incr_revision_def update_conv'
      dest: details_purge split: if_splits)

lemma details_heartbeat:
  "map_of (pk_details (snd (HEARTBEAT_PRESENCE_SCRIPT t ttl i k))) j = Some x \<Longrightarrow> map_of (pk_details k) j = Some x"
  using details_purge [of t PURGE_BATCH_SIZE k j x]
  by (auto simp: HEARTBEAT_PRESENCE_SCRIPT_def Let_def retain_all_def incr_revision_def split: prod.splits if_splits)

lemma details_close:
  "map_of (pk_details (snd (CLOSE_PRESENCE_SCRIPT t ttl i k))) j = Some x \<Longrightarrow> j \<noteq> i \<and> map_of (pk_details k) j = Some x"
  by (auto simp: CLOSE_PRESENCE_SCRIPT_def Let_def incr_revision_def without_empty_def dest: details_unexpired
      split: if_splits)

lemma details_snapshot:
  "map_of (pk_details (snd (SNAPSHOT_PRESENCE_SCRIPT t n k))) j = Some x \<Longrightarrow> map_of (pk_details k) j = Some x"
  using details_purge [of t PURGE_BATCH_SIZE k j x]
  by (auto simp: SNAPSHOT_PRESENCE_SCRIPT_def Let_def incr_revision_def split: prod.splits if_splits)

lemma open_brackets:
  assumes "bracketed ttl t k low high" and "0 < ttl"
  shows "bracketed ttl t (presence_step ttl k (POpen t i d)) (deadline_step False ttl low (POpen t i d))
    (deadline_step True ttl high (POpen t i d))"
proof -
  let ?k = "snd (OPEN_PRESENCE_SCRIPT t ttl i d k)"
  have r: "presence_inv ttl t ?k" "present_at t ?k = (present_at t k)(i \<mapsto> (t + ttl, d))"
    using open_refines [of ttl t k i d] assms by (simp_all add: bracketed_def)
  have upd: "in_time t (m(i \<mapsto> (t + ttl, d))) = (in_time t m)(i \<mapsto> (t + ttl, d))" for m
    using assms(2) by (simp add: fun_eq_iff in_time_def)
  have "details_from ?k (high(i \<mapsto> (t + ttl, d)))"
    unfolding details_from_def
  proof (intro allI impI)
    fix j x assume "map_of (pk_details ?k) j = Some x"
    from details_open [OF this] assms(1) show "\<exists>e. (high(i \<mapsto> (t + ttl, d))) j = Some (e, x)"
      by (auto simp: bracketed_def details_from_def split: if_splits)
  qed
  with assms(1) r show ?thesis by (auto simp: bracketed_def upd intro: map_le_upd)
qed

lemma close_brackets:
  assumes "bracketed ttl t k low high"
  shows "bracketed ttl t (presence_step ttl k (PClose t i)) (deadline_step False ttl low (PClose t i))
    (deadline_step True ttl high (PClose t i))"
proof -
  let ?k = "snd (CLOSE_PRESENCE_SCRIPT t ttl i k)"
  have r: "presence_inv ttl t ?k" "present_at t ?k = (present_at t k)(i := None)"
    using close_refines [of ttl t k i] assms by (simp_all add: bracketed_def)
  have upd: "in_time t (m(i := None)) = (in_time t m)(i := None)" for m by (simp add: fun_eq_iff in_time_def)
  have le: "m(i := None) \<subseteq>\<^sub>m n(i := None)" if "m \<subseteq>\<^sub>m n" for m n :: deadlines using that by (auto simp: map_le_def)
  have "details_from ?k (high(i := None))"
    unfolding details_from_def
  proof (intro allI impI)
    fix j x assume "map_of (pk_details ?k) j = Some x"
    from details_close [OF this] assms show "\<exists>e. (high(i := None)) j = Some (e, x)"
      by (auto simp: bracketed_def details_from_def)
  qed
  with assms(1) r show ?thesis by (auto simp: bracketed_def upd intro: le)
qed

lemma heartbeat_brackets:
  assumes "bracketed ttl t k low high" and "0 < ttl"
  shows "bracketed ttl t (presence_step ttl k (PHeartbeat t i)) (deadline_step False ttl low (PHeartbeat t i))
    (deadline_step True ttl high (PHeartbeat t i))"
proof -
  let ?k = "snd (HEARTBEAT_PRESENCE_SCRIPT t ttl i k)"
  let ?low = "deadline_step False ttl low (PHeartbeat t i)" and ?high = "deadline_step True ttl high (PHeartbeat t i)"
  have b: "presence_inv ttl t k" "in_time t low \<subseteq>\<^sub>m present_at t k" "present_at t k \<subseteq>\<^sub>m in_time t high" "details_from k high"
    using assms(1) by (simp_all add: bracketed_def)
  have inv: "presence_inv ttl t ?k" using heartbeat_refines [OF b(1) assms(2)] by simp
  have keep: "\<exists>e'. ?high j = Some (e', x)" if "high j = Some (e, x)" for j e x
    using that by (cases "high i") auto
  have from_details: "details_from ?k ?high"
    using details_heartbeat [of t ttl i k] b(4) keep unfolding details_from_def by blast
  consider (yes) d where "present_at t ?k = (present_at t k)(i \<mapsto> (t + ttl, d))"
      "\<forall>e d'. present_at t k i = Some (e, d') \<longrightarrow> d = d'"
    | (no) "present_at t ?k = present_at t k" "present_at t k i = None"
    using heartbeat_refines [OF b(1) assms(2), of i] by (auto split: prod.splits if_splits)
  then show ?thesis
  proof cases
    case yes
    from yes(1) have "present_at t ?k i = Some (t + ttl, d)" by simp
    then have "map_of (pk_details ?k) i = Some d" by (auto simp: present_at_def split: option.splits if_splits)
    with details_heartbeat b(4) obtain e where hi: "high i = Some (e, d)" unfolding details_from_def by blast
    then have "in_time t ?high = (in_time t high)(i \<mapsto> (t + ttl, d))" using assms(2) by (auto simp: fun_eq_iff in_time_def)
    moreover have "in_time t ?low \<subseteq>\<^sub>m (present_at t k)(i \<mapsto> (t + ttl, d))"
    proof (cases "in_time t low i")
      case None
      then have "?low = low" by (auto simp: in_time_def split: option.splits if_splits)
      with None b(2) show ?thesis by (auto simp: map_le_def dom_def)
    next
      case (Some p)
      obtain e' d' where p: "p = (e', d')" by (cases p)
      with Some have l: "low i = Some (e', d')" "t < e'" by (auto simp: in_time_def split: option.splits if_splits)
      from Some p b(2) have "present_at t k i = Some (e', d')" by (auto simp: map_le_def dom_def)
      with yes(2) have "d' = d" by auto
      with l have "in_time t ?low = (in_time t low)(i \<mapsto> (t + ttl, d))" using assms(2) by (auto simp: fun_eq_iff in_time_def)
      with b(2) show ?thesis by (simp add: map_le_upd)
    qed
    ultimately show ?thesis
      using yes(1) b(3) inv from_details by (simp add: bracketed_def map_le_upd)
  next
    case no
    have "in_time t low i = None"
    proof (cases "in_time t low i")
      case (Some p)
      with b(2) no(2) show ?thesis by (auto simp: map_le_def dom_def)
    qed
    then have "?low = low" by (auto simp: in_time_def split: option.splits if_splits)
    moreover have "present_at t k \<subseteq>\<^sub>m in_time t ?high"
      unfolding map_le_def
    proof
      fix j assume j: "j \<in> dom (present_at t k)"
      with no(2) have "j \<noteq> i" by auto
      then have "?high j = high j" by (cases "high i") auto
      with b(3) j show "present_at t k j = in_time t ?high j" by (auto simp: map_le_def in_time_def)
    qed
    ultimately show ?thesis using no(1) b(2) inv from_details by (simp add: bracketed_def)
  qed
qed

lemma presence_step_brackets:
  assumes "bracketed ttl (event_time e) k low high" and "0 < ttl"
  shows "bracketed ttl (event_time e) (presence_step ttl k e) (deadline_step False ttl low e) (deadline_step True ttl high e)"
proof (cases e)
  case (PSnapshot t n)
  with assms snapshot_refines [of ttl t k n] details_snapshot [of t n k] show ?thesis
    by (auto simp: bracketed_def details_from_def)
qed (use assms open_brackets close_brackets heartbeat_brackets in auto)

lemma presence_history:
  assumes "bracketed ttl t k low high" and "0 < ttl" and "sorted (t # map event_time es)"
  shows "bracketed ttl (last (t # map event_time es)) (foldl (presence_step ttl) k es)
    (foldl (deadline_step False ttl) low es) (foldl (deadline_step True ttl) high es)"
  using assms
proof (induction es arbitrary: t k low high)
  case (Cons e es)
  then have "bracketed ttl (event_time e) k low high" by (auto intro: bracketed_later)
  from presence_step_brackets [OF this Cons.prems(2)] Cons.IH [of "event_time e"] Cons.prems(2,3)
  show ?case by simp
qed simp

text \<open>C25. Presence means what it says. Over every history of openings, heartbeats, closings and snapshots of a
  meeting, at any later instant: a connection opened, or refreshed by a heartbeat in time, less than one
  time to live ago and not closed since is present, with its last deadline and the details it was opened
  with; and nothing is present but connections that were opened with those details, refreshed less than one
  time to live ago and not closed since. Presence never outlives the last refresh by more than the time to
  live, and heartbeats invent nothing. The script reports exactly what is present: the count is exact, and
  up to its limit every present connection is listed once with its details.\<close>

theorem presence_tracks_refreshes:
  assumes "0 < ttl" and "sorted (map event_time es)" and "list_all (\<lambda>e. event_time e \<le> now) es"
    and "k = foldl (presence_step ttl) no_presence es"
    and "SNAPSHOT_PRESENCE_SCRIPT now limit k = ((revision, connections, changed, details), k')"
  shows "in_time now (foldl (deadline_step False ttl) Map.empty es) \<subseteq>\<^sub>m present_at now k \<and>
    present_at now k \<subseteq>\<^sub>m in_time now (foldl (deadline_step True ttl) Map.empty es) \<and>
    present_at now k' = present_at now k \<and> connections = card {i. present_at now k i \<noteq> None} \<and>
    (\<exists>ids. distinct ids \<and> details = map (\<lambda>i. snd (the (present_at now k i))) ids \<and>
      set ids \<subseteq> {i. present_at now k i \<noteq> None} \<and> length ids = min limit connections)"
proof -
  let ?t = "case es of [] \<Rightarrow> now | e # _ \<Rightarrow> event_time e"
  have start: "bracketed ttl ?t no_presence Map.empty Map.empty"
    using no_presence_inv [of ttl ?t]
    by (simp add: bracketed_def details_from_def no_presence_def present_at_def in_time_def map_le_def dom_def)
  have "sorted (?t # map event_time es)" using assms(2) by (cases es) auto
  from presence_history [OF start assms(1) this] assms(4)
  have "bracketed ttl (last (?t # map event_time es)) k (foldl (deadline_step False ttl) Map.empty es)
    (foldl (deadline_step True ttl) Map.empty es)" by simp
  moreover have "last (?t # map event_time es) \<le> now"
    using assms(3) by (cases es rule: rev_cases) (auto simp: list_all_iff)
  ultimately have b: "bracketed ttl now k (foldl (deadline_step False ttl) Map.empty es)
    (foldl (deadline_step True ttl) Map.empty es)" by (rule bracketed_later)
  then show ?thesis using snapshot_refines [of ttl now k limit] assms(5) by (auto simp: bracketed_def)
qed

lemma map_le_Some: "m \<subseteq>\<^sub>m n \<Longrightarrow> m x = Some y \<Longrightarrow> n x = Some y"
  by (auto simp: map_le_def dom_def)

definition sample_presence_events :: "presence_event list" where
  "sample_presence_events = [POpen 0 ''c1'' JNull, POpen 10 ''c2'' JNull, PHeartbeat 20000 ''c1'']"

definition sample_presence :: presence_keys where
  "sample_presence = foldl (presence_step 30000) no_presence sample_presence_events"

theorem presence_tracks_refreshes_witness:
  "present_at 40000 sample_presence ''c1'' = Some (50000, JNull)"
proof -
  obtain x k' where x: "SNAPSHOT_PRESENCE_SCRIPT 40000 10 sample_presence = (x, k')" by fastforce
  obtain revision connections changed details where "x = (revision, connections, changed, details)" by (rule prod_cases4)
  with x have snap: "SNAPSHOT_PRESENCE_SCRIPT 40000 10 sample_presence = ((revision, connections, changed, details), k')"
    by simp
  have "sorted (map event_time sample_presence_events)" "list_all (\<lambda>e. event_time e \<le> 40000) sample_presence_events"
    by (simp_all add: sample_presence_events_def)
  from presence_tracks_refreshes [OF _ this sample_presence_def snap]
  have "in_time 40000 (foldl (deadline_step False 30000) Map.empty sample_presence_events) \<subseteq>\<^sub>m present_at 40000 sample_presence"
    by simp
  moreover have "in_time 40000 (foldl (deadline_step False 30000) Map.empty sample_presence_events) ''c1'' = Some (50000, JNull)"
    by (simp add: sample_presence_events_def in_time_def)
  ultimately show ?thesis by (rule map_le_Some)
qed

section \<open>The service\<close>

record presence_connection =
  pn_connectionId :: uuid
  pn_participantId :: uuid
  pn_sessionId :: uuid
  pn_productRole :: product_role

record presence_redis =
  px_meetings :: "uuid \<Rightarrow> presence_keys"
  px_sessions :: "uuid \<Rightarrow> string list \<times> instant option"
  px_published :: "(uuid \<times> int) list"

text \<open>What becomes of the calls of one operation, and when Redis runs them.\<close>

record presence_calls =
  pf_eval :: redis_fate
  pf_index :: redis_fate
  pf_expire :: redis_fate
  pf_publish :: redis_fate
  pf_now :: instant

definition toPresenceConnection :: "principal \<Rightarrow> uuid \<Rightarrow> presence_connection" where
  "toPresenceConnection who connectionId =
     \<lparr>pn_connectionId = connectionId, pn_participantId = pr_participantId who, pn_sessionId = pr_sessionId who,
      pn_productRole = pr_productRole who\<rparr>"

definition product_role_of :: "string \<Rightarrow> product_role option" where
  "product_role_of s = find (\<lambda>r. role_name r = s) [Host, Participant, Presenter, Viewer]"

definition connection_json :: "presence_connection \<Rightarrow> json" where
  "connection_json c = JObj [(''participantId'', JStr (pn_participantId c)), (''sessionId'', JStr (pn_sessionId c)),
     (''productRole'', JStr (role_name (pn_productRole c)))]"

definition detailSchema :: "zod \<Rightarrow> json \<Rightarrow> (uuid \<times> uuid \<times> product_role) option" where
  "detailSchema z v =
     (case v of
       JObj obj \<Rightarrow>
         (case (guarded (z_uuid z) (string_field obj ''participantId''), guarded (z_uuid z) (string_field obj ''sessionId''),
                Option.bind (string_field obj ''productRole'') product_role_of) of
           (Some participant, Some session, Some role) \<Rightarrow>
             if strict_keys [''participantId'', ''sessionId'', ''productRole''] obj
             then Some (participant, session, role) else None
         | _ \<Rightarrow> None)
     | _ \<Rightarrow> None)"

text \<open>A call that fails, whether before or after it ran, ends the operation.\<close>

definition reaches :: "redis_fate \<Rightarrow> bool" where "reaches fate = (fate \<noteq> Lost)"

definition presence_publish :: "redis_fate \<Rightarrow> uuid \<Rightarrow> int \<Rightarrow> presence_redis \<Rightarrow> presence_redis" where
  "presence_publish fate meetingId revision r =
     (if reaches fate then r\<lparr>px_published := px_published r @ [(meetingId, revision)]\<rparr> else r)"

definition set_meeting :: "uuid \<Rightarrow> presence_keys \<Rightarrow> presence_redis \<Rightarrow> presence_redis" where
  "set_meeting meetingId k r = r\<lparr>px_meetings := (px_meetings r)(meetingId := k)\<rparr>"

definition presence_ttl :: "realtime_config \<Rightarrow> int" where
  "presence_ttl c = rc_presenceTtlSeconds c * 1000"

definition index_members :: "instant \<Rightarrow> uuid \<Rightarrow> presence_redis \<Rightarrow> string list" where
  "index_members now sessionId r =
     (case px_sessions r sessionId of (members, expiry) \<Rightarrow> if key_gone now expiry then [] else members)"

definition set_index :: "uuid \<Rightarrow> string list \<times> instant option \<Rightarrow> presence_redis \<Rightarrow> presence_redis" where
  "set_index sessionId entry r = r\<lparr>px_sessions := (px_sessions r)(sessionId := entry)\<rparr>"

definition index_expire :: "instant \<Rightarrow> int \<Rightarrow> uuid \<Rightarrow> presence_redis \<Rightarrow> presence_redis" where
  "index_expire now ttl sessionId r =
     (let members = index_members now sessionId r
      in set_index sessionId (members, if members = [] then None else Some (now + ttl * 2)) r)"

definition index_expiry :: "instant \<Rightarrow> uuid \<Rightarrow> presence_redis \<Rightarrow> instant option" where
  "index_expiry now sessionId r =
     (case px_sessions r sessionId of (_, expiry) \<Rightarrow> if key_gone now expiry then None else expiry)"

definition presence_open ::
  "realtime_config \<Rightarrow> presence_calls \<Rightarrow> uuid \<Rightarrow> presence_connection \<Rightarrow> presence_redis \<Rightarrow> bool \<times> presence_redis" where
  "presence_open c f meetingId conn r =
     (case meetingPresenceConnections meetingId of
       Inl _ \<Rightarrow> (False, r)
     | Inr _ \<Rightarrow>
         let now = pf_now f; i = pn_connectionId conn; s = pn_sessionId conn;
             script = OPEN_PRESENCE_SCRIPT now (presence_ttl c) i (connection_json conn) (px_meetings r meetingId);
             r1 = (if reaches (pf_eval f) then set_meeting meetingId (snd script) r else r)
         in if pf_eval f \<noteq> Answered \<or> isl (sessionConnections s) then (False, r1)
            else
              let added = set_index s (List.insert i (index_members now s r1), index_expiry now s r1) r1;
                  r2 = (if reaches (pf_index f) then added else r1)
              in if pf_index f \<noteq> Answered then (False, r2)
                 else
                   let r3 = (if reaches (pf_expire f) then index_expire now (presence_ttl c) s r2 else r2)
                   in if pf_expire f \<noteq> Answered then (False, r3)
                      else (True, presence_publish (pf_publish f) meetingId (fst script) r3))"

definition presence_heartbeat ::
  "realtime_config \<Rightarrow> presence_calls \<Rightarrow> uuid \<Rightarrow> uuid \<Rightarrow> uuid \<Rightarrow> presence_redis \<Rightarrow> bool \<times> presence_redis" where
  "presence_heartbeat c f meetingId sessionId connectionId r =
     (case meetingPresenceConnections meetingId of
       Inl _ \<Rightarrow> (False, r)
     | Inr _ \<Rightarrow>
         let now = pf_now f;
             script = HEARTBEAT_PRESENCE_SCRIPT now (presence_ttl c) connectionId (px_meetings r meetingId);
             r1 = (if reaches (pf_eval f) then set_meeting meetingId (snd script) r else r)
         in if pf_eval f \<noteq> Answered \<or> isl (sessionConnections sessionId) then (False, r1)
            else
              let r2 = (if reaches (pf_expire f) then index_expire now (presence_ttl c) sessionId r1 else r1)
              in if pf_expire f \<noteq> Answered then (False, r2)
                 else (case fst script of (revision, changed, present) \<Rightarrow>
                   (present, if changed then presence_publish (pf_publish f) meetingId revision r2 else r2)))"

definition connection_format :: "string \<Rightarrow> bool" where
  "connection_format s = (length s = 36 \<and> list_all (\<lambda>c. is_hex_i c \<or> c = CHR ''-'') s)"

definition connectionsForSession :: "realtime_config \<Rightarrow> presence_calls \<Rightarrow> uuid \<Rightarrow> presence_redis \<Rightarrow> string list" where
  "connectionsForSession c f sessionId r =
     (if isl (sessionConnections sessionId) \<or> pf_index f \<noteq> Answered then []
      else take (nat (rc_maxConnectionsPerSession c)) (filter connection_format (index_members (pf_now f) sessionId r)))"

definition presence_close ::
  "realtime_config \<Rightarrow> presence_calls \<Rightarrow> uuid \<Rightarrow> uuid \<Rightarrow> uuid \<Rightarrow> presence_redis \<Rightarrow> presence_redis" where
  "presence_close c f meetingId sessionId connectionId r =
     (case meetingPresenceConnections meetingId of
       Inl _ \<Rightarrow> r
     | Inr _ \<Rightarrow>
         let now = pf_now f;
             script = CLOSE_PRESENCE_SCRIPT now (presence_ttl c) connectionId (px_meetings r meetingId);
             r1 = (if reaches (pf_eval f) then set_meeting meetingId (snd script) r else r)
         in if pf_eval f \<noteq> Answered \<or> isl (sessionConnections sessionId) then r1
            else
              let members = removeAll connectionId (index_members now sessionId r1);
                  r2 = (if reaches (pf_index f)
                    then set_index sessionId (members, if members = [] then None else index_expiry now sessionId r1) r1 else r1)
              in if pf_index f \<noteq> Answered then r2
                 else presence_publish (pf_publish f) meetingId (fst script) r2)"

record presence_snapshot =
  ss_revision :: int
  ss_available :: bool
  ss_participants :: "(uuid \<times> product_role) list"
  ss_truncated :: bool

text \<open>One entry per participant, in the order of their identifiers.\<close>

definition aggregateParticipants :: "(uuid \<times> uuid \<times> product_role) list \<Rightarrow> (uuid \<times> product_role) list" where
  "aggregateParticipants details =
     sort_key fst (fold (\<lambda>(participant, _, role). AList.update participant role) details [])"

definition presence_snapshot_of ::
  "zod \<Rightarrow> realtime_config \<Rightarrow> presence_calls \<Rightarrow> uuid \<Rightarrow> presence_redis \<Rightarrow> presence_snapshot \<times> presence_redis" where
  "presence_snapshot_of z c f meetingId r =
     (let unknown = \<lparr>ss_revision = 0, ss_available = False, ss_participants = [], ss_truncated = True\<rparr>;
          limit = nat (rc_maxPresenceSnapshotParticipants c * rc_maxConnectionsPerSession c)
      in case meetingPresenceConnections meetingId of
        Inl _ \<Rightarrow> (unknown, r)
      | Inr _ \<Rightarrow>
          let script = SNAPSHOT_PRESENCE_SCRIPT (pf_now f) limit (px_meetings r meetingId);
              r1 = (if reaches (pf_eval f) then set_meeting meetingId (snd script) r else r)
          in if pf_eval f \<noteq> Answered then (unknown, r1)
             else (case fst script of (revision, connections, changed, details) \<Rightarrow>
               let participants = aggregateParticipants (List.map_filter (detailSchema z) details);
                   max = nat (rc_maxPresenceSnapshotParticipants c)
               in (\<lparr>ss_revision = revision, ss_available = True, ss_participants = take max participants,
                    ss_truncated = (connections > limit \<or> length participants > max)\<rparr>,
                   if changed then presence_publish (pf_publish f) meetingId revision r1 else r1)))"

section \<open>What a snapshot tells a client\<close>

lemma fold_update_keys:
  "set (map fst (fold (\<lambda>(p, _, role). AList.update p role) ds al)) = set (map fst al) \<union> fst ` set ds \<and>
   (distinct (map fst al) \<longrightarrow> distinct (map fst (fold (\<lambda>(p, _, role). AList.update p role) ds al)))"
proof (induction ds arbitrary: al)
  case (Cons d ds)
  obtain p s role where d: "d = (p, s, role)" by (cases d)
  from Cons [of "AList.update p role al"] show ?case by (auto simp: d dom_update distinct_update)
qed simp

lemma fold_update_values:
  "(p, role) \<in> set (fold (\<lambda>(p, _, role). AList.update p role) ds al) \<Longrightarrow>
     (p, role) \<in> set al \<or> (\<exists>s. (p, s, role) \<in> set ds)"
proof (induction ds arbitrary: al)
  case (Cons d ds)
  obtain p' s' role' where d: "d = (p', s', role')" by (cases d)
  from Cons.prems have "(p, role) \<in> set (fold (\<lambda>(p, _, role). AList.update p role) ds (AList.update p' role' al))"
    by (simp add: d)
  from Cons.IH [OF this] set_update_subset [of p' role' al] d show ?case by auto
qed simp

lemma aggregate_participants:
  "sorted (map fst (aggregateParticipants ds))" "distinct (map fst (aggregateParticipants ds))"
  "fst ` set (aggregateParticipants ds) = fst ` set ds"
  "(p, role) \<in> set (aggregateParticipants ds) \<Longrightarrow> \<exists>s. (p, s, role) \<in> set ds"
  using fold_update_keys [of ds "[]"] fold_update_values [of p role ds "[]"]
  by (auto simp: aggregateParticipants_def distinct_map)

lemma set_map_filter: "set (List.map_filter f xs) = {y. \<exists>x \<in> set xs. f x = Some y}"
  by (induction xs) (auto simp: map_filter_simps split: option.split)

lemma listed_all:
  assumes "distinct ids" "set ids \<subseteq> {i. present_at now k i \<noteq> None}" "length ids = min limit connections"
    and "connections = card {i. present_at now k i \<noteq> None}" "connections \<le> limit" "finite {i. present_at now k i \<noteq> None}"
  shows "set ids = {i. present_at now k i \<noteq> None}"
  by (rule card_subset_eq [OF assms(6,2)]) (use assms distinct_card [OF assms(1)] in simp)

lemma finite_present: "finite {i. present_at now k i \<noteq> None}"
proof (rule finite_subset)
  show "{i. present_at now k i \<noteq> None} \<subseteq> fst ` set (pk_connections k)"
  proof
    fix i assume "i \<in> {i. present_at now k i \<noteq> None}"
    then obtain x where "map_of (pk_connections k) i = Some x" by (auto simp: present_at_def split: option.splits)
    then show "i \<in> fst ` set (pk_connections k)" by (force dest: map_of_SomeD)
  qed
qed simp

text \<open>A presence snapshot is honest. When Redis answers, it lists each participant once, in order and within
  the bound, each by a connection present at that moment whose stored details are well formed and carry
  that participant and role; and unless it says that it is truncated, it omits no participant with such a
  connection. When Redis does not answer, or the meeting identifier is malformed, it says that presence is
  unknown and claims nothing.\<close>

theorem presence_snapshot_honest:
  assumes "presence_inv ttl (pf_now f) (px_meetings r meetingId)"
    and "presence_snapshot_of z c f meetingId r = (snapshot, r')"
  shows "if pf_eval f = Answered \<and> uuid_format meetingId
    then ss_available snapshot \<and> sorted (map fst (ss_participants snapshot)) \<and>
      distinct (map fst (ss_participants snapshot)) \<and>
      length (ss_participants snapshot) \<le> nat (rc_maxPresenceSnapshotParticipants c) \<and>
      (\<forall>(p, role) \<in> set (ss_participants snapshot). \<exists>i e d s.
        present_at (pf_now f) (px_meetings r meetingId) i = Some (e, d) \<and> detailSchema z d = Some (p, s, role)) \<and>
      (\<not> ss_truncated snapshot \<longrightarrow> (\<forall>i e d p s role.
        present_at (pf_now f) (px_meetings r meetingId) i = Some (e, d) \<and> detailSchema z d = Some (p, s, role) \<longrightarrow>
        p \<in> fst ` set (ss_participants snapshot)))
    else \<not> ss_available snapshot \<and> ss_participants snapshot = [] \<and> ss_truncated snapshot"
proof (cases "pf_eval f = Answered \<and> uuid_format meetingId")
  case False
  then show ?thesis
    using assms(2)
    by (auto simp: presence_snapshot_of_def Let_def meetingPresenceConnections_def assertSegmentUuid_def ensure_def
        split: if_splits prod.splits)
next
  case True
  let ?k = "px_meetings r meetingId" and ?now = "pf_now f"
  let ?limit = "nat (rc_maxPresenceSnapshotParticipants c * rc_maxConnectionsPerSession c)"
  let ?max = "nat (rc_maxPresenceSnapshotParticipants c)"
  obtain x k' where x: "SNAPSHOT_PRESENCE_SCRIPT ?now ?limit ?k = (x, k')" by fastforce
  obtain revision connections changed details where x4: "x = (revision, connections, changed, details)" by (rule prod_cases4)
  let ?parsed = "List.map_filter (detailSchema z) details"
  have s: "snapshot = \<lparr>ss_revision = revision, ss_available = True,
      ss_participants = take ?max (aggregateParticipants ?parsed),
      ss_truncated = (connections > ?limit \<or> length (aggregateParticipants ?parsed) > ?max)\<rparr>"
    using assms(2) True
    by (simp add: presence_snapshot_of_def Let_def meetingPresenceConnections_def assertSegmentUuid_def ensure_def x x4)
  from snapshot_refines [OF assms(1), of ?limit] obtain ids where
    ids: "connections = card {i. present_at ?now ?k i \<noteq> None}" "distinct ids"
      "details = map (\<lambda>i. snd (the (present_at ?now ?k i))) ids" "set ids \<subseteq> {i. present_at ?now ?k i \<noteq> None}"
      "length ids = min ?limit connections" by (auto simp: x x4)
  have listed: "\<exists>i e d s. present_at ?now ?k i = Some (e, d) \<and> detailSchema z d = Some (p, s, role)"
    if "(p, role) \<in> set (take ?max (aggregateParticipants ?parsed))" for p role
  proof -
    from aggregate_participants(4) [OF in_set_takeD [OF that]] obtain s d where
      "d \<in> set details" "detailSchema z d = Some (p, s, role)" by (auto simp: set_map_filter)
    with ids(3,4) show ?thesis by force
  qed
  have complete: "p \<in> fst ` set (aggregateParticipants ?parsed)"
    if "connections \<le> ?limit" "present_at ?now ?k i = Some (e, d)" "detailSchema z d = Some (p, s, role)" for i e d p s role
  proof -
    have "i \<in> set ids" using listed_all [OF ids(2,4,5,1) that(1) finite_present] that(2) by simp
    with that(2) ids(3) have "d \<in> set details" by force
    with that(3) have "(p, s, role) \<in> set ?parsed" by (auto simp: set_map_filter)
    then show ?thesis unfolding aggregate_participants(3) by force
  qed
  have sorted: "sorted (map fst (take ?max (aggregateParticipants ?parsed)))"
    "distinct (map fst (take ?max (aggregateParticipants ?parsed)))"
    using aggregate_participants(1,2) [of ?parsed] by (simp_all add: take_map [symmetric] sorted_wrt_take)
  show ?thesis using True listed complete sorted by (auto simp: s)
qed

definition sample_presence_redis :: presence_redis where
  "sample_presence_redis = \<lparr>px_meetings = (\<lambda>_. snd (OPEN_PRESENCE_SCRIPT 0 30000 ''c1''
       (connection_json (toPresenceConnection sample_principal ''c1'')) no_presence)),
     px_sessions = (\<lambda>_. ([], None)), px_published = []\<rparr>"

definition sample_presence_calls :: presence_calls where
  "sample_presence_calls = \<lparr>pf_eval = Answered, pf_index = Answered, pf_expire = Answered, pf_publish = Lost, pf_now = 1000\<rparr>"

definition sample_realtime_config :: realtime_config where
  "sample_realtime_config = \<lparr>rc_ticketTtlSeconds = 30, rc_authenticationTimeoutMs = 5000, rc_heartbeatIntervalMs = 10000,
     rc_presenceTtlSeconds = 30, rc_maxMessageBytes = 65536, rc_maxBufferedBytes = 262144, rc_maxPendingCommands = 16,
     rc_messageRatePerSecond = 10, rc_messageBurst = 20, rc_maxConnectionsPerSource = 50, rc_maxConnectionsPerSession = 4,
     rc_ticketIssueRateLimit = 10, rc_ticketRateLimitWindowSeconds = 60, rc_sessionRevalidateSeconds = 30,
     rc_maxPresenceSnapshotParticipants = 100\<rparr>"

theorem presence_snapshot_honest_witness:
  "ss_available (fst (presence_snapshot_of strict_zod sample_realtime_config sample_presence_calls
     (pr_meetingId sample_principal) sample_presence_redis))"
proof -
  have at: "px_meetings sample_presence_redis (pr_meetingId sample_principal) =
      presence_step 30000 no_presence (POpen 0 ''c1'' (connection_json (toPresenceConnection sample_principal ''c1'')))"
    by (simp add: sample_presence_redis_def)
  have "presence_inv 30000 0 (px_meetings sample_presence_redis (pr_meetingId sample_principal))"
    unfolding at using open_refines [OF no_presence_inv, of 30000] by simp
  then have "presence_inv 30000 (pf_now sample_presence_calls) (px_meetings sample_presence_redis (pr_meetingId sample_principal))"
    by (rule presence_inv_later) (simp add: sample_presence_calls_def)
  moreover have "pf_eval sample_presence_calls = Answered" by (simp add: sample_presence_calls_def)
  moreover have "uuid_format (pr_meetingId sample_principal)" by code_simp
  ultimately show ?thesis using presence_snapshot_honest [OF _ prod.collapse [symmetric]] by fastforce
qed

end
