(* ===== verification/PresenceWatch.thy ===== *)
theory PresenceWatch
  imports Presence
begin

text \<open>
  The subscriptions of a process to the revisions of presence (\<open>presence.service.ts\<close>): the map of local
  listeners, the channels the Redis client is subscribed to, and the asynchronous calls that connect them.
  A subscription is entered in the map before its call is answered; the map entry is removed before the
  call that unsubscribes.
\<close>

section \<open>State and operations\<close>

record presence_watchers =
  pw_subscriptions :: "uuid \<Rightarrow> nat list option"
  pw_channels :: "uuid list"

definition notificationSchema :: "json \<Rightarrow> string option" where
  "notificationSchema v =
     (case v of
       JObj obj \<Rightarrow>
         if strict_keys [''v'', ''revision''] obj \<and> field obj ''v'' = Some (JInt 1)
         then guarded (\<lambda>s. s \<noteq> [] \<and> list_all is_digit s) (string_field obj ''revision'') else None
     | _ \<Rightarrow> None)"

definition parseNotification :: "json option \<Rightarrow> string option" where
  "parseNotification parsed = Option.bind parsed notificationSchema"

text \<open>\<open>watch\<close> up to its \<open>await\<close>; whether a subscription has to be requested.\<close>

definition presence_watch :: "uuid \<Rightarrow> nat \<Rightarrow> presence_watchers \<Rightarrow> bool \<times> presence_watchers" where
  "presence_watch meetingId listener s =
     (case pw_subscriptions s meetingId of
       Some listeners \<Rightarrow>
         (False, s\<lparr>pw_subscriptions := (pw_subscriptions s)(meetingId \<mapsto> List.insert listener listeners)\<rparr>)
     | None \<Rightarrow> (True, s\<lparr>pw_subscriptions := (pw_subscriptions s)(meetingId \<mapsto> [listener])\<rparr>))"

text \<open>The answer to \<open>sSubscribe\<close>, \<open>None\<close> when it failed.\<close>

definition presence_subscribed :: "uuid \<Rightarrow> bool \<Rightarrow> presence_watchers \<Rightarrow> presence_watchers" where
  "presence_subscribed meetingId succeeded s =
     (if succeeded then s\<lparr>pw_channels := List.insert meetingId (pw_channels s)\<rparr>
      else s\<lparr>pw_subscriptions := (pw_subscriptions s)(meetingId := None)\<rparr>)"

text \<open>\<open>unwatch\<close> up to its \<open>await\<close>; whether the channel is to be left.\<close>

definition presence_unwatch :: "uuid \<Rightarrow> nat \<Rightarrow> presence_watchers \<Rightarrow> bool \<times> presence_watchers" where
  "presence_unwatch meetingId listener s =
     (case pw_subscriptions s meetingId of
       None \<Rightarrow> (False, s)
     | Some listeners \<Rightarrow>
         let rest = removeAll listener listeners
         in if rest \<noteq> [] then (False, s\<lparr>pw_subscriptions := (pw_subscriptions s)(meetingId \<mapsto> rest)\<rparr>)
            else (True, s\<lparr>pw_subscriptions := (pw_subscriptions s)(meetingId := None)\<rparr>))"

definition presence_unsubscribed :: "uuid \<Rightarrow> bool \<Rightarrow> presence_watchers \<Rightarrow> presence_watchers" where
  "presence_unsubscribed meetingId succeeded s =
     (if succeeded then s\<lparr>pw_channels := removeAll meetingId (pw_channels s)\<rparr> else s)"

text \<open>A message on the channel: the calls made, each listener with the revision.\<close>

definition presence_notify :: "uuid \<Rightarrow> json option \<Rightarrow> presence_watchers \<Rightarrow> (nat \<times> string) list" where
  "presence_notify meetingId parsed s =
     (if meetingId \<notin> set (pw_channels s) then []
      else case parseNotification parsed of
        None \<Rightarrow> []
      | Some revision \<Rightarrow>
          (case pw_subscriptions s meetingId of None \<Rightarrow> [] | Some listeners \<Rightarrow> map (\<lambda>l. (l, revision)) listeners))"

definition presence_destroy :: "presence_watchers \<Rightarrow> uuid list \<Rightarrow> presence_watchers" where
  "presence_destroy s unsubscribed =
     s\<lparr>pw_subscriptions := Map.empty,
       pw_channels := filter (\<lambda>m. pw_subscriptions s m = None \<or> m \<notin> set unsubscribed) (pw_channels s)\<rparr>"

section \<open>Delivery\<close>

lemma watch_registers:
  "\<exists>ls. pw_subscriptions (snd (presence_watch m l s)) m = Some ls \<and> l \<in> set ls"
  by (auto simp: presence_watch_def split: option.split)

lemma watched_is_notified:
  assumes "pw_subscriptions s m = Some ls" and "l \<in> set ls" and "m \<in> set (pw_channels s)"
    and "notificationSchema v = Some revision"
  shows "(l, revision) \<in> set (presence_notify m (Some v) s)"
  using assms by (simp add: presence_notify_def parseNotification_def)

text \<open>What the service publishes is what its parser accepts.\<close>

definition notification_json :: "int \<Rightarrow> json" where
  "notification_json revision = JObj [(''v'', JInt 1), (''revision'', JStr (dec_int revision))]"

lemma published_notification_parses:
  "0 \<le> revision \<Longrightarrow> parseNotification (Some (notification_json revision)) = Some (dec_int revision)"
  by (simp add: parseNotification_def notificationSchema_def notification_json_def strict_keys_def field_def
      string_field_def dec_int_def dec_digits)

text \<open>A listener that joins while the first subscription of its meeting is pending is told that it watches.
  When that subscription fails the entry is removed with both listeners: nothing is delivered to the second
  one any more, although only the first was told of the failure.\<close>

lemma failed_subscription_drops_second_watcher:
  assumes "pw_subscriptions s m = None" and "m \<notin> set (pw_channels s)"
  shows "\<exists>s1 s2. presence_watch m first s = (True, s1) \<and> presence_watch m second s1 = (False, s2) \<and>
    presence_notify m v (presence_subscribed m True (presence_subscribed m False s2)) = []"
  using assms
  by (auto simp: presence_watch_def presence_subscribed_def presence_notify_def split: option.split)

end
