(* ===== verification/OutboxRelay.thy ===== *)
theory OutboxRelay
  imports Outbox "HOL-Library.Multiset"
begin

text \<open>
  The registry of publishers, one relay cycle and the polling worker. The relay is defined over the
  operations of the \<open>OutboxRepository\<close> interface it is injected with, and its lemmas are proved once
  from that interface's contract; the PostgreSQL repository is the instance. The deliveries of one
  concurrency window settle in any order, which is an argument.
\<close>

section \<open>Registry of publishers\<close>

text \<open>A publisher resolves, throws an \<open>OutboxPublishError\<close> with its code, or throws anything else.\<close>

datatype publish_result = PublishOk | PublishError string | PublishThrew

type_synonym handler = "outbox_delivery \<Rightarrow> publish_result"
type_synonym registry = "(outbox_destination \<times> handler) list"

fun destination_name :: "outbox_destination \<Rightarrow> string" where
  "destination_name RedisRealtime = ''redis_realtime''"
| "destination_name KafkaBackend = ''kafka_backend''"
| "destination_name SfuControl = ''sfu_control''"

definition register :: "registry \<Rightarrow> outbox_destination \<Rightarrow> handler \<Rightarrow> registry outcome" where
  "register handlers destination h =
     (if map_of handlers destination \<noteq> None
      then Inl (PlainError (''Outbox handler already registered: '' @ destination_name destination))
      else Inr (handlers @ [(destination, h)]))"

definition unregister :: "registry \<Rightarrow> outbox_destination \<Rightarrow> registry" where
  "unregister handlers destination = filter (\<lambda>(d, _). d \<noteq> destination) handlers"

definition destinations :: "registry \<Rightarrow> outbox_destination list" where
  "destinations handlers = map fst handlers"

lemma register_distinct:
  "distinct (destinations handlers) \<Longrightarrow> register handlers d h = Inr handlers' \<Longrightarrow>
     distinct (destinations handlers')"
  by (auto simp: register_def destinations_def map_of_eq_None_iff split: if_splits)

lemma unregister_distinct:
  "distinct (destinations handlers) \<Longrightarrow> distinct (destinations (unregister handlers d))"
  by (auto simp: destinations_def unregister_def distinct_map_filterI)

lemma unregister_register:
  "register handlers d h = Inr handlers' \<Longrightarrow> unregister handlers' d = handlers"
  by (force simp: register_def unregister_def map_of_eq_None_iff filter_id_conv split: if_splits)

section \<open>One delivery\<close>

record relay_env =
  ack_at :: "uuid \<Rightarrow> instant"
  draw :: "uuid \<Rightarrow> rat"

definition publish_error_code :: "publish_result \<Rightarrow> string" where
  "publish_error_code r =
     (case r of PublishError code \<Rightarrow> (if canonical_error_code code then code else ''PUBLISH_FAILED'')
      | _ \<Rightarrow> ''PUBLISH_FAILED'')"

text \<open>The result is the failure the promise rejects with, if it does.\<close>

definition publishOne ::
  "(instant \<Rightarrow> uuid \<Rightarrow> string \<Rightarrow> 's \<Rightarrow> unit outcome \<times> 's) \<Rightarrow>
   (instant \<Rightarrow> uuid \<Rightarrow> string \<Rightarrow> string \<Rightarrow> int \<Rightarrow> int \<Rightarrow> 's \<Rightarrow> bool outcome \<times> 's) \<Rightarrow>
   outbox_config \<Rightarrow> registry \<Rightarrow> relay_env \<Rightarrow> string \<Rightarrow> outbox_delivery \<Rightarrow> 's \<Rightarrow> failure option \<times> 's" where
  "publishOne publish_ack fail_ack cfg handlers env workerId delivery s =
     (let d = od_deliveryId delivery;
          result = (case map_of handlers (od_destination delivery) of
              None \<Rightarrow> PublishError ''HANDLER_MISSING'' | Some h \<Rightarrow> h delivery)
      in case result of
        PublishOk \<Rightarrow>
          (case publish_ack (ack_at env d) d workerId s of
            (Inl e, s') \<Rightarrow> (Some e, s') | (Inr _, s') \<Rightarrow> (None, s'))
      | _ \<Rightarrow>
          (case fail_ack (ack_at env d) d workerId (publish_error_code result)
              (calculateRetryDelay (draw env d) (od_attempts delivery)
                (oc_baseRetryMs cfg) (oc_maxRetryMs cfg)) (oc_maxAttempts cfg) s of
            (Inl e, s') \<Rightarrow> (Some e, s') | (Inr _, s') \<Rightarrow> (None, s')))"

section \<open>One cycle\<close>

text \<open>Every promise of a window runs to its end; the window rejects with the first rejection.\<close>

fun publish_window ::
  "(outbox_delivery \<Rightarrow> 's \<Rightarrow> failure option \<times> 's) \<Rightarrow> outbox_delivery list \<Rightarrow> 's \<Rightarrow> failure option \<times> 's" where
  "publish_window one [] s = (None, s)"
| "publish_window one (d # ds) s =
     (case one d s of (r, s') \<Rightarrow>
       (case publish_window one ds s' of (r', s'') \<Rightarrow>
         ((case r of None \<Rightarrow> r' | Some e \<Rightarrow> Some e), s'')))"

text \<open>The loop over the batch, \<open>concurrency\<close> deliveries at a time. A window of size 0 would never
  advance; the configuration excludes it, and the loop stops there.\<close>

function windows :: "nat \<Rightarrow> 'a list \<Rightarrow> 'a list list" where
  "windows n xs = (if xs = [] \<or> n = 0 then [] else take n xs # windows n (drop n xs))"
  by pat_completeness auto
termination
  by (relation "measure (\<lambda>(n, xs). length xs)") auto

declare windows.simps [simp del]

fun run_windows ::
  "(outbox_delivery \<Rightarrow> 's \<Rightarrow> failure option \<times> 's) \<Rightarrow> (outbox_delivery list \<Rightarrow> outbox_delivery list) \<Rightarrow>
   outbox_delivery list list \<Rightarrow> 's \<Rightarrow> unit outcome \<times> 's" where
  "run_windows one order [] s = (Inr (), s)"
| "run_windows one order (w # ws) s =
     (case publish_window one (order w) s of
       (Some e, s') \<Rightarrow> (Inl e, s') | (None, s') \<Rightarrow> run_windows one order ws s')"

definition runOnce ::
  "(string \<Rightarrow> int \<Rightarrow> int \<Rightarrow> outbox_destination list \<Rightarrow> 's \<Rightarrow> outbox_delivery list outcome \<times> 's) \<Rightarrow>
   (instant \<Rightarrow> uuid \<Rightarrow> string \<Rightarrow> 's \<Rightarrow> unit outcome \<times> 's) \<Rightarrow>
   (instant \<Rightarrow> uuid \<Rightarrow> string \<Rightarrow> string \<Rightarrow> int \<Rightarrow> int \<Rightarrow> 's \<Rightarrow> bool outcome \<times> 's) \<Rightarrow>
   outbox_config \<Rightarrow> registry \<Rightarrow> relay_env \<Rightarrow> (outbox_delivery list \<Rightarrow> outbox_delivery list) \<Rightarrow>
   string \<Rightarrow> bool \<Rightarrow> 's \<Rightarrow> nat outcome \<times> 's" where
  "runOnce claim publish_ack fail_ack cfg handlers env order workerId aborted s =
     (if aborted then (Inr 0, s)
      else if destinations handlers = [] then (Inr 0, s)
      else case claim workerId (oc_batchSize cfg) (oc_leaseMs cfg) (destinations handlers) s of
        (Inl e, s') \<Rightarrow> (Inl e, s')
      | (Inr deliveries, s') \<Rightarrow>
          (case run_windows (publishOne publish_ack fail_ack cfg handlers env workerId) order
                (windows (nat (oc_concurrency cfg)) deliveries) s' of
            (Inl e, s'') \<Rightarrow> (Inl e, s'') | (Inr _, s'') \<Rightarrow> (Inr (length deliveries), s'')))"

lemma concat_windows: "0 < n \<Longrightarrow> concat (windows n xs) = xs"
  by (induction n xs rule: windows.induct) (subst windows.simps, simp)

lemma windows_bound: "0 < n \<Longrightarrow> w \<in> set (windows n xs) \<Longrightarrow> w \<noteq> [] \<and> length w \<le> n"
proof (induction n xs rule: windows.induct)
  case (1 n xs)
  from 1(3) show ?case
    by (subst (asm) windows.simps) (use 1(1,2) in \<open>auto split: if_splits\<close>)
qed

section \<open>The relay over any repository\<close>

context outbox_repository
begin

definition ready :: "string \<Rightarrow> relay_env \<Rightarrow> 's \<Rightarrow> outbox_delivery \<Rightarrow> bool" where
  "ready w env s x = (has_lease s (od_deliveryId x) w (od_lockedUntil x) \<and>
     uuid_format (od_deliveryId x) \<and> ack_at env (od_deliveryId x) \<le> od_lockedUntil x \<and>
     0 \<le> draw env (od_deliveryId x) \<and> draw env (od_deliveryId x) < 1)"

lemma publish_error_code_canonical: "canonical_error_code (publish_error_code r)"
proof -
  have "canonical_error_code ''PUBLISH_FAILED''" by code_simp
  then show ?thesis by (auto simp: publish_error_code_def split: publish_result.splits)
qed

lemma delay_in_range:
  "outbox_config_ok cfg \<Longrightarrow> 0 \<le> random \<Longrightarrow>
     0 \<le> calculateRetryDelay random attempts (oc_baseRetryMs cfg) (oc_maxRetryMs cfg) \<and>
     calculateRetryDelay random attempts (oc_baseRetryMs cfg) (oc_maxRetryMs cfg) \<le> 3600000"
  using calculateRetryDelay_range [of "oc_baseRetryMs cfg" "oc_maxRetryMs cfg" random attempts]
  by (auto simp: outbox_config_ok_def between_def)

lemma publishOne_settles:
  assumes "invar s" "ready w env s x" "outbox_config_ok cfg" "canonical_worker_id w"
    and "publishOne publish_ack fail_ack cfg handlers env w x s = (r, s')"
  shows "r = None \<and> invar s' \<and> is_settled s' (od_deliveryId x) \<and>
    (\<forall>y. od_deliveryId y \<noteq> od_deliveryId x \<longrightarrow> ready w env s y \<longrightarrow> ready w env s' y) \<and>
    (\<forall>d. is_settled s d \<longrightarrow> is_settled s' d)"
proof -
  let ?d = "od_deliveryId x"
  define result where "result = (case map_of handlers (od_destination x) of
      None \<Rightarrow> PublishError ''HANDLER_MISSING'' | Some h \<Rightarrow> h x)"
  show ?thesis
  proof (cases "result = PublishOk")
    case True
    then have "publish_ack (ack_at env ?d) ?d w s = (Inr (), s') \<and> r = None"
      using assms(1,2,4,5) publish_settles [of s ?d w "od_lockedUntil x" "ack_at env ?d"]
      by (auto simp: publishOne_def result_def [symmetric] ready_def Let_def
          split: prod.splits sum.splits)
    then show ?thesis
      using assms(1,2,4) publish_settles [of s ?d w "od_lockedUntil x" "ack_at env ?d"]
        publish_invar [of s "ack_at env ?d" ?d w] publish_frame [of ?d _ s w _ "ack_at env ?d" w]
        publish_settled [of s _ "ack_at env ?d" ?d w]
      by (auto simp: ready_def)
  next
    case False
    define delay where "delay = calculateRetryDelay (draw env ?d) (od_attempts x)
        (oc_baseRetryMs cfg) (oc_maxRetryMs cfg)"
    define c where "c = publish_error_code result"
    have range: "canonical_error_code c" "0 \<le> delay" "delay \<le> 3600000"
      "1 \<le> oc_maxAttempts cfg" "oc_maxAttempts cfg \<le> 100"
      using assms(2,3) delay_in_range [of cfg "draw env ?d" "od_attempts x"]
      by (auto simp: c_def delay_def publish_error_code_canonical ready_def outbox_config_ok_def
          between_def)
    obtain b s1 where ack: "fail_ack (ack_at env ?d) ?d w c delay (oc_maxAttempts cfg) s = (Inr b, s1)"
      "is_settled s1 ?d"
      using fail_settles [OF assms(1) _ _ assms(4) range] assms(2) unfolding ready_def
      by (metis prod.collapse)
    have "publishOne publish_ack fail_ack cfg handlers env w x s = (None, s1)"
      using False ack(1) [unfolded c_def delay_def]
      by (cases result) (simp_all add: publishOne_def result_def [symmetric] Let_def)
    with assms(5) have "r = None" "s' = s1" by auto
    then show ?thesis
      using ack assms(1) fail_invar [of s "ack_at env ?d" ?d w c delay "oc_maxAttempts cfg"]
        fail_frame [of ?d _ s w _ "ack_at env ?d" w c delay "oc_maxAttempts cfg"]
        fail_settled [of s _ "ack_at env ?d" ?d w c delay "oc_maxAttempts cfg"]
      by (auto simp: ready_def)
  qed
qed

lemma publish_window_settles:
  assumes "outbox_config_ok cfg" "canonical_worker_id w"
  shows "invar s \<Longrightarrow> distinct (map od_deliveryId (xs @ rest)) \<Longrightarrow> (\<forall>x \<in> set (xs @ rest). ready w env s x) \<Longrightarrow>
    publish_window (publishOne publish_ack fail_ack cfg handlers env w) xs s = (r, s') \<Longrightarrow>
    r = None \<and> invar s' \<and> (\<forall>x \<in> set xs. is_settled s' (od_deliveryId x)) \<and>
    (\<forall>x \<in> set rest. ready w env s' x) \<and> (\<forall>d. is_settled s d \<longrightarrow> is_settled s' d)"
proof (induction xs arbitrary: s r)
  case (Cons x xs)
  obtain r1 s1 where one: "publishOne publish_ack fail_ack cfg handlers env w x s = (r1, s1)"
    by fastforce
  have x: "ready w env s x" using Cons.prems by simp
  note step = publishOne_settles [OF Cons.prems(1) x assms one]
  have "od_deliveryId x \<notin> od_deliveryId ` set (xs @ rest)" using Cons.prems(2) by auto
  then have "\<forall>y \<in> set (xs @ rest). od_deliveryId y \<noteq> od_deliveryId x" by (metis imageI)
  then have "\<forall>y \<in> set (xs @ rest). ready w env s1 y" using step Cons.prems(3) by auto
  moreover obtain r2 where two: "publish_window (publishOne publish_ack fail_ack cfg handlers env w) xs s1 = (r2, s')"
    "r = r2" using Cons.prems(4) one step by (auto split: prod.splits)
  ultimately show ?case using Cons.IH [of s1 r2] step Cons.prems(2) by auto
qed simp

lemma run_windows_settles:
  assumes "outbox_config_ok cfg" "canonical_worker_id w" "\<And>ys. mset (order ys) = mset ys"
  shows "invar s \<Longrightarrow> distinct (map od_deliveryId (concat ws)) \<Longrightarrow> (\<forall>x \<in> set (concat ws). ready w env s x) \<Longrightarrow>
    run_windows (publishOne publish_ack fail_ack cfg handlers env w) order ws s = (r, s') \<Longrightarrow>
    r = Inr () \<and> invar s' \<and> (\<forall>x \<in> set (concat ws). is_settled s' (od_deliveryId x)) \<and>
    (\<forall>d. is_settled s d \<longrightarrow> is_settled s' d)"
proof (induction ws arbitrary: s)
  case (Cons ys ws)
  have perm: "set (order ys) = set ys" using assms(3) by (metis set_mset_mset)
  have "mset (map od_deliveryId (order ys)) = mset (map od_deliveryId ys)" by (simp add: assms(3))
  then have "distinct (map od_deliveryId (order ys))"
    using Cons.prems(2) mset_eq_imp_distinct_iff by (metis concat.simps(2) distinct_append map_append)
  then have dist: "distinct (map od_deliveryId (order ys @ concat ws))"
    using Cons.prems(2) perm by simp
  have all_ready: "\<forall>x \<in> set (order ys @ concat ws). ready w env s x"
    using Cons.prems(3) perm by simp
  obtain r1 s1 where
    one: "publish_window (publishOne publish_ack fail_ack cfg handlers env w) (order ys) s = (r1, s1)"
    by fastforce
  note publish_window_settles [OF assms(1,2) Cons.prems(1) dist all_ready one]
  then show ?case using Cons.IH [of s1] Cons.prems(2,4) one perm by auto
qed simp

theorem runOnce_settles:
  assumes "outbox_config_ok cfg" "canonical_worker_id w" "\<And>ys. mset (order ys) = mset ys"
    and "invar s" "handlers \<noteq> []"
    and "claim w (oc_batchSize cfg) (oc_leaseMs cfg) (destinations handlers) s = (Inr xs, s1)"
    and "\<And>x. x \<in> set xs \<Longrightarrow> ack_at env (od_deliveryId x) \<le> od_lockedUntil x"
    and "\<And>d. 0 \<le> draw env d \<and> draw env d < 1"
    and "runOnce claim publish_ack fail_ack cfg handlers env order w False s = (r, s')"
  shows "r = Inr (length xs) \<and> invar s' \<and> (\<forall>x \<in> set xs. is_settled s' (od_deliveryId x))"
proof -
  let ?ws = "windows (nat (oc_concurrency cfg)) xs"
  have "0 < nat (oc_concurrency cfg)" using assms(1) by (simp add: outbox_config_ok_def between_def)
  then have concat: "concat ?ws = xs" by (rule concat_windows)
  have inv: "invar s1" using claim_invar [OF assms(4)] assms(6) by (metis snd_conv)
  have ready: "\<forall>x \<in> set xs. ready w env s1 x"
    using claim_leases [OF assms(4,6)] assms(7,8) by (simp add: ready_def)
  obtain r1 s2 where run: "run_windows (publishOne publish_ack fail_ack cfg handlers env w) order ?ws s1 = (r1, s2)"
    by fastforce
  from run_windows_settles [OF assms(1,2,3) inv _ _ run]
  have "r1 = Inr ()" "invar s2" "\<forall>x \<in> set xs. is_settled s2 (od_deliveryId x)"
    using ready claim_distinct [OF assms(4,6)] concat by auto
  then show ?thesis using assms(5,6,9) run
    by (auto simp: runOnce_def destinations_def)
qed

end

section \<open>The polling worker\<close>

record worker_state =
  ws_aborted :: bool
  ws_timer :: "int option"
  ws_running :: bool

datatype worker_event = ModuleInit | TimerFires | PollEnds "nat outcome" | ModuleDestroy

definition schedule :: "int \<Rightarrow> worker_state \<Rightarrow> worker_state" where
  "schedule delayMs s = (if ws_aborted s then s else s\<lparr>ws_timer := Some delayMs\<rparr>)"

text \<open>The delay before the next poll: 1 millisecond after a full batch, the interval otherwise.\<close>

definition nextDelayMs :: "outbox_config \<Rightarrow> nat outcome \<Rightarrow> int" where
  "nextDelayMs cfg result =
     (case result of
       Inl _ \<Rightarrow> oc_pollIntervalMs cfg
     | Inr claimed \<Rightarrow> if int claimed \<ge> oc_batchSize cfg then 1 else oc_pollIntervalMs cfg)"

fun worker_step :: "outbox_config \<Rightarrow> worker_state \<Rightarrow> worker_event \<Rightarrow> worker_state" where
  "worker_step cfg s ModuleInit = schedule 0 s"
| "worker_step cfg s TimerFires = s\<lparr>ws_timer := None, ws_running := True\<rparr>"
| "worker_step cfg s (PollEnds result) = schedule (nextDelayMs cfg result) (s\<lparr>ws_running := False\<rparr>)"
| "worker_step cfg s ModuleDestroy = s\<lparr>ws_aborted := True, ws_timer := None\<rparr>"

text \<open>A timer fires only while it is armed, a poll ends only while it runs, and the module is
  initialised once, before anything else.\<close>

fun worker_enabled :: "worker_state \<Rightarrow> worker_event \<Rightarrow> bool" where
  "worker_enabled s ModuleInit = (ws_timer s = None \<and> \<not> ws_running s)"
| "worker_enabled s TimerFires = (ws_timer s \<noteq> None)"
| "worker_enabled s (PollEnds result) = ws_running s"
| "worker_enabled s ModuleDestroy = True"

definition worker_inv :: "worker_state \<Rightarrow> bool" where
  "worker_inv s = (\<not> (ws_timer s \<noteq> None \<and> ws_running s) \<and> (ws_aborted s \<longrightarrow> ws_timer s = None))"

interpretation worker: stepwise_invariant "worker_step cfg" worker_enabled worker_inv
proof
  fix s e
  assume "worker_inv s" "worker_enabled s e"
  then show "worker_inv (worker_step cfg s e)"
    by (cases e) (auto simp: worker_inv_def schedule_def)
qed

lemma aborted_no_poll:
  "worker_inv s \<Longrightarrow> ws_aborted s \<Longrightarrow> enabled_history (worker_step cfg) worker_enabled s es \<Longrightarrow>
     TimerFires \<notin> set es"
proof (induction es arbitrary: s)
  case (Cons e es)
  have "ws_aborted (worker_step cfg s e)" using Cons.prems(2) by (cases e) (auto simp: schedule_def)
  moreover have "e \<noteq> TimerFires" using Cons.prems by (auto simp: worker_inv_def)
  ultimately show ?case using Cons worker.step_keeps by auto
qed simp

section \<open>Guarantees of the relay and the worker\<close>


definition sample_run :: "nat outcome \<times> outbox_row list" where
  "sample_run = runOnce
     (\<lambda>w b l ds. atomically (claimBatch strict_zod 1000 (\<lambda>_. False) w b l ds)) markPublished markFailed
     sample_outbox_config [(RedisRealtime, \<lambda>_. PublishThrew)]
     \<lparr>ack_at = (\<lambda>_. 1500), draw = (\<lambda>_. 1 / 2)\<rparr> rev ''worker:a'' False [sample_row]"

definition sample_batch :: "(outbox_delivery list \<times> outbox_row list) outcome" where
  "sample_batch = claimBatch strict_zod 1000 (\<lambda>_. False) ''worker:a'' (oc_batchSize sample_outbox_config)
     (oc_leaseMs sample_outbox_config) (destinations [(RedisRealtime, \<lambda>_. PublishThrew)]) [sample_row]"


text \<open>C31. The worker's polling cycles never overlap, and shutting down is final: over every history
  of timer and completion events, no timer is armed while a poll runs, and after the module is
  destroyed no further poll starts.\<close>

theorem worker_never_overlaps:
  assumes "worker_inv s" and "enabled_history (worker_step cfg) worker_enabled s (es @ [ModuleDestroy] @ fs)"
  shows "worker_inv (foldl (worker_step cfg) s es) \<and> TimerFires \<notin> set fs"
proof -
  have split: "enabled_history st en t (xs @ ys) \<longleftrightarrow>
      enabled_history st en t xs \<and> enabled_history st en (foldl st t xs) ys" for st en t xs ys
    by (induction xs arbitrary: t) auto
  have inv: "worker_inv (foldl (worker_step cfg) s es)"
    using assms worker.history_keeps by (auto simp: split)
  moreover have "worker_inv (worker_step cfg (foldl (worker_step cfg) s es) ModuleDestroy)"
    using inv by (intro worker.step_keeps) auto
  ultimately show ?thesis using assms(2) aborted_no_poll [of _ cfg fs] by (auto simp: split)
qed

theorem worker_never_overlaps_witness:
  "worker_inv (foldl (worker_step sample_outbox_config)
      \<lparr>ws_aborted = False, ws_timer = None, ws_running = False\<rparr> [ModuleInit, TimerFires]) \<and>
    TimerFires \<notin> set [PollEnds (Inr 50)]"
  by (rule worker_never_overlaps) (simp_all add: worker_inv_def schedule_def)

end
