(* ===== verification/ChatDelivery.thy ===== *)
theory ChatDelivery
  imports ChatOrdering RateLimits RedisKeyspace OutboxRelay
begin

text \<open>
  From the accepted message to the channel: the chat use case (\<open>manage-chat.use-case.ts\<close>) with its quota,
  the durable acceptance and the fast path after it, and the outbox publisher of chat events
  (\<open>chat-outbox.publisher.ts\<close>).
\<close>

section \<open>The event on the wire\<close>

text \<open>\<open>JSON.stringify\<close> of a string and of a message, and the length of its UTF-8 form.\<close>

definition hex_digit :: "nat \<Rightarrow> char" where
  "hex_digit d = (if d < 10 then char_of (48 + d) else char_of (87 + d))"

definition json_char :: "char \<Rightarrow> string" where
  "json_char c =
     (if c = CHR 0x22 then [CHR 0x5C, CHR 0x22]
      else if c = CHR 0x5C then [CHR 0x5C, CHR 0x5C]
      else if c = CHR 0x08 then [CHR 0x5C, CHR ''b'']
      else if c = CHR 0x09 then [CHR 0x5C, CHR ''t'']
      else if c = CHR 0x0A then [CHR 0x5C, CHR ''n'']
      else if c = CHR 0x0C then [CHR 0x5C, CHR ''f'']
      else if c = CHR 0x0D then [CHR 0x5C, CHR ''r'']
      else if of_char c < (32::nat)
      then [CHR 0x5C, CHR ''u'', CHR ''0'', CHR ''0'', hex_digit (of_char c div 16),
        hex_digit (of_char c mod 16)]
      else [c])"

definition json_string :: "string \<Rightarrow> string" where
  "json_string s = [CHR 0x22] @ concat (map json_char s) @ [CHR 0x22]"

definition json_field :: "string \<Rightarrow> string \<Rightarrow> string" where
  "json_field key text = json_string key @ '':'' @ text"

definition stringify_message :: "chat_message \<Rightarrow> string" where
  "stringify_message m =
     ''{'' @ json_field ''eventId'' (json_string (cm_eventId m)) @ '','' @
     json_field ''messageId'' (json_string (cm_messageId m)) @ '','' @
     json_field ''meetingId'' (json_string (cm_meetingId m)) @ '','' @
     json_field ''senderParticipantId'' (json_string (cm_senderParticipantId m)) @ '','' @
     json_field ''position'' (json_string (dec_int (cm_position m))) @ '','' @
     json_field ''clientMessageId'' (json_string (cm_clientMessageId m)) @ '','' @
     json_field ''protocolVersion'' (dec_int (cm_protocolVersion m)) @ '','' @
     json_field ''groupId'' (json_string (cm_groupId m)) @ '','' @
     json_field ''epoch'' (json_string (dec_int (cm_epoch m))) @ '','' @
     json_field ''contentType'' (json_string (content_type_name (cm_contentType m))) @ '','' @
     json_field ''ciphertext'' (json_string (cm_ciphertext m)) @ '','' @
     json_field ''createdAt'' (json_string (cm_createdAt m)) @ ''}''"

text \<open>What travels over a channel, as far as a receiver can see it: the size of the text and the value
  \<open>JSON.parse\<close> makes of it (\<open>None\<close> when it throws). Parsing undoes \<open>JSON.stringify\<close>.\<close>

record wire_event =
  we_bytes :: nat
  we_parsed :: "json option"

definition serialized :: "chat_message \<Rightarrow> wire_event" where
  "serialized m = \<lparr>we_bytes = utf8_length (stringify_message m), we_parsed = Some (JObj (message_payload m))\<rparr>"

section \<open>The publisher of chat events\<close>

text \<open>What the environment does during one call: whether the signal is aborted before and after the
  command, and whether Redis accepts the command.\<close>

record publish_env =
  pe_aborted :: bool
  pe_redis_up :: bool
  pe_aborted_after :: bool

definition chat_publish ::
  "zod \<Rightarrow> chat_config \<Rightarrow> publish_env \<Rightarrow> outbox_delivery \<Rightarrow> publish_result \<times> (string \<times> wire_event) list" where
  "chat_publish z config env delivery =
     (if pe_aborted env then (PublishError ''PUBLISH_ABORTED'', [])
      else if od_eventType delivery \<noteq> ''chat.message.created'' \<or> od_eventVersion delivery \<noteq> 1
      then (PublishError ''EVENT_UNSUPPORTED'', [])
      else case parseChatMessage z (JObj (od_payload delivery)) of
        Inl _ \<Rightarrow> (PublishError ''REDIS_PUBLISH_FAILED'', [])
      | Inr message \<Rightarrow>
          if cm_eventId message \<noteq> od_eventId delivery \<or> cm_meetingId message \<noteq> od_partitionKey delivery
          then (PublishError ''EVENT_SCOPE_INVALID'', [])
          else if int (length (base64url_decode (cm_ciphertext message))) > cc_maxCiphertextBytes config
          then (PublishError ''EVENT_PAYLOAD_INVALID'', [])
          else case meetingChatChannel (cm_meetingId message) of
            Inl _ \<Rightarrow> (PublishError ''REDIS_PUBLISH_FAILED'', [])
          | Inr channel \<Rightarrow>
              if \<not> pe_redis_up env then (PublishError ''REDIS_PUBLISH_FAILED'', [])
              else (if pe_aborted_after env then PublishError ''PUBLISH_ABORTED'' else PublishOk,
                    [(channel, serialized message)]))"

text \<open>The fan-out counter of one call.\<close>

definition publish_metric :: "publish_result \<Rightarrow> string" where
  "publish_metric r = (if r = PublishOk then ''published'' else ''failed'')"

text \<open>The lifecycle hooks: the publisher owns \<open>redis_realtime\<close> while the module is up.\<close>

definition publisher_init :: "(outbox_delivery \<Rightarrow> publish_result) \<Rightarrow> registry \<Rightarrow> registry outcome" where
  "publisher_init h handlers = register handlers RedisRealtime h"

definition publisher_destroy :: "registry \<Rightarrow> registry" where
  "publisher_destroy handlers = unregister handlers RedisRealtime"

lemma chat_publish_sent:
  assumes "chat_publish z config env d = (r, sent)" "sent \<noteq> []"
  shows "\<exists>m. parseChatMessage z (JObj (od_payload d)) = Inr m \<and> cm_eventId m = od_eventId d \<and>
    cm_meetingId m = od_partitionKey d \<and> uuid_format (od_partitionKey d) \<and>
    sent = [(redis_prefix @ '':chat:{'' @ od_partitionKey d @ ''}'', serialized m)]"
  using assms
  by (auto simp: chat_publish_def meetingChatChannel_def assertSegmentUuid_def and_then_Inr_iff
      split: if_splits sum.splits)

lemma chat_publish_ok_sent:
  "chat_publish z config env d = (PublishOk, sent) \<Longrightarrow> sent \<noteq> []"
  by (auto simp: chat_publish_def split: if_splits sum.splits)

section \<open>The use case\<close>

datatype command_metric = Accepted | Replayed | Rejected

text \<open>\<open>accept\<close>: the quota first, then the transaction. The repository call is given by its result on
  the database, a unit of work that has run to its end.\<close>

definition manage_accept ::
  "rate_decision \<times> chat_limiter \<Rightarrow> (database \<Rightarrow> accepted_message outcome \<times> database) \<Rightarrow> database
     \<Rightarrow> accepted_message outcome \<times> command_metric \<times> chat_limiter \<times> database" where
  "manage_accept consumed repository_accept db =
     (case consumed of (decision, limiter) \<Rightarrow>
       if \<not> rd_allowed decision
       then (Inl (app_failure_with ''CHAT_RATE_LIMITED'' RateLimited
               ''The participant chat rate limit was reached.''
               [(''retryAfterMs'', JInt (rd_retryAfterMs decision)),
                (''degraded'', JBool (rd_degraded decision))]), Rejected, limiter, db)
       else case repository_accept db of
         (Inr accepted, db') \<Rightarrow>
           (Inr accepted, if am_replayed accepted then Replayed else Accepted, limiter, db')
       | (Inl e, db') \<Rightarrow> (Inl e, Rejected, limiter, db'))"

text \<open>How a statement outside a transaction ends: it runs and its reply arrives, it runs and the reply
  is lost, or it never runs.\<close>

datatype statement_fate = Executed | ReplyLost | NotExecuted

definition with_fate :: "statement_fate \<Rightarrow> ('s \<Rightarrow> 'a outcome \<times> 's) \<Rightarrow> 's \<Rightarrow> 'a outcome \<times> 's" where
  "with_fate fate statement s =
     (case fate of
       Executed \<Rightarrow> statement s
     | ReplyLost \<Rightarrow> (Inl (DependencyFault ''connection lost''), snd (statement s))
     | NotExecuted \<Rightarrow> (Inl (DependencyFault ''connection lost''), s))"

record fast_env =
  fe_publish :: publish_env
  fe_ack :: statement_fate
  fe_ack_at :: instant
  fe_fail :: statement_fate
  fe_fail_at :: instant

definition publishFastPath ::
  "zod \<Rightarrow> chat_config \<Rightarrow> outbox_config \<Rightarrow> fast_env \<Rightarrow> string \<Rightarrow> accepted_message \<Rightarrow> outbox_row list
     \<Rightarrow> outbox_row list \<times> (string \<times> wire_event) list" where
  "publishFastPath z config outbox env fastPathOwner accepted rows =
     (case am_delivery accepted of
       None \<Rightarrow> (rows, [])
     | Some delivery \<Rightarrow>
         let i = od_deliveryId delivery;
             failed = (\<lambda>rows. snd (with_fate (fe_fail env)
               (markFailed (fe_fail_at env) i fastPathOwner ''CHAT_FAST_PATH_FAILED''
                 (oc_baseRetryMs outbox) (oc_maxAttempts outbox)) rows))
         in case chat_publish z config (fe_publish env) delivery of
           (PublishOk, sent) \<Rightarrow>
             (case with_fate (fe_ack env) (markPublished (fe_ack_at env) i fastPathOwner) rows of
               (Inr _, rows') \<Rightarrow> (rows', sent)
             | (Inl _, rows') \<Rightarrow> (failed rows', sent))
         | (_, sent) \<Rightarrow> (failed rows, sent))"

definition normalize_limit :: "chat_config \<Rightarrow> int \<Rightarrow> int" where
  "normalize_limit config limit = min (max 1 limit) (cc_historyPageMax config)"

definition synchronize :: "zod \<Rightarrow> chat_config \<Rightarrow> chat_env \<Rightarrow> history_query \<Rightarrow> int \<Rightarrow> database \<Rightarrow> chat_page outcome" where
  "synchronize z config env query limit db =
     readPage z env (query\<lparr>hq_limit := nat (normalize_limit config limit)\<rparr>) db"

section \<open>What the fast path does to the table\<close>

lemma with_fate_snd: "snd (with_fate fate statement s) = (if fate = NotExecuted then s else snd (statement s))"
  by (cases fate) (auto simp: with_fate_def)

lemma with_fate_Inr: "fst (with_fate fate statement s) = Inr x \<Longrightarrow> fate = Executed \<and> fst (statement s) = Inr x"
  by (cases fate) (auto simp: with_fate_def)

lemma markPublished_map:
  "\<exists>f. snd (markPublished now i w rows) = map f rows \<and>
     (\<forall>r. f r = r \<or> owned_and_live now i w r \<and> f r = set_published now r)"
proof (cases "and_then (assertUuid i ''delivery ID'') (\<lambda>_. assertWorkerId w)")
  case (Inl e)
  then show ?thesis by (intro exI [of _ id]) (simp add: markPublished_def)
next
  case (Inr u)
  then show ?thesis
    by (intro exI [of _ "\<lambda>r. if owned_and_live now i w r then set_published now r else r"])
      (auto simp: markPublished_def update_where_def Let_def)
qed

lemma markFailed_map:
  "\<exists>f. snd (markFailed now i w code delay n rows) = map f rows \<and>
     (\<forall>r. f r = r \<or> owned i w r \<and> f r = set_failed now code delay n r)"
proof (cases "isl (fst (markFailed now i w code delay n rows)) \<and> snd (markFailed now i w code delay n rows) = rows")
  case True
  then show ?thesis by (intro exI [of _ id]) simp
next
  case False
  then show ?thesis
    by (intro exI [of _ "\<lambda>r. if owned i w r then set_failed now code delay n r else r"])
      (auto simp: markFailed_def update_where_def Let_def split: sum.splits)
qed

text \<open>Row by row: a row is left alone, or it is the accepted delivery, still leased by the fast path,
  and is either acknowledged after the event was sent or handed back for a retry.\<close>

definition fast_path_change ::
  "outbox_config \<Rightarrow> fast_env \<Rightarrow> string \<Rightarrow> accepted_message \<Rightarrow> bool \<Rightarrow> outbox_row \<Rightarrow> outbox_row \<Rightarrow> bool" where
  "fast_path_change outbox env owner a published r r' =
     (r' = r \<or>
      (\<exists>d. am_delivery a = Some d \<and> ob_delivery_id r = od_deliveryId d \<and> ob_locked_by r = Some owner \<and>
        ob_published_at r = None \<and> ob_dead_at r = None \<and>
        ((published \<and> r' = set_published (fe_ack_at env) r) \<or>
         r' = set_failed (fe_fail_at env) ''CHAT_FAST_PATH_FAILED'' (oc_baseRetryMs outbox)
           (oc_maxAttempts outbox) r)))"

lemma fast_path_rows:
  assumes "publishFastPath z config outbox env owner a rows = (rows', sent)"
  shows "\<exists>f. rows' = map f rows \<and> (\<forall>r. fast_path_change outbox env owner a
    (\<exists>d. am_delivery a = Some d \<and> chat_publish z config (fe_publish env) d = (PublishOk, sent)) r (f r))"
proof (cases "am_delivery a")
  case None
  then show ?thesis using assms
    by (intro exI [of _ id]) (auto simp: publishFastPath_def fast_path_change_def)
next
  case (Some d)
  let ?i = "od_deliveryId d"
  let ?pub = "\<exists>d. am_delivery a = Some d \<and> chat_publish z config (fe_publish env) d = (PublishOk, sent)"
  let ?fail = "\<lambda>rows. snd (with_fate (fe_fail env) (markFailed (fe_fail_at env) ?i owner
      ''CHAT_FAST_PATH_FAILED'' (oc_baseRetryMs outbox) (oc_maxAttempts outbox)) rows)"
  have fail: "\<exists>f. ?fail rows = map f rows \<and> (\<forall>r. f r = r \<or> owned ?i owner r \<and>
      f r = set_failed (fe_fail_at env) ''CHAT_FAST_PATH_FAILED'' (oc_baseRetryMs outbox)
        (oc_maxAttempts outbox) r)" for rows
    unfolding with_fate_snd
    using markFailed_map [of "fe_fail_at env" ?i owner "''CHAT_FAST_PATH_FAILED''" "oc_baseRetryMs outbox"
        "oc_maxAttempts outbox" rows] by (cases "fe_fail env = NotExecuted") (simp_all, metis map_ident)
  have ack: "\<exists>f. snd (with_fate (fe_ack env) (markPublished (fe_ack_at env) ?i owner) rows) = map f rows \<and>
      (\<forall>r. f r = r \<or> owned_and_live (fe_ack_at env) ?i owner r \<and> f r = set_published (fe_ack_at env) r)" for rows
    unfolding with_fate_snd using markPublished_map [of "fe_ack_at env" ?i owner rows]
    by (cases "fe_ack env = NotExecuted") (simp_all, metis map_ident)
  obtain r snt where pub: "chat_publish z config (fe_publish env) d = (r, snt)" by force
  show ?thesis
  proof (cases "r = PublishOk")
    case True
    from ack [of rows] obtain f where f: "snd (with_fate (fe_ack env) (markPublished (fe_ack_at env) ?i owner) rows) = map f rows"
      "\<And>r. f r = r \<or> owned_and_live (fe_ack_at env) ?i owner r \<and> f r = set_published (fe_ack_at env) r" by blast
    from fail [of "map f rows"] obtain g where g: "?fail (map f rows) = map g (map f rows)"
      "\<And>r. g r = r \<or> owned ?i owner r \<and> g r = set_failed (fe_fail_at env) ''CHAT_FAST_PATH_FAILED''
        (oc_baseRetryMs outbox) (oc_maxAttempts outbox) r" by blast
    have sent: "sent = snt" and rows: "rows' = map f rows \<or> rows' = map (g \<circ> f) rows"
      using assms Some pub True f(1) g(1)
      by (auto simp: publishFastPath_def Let_def split: prod.splits sum.splits)
    have p: ?pub using Some pub True sent by simp
    have one: "fast_path_change outbox env owner a ?pub r (f r)" for r
      using f(2) [of r] Some p by (auto simp: fast_path_change_def owned_and_live_def)
    have two: "fast_path_change outbox env owner a ?pub r (g (f r))" for r
    proof (cases "f r = r")
      case True
      then show ?thesis using g(2) [of r] Some by (auto simp: fast_path_change_def owned_def)
    next
      case False
      then have "f r = set_published (fe_ack_at env) r" using f(2) [of r] by blast
      then have "g (f r) = f r" using g(2) [of "f r"] by (auto simp: owned_def set_published_def)
      then show ?thesis using one [of r] by simp
    qed
    show ?thesis using rows
    proof
      assume "rows' = map f rows"
      then show ?thesis using one by blast
    next
      assume "rows' = map (g \<circ> f) rows"
      then show ?thesis using two by (intro exI [of _ "g \<circ> f"]) simp
    qed
  next
    case False
    from fail [of rows] obtain g where g: "?fail rows = map g rows"
      "\<And>r. g r = r \<or> owned ?i owner r \<and> g r = set_failed (fe_fail_at env) ''CHAT_FAST_PATH_FAILED''
        (oc_baseRetryMs outbox) (oc_maxAttempts outbox) r" by blast
    have "rows' = map g rows"
      using assms Some pub False g(1) by (cases r) (auto simp: publishFastPath_def Let_def)
    moreover have "fast_path_change outbox env owner a ?pub r (g r)" for r
      using g(2) [of r] Some by (auto simp: fast_path_change_def owned_def)
    ultimately show ?thesis by blast
  qed
qed

section \<open>An accepted message is not lost\<close>

lemma append_message_delivery:
  assumes "append_message z sha256 config env command owner policy db = Inr (a, db')"
  shows "\<exists>d. am_delivery a = Some d \<and> od_deliveryId d = new_delivery_id env \<and>
    od_eventId d = cm_eventId (am_message a) \<and> od_partitionKey d = cm_meetingId (am_message a) \<and>
    od_payload d = message_payload (am_message a) \<and> od_eventType d = ''chat.message.created'' \<and>
    od_eventVersion d = 1"
  using assms by (auto simp: append_message_def insertOutbox_def outcome_iffs Let_def)

lemma fresh_delivery:
  assumes "chat_accept z sha256 config env command owner db = Inr (a, db')" "\<not> am_replayed a"
    and "chat_inv (waited env db)"
  obtains d row where "am_delivery a = Some d" "od_deliveryId d = new_delivery_id env"
    "od_eventId d = cm_eventId (am_message a)" "od_partitionKey d = cm_meetingId (am_message a)"
    "od_payload d = message_payload (am_message a)" "od_eventType d = ''chat.message.created''"
    "od_eventVersion d = 1"
    "am_message a = row_message row" "messageRowSchema z row" "c_position row \<le> MAX_SIGNED_BIGINT"
    "c_ciphertext row = sm_ciphertext command" "c_e2ee_epoch row = sm_epoch command"
    "c_created_at row = clk env 4" "1 \<le> length (sm_ciphertext command)"
    "new_outbox_row config (new_delivery_id env) (clk env 5) (am_message a) owner \<in> set (outbox_events db')"
  using assms(1)
proof (cases rule: chat_accept_cases)
  case replay
  then show ?thesis using assms(2) by simp
next
  case (fresh policy role)
  have dist: "distinct (map sh_meeting_id (stream_heads (waited env db)))"
    using assms(3) by (simp add: chat_inv_def heads_inv_def)
  from append_message_delivery [OF fresh(6)] obtain d where d: "am_delivery a = Some d"
    "od_deliveryId d = new_delivery_id env" "od_eventId d = cm_eventId (am_message a)"
    "od_partitionKey d = cm_meetingId (am_message a)" "od_payload d = message_payload (am_message a)"
    "od_eventType d = ''chat.message.created''" "od_eventVersion d = 1" by blast
  obtain position row orow where row:
    "position \<le> MAX_SIGNED_BIGINT"
    "row = new_chat_row sha256 config (new_message_id env) (clk env 4) command position"
    "orow = new_outbox_row config (new_delivery_id env) (clk env 5) (row_message row) owner"
    "chat_row_checks row" "messageRowSchema z row" "am_message a = row_message row"
    "orow \<in> set (outbox_events db')"
  proof (rule append_message_cases [OF fresh(6) dist], goal_cases)
    case (1 position row orow)
    have "orow \<in> set (outbox_events db')" unfolding 1(15) by simp
    with 1 show ?case by (intro 1(1)) assumption+
  qed
  show ?thesis
    by (rule that [OF d row(6,5)]) (use row in \<open>simp_all add: new_chat_row_def chat_row_checks_def\<close>)
qed

lemma accepted_event_parses:
  assumes "parseChatMessage z (JObj (message_payload m)) = Inr m'"
  shows "m' = m"
  using assms chatMessageSchema_inverse by (auto simp: parseChatMessage_def)


definition sample_outbox :: outbox_config where
  "sample_outbox = \<lparr>oc_batchSize = 50, oc_concurrency = 5, oc_leaseMs = 30000, oc_maxAttempts = 8,
     oc_baseRetryMs = 500, oc_maxRetryMs = 60000, oc_pollIntervalMs = 250\<rparr>"

definition sample_fast_env :: fast_env where
  "sample_fast_env = \<lparr>fe_publish = \<lparr>pe_aborted = False, pe_redis_up = True, pe_aborted_after = False\<rparr>,
     fe_ack = Executed, fe_ack_at = 1010, fe_fail = Executed, fe_fail_at = 1010\<rparr>"


end
