(* ===== verification/RealtimeProtocol.thy ===== *)
theory RealtimeProtocol
  imports ChatDelivery Presence
begin

text \<open>
  The frames of the realtime protocol (\<open>realtime-protocol.ts\<close>, \<open>realtime-protocol.types.ts\<close>): the strict
  schema of the six commands, the envelopes of the server and the admission of an upgrade
  (\<open>secure-websocket.adapter.ts\<close>). A frame is what \<open>JSON.parse\<close> makes of it, \<open>None\<close> when it throws.
\<close>

section \<open>Commands\<close>

record chat_subscription =
  cs_deviceId :: uuid
  cs_afterPosition :: "int option"
  cs_limit :: "int option"

record chat_sync =
  cy_deviceId :: uuid
  cy_afterPosition :: int
  cy_limit :: "int option"

datatype client_message =
  SessionAuthenticate uuid string string
| RoomSubscribe uuid "chat_subscription option"
| ChatSubmit uuid submit_payload
| ChatSyncRequest uuid chat_sync
| PresenceHeartbeat uuid "string option"
| Ping uuid "int option"

fun message_id :: "client_message \<Rightarrow> uuid" where
  "message_id (SessionAuthenticate i _ _) = i"
| "message_id (RoomSubscribe i _) = i"
| "message_id (ChatSubmit i _) = i"
| "message_id (ChatSyncRequest i _) = i"
| "message_id (PresenceHeartbeat i _) = i"
| "message_id (Ping i _) = i"

fun message_type :: "client_message \<Rightarrow> string" where
  "message_type (SessionAuthenticate _ _ _) = ''session.authenticate''"
| "message_type (RoomSubscribe _ _) = ''room.subscribe''"
| "message_type (ChatSubmit _ _) = ''chat.message.submit''"
| "message_type (ChatSyncRequest _ _) = ''chat.sync.request''"
| "message_type (PresenceHeartbeat _ _) = ''presence.heartbeat''"
| "message_type (Ping _ _) = ''ping''"

section \<open>Their schema\<close>

text \<open>\<open>.optional()\<close>: an absent key is accepted, a present one must satisfy the schema.\<close>

definition optional_field :: "(json \<Rightarrow> 'a option) \<Rightarrow> (string \<times> json) list \<Rightarrow> string \<Rightarrow> 'a option option" where
  "optional_field schema obj k =
     (case field obj k of None \<Rightarrow> Some None | Some v \<Rightarrow> map_option Some (schema v))"

definition int_schema :: "int \<Rightarrow> int \<Rightarrow> json \<Rightarrow> int option" where
  "int_schema lo hi v = guarded (\<lambda>n. lo \<le> n \<and> n \<le> hi) (as_int v)"

definition MAX_SAFE_INTEGER :: int where "MAX_SAFE_INTEGER = 9007199254740991"

definition position_schema :: "json \<Rightarrow> int option" where
  "position_schema v = Option.bind (as_string v) chatPositionSchema"

definition chatSubscriptionPayloadSchema :: "zod \<Rightarrow> json \<Rightarrow> chat_subscription option" where
  "chatSubscriptionPayloadSchema z v =
     (case v of
       JObj obj \<Rightarrow>
         (case (guarded (z_uuid z) (string_field obj ''deviceId''),
                optional_field position_schema obj ''afterPosition'',
                optional_field (int_schema 1 500) obj ''limit'') of
           (Some device, Some after, Some limit) \<Rightarrow>
             if strict_keys [''deviceId'', ''afterPosition'', ''limit''] obj
             then Some \<lparr>cs_deviceId = device, cs_afterPosition = after, cs_limit = limit\<rparr> else None
         | _ \<Rightarrow> None)
     | _ \<Rightarrow> None)"

definition chatSyncPayloadSchema :: "zod \<Rightarrow> json \<Rightarrow> chat_sync option" where
  "chatSyncPayloadSchema z v =
     (case v of
       JObj obj \<Rightarrow>
         (case (guarded (z_uuid z) (string_field obj ''deviceId''),
                Option.bind (field obj ''afterPosition'') position_schema,
                optional_field (int_schema 1 500) obj ''limit'') of
           (Some device, Some after, Some limit) \<Rightarrow>
             if strict_keys [''deviceId'', ''afterPosition'', ''limit''] obj
             then Some \<lparr>cy_deviceId = device, cy_afterPosition = after, cy_limit = limit\<rparr> else None
         | _ \<Rightarrow> None)
     | _ \<Rightarrow> None)"

definition digits :: "string \<Rightarrow> bool" where
  "digits s = (s \<noteq> [] \<and> list_all is_digit s)"

text \<open>The payload of the command named by the discriminator.\<close>

definition payload_schema :: "zod \<Rightarrow> string \<Rightarrow> uuid \<Rightarrow> (string \<times> json) list \<Rightarrow> client_message option" where
  "payload_schema z type i obj =
     (if type = ''session.authenticate''
      then (case (guarded BASE64URL_256 (string_field obj ''ticket''),
                  guarded BASE64URL_256 (string_field obj ''deviceBinding'')) of
          (Some ticket, Some binding) \<Rightarrow>
            if strict_keys [''ticket'', ''deviceBinding''] obj
            then Some (SessionAuthenticate i ticket binding) else None
        | _ \<Rightarrow> None)
      else if type = ''room.subscribe''
      then (if strict_keys [''chat''] obj
            then map_option (RoomSubscribe i) (optional_field (chatSubscriptionPayloadSchema z) obj ''chat'')
            else None)
      else if type = ''chat.message.submit''
      then map_option (ChatSubmit i) (chatSubmitPayloadSchema z (JObj obj))
      else if type = ''chat.sync.request''
      then map_option (ChatSyncRequest i) (chatSyncPayloadSchema z (JObj obj))
      else if type = ''presence.heartbeat''
      then (if strict_keys [''lastRevision''] obj
            then map_option (PresenceHeartbeat i)
              (optional_field (\<lambda>v. guarded digits (as_string v)) obj ''lastRevision'')
            else None)
      else if type = ''ping''
      then (if strict_keys [''clientTimeMs''] obj
            then map_option (Ping i)
              (optional_field (int_schema 0 MAX_SAFE_INTEGER) obj ''clientTimeMs'')
            else None)
      else None)"

definition realtimeClientMessageSchema :: "zod \<Rightarrow> json \<Rightarrow> client_message option" where
  "realtimeClientMessageSchema z v =
     (case v of
       JObj obj \<Rightarrow>
         (case (guarded (z_uuid z) (string_field obj ''id''), string_field obj ''type'', field obj ''payload'') of
           (Some i, Some type, Some (JObj payload)) \<Rightarrow>
             if strict_keys [''v'', ''id'', ''type'', ''payload''] obj \<and> field obj ''v'' = Some (JInt 1)
             then payload_schema z type i payload else None
         | _ \<Rightarrow> None)
     | _ \<Rightarrow> None)"

definition invalidFrame :: failure where
  "invalidFrame = app_failure ''REALTIME_FRAME_INVALID'' Validation ''The realtime command is invalid.''"

definition parseRealtimeClientMessage :: "zod \<Rightarrow> json option \<Rightarrow> client_message outcome" where
  "parseRealtimeClientMessage z frame = require (Option.bind frame (realtimeClientMessageSchema z)) invalidFrame"

section \<open>The commands a client can write\<close>

definition optional_entry :: "string \<Rightarrow> ('a \<Rightarrow> json) \<Rightarrow> 'a option \<Rightarrow> (string \<times> json) list" where
  "optional_entry k f x = (case x of None \<Rightarrow> [] | Some v \<Rightarrow> [(k, f v)])"

definition position_json :: "int \<Rightarrow> json" where "position_json p = JStr (dec_int p)"

definition subscription_json :: "chat_subscription \<Rightarrow> json" where
  "subscription_json c = JObj ((''deviceId'', JStr (cs_deviceId c)) #
     optional_entry ''afterPosition'' position_json (cs_afterPosition c) @
     optional_entry ''limit'' JInt (cs_limit c))"

definition submit_json :: "submit_payload \<Rightarrow> (string \<times> json) list" where
  "submit_json p =
     [(''clientMessageId'', JStr (sp_clientMessageId p)), (''deviceId'', JStr (sp_deviceId p)),
      (''groupId'', JStr (sp_groupId p)), (''epoch'', position_json (sp_epoch p)),
      (''protocolVersion'', JInt (sp_protocolVersion p)),
      (''contentType'', JStr (content_type_name (sp_contentType p))), (''ciphertext'', JStr (sp_ciphertext p))]"

fun payload_of :: "client_message \<Rightarrow> (string \<times> json) list" where
  "payload_of (SessionAuthenticate _ t b) = [(''ticket'', JStr t), (''deviceBinding'', JStr b)]"
| "payload_of (RoomSubscribe _ c) = optional_entry ''chat'' subscription_json c"
| "payload_of (ChatSubmit _ p) = submit_json p"
| "payload_of (ChatSyncRequest _ y) =
     (''deviceId'', JStr (cy_deviceId y)) # (''afterPosition'', position_json (cy_afterPosition y)) #
     optional_entry ''limit'' JInt (cy_limit y)"
| "payload_of (PresenceHeartbeat _ r) = optional_entry ''lastRevision'' JStr r"
| "payload_of (Ping _ t) = optional_entry ''clientTimeMs'' JInt t"

definition client_json :: "client_message \<Rightarrow> json" where
  "client_json m = JObj [(''v'', JInt 1), (''id'', JStr (message_id m)), (''type'', JStr (message_type m)),
     (''payload'', JObj (payload_of m))]"

definition position_ok :: "int \<Rightarrow> bool" where "position_ok p = (0 \<le> p \<and> p \<le> MAX_SIGNED_BIGINT)"

fun client_ok :: "zod \<Rightarrow> client_message \<Rightarrow> bool" where
  "client_ok z (SessionAuthenticate i t b) = (z_uuid z i \<and> BASE64URL_256 t \<and> BASE64URL_256 b)"
| "client_ok z (RoomSubscribe i c) =
     (z_uuid z i \<and> pred_option (\<lambda>c. z_uuid z (cs_deviceId c) \<and> pred_option position_ok (cs_afterPosition c) \<and>
       pred_option (\<lambda>n. 1 \<le> n \<and> n \<le> 500) (cs_limit c)) c)"
| "client_ok z (ChatSubmit i p) =
     (z_uuid z i \<and> z_uuid z (sp_clientMessageId p) \<and> z_uuid z (sp_deviceId p) \<and> z_uuid z (sp_groupId p) \<and>
      position_ok (sp_epoch p) \<and> sp_protocolVersion p = 1 \<and> sp_contentType p \<noteq> CSystem \<and>
      canonicalBase64UrlSchema (sp_ciphertext p))"
| "client_ok z (ChatSyncRequest i y) =
     (z_uuid z i \<and> z_uuid z (cy_deviceId y) \<and> position_ok (cy_afterPosition y) \<and>
      pred_option (\<lambda>n. 1 \<le> n \<and> n \<le> 500) (cy_limit y))"
| "client_ok z (PresenceHeartbeat i r) = (z_uuid z i \<and> pred_option digits r)"
| "client_ok z (Ping i t) = (z_uuid z i \<and> pred_option (\<lambda>n. 0 \<le> n \<and> n \<le> MAX_SAFE_INTEGER) t)"

lemma position_schema_json [simp]: "position_ok p \<Longrightarrow> position_schema (position_json p) = Some p"
  by (simp add: position_schema_def position_json_def position_ok_def chatPositionSchema_dec)

lemma position_schema_ok: "position_schema v = Some p \<Longrightarrow> position_ok p"
  by (auto simp: position_schema_def position_ok_def Option.bind_eq_Some_conv dest: chatPositionSchema_canonical)

lemma int_schema_JInt [simp]: "int_schema lo hi (JInt n) = (if lo \<le> n \<and> n \<le> hi then Some n else None)"
  by (simp add: int_schema_def)

lemma int_schema_ok: "int_schema lo hi v = Some n \<Longrightarrow> lo \<le> n \<and> n \<le> hi"
  by (simp add: int_schema_def)

lemma optional_field_ok:
  "optional_field schema obj k = Some x \<Longrightarrow> (\<And>v y. schema v = Some y \<Longrightarrow> P y) \<Longrightarrow> pred_option P x"
  by (auto simp: optional_field_def split: option.splits)

lemma chatTypeSchema_client: "chatContentTypeSchema s = Some c \<Longrightarrow> c \<noteq> CSystem"
  by (auto simp: chatContentTypeSchema_def split: if_splits)

lemma subscription_schema_json:
  assumes "client_ok z (RoomSubscribe i (Some c))"
  shows "chatSubscriptionPayloadSchema z (subscription_json c) = Some c"
  using assms
  by (cases c; cases "cs_afterPosition c"; cases "cs_limit c")
    (simp_all add: chatSubscriptionPayloadSchema_def subscription_json_def optional_entry_def optional_field_def
      field_def string_field_def strict_keys_def)

lemma subscription_schema_ok:
  assumes "chatSubscriptionPayloadSchema z v = Some c" "z_uuid z i"
  shows "client_ok z (RoomSubscribe i (Some c))"
  using assms
  by (auto simp: chatSubscriptionPayloadSchema_def intro: position_schema_ok dest: int_schema_ok elim!: optional_field_ok
      split: json.splits option.splits if_splits)

lemma payload_schema_json:
  assumes "client_ok z m"
  shows "payload_schema z (message_type m) (message_id m) (payload_of m) = Some m"
proof (cases m)
  case (RoomSubscribe i c)
  show ?thesis
  proof (cases c)
    case (Some s)
    with assms RoomSubscribe subscription_schema_json [of z i s] show ?thesis
      by (simp add: payload_schema_def optional_entry_def optional_field_def field_def strict_keys_def)
  qed (simp add: RoomSubscribe payload_schema_def optional_entry_def optional_field_def field_def strict_keys_def)
next
  case (ChatSubmit i p)
  then show ?thesis using assms
    by (cases p) (simp add: payload_schema_def chatSubmitPayloadSchema_def submit_json_def field_def string_field_def
        strict_keys_def submit_keys_def position_json_def position_ok_def chatPositionSchema_dec
        chatContentTypeSchema_name)
next
  case (ChatSyncRequest i y)
  then show ?thesis using assms
    by (cases y; cases "cy_limit y") (simp_all add: payload_schema_def chatSyncPayloadSchema_def optional_entry_def
        optional_field_def field_def string_field_def strict_keys_def)
next
  case (PresenceHeartbeat i r)
  then show ?thesis using assms
    by (cases r) (simp_all add: payload_schema_def optional_entry_def optional_field_def field_def strict_keys_def)
next
  case (Ping i t)
  then show ?thesis using assms
    by (cases t) (simp_all add: payload_schema_def optional_entry_def optional_field_def field_def strict_keys_def)
qed (use assms in \<open>simp add: payload_schema_def field_def string_field_def strict_keys_def\<close>)

lemma submit_schema_ok:
  assumes "chatSubmitPayloadSchema z v = Some p" "z_uuid z i"
  shows "client_ok z (ChatSubmit i p)"
  using assms
  by (auto simp: chatSubmitPayloadSchema_def position_ok_def Option.bind_eq_Some_conv
      dest: chatPositionSchema_canonical chatTypeSchema_client split: json.splits option.splits if_splits)

lemma sync_schema_ok:
  assumes "chatSyncPayloadSchema z v = Some y" "z_uuid z i"
  shows "client_ok z (ChatSyncRequest i y)"
  using assms
  by (auto simp: chatSyncPayloadSchema_def Option.bind_eq_Some_conv intro: position_schema_ok dest: int_schema_ok
      elim!: optional_field_ok split: json.splits option.splits if_splits)

lemma subscribe_ok:
  assumes "optional_field (chatSubscriptionPayloadSchema z) obj k = Some c" "z_uuid z i"
  shows "client_ok z (RoomSubscribe i c)"
  using assms subscription_schema_ok [of z _ _ i] by (fastforce simp: optional_field_def split: option.splits)

lemma payload_schema_ok:
  assumes "payload_schema z type i obj = Some m" "z_uuid z i"
  shows "client_ok z m \<and> message_id m = i \<and> message_type m = type"
  using assms
  by (auto simp: payload_schema_def split: if_splits option.splits simp del: client_ok.simps(2-4)
      intro: submit_schema_ok sync_schema_ok subscribe_ok elim!: optional_field_ok int_schema_ok)


section \<open>Envelopes of the server\<close>

record server_message =
  sv_id :: "uuid option"
  sv_type :: string
  sv_payload :: "(string \<times> json) list"

definition realtimeResult :: "uuid \<Rightarrow> string \<Rightarrow> (string \<times> json) list \<Rightarrow> server_message" where
  "realtimeResult i type payload = \<lparr>sv_id = Some i, sv_type = type, sv_payload = payload\<rparr>"

definition realtimeEvent :: "string \<Rightarrow> (string \<times> json) list \<Rightarrow> server_message" where
  "realtimeEvent type payload = \<lparr>sv_id = None, sv_type = type, sv_payload = payload\<rparr>"

text \<open>\<open>JSON.stringify\<close>; the text of a number that is not an integer is \<open>number\<close>, and no envelope of the
  server holds one.\<close>

fun comma_separated :: "string list \<Rightarrow> string" where
  "comma_separated [] = ''''"
| "comma_separated [t] = t"
| "comma_separated (t # ts) = t @ '','' @ comma_separated ts"

fun stringify :: "(rat \<Rightarrow> string) \<Rightarrow> json \<Rightarrow> string" where
  "stringify number JNull = ''null''"
| "stringify number (JBool b) = (if b then ''true'' else ''false'')"
| "stringify number (JInt i) = dec_int i"
| "stringify number (JFrac q) = number q"
| "stringify number (JStr s) = json_string s"
| "stringify number (JArr vs) = ''['' @ comma_separated (map (stringify number) vs) @ '']''"
| "stringify number (JObj fs) =
     ''{'' @ comma_separated (map (\<lambda>(k, v). json_field k (stringify number v)) fs) @ ''}''"

definition server_json :: "server_message \<Rightarrow> json" where
  "server_json m = JObj ((''v'', JInt 1) # optional_entry ''id'' JStr (sv_id m) @
     [(''type'', JStr (sv_type m)), (''payload'', JObj (sv_payload m))])"

definition snapshot_json :: "presence_snapshot \<Rightarrow> json" where
  "snapshot_json s = JObj
     [(''revision'', JStr (dec_int (ss_revision s))),
      (''status'', JStr (if ss_available s then ''available'' else ''unknown'')),
      (''participants'', JArr (map (\<lambda>(p, role). JObj
        [(''participantId'', JStr p), (''productRole'', JStr (role_name role)), (''state'', JStr ''online'')])
        (ss_participants s))),
      (''truncated'', JBool (ss_truncated s))]"

definition page_json :: "chat_page \<Rightarrow> (string \<times> json) list" where
  "page_json p =
     [(''messages'', JArr (map (JObj \<circ> message_payload) (cp_messages p))),
      (''nextAfterPosition'', position_json (cp_nextAfterPosition p)),
      (''highWatermark'', position_json (cp_highWatermark p)), (''hasMore'', JBool (cp_hasMore p))]"

definition room_snapshot :: "uuid \<Rightarrow> principal \<Rightarrow> presence_snapshot \<Rightarrow> chat_page option \<Rightarrow> server_message" where
  "room_snapshot i who snapshot page = realtimeResult i ''room.snapshot''
     [(''meetingId'', JStr (pr_meetingId who)), (''mode'', JStr (mode_name (pr_meetingMode who))),
      (''presence'', snapshot_json snapshot),
      (''chat'', JObj (case page of
         None \<Rightarrow> [(''status'', JStr ''not_requested'')]
       | Some p \<Rightarrow> (''status'', JStr ''available'') # page_json p))]"

definition message_accepted :: "uuid \<Rightarrow> accepted_message \<Rightarrow> server_message" where
  "message_accepted i a = (let m = am_message a in realtimeResult i ''chat.message.accepted''
     [(''clientMessageId'', JStr (cm_clientMessageId m)), (''messageId'', JStr (cm_messageId m)),
      (''position'', position_json (cm_position m)), (''createdAt'', JStr (cm_createdAt m)),
      (''replayed'', JBool (am_replayed a))])"

definition presence_status :: "bool \<Rightarrow> json" where
  "presence_status available = JStr (if available then ''available'' else ''unknown'')"

definition session_authenticated :: "uuid \<Rightarrow> principal \<Rightarrow> bool \<Rightarrow> server_message" where
  "session_authenticated i who available = realtimeResult i ''session.authenticated''
     [(''meetingId'', JStr (pr_meetingId who)), (''participantId'', JStr (pr_participantId who)),
      (''role'', JStr (role_name (pr_productRole who))), (''mode'', JStr (mode_name (pr_meetingMode who))),
      (''presenceStatus'', presence_status available)]"

section \<open>Admission of an upgrade\<close>

record upgrade_request =
  ur_url :: string
  ur_origin :: string
  ur_protocolHeader :: "string option"
  ur_protocols :: "string list"

definition REALTIME_PATH :: string where "REALTIME_PATH = ''/v1/realtime''"
definition REALTIME_PROTOCOL :: string where "REALTIME_PROTOCOL = ''hf-realtime.v1''"

definition verifyClient :: "bool \<Rightarrow> string \<Rightarrow> string \<Rightarrow> string list \<Rightarrow> upgrade_request \<Rightarrow> bool" where
  "verifyClient acceptsTraffic path protocol allowedOrigins r =
     (acceptsTraffic \<and> ur_url r = path \<and> ur_origin r \<in> set allowedOrigins \<and> ur_protocolHeader r = Some protocol)"

text \<open>\<open>handleProtocols\<close>, over the distinct protocols of the header: the one selected, \<open>None\<close> for \<open>false\<close>.\<close>

definition handleProtocols :: "string \<Rightarrow> string list \<Rightarrow> string option" where
  "handleProtocols protocol protocols = (if protocols = [protocol] then Some protocol else None)"

text \<open>The key of a source address: \<open>proxyaddr\<close> is the trusted-proxy walk of its package.\<close>

definition resolveKey ::
  "(string \<Rightarrow> string) \<Rightarrow> (string list \<Rightarrow> 'r \<Rightarrow> string) \<Rightarrow> string list \<Rightarrow> 'r \<Rightarrow> string option \<Rightarrow> string" where
  "resolveKey sha256hex proxyaddr trustedProxyCidrs request remoteAddress =
     sha256hex (if trustedProxyCidrs = [] then or_else remoteAddress ''unknown''
       else proxyaddr trustedProxyCidrs request)"

end
