(* ===== verification/EventSize.thy ===== *)
theory EventSize
  imports ChatDelivery
begin

text \<open>
  How large a chat event can become: the bound that the configuration of ciphertext and frame sizes
  relies on (\<open>platform/config/chat-config-loader.ts\<close>).
\<close>


text \<open>Text that \<open>JSON.stringify\<close> copies: printable ASCII without quote and backslash.\<close>

definition plain_char :: "char \<Rightarrow> bool" where
  "plain_char c = ((32::nat) \<le> of_char c \<and> of_char c < (128::nat) \<and> c \<noteq> CHR 0x22 \<and> c \<noteq> CHR 0x5C)"

lemma utf8_length_append [simp]: "utf8_length (s @ t) = utf8_length s + utf8_length t"
  by (simp add: utf8_length_sum)

lemma utf8_length_plain: "list_all plain_char s \<Longrightarrow> utf8_length s = length s"
  by (induction s) (auto simp: utf8_length_sum plain_char_def)

lemma json_char_plain: "plain_char c \<Longrightarrow> json_char c = [c]"
  by (auto simp: json_char_def plain_char_def)

lemma json_string_plain: "list_all plain_char s \<Longrightarrow> json_string s = [CHR 0x22] @ s @ [CHR 0x22]"
  unfolding json_string_def by (induction s) (auto simp: json_char_plain)

lemma utf8_json_string [simp]: "list_all plain_char s \<Longrightarrow> utf8_length (json_string s) = length s + 2"
  by (simp add: json_string_plain utf8_length_plain utf8_length_append del: append_Cons append_Nil)
    (simp add: utf8_length_sum)

lemma plain_digit: "is_digit c \<Longrightarrow> plain_char c"
  by (auto simp: is_digit_def in_range_def plain_char_def)

lemma plain_dec_int: "list_all plain_char (dec_int i)"
proof -
  have "list_all plain_char (dec n)" for n
    using dec_digits [of n] by (auto simp: list_all_iff plain_digit)
  then show ?thesis by (auto simp: dec_int_def plain_char_def)
qed

lemma length_dec_int_le: "0 \<le> i \<Longrightarrow> i < 10 ^ k \<Longrightarrow> 0 < k \<Longrightarrow> length (dec_int i) \<le> k"
  using length_dec_le [of "nat i" k] by (simp add: dec_int_def nat_less_iff)

lemma plain_padded: "list_all plain_char (padded n i)"
proof -
  have "plain_char (CHR ''0'')" by (simp add: plain_char_def)
  then show ?thesis
    using plain_dec_int [of i] by (simp add: padded_def Let_def list_all_iff set_replicate_conv_if)
qed

lemma length_padded: "length (padded n i) = max n (length (dec_int i))"
  by (simp add: padded_def Let_def)

lemma plain_base64url: "list_all plain_char (base64url_encode bs)"
proof -
  have "plain_char c" if "is_alnum c \<or> c \<in> set ''_-''" for c
    using that by (auto simp: plain_char_def is_alnum_def is_digit_def is_upper_def is_lower_def in_range_def)
  then show ?thesis using encode_alphabet [of bs] by (auto simp: list_all_iff)
qed

text \<open>Every instant of a JavaScript date from 1970 on; the bounds are coarse.\<close>

lemma civil_from_days_bounds:
  assumes "0 \<le> days" "days \<le> 100000000" "civil_from_days days = (y, m, d)"
  shows "0 \<le> y \<and> y < 10 ^ 6 \<and> \<bar>m\<bar> < 10 ^ 3 \<and> \<bar>d\<bar> < 10 ^ 3"
proof -
  define z where "z = days + 719468"
  define era where "era = z div 146097"
  define doe where "doe = z mod 146097"
  define yoe where "yoe = (doe - doe div 1460 + doe div 36524 - doe div 146096) div 365"
  define doy where "doy = doe - (365 * yoe + yoe div 4 - yoe div 100)"
  define mp where "mp = (5 * doy + 2) div 153"
  have r: "y = yoe + era * 400 + (if m \<le> 2 then 1 else 0)"
    "m = (if mp < 10 then mp + 3 else mp - 9)" "d = doy - (153 * mp + 2) div 5 + 1"
    using assms(3) unfolding civil_from_days_def Let_def z_def [symmetric] era_def [symmetric]
      doe_def [symmetric] yoe_def [symmetric] doy_def [symmetric] mp_def [symmetric]
    by auto
  have z: "0 \<le> z" "z \<le> 100719468" using assms(1,2) by (simp_all add: z_def)
  have era: "0 \<le> era" "era \<le> 690" unfolding era_def using z by linarith+
  have "0 \<le> doe" "doe < 146097" unfolding doe_def by simp_all
  then have yoe: "0 \<le> yoe" "yoe \<le> 401" "- 100 \<le> doy" "doy \<le> 500"
    unfolding yoe_def doy_def by linarith+
  then have "- 4 \<le> mp" "mp \<le> 17" unfolding mp_def by linarith+
  then show ?thesis using r era yoe by auto
qed

lemma length_dec_int_abs: "\<bar>i\<bar> < 10 ^ k \<Longrightarrow> 0 < k \<Longrightarrow> length (dec_int i) \<le> k + 1"
  using length_dec_le [of "nat \<bar>i\<bar>" k] by (auto simp: dec_int_def nat_less_iff abs_if split: if_splits)

lemma toISOString_size:
  assumes "0 \<le> t" "t \<le> 8640000000000000"
  shows "list_all plain_char (toISOString t) \<and> length (toISOString t) \<le> 40"
proof -
  obtain y m d where c: "civil_from_days (t div 86400000) = (y, m, d)" by (metis prod_cases3)
  have "0 \<le> t div 86400000" "t div 86400000 \<le> 100000000" using assms by linarith+
  note b = civil_from_days_bounds [OF this c]
  define ms where "ms = t mod 86400000"
  have "0 \<le> ms" "ms < 86400000" by (simp_all add: ms_def)
  then have ranges: "0 \<le> ms div 3600000" "ms div 3600000 < 100" "0 \<le> ms div 60000 mod 60"
    "ms div 60000 mod 60 < 100" "0 \<le> ms div 1000 mod 60" "ms div 1000 mod 60 < 100"
    "0 \<le> ms mod 1000" "ms mod 1000 < 1000" by linarith+
  have two: "length (dec_int i) \<le> 2" if "0 \<le> i" "i < 100" for i
    using that by (intro length_dec_int_le) simp_all
  have three: "length (dec_int i) \<le> 3" if "0 \<le> i" "i < 1000" for i
    using that by (intro length_dec_int_le) simp_all
  have six: "length (dec_int i) \<le> 6" if "0 \<le> i" "i < 1000000" for i
    using that by (intro length_dec_int_le) simp_all
  have four: "length (dec_int i) \<le> 4" if "\<bar>i\<bar> < 1000" for i
    using that length_dec_int_abs [of i 3] by simp
  have sizes: "length (padded 4 y) \<le> 6" "length (padded 2 m) \<le> 4" "length (padded 2 d) \<le> 4"
    "length (padded 2 (ms div 3600000)) \<le> 2" "length (padded 2 (ms div 60000 mod 60)) \<le> 2"
    "length (padded 2 (ms div 1000 mod 60)) \<le> 2" "length (padded 3 (ms mod 1000)) \<le> 3"
    unfolding length_padded
    using six [of y] four [of m] four [of d] two [OF ranges(1,2)] two [OF ranges(3,4)]
      two [OF ranges(5,6)] three [OF ranges(7,8)] b by (simp_all only: max.bounded_iff) auto
  have plain: "plain_char (CHR ''-'')" "plain_char (CHR '':'')" "plain_char (CHR ''T'')"
    "plain_char (CHR ''Z'')" "plain_char (CHR ''.'')" by (simp_all add: plain_char_def)
  have iso: "toISOString t = padded 4 y @ ''-'' @ padded 2 m @ ''-'' @ padded 2 d @ ''T'' @
      padded 2 (ms div 3600000) @ '':'' @ padded 2 (ms div 60000 mod 60) @ '':'' @
      padded 2 (ms div 1000 mod 60) @ ''.'' @ padded 3 (ms mod 1000) @ ''Z''"
    by (simp add: toISOString_def c ms_def Let_def)
  show ?thesis unfolding iso using sizes plain plain_padded by simp
qed

text \<open>What is known of an identifier that \<open>z.uuid()\<close> accepts: 36 hexadecimal digits and dashes.\<close>

definition uuid_text :: "string \<Rightarrow> bool" where
  "uuid_text s = (length s = 36 \<and> list_all (\<lambda>c. is_hex_i c \<or> dash c) s)"

lemma plain_uuid_text: "uuid_text s \<Longrightarrow> list_all plain_char s"
proof -
  have "plain_char c" if "is_hex_i c \<or> dash c" for c
    using that by (auto simp: plain_char_def is_hex_i_def is_hex_def is_digit_def in_range_def dash_def)
  then show "uuid_text s \<Longrightarrow> list_all plain_char s" by (auto simp: uuid_text_def list_all_iff)
qed

lemma uuid_format_text: "uuid_format s \<Longrightarrow> uuid_text s"
proof -
  have digits: "in_range 49 56 c \<Longrightarrow> is_hex_i c \<or> dash c" "c \<in> set ''89abAB'' \<Longrightarrow> is_hex_i c \<or> dash c" for c
    by (auto simp: is_hex_i_def is_hex_def is_digit_def in_range_def)
  have chars: "matches ps s \<Longrightarrow> list_all (\<lambda>p. \<forall>c. p c \<longrightarrow> is_hex_i c \<or> dash c) ps \<Longrightarrow>
      list_all (\<lambda>c. is_hex_i c \<or> dash c) s" for ps
    unfolding matches_def by (induction ps s rule: list_all2_induct) auto
  assume s: "uuid_format s"
  have "list_all (\<lambda>c. is_hex_i c \<or> dash c) s"
    by (rule chars [OF s [unfolded uuid_format_def]]) (use digits in \<open>auto simp: list_all_iff\<close>)
  with s show ?thesis by (simp add: uuid_text_def uuid_format_length)
qed

lemma utf8_length_Cons_plain: "plain_char c \<Longrightarrow> utf8_length (c # s) = Suc (utf8_length s)"
  by (simp add: utf8_length_sum plain_char_def)

lemma utf8_json_field:
  "list_all plain_char k \<Longrightarrow> utf8_length (json_field k v) = length k + 3 + utf8_length v"
  by (simp add: json_field_def utf8_length_append) (simp add: utf8_length_sum)

lemma stringify_size:
  assumes "uuid_text (cm_eventId m)" "uuid_text (cm_messageId m)" "uuid_text (cm_meetingId m)"
    "uuid_text (cm_senderParticipantId m)" "uuid_text (cm_clientMessageId m)" "uuid_text (cm_groupId m)"
    and "0 \<le> cm_position m" "cm_position m \<le> MAX_SIGNED_BIGINT"
    and "0 \<le> cm_epoch m" "cm_epoch m \<le> MAX_SIGNED_BIGINT" "cm_protocolVersion m = 1"
    and "cm_ciphertext m = base64url_encode bs"
    and "cm_createdAt m = toISOString t" "0 \<le> t" "t \<le> 8640000000000000"
  shows "utf8_length (stringify_message m) \<le> length (cm_ciphertext m) + 4096"
proof -
  have number: "utf8_length (json_string (dec_int i)) \<le> 21" if "0 \<le> i" "i \<le> MAX_SIGNED_BIGINT" for i
    using that length_dec_int_le [of i 19] plain_dec_int [of i] by (simp add: MAX_SIGNED_BIGINT_def)
  have uuid: "utf8_length (json_string s) = 38" if "uuid_text s" for s
    using that plain_uuid_text [OF that] by (simp add: uuid_text_def)
  have version: "utf8_length (dec_int (cm_protocolVersion m)) = 1"
    using assms(11) by (simp add: dec_int_def utf8_length_plain plain_dec_int dec.simps utf8_length_sum)
      (code_simp)
  have ctype: "utf8_length (json_string (content_type_name (cm_contentType m))) \<le> 20"
  proof -
    have "list_all (\<lambda>c. utf8_length (json_string (content_type_name c)) \<le> 20) [CText, CReaction, CReceipt, CSystem]"
      by code_simp
    then show ?thesis by (cases "cm_contentType m") simp_all
  qed
  have created: "utf8_length (json_string (cm_createdAt m)) \<le> 42"
    using toISOString_size [OF assms(14,15)] assms(13) by simp
  have cipher: "utf8_length (json_string (cm_ciphertext m)) = length (cm_ciphertext m) + 2"
    using assms(12) plain_base64url by simp
  have punct: "utf8_length '','' = 1" "utf8_length ''{'' = 1" "utf8_length ''}'' = 1"
    by (simp_all add: utf8_length_sum)
  have key: "utf8_length (json_field k v) \<le> 22 + utf8_length v" if "k \<in> {''eventId'', ''messageId'', ''meetingId'',
      ''senderParticipantId'', ''position'', ''clientMessageId'', ''protocolVersion'', ''groupId'', ''epoch'',
      ''contentType'', ''ciphertext'', ''createdAt''}" for k v
  proof -
    have "list_all plain_char k \<and> length k \<le> 19" using that by (auto simp: plain_char_def)
    then show ?thesis by (simp add: utf8_json_field)
  qed
  show ?thesis
    unfolding stringify_message_def utf8_length_append
    using number [OF assms(7,8)] number [OF assms(9,10)] uuid [OF assms(1)] uuid [OF assms(2)]
      uuid [OF assms(3)] uuid [OF assms(4)] uuid [OF assms(5)] uuid [OF assms(6)] version ctype created cipher
      key [of "''eventId''" "json_string (cm_eventId m)"] key [of "''messageId''" "json_string (cm_messageId m)"]
      key [of "''meetingId''" "json_string (cm_meetingId m)"]
      key [of "''senderParticipantId''" "json_string (cm_senderParticipantId m)"]
      key [of "''position''" "json_string (dec_int (cm_position m))"]
      key [of "''clientMessageId''" "json_string (cm_clientMessageId m)"]
      key [of "''protocolVersion''" "dec_int (cm_protocolVersion m)"]
      key [of "''groupId''" "json_string (cm_groupId m)"] key [of "''epoch''" "json_string (dec_int (cm_epoch m))"]
      key [of "''contentType''" "json_string (content_type_name (cm_contentType m))"]
      key [of "''ciphertext''" "json_string (cm_ciphertext m)"]
      key [of "''createdAt''" "json_string (cm_createdAt m)"] punct
    by simp
qed

text \<open>What a loaded chat section guarantees of a frame.\<close>

lemma loadChatConfig_frame:
  assumes "loadChatConfig env role meetingsEnabled realtime = Inr config"
    and "int (length bs) \<le> cc_maxCiphertextBytes config"
  shows "int (length (base64url_encode bs)) + 4096 \<le> rc_maxMessageBytes realtime"
proof -
  have fits: "maximumFrameBytes (cc_maxCiphertextBytes config) \<le> rc_maxMessageBytes realtime"
    using assms(1) by (auto simp: loadChatConfig_def Let_def split: if_splits)
  have "int (length (base64url_encode bs)) \<le> \<lceil>rat_of_int (cc_maxCiphertextBytes config * 4) / 3\<rceil>"
  proof -
    let ?b = "cc_maxCiphertextBytes config"
    have "rat_of_int (?b * 4) / 3 \<le> rat_of_int \<lceil>rat_of_int (?b * 4) / 3\<rceil>" by (rule le_of_int_ceiling)
    then have "rat_of_int (?b * 4) \<le> rat_of_int (3 * \<lceil>rat_of_int (?b * 4) / 3\<rceil>)" by linarith
    then have "?b * 4 \<le> 3 * \<lceil>rat_of_int (?b * 4) / 3\<rceil>" by (simp only: of_int_le_iff)
    moreover have "int (length (base64url_encode bs)) = (4 * int (length bs) + 2) div 3"
      by (simp add: length_encode zdiv_int)
    ultimately show ?thesis using assms(2) by linarith
  qed
  then show ?thesis using fits by (simp add: maximumFrameBytes_def)
qed

text \<open>The event of a freshly accepted message is well formed and fits into a realtime frame. The two
  assumptions on the validators are their documented behaviour: an accepted UUID is 36 hexadecimal
  digits and dashes, and a timestamp written by \<open>toISOString\<close> is accepted.\<close>

lemma accepted_event_fits:
  assumes "chat_accept z sha256 config cenv command owner db = Inr (a, db')" "\<not> am_replayed a"
    and "chat_inv (waited cenv db)"
    and "loadChatConfig env role meetingsEnabled realtime = Inr config"
    and uuid: "\<And>s. z_uuid z s \<Longrightarrow> uuid_text s" and iso: "z_iso_datetime z (toISOString (clk cenv 4))"
    and "int (length (sm_ciphertext command)) \<le> cc_maxCiphertextBytes config"
    and "cc_maxCiphertextBytes config \<le> 49152"
    and "sm_epoch command \<le> MAX_SIGNED_BIGINT" and "0 \<le> clk cenv 4" and "clk cenv 4 \<le> 8640000000000000"
  shows "message_ok z (am_message a) \<and>
    int (we_bytes (serialized (am_message a))) \<le> rc_maxMessageBytes realtime \<and>
    cm_ciphertext (am_message a) = base64url_encode (sm_ciphertext command)"
proof -
  from fresh_delivery [OF assms(1-3)] obtain row where row: "am_message a = row_message row"
    "messageRowSchema z row" "c_position row \<le> MAX_SIGNED_BIGINT"
    "c_ciphertext row = sm_ciphertext command" "c_e2ee_epoch row = sm_epoch command"
    "c_created_at row = clk cenv 4" "1 \<le> length (sm_ciphertext command)" by metis
  have schema: "z_uuid z (c_id row)" "z_uuid z (c_meeting_id row)" "z_uuid z (c_sender_participant_id row)"
    "z_uuid z (c_client_message_id row)" "z_uuid z (c_group_id row)" "0 < c_position row"
    "c_protocol_version row = 1" "0 \<le> c_e2ee_epoch row" "c_content_type row \<noteq> CSystem"
    using row(2) by (auto simp: messageRowSchema_def)
  have "canonicalBase64UrlSchema (base64url_encode (sm_ciphertext command))"
    using row(7) assms(7,8) by (auto simp: canonical_encode)
  then have ok: "message_ok z (am_message a)"
    using row schema assms(9) iso by (simp add: message_ok_def row_message_def)
  have "utf8_length (stringify_message (am_message a)) \<le> length (cm_ciphertext (am_message a)) + 4096"
    by (rule stringify_size [where bs = "sm_ciphertext command" and t = "clk cenv 4"])
      (use row schema assms(9-11) uuid in \<open>simp_all add: row_message_def\<close>)
  moreover have "cm_ciphertext (am_message a) = base64url_encode (sm_ciphertext command)"
    using row by (simp add: row_message_def)
  ultimately show ?thesis
    using ok loadChatConfig_frame [OF assms(4,7)] by (simp add: serialized_def)
qed

end
