(* ===== verification/ChatCursor.thy ===== *)
theory ChatCursor
  imports ChatContracts "HOL-Library.AList"
begin

text \<open>
  \<open>ChatLiveCursor\<close>: the socket-scoped cursor that turns the at-least-once, unordered fan-out of chat
  events into a contiguous stream within a bounded reorder buffer. The buffer is an insertion-ordered
  \<open>Map\<close>; the callbacks are the list of outputs of a call.
\<close>

section \<open>State and operations\<close>

datatype chat_notification = MessageNotice chat_message | HighWatermark int

datatype cursor_output = Deliver chat_message | Gap int | Overflow

record live_cursor =
  cu_position :: int
  cu_pending :: "(int \<times> chat_message) list"
  cu_overflowed :: bool
  cu_maximumPending :: int

definition new_cursor :: "int \<Rightarrow> int \<Rightarrow> live_cursor outcome" where
  "new_cursor initialPosition maximumPending =
     (if maximumPending < 1 then Inl (RangeError ''Chat reorder buffer must be a positive integer'')
      else Inr \<lparr>cu_position = initialPosition, cu_pending = [], cu_overflowed = False,
        cu_maximumPending = maximumPending\<rparr>)"

lemma AList_delete_shorter: "map_of xs k = Some v \<Longrightarrow> length (AList.delete k xs) < length xs"
  unfolding AList.delete_eq by (induction xs) (auto simp: le_imp_less_Suc split: if_splits)

text \<open>\<open>flush\<close>: deliver while the next position is buffered.\<close>

function flush :: "int \<Rightarrow> (int \<times> chat_message) list \<Rightarrow> int \<times> (int \<times> chat_message) list \<times> chat_message list" where
  "flush position pending =
     (case map_of pending (position + 1) of
       None \<Rightarrow> (position, pending, [])
     | Some message \<Rightarrow>
         (case flush (position + 1) (AList.delete (position + 1) pending) of
           (position', pending', delivered) \<Rightarrow> (position', pending', message # delivered)))"
  by pat_completeness auto
termination
  by (relation "measure (\<lambda>(position, pending). length pending)") (auto intro: AList_delete_shorter)

declare flush.simps [simp del]

definition failOverflow :: "live_cursor \<Rightarrow> live_cursor \<times> cursor_output list" where
  "failOverflow c = (c\<lparr>cu_overflowed := True, cu_pending := []\<rparr>, [Overflow])"

definition highest_key :: "(int \<times> chat_message) list \<Rightarrow> int" where
  "highest_key pending = foldl max (fst (hd pending)) (map fst (tl pending))"

definition cursor_accept :: "live_cursor \<Rightarrow> chat_notification \<Rightarrow> live_cursor \<times> cursor_output list" where
  "cursor_accept c notification =
     (if cu_overflowed c then (c, [])
      else case notification of
        HighWatermark p \<Rightarrow> (c, if p > cu_position c then [Gap p] else [])
      | MessageNotice message \<Rightarrow>
          let nextPosition = cm_position message
          in if nextPosition \<le> cu_position c then (c, [])
             else if (case map_of (cu_pending c) nextPosition of
                       None \<Rightarrow> False | Some existing \<Rightarrow> cm_eventId existing \<noteq> cm_eventId message)
             then failOverflow c
             else
               let pending = AList.update nextPosition message (cu_pending c)
               in if int (length pending) > cu_maximumPending c
                  then failOverflow (c\<lparr>cu_pending := pending\<rparr>)
                  else (case flush (cu_position c) pending of
                    (position', pending', delivered) \<Rightarrow>
                      (c\<lparr>cu_position := position', cu_pending := pending'\<rparr>,
                       map Deliver delivered @
                       (if pending' \<noteq> [] then [Gap (highest_key pending')] else []))))"

definition cursor_advance :: "live_cursor \<Rightarrow> int \<Rightarrow> live_cursor \<times> cursor_output list" where
  "cursor_advance c position =
     (if position \<le> cu_position c \<or> cu_overflowed c then (c, [])
      else
        let pending = filter (\<lambda>(k, _). \<not> k \<le> position) (cu_pending c)
        in case flush position pending of
          (position', pending', delivered) \<Rightarrow>
            (c\<lparr>cu_position := position', cu_pending := pending'\<rparr>, map Deliver delivered))"

section \<open>The invariant\<close>

definition cursor_inv :: "live_cursor \<Rightarrow> bool" where
  "cursor_inv c =
     (distinct (map fst (cu_pending c)) \<and>
      list_all (\<lambda>(k, m). k = cm_position m \<and> cu_position c + 1 < k) (cu_pending c) \<and>
      int (length (cu_pending c)) \<le> cu_maximumPending c \<and> 1 \<le> cu_maximumPending c \<and>
      (cu_overflowed c \<longrightarrow> cu_pending c = []))"

lemma flush_spec:
  assumes "distinct (map fst pending)" "list_all (\<lambda>(k, m). k = cm_position m \<and> position < k) pending"
    and "flush position pending = (position', pending', delivered)"
  shows "position \<le> position' \<and> map cm_position delivered = [position + 1 .. position'] \<and>
    distinct (map fst pending') \<and> set pending' = {(k, m) \<in> set pending. position' < k} \<and>
    length pending' + length delivered = length pending \<and>
    position' + 1 \<notin> fst ` set pending' \<and> set delivered \<subseteq> snd ` set pending"
  using assms
proof (induction position pending arbitrary: position' pending' delivered rule: flush.induct)
  case (1 position pending)
  show ?case
  proof (cases "map_of pending (position + 1)")
    case None
    then have "position + 1 \<notin> fst ` set pending" by (simp add: map_of_eq_None_iff)
    with None 1(3,4) show ?thesis
      using 1(2) by (auto simp: flush.simps [of position pending] list_all_iff)
  next
    case (Some m)
    let ?rest = "AList.delete (position + 1) pending"
    obtain p q d where rec: "flush (position + 1) ?rest = (p, q, d)" by (metis prod_cases3)
    have res: "position' = p" "pending' = q" "delivered = m # d"
      using 1(4) Some rec by (auto simp: flush.simps [of position pending])
    have mem: "(position + 1, m) \<in> set pending" using Some by (rule map_of_SomeD)
    have m: "cm_position m = position + 1" using mem 1(3) by (auto simp: list_all_iff)
    have dist: "distinct (map fst ?rest)" using 1(2) by (rule distinct_delete)
    have rest: "set ?rest = {(k, m) \<in> set pending. k \<noteq> position + 1}"
      by (auto simp: AList.delete_eq)
    have all: "list_all (\<lambda>(k, m). k = cm_position m \<and> position + 1 < k) ?rest"
      using 1(3) by (force simp: list_all_iff rest)
    have len: "length pending = Suc (length ?rest)"
    proof -
      have "filter (\<lambda>kv. position + 1 = fst kv) pending = [(position + 1, m)]"
        by (rule filter_unique_key [where k = fst]) (use 1(2) mem in auto)
      then show ?thesis
        using sum_length_filter_compl [of "\<lambda>kv. position + 1 = fst kv" pending]
        by (simp add: AList.delete_eq case_prod_unfold)
    qed
    note ih = 1(1) [OF Some dist all rec]
    show ?thesis
      using ih m imageI [OF mem, of snd] len by (auto simp: res rest upto_rec1)
  qed
qed

text \<open>The operations of a socket on its cursor, one after the other.\<close>

datatype cursor_event = Accepting chat_notification | Advancing int

fun cursor_step :: "live_cursor \<Rightarrow> cursor_event \<Rightarrow> live_cursor \<times> cursor_output list" where
  "cursor_step c (Accepting n) = cursor_accept c n"
| "cursor_step c (Advancing p) = cursor_advance c p"

fun cursor_run :: "live_cursor \<Rightarrow> cursor_event list \<Rightarrow> live_cursor \<times> cursor_output list" where
  "cursor_run c [] = (c, [])"
| "cursor_run c (e # es) =
     (case cursor_step c e of (c', out) \<Rightarrow> (case cursor_run c' es of (c'', out') \<Rightarrow> (c'', out @ out')))"

definition delivered_of :: "cursor_output list \<Rightarrow> chat_message list" where
  "delivered_of out = List.map_filter (\<lambda>x. case x of Deliver m \<Rightarrow> Some m | _ \<Rightarrow> None) out"

lemma delivered_of_simps [simp]:
  "delivered_of [] = []" "delivered_of (Deliver m # out) = m # delivered_of out"
  "delivered_of (Gap p # out) = delivered_of out" "delivered_of (Overflow # out) = delivered_of out"
  by (simp_all add: delivered_of_def map_filter_simps)

lemma delivered_of_append [simp]: "delivered_of (xs @ ys) = delivered_of xs @ delivered_of ys"
  by (simp add: delivered_of_def map_filter_def)

lemma delivered_of_map [simp]: "delivered_of (map Deliver ms) = ms"
  by (induction ms) simp_all

lemma update_pending:
  assumes "distinct (map fst pending)" "list_all (\<lambda>(k, m). k = cm_position m \<and> p < k) pending"
    and "p < cm_position x"
  shows "distinct (map fst (AList.update (cm_position x) x pending))"
    "list_all (\<lambda>(k, m). k = cm_position m \<and> p < k) (AList.update (cm_position x) x pending)"
proof -
  show dist: "distinct (map fst (AList.update (cm_position x) x pending))"
    using assms(1) by (rule distinct_update)
  have "m = x \<or> (k, m) \<in> set pending" if "(k, m) \<in> set (AList.update (cm_position x) x pending)" for k m
  proof -
    have "map_of (AList.update (cm_position x) x pending) k = Some m"
      using dist that by (rule map_of_is_SomeI)
    then show ?thesis by (auto simp: update_conv' dest: map_of_SomeD split: if_splits)
  qed
  moreover have "k = cm_position x" if "(k, x) \<in> set (AList.update (cm_position x) x pending)"
    "(k, x) \<notin> set pending" for k
  proof (rule ccontr)
    assume "k \<noteq> cm_position x"
    then have "map_of pending k = Some x"
      using map_of_is_SomeI [OF dist that(1)] by (simp add: update_conv')
    with that(2) show False by (auto dest: map_of_SomeD)
  qed
  ultimately show "list_all (\<lambda>(k, m). k = cm_position m \<and> p < k) (AList.update (cm_position x) x pending)"
    using assms(2,3) by (fastforce simp: list_all_iff)
qed

lemma update_keys:
  "fst ` set (AList.update k v xs) = insert k (fst ` set xs)"
  by (simp add: dom_update [unfolded dom_map_of_conv_image_fst])

lemma set_update_snd: "snd ` set (AList.update k v xs) \<subseteq> insert v (snd ` set xs)"
  by (induction xs) auto

lemma pending_loose:
  "cursor_inv c \<Longrightarrow> list_all (\<lambda>(k, m). k = cm_position m \<and> cu_position c < k) (cu_pending c)"
  by (force simp: cursor_inv_def list_all_iff)

lemma fst_image_above: "fst ` {(k, m) \<in> S. p < k} = {k \<in> fst ` S. p < k}"
  by force

text \<open>What \<open>accept\<close> does with a message above the cursor when the buffer does not overflow.\<close>

lemma cursor_accept_message:
  assumes "cursor_inv c" "\<not> cu_overflowed c" "cu_position c < cm_position x"
    and "cursor_accept c (MessageNotice x) = (c', out)" "\<not> cu_overflowed c'"
  shows "cursor_inv c' \<and> cu_position c \<le> cu_position c' \<and>
    map cm_position (delivered_of out) = [cu_position c + 1 .. cu_position c'] \<and>
    fst ` set (cu_pending c') = {k \<in> insert (cm_position x) (fst ` set (cu_pending c)). cu_position c' < k} \<and>
    cu_position c' + 1 \<notin> insert (cm_position x) (fst ` set (cu_pending c)) \<and>
    set (delivered_of out) \<subseteq> insert x (snd ` set (cu_pending c)) \<and>
    snd ` set (cu_pending c') \<subseteq> insert x (snd ` set (cu_pending c))"
proof -
  let ?pending = "AList.update (cm_position x) x (cu_pending c)"
  have dist: "distinct (map fst (cu_pending c))" using assms(1) by (simp add: cursor_inv_def)
  obtain p q d where fl: "flush (cu_position c) ?pending = (p, q, d)" by (metis prod_cases3)
  have c': "c' = c\<lparr>cu_position := p, cu_pending := q\<rparr>" "delivered_of out = d"
    "int (length ?pending) \<le> cu_maximumPending c"
    using assms(2-5) fl by (auto simp: cursor_accept_def failOverflow_def Let_def split: if_splits option.splits)
  note upd = update_pending [OF dist pending_loose [OF assms(1)] assms(3)]
  note spec = flush_spec [OF upd fl]
  have q: "set q = {(k, m) \<in> set ?pending. p < k}" and nq: "p + 1 \<notin> fst ` set q" using spec by blast+
  have all: "list_all (\<lambda>(k, m). k = cm_position m \<and> p + 1 < k) q"
  proof -
    have "k = cm_position m \<and> p + 1 < k" if "(k, m) \<in> set q" for k m
    proof -
      have "k \<noteq> p + 1" using that nq by (metis fst_conv imageI)
      moreover have "p < k" "(k, m) \<in> set ?pending" using that q by auto
      ultimately show ?thesis using upd(2) by (auto simp: list_all_iff)
    qed
    then show ?thesis by (auto simp: list_all_iff)
  qed
  have keys: "fst ` set q = {k \<in> insert (cm_position x) (fst ` set (cu_pending c)). p < k}"
    unfolding q fst_image_above update_keys by simp
  moreover have "p + 1 \<notin> insert (cm_position x) (fst ` set (cu_pending c))"
    using nq unfolding keys by simp
  moreover have "cursor_inv c'"
    using assms(1,2) c' spec all by (auto simp: cursor_inv_def)
  moreover have "snd ` set q \<subseteq> snd ` set ?pending" "set d \<subseteq> snd ` set ?pending" using spec by auto
  then have "snd ` set q \<subseteq> insert x (snd ` set (cu_pending c))" "set d \<subseteq> insert x (snd ` set (cu_pending c))"
    using set_update_snd [of "cm_position x" x "cu_pending c"] by blast+
  moreover have "cu_position c \<le> p \<and> map cm_position d = [cu_position c + 1 .. p]" using spec by blast
  ultimately show ?thesis using c'(1,2) by simp
qed

lemma cursor_advance_spec:
  assumes "cursor_inv c" "cursor_advance c p = (c', out)"
  shows "cursor_inv c' \<and> cu_position c \<le> cu_position c' \<and> p \<le> max p (cu_position c') \<and>
    sorted_wrt (<) (map cm_position (delivered_of out)) \<and>
    (\<forall>m \<in> set (delivered_of out). cu_position c < cm_position m \<and> cm_position m \<le> cu_position c')"
proof (cases "p \<le> cu_position c \<or> cu_overflowed c")
  case True
  then show ?thesis using assms by (auto simp: cursor_advance_def)
next
  case False
  let ?pending = "filter (\<lambda>(k, _). \<not> k \<le> p) (cu_pending c)"
  obtain p' q d where fl: "flush p ?pending = (p', q, d)" by (metis prod_cases3)
  have c': "c' = c\<lparr>cu_position := p', cu_pending := q\<rparr>" "out = map Deliver d"
    using False assms(2) fl by (auto simp: cursor_advance_def Let_def)
  have "distinct (map fst ?pending)" "list_all (\<lambda>(k, m). k = cm_position m \<and> p < k) ?pending"
    using assms(1) by (auto simp: cursor_inv_def list_all_iff distinct_map_filterI)
  note spec = flush_spec [OF this fl]
  have q: "set q = {(k, m) \<in> set ?pending. p' < k}" and nq: "p' + 1 \<notin> fst ` set q" using spec by blast+
  have all: "list_all (\<lambda>(k, m). k = cm_position m \<and> p' + 1 < k) q"
  proof -
    have "k = cm_position m \<and> p' + 1 < k" if "(k, m) \<in> set q" for k m
    proof -
      have "k \<noteq> p' + 1" using that nq by (metis fst_conv imageI)
      moreover have "p' < k" "(k, m) \<in> set (cu_pending c)" using that q by auto
      ultimately show ?thesis using assms(1) by (auto simp: cursor_inv_def list_all_iff)
    qed
    then show ?thesis by (auto simp: list_all_iff)
  qed
  have "length q \<le> length (cu_pending c)" using spec by (metis le_add1 le_trans length_filter_le)
  then have "cursor_inv c'" using assms(1) False c' spec all by (auto simp: cursor_inv_def)
  moreover have "cu_position c < k \<and> k \<le> p'" if "k \<in> cm_position ` set d" for k
  proof -
    have "k \<in> set [p + 1 .. p']" using that spec by (metis list.set_map)
    then show ?thesis using False by auto
  qed
  moreover have "sorted_wrt (<) (map cm_position d)" using spec by simp
  ultimately show ?thesis using c' spec False by auto
qed

lemma cursor_step_spec:
  assumes "cursor_inv c" "cursor_step c e = (c', out)"
  shows "cursor_inv c' \<and> cu_position c \<le> cu_position c' \<and>
    sorted_wrt (<) (map cm_position (delivered_of out)) \<and>
    (\<forall>m \<in> set (delivered_of out). cu_position c < cm_position m \<and> cm_position m \<le> cu_position c') \<and>
    (cu_overflowed c \<longrightarrow> c' = c \<and> out = [])"
proof (cases e)
  case (Advancing p)
  then show ?thesis using assms cursor_advance_spec [of c p c' out] by (auto simp: cursor_advance_def)
next
  case (Accepting n)
  show ?thesis
  proof (cases "cu_overflowed c \<or> (\<exists>p. n = HighWatermark p) \<or>
      (\<exists>x. n = MessageNotice x \<and> cm_position x \<le> cu_position c)")
    case True
    then show ?thesis using assms Accepting by (auto simp: cursor_accept_def split: if_splits)
  next
    case False
    then obtain x where x: "n = MessageNotice x" "cu_position c < cm_position x" "\<not> cu_overflowed c"
      by (cases n) auto
    show ?thesis
    proof (cases "cu_overflowed c'")
      case True
      then show ?thesis using assms Accepting x
        by (auto simp: cursor_accept_def failOverflow_def cursor_inv_def Let_def
            split: if_splits option.splits prod.splits)
    next
      case no: False
      have acc: "cursor_accept c (MessageNotice x) = (c', out)" using assms(2) Accepting x by simp
      note spec = cursor_accept_message [OF assms(1) x(3,2) acc no]
      have "cu_position c < k \<and> k \<le> cu_position c'" if "k \<in> cm_position ` set (delivered_of out)" for k
      proof -
        have "k \<in> set [cu_position c + 1 .. cu_position c']" using that spec by (metis list.set_map)
        then show ?thesis by auto
      qed
      then show ?thesis using spec x(3) by auto
    qed
  qed
qed

interpretation cursor_hist: stepwise_monotone "\<lambda>c e. fst (cursor_step c e)" "\<lambda>_ _. True" cursor_inv cu_position
proof
  fix c e
  assume inv: "cursor_inv c"
  obtain c' out where "cursor_step c e = (c', out)" by fastforce
  with cursor_step_spec [OF inv this]
  show "cursor_inv (fst (cursor_step c e))" "cu_position c \<le> cu_position (fst (cursor_step c e))"
    by simp_all
qed

lemma cursor_run_spec:
  "cursor_inv c \<Longrightarrow> cursor_run c es = (c', out) \<Longrightarrow>
     cursor_inv c' \<and> cu_position c \<le> cu_position c' \<and>
     sorted_wrt (<) (map cm_position (delivered_of out)) \<and>
     (\<forall>m \<in> set (delivered_of out). cu_position c < cm_position m \<and> cm_position m \<le> cu_position c')"
proof (induction es arbitrary: c out)
  case (Cons e es)
  obtain c1 out1 where one: "cursor_step c e = (c1, out1)" by fastforce
  obtain out2 where two: "cursor_run c1 es = (c', out2)" "out = out1 @ out2"
    using Cons.prems(2) one by (auto split: prod.splits)
  note step = cursor_step_spec [OF Cons.prems(1) one]
  have ih: "cursor_inv c' \<and> cu_position c1 \<le> cu_position c' \<and>
     sorted_wrt (<) (map cm_position (delivered_of out2)) \<and>
     (\<forall>m \<in> set (delivered_of out2). cu_position c1 < cm_position m \<and> cm_position m \<le> cu_position c')"
    using Cons.IH [of c1 out2] step two by blast
  show ?case using step ih two(2) by (fastforce simp: sorted_wrt_append)
qed simp

section \<open>Guarantees of the cursor\<close>

definition received :: "chat_notification list \<Rightarrow> int set" where
  "received ns = {cm_position m | m. MessageNotice m \<in> set ns}"

lemma received_simps [simp]:
  "received [] = {}" "received (MessageNotice m # ns) = insert (cm_position m) (received ns)"
  "received (HighWatermark p # ns) = received ns"
  by (auto simp: received_def)

lemma cursor_run_overflowed: "cu_overflowed c \<Longrightarrow> cursor_inv c \<Longrightarrow> cursor_run c es = (c, [])"
proof (induction es)
  case (Cons e es)
  obtain c1 out1 where one: "cursor_step c e = (c1, out1)" by fastforce
  show ?case using Cons cursor_step_spec [OF Cons.prems(2) one] one by simp
qed simp

lemma cursor_step_maximum: "cu_maximumPending (fst (cursor_step c e)) = cu_maximumPending c"
  by (cases e) (auto simp: cursor_accept_def cursor_advance_def failOverflow_def Let_def
      split: chat_notification.splits option.splits prod.splits)

lemma cursor_run_maximum: "cu_maximumPending (fst (cursor_run c es)) = cu_maximumPending c"
proof (induction es arbitrary: c)
  case (Cons e es)
  show ?case using Cons [of "fst (cursor_step c e)"] cursor_step_maximum [of c e]
    by (simp split: prod.splits) (metis fst_conv)
qed simp

lemma cursor_run_contiguous:
  assumes "cursor_inv c" "\<not> cu_overflowed c"
    and "fst ` set (cu_pending c) = {k \<in> R. cu_position c < k}" "cu_position c + 1 \<notin> R"
    and "snd ` set (cu_pending c) \<subseteq> M"
    and "cursor_run c (map Accepting ns) = (c', out)" "\<not> cu_overflowed c'"
  shows "map cm_position (delivered_of out) = [cu_position c + 1 .. cu_position c'] \<and>
    fst ` set (cu_pending c') = {k \<in> R \<union> received ns. cu_position c' < k} \<and>
    cu_position c' + 1 \<notin> R \<union> received ns \<and> cu_position c \<le> cu_position c' \<and>
    set (delivered_of out) \<subseteq> M \<union> {m. MessageNotice m \<in> set ns}"
  using assms
proof (induction ns arbitrary: c R M out)
  case (Cons n ns)
  obtain c1 out1 where one: "cursor_accept c n = (c1, out1)" by fastforce
  obtain out2 where two: "cursor_run c1 (map Accepting ns) = (c', out2)" "out = out1 @ out2"
    using Cons.prems(6) one by (auto split: prod.splits)
  have step: "cursor_inv c1" using cursor_step_spec [OF Cons.prems(1), of "Accepting n" c1 out1] one by simp
  have ok: "\<not> cu_overflowed c1"
    using cursor_run_overflowed [of c1 "map Accepting ns"] step two(1) Cons.prems(7) by auto
  show ?case
  proof (cases n)
    case (HighWatermark p)
    then have c1: "c1 = c" "delivered_of out1 = []"
      using one Cons.prems(2) by (auto simp: cursor_accept_def split: if_splits)
    show ?thesis
      using Cons.IH [OF Cons.prems(1,2,3,4,5), of out2] two c1 Cons.prems(7) HighWatermark by auto
  next
    case (MessageNotice x)
    show ?thesis
    proof (cases "cm_position x \<le> cu_position c")
      case True
      then have c1: "c1 = c" "delivered_of out1 = []"
        using one Cons.prems(2) MessageNotice by (auto simp: cursor_accept_def)
      have R: "fst ` set (cu_pending c) = {k \<in> insert (cm_position x) R. cu_position c < k}"
        "cu_position c + 1 \<notin> insert (cm_position x) R"
        using Cons.prems(3,4) True by auto
      show ?thesis
        using Cons.IH [OF Cons.prems(1,2) R Cons.prems(5), of out2] two c1 Cons.prems(7) MessageNotice by auto
    next
      case False
      then have gt: "cu_position c < cm_position x" by simp
      have acc: "cursor_accept c (MessageNotice x) = (c1, out1)" using one MessageNotice by simp
      note spec = cursor_accept_message [OF Cons.prems(1,2) gt acc ok]
      have le: "cu_position c \<le> cu_position c1" using spec by blast
      have R: "fst ` set (cu_pending c1) = {k \<in> insert (cm_position x) R. cu_position c1 < k}"
        using spec Cons.prems(3) le by auto
      have N: "cu_position c1 + 1 \<notin> insert (cm_position x) R"
        using spec Cons.prems(3) le by auto
      have M: "snd ` set (cu_pending c1) \<subseteq> insert x M" using spec Cons.prems(5) by blast
      note ih = Cons.IH [OF step ok R N M two(1) Cons.prems(7)]
      have "[cu_position c + 1 .. cu_position c'] =
          [cu_position c + 1 .. cu_position c1] @ [cu_position c1 + 1 .. cu_position c']"
        using le ih upto_split2 [of "cu_position c + 1" "cu_position c1" "cu_position c'"]
        by (cases "cu_position c = cu_position c1") auto
      moreover have "set (delivered_of out1) \<subseteq> insert x M" using spec Cons.prems(5) by blast
      ultimately show ?thesis using ih spec two(2) MessageNotice by auto
    qed
  qed
qed simp

text \<open>Ordered live delivery: starting at position \<open>p\<close>, whatever messages and watermarks arrive, in
  whatever order and however often, a cursor that has not overflowed has delivered exactly the
  messages at positions \<open>p + 1\<close> to its current position, each once and in order, all of them received;
  the current position is the end of the contiguous run received, and the buffer holds exactly the
  received positions beyond it.\<close>

theorem cursor_delivers_contiguous:
  assumes "new_cursor p maximum = Inr c"
    and "cursor_run c (map Accepting ns) = (c', out)" and "\<not> cu_overflowed c'"
  shows "map cm_position (delivered_of out) = [p + 1 .. cu_position c'] \<and>
    set (delivered_of out) \<subseteq> {m. MessageNotice m \<in> set ns} \<and>
    p \<le> cu_position c' \<and> cu_position c' + 1 \<notin> received ns \<and>
    fst ` set (cu_pending c') = {k \<in> received ns. cu_position c' < k}"
proof -
  have c: "cu_position c = p" "cu_pending c = []" "\<not> cu_overflowed c" "cursor_inv c"
    using assms(1) by (auto simp: new_cursor_def cursor_inv_def split: if_splits)
  from cursor_run_contiguous [OF c(4,3) _ _ _ assms(2,3), of "{}" "{}"] c show ?thesis by auto
qed

definition sample_message :: "int \<Rightarrow> chat_message" where
  "sample_message p = \<lparr>cm_eventId = dec_int p, cm_messageId = dec_int p, cm_meetingId = ''m'',
     cm_senderParticipantId = ''s'', cm_position = p, cm_clientMessageId = ''c'',
     cm_protocolVersion = 1, cm_groupId = ''g'', cm_epoch = 0, cm_contentType = CText,
     cm_ciphertext = ''AQID'', cm_createdAt = ''2026-01-01T00:00:00.000Z''\<rparr>"

definition sample_notices :: "chat_notification list" where
  "sample_notices = [MessageNotice (sample_message 7), HighWatermark 9, MessageNotice (sample_message 9),
     MessageNotice (sample_message 6), MessageNotice (sample_message 7)]"

definition sample_cursor :: live_cursor where
  "sample_cursor = \<lparr>cu_position = 5, cu_pending = [], cu_overflowed = False, cu_maximumPending = 8\<rparr>"

theorem cursor_delivers_contiguous_witness:
  "map cm_position (delivered_of (snd (cursor_run sample_cursor (map Accepting sample_notices)))) = [5 + 1 .. 7]"
proof -
  have c: "new_cursor 5 8 = Inr sample_cursor" by (simp add: new_cursor_def sample_cursor_def)
  have o: "\<not> cu_overflowed (fst (cursor_run sample_cursor (map Accepting sample_notices)))"
    "cu_position (fst (cursor_run sample_cursor (map Accepting sample_notices))) = 7"
    by code_simp+
  from cursor_delivers_contiguous [OF c prod.collapse [symmetric] o(1)] show ?thesis
    unfolding o(2) by blast
qed

text \<open>The cursor's memory is bounded and its deliveries never go back, also when catch-up pages
  advance it: over every sequence of notifications and advances, the buffer never exceeds its
  configured size, delivered positions strictly increase and lie between the initial and the current
  position, the position never decreases, and after an overflow nothing is ever emitted again.\<close>

theorem cursor_bounded_monotone:
  assumes "new_cursor p maximum = Inr c" and "cursor_run c es = (c', out)"
  shows "int (length (cu_pending c')) \<le> maximum \<and> p \<le> cu_position c' \<and>
    sorted_wrt (<) (map cm_position (delivered_of out)) \<and>
    (\<forall>m \<in> set (delivered_of out). p < cm_position m \<and> cm_position m \<le> cu_position c') \<and>
    (cu_overflowed c' \<longrightarrow> cursor_run c' fs = (c', []))"
proof -
  have c: "cu_position c = p" "cursor_inv c"
    using assms(1) by (auto simp: new_cursor_def cursor_inv_def split: if_splits)
  have max: "cu_maximumPending c' = cu_maximumPending c"
    using cursor_run_maximum [of c es] assms(2) by simp
  have "cu_maximumPending c = maximum" using assms(1) by (auto simp: new_cursor_def split: if_splits)
  with max c cursor_run_spec [OF c(2) assms(2)] cursor_run_overflowed [of c' fs] show ?thesis
    by (auto simp: cursor_inv_def)
qed

theorem cursor_bounded_monotone_witness:
  "sorted_wrt (<) (map cm_position (delivered_of (snd (cursor_run sample_cursor
     (map Accepting sample_notices @ [Advancing 8])))))"
proof -
  have c: "new_cursor 5 8 = Inr sample_cursor" by (simp add: new_cursor_def sample_cursor_def)
  from cursor_bounded_monotone [OF c prod.collapse [symmetric]] show ?thesis by blast
qed

end
