(* ===== verification/ChatFanout.thy ===== *)
theory ChatFanout
  imports EventSize ChatCursor
begin

text \<open>
  The fan-out of chat events to the sockets of one process (\<open>chat-fanout.service.ts\<close>). The
  asynchronous operations are split where the code awaits: every piece between two awaits is one step, and the steps of different calls interleave freely.
\<close>

section \<open>State\<close>

text \<open>A room is one \<open>RoomSubscription\<close> object: its identity and its listeners in insertion order.
  \<open>fo_channels\<close> is the set of meetings whose channel the subscriber connection is subscribed to.\<close>

type_synonym listener = nat

record room =
  rm_id :: nat
  rm_listeners :: "listener list"

record fanout =
  fo_rooms :: "(uuid \<times> room) list"
  fo_heads :: "(uuid \<times> int) list"
  fo_channels :: "uuid list"
  fo_next :: nat
  fo_polling :: bool

definition listeners_of :: "fanout \<Rightarrow> uuid \<Rightarrow> listener list" where
  "listeners_of s m = (case map_of (fo_rooms s) m of None \<Rightarrow> [] | Some r \<Rightarrow> rm_listeners r)"

section \<open>Operations\<close>

definition add_listener :: "listener \<Rightarrow> listener list \<Rightarrow> listener list" where
  "add_listener l ls = (if l \<in> set ls then ls else ls @ [l])"

text \<open>\<open>watch\<close> up to its first await: the room whose subscription the caller then waits for, and whether
  the call issued it.\<close>

definition watch :: "uuid \<Rightarrow> listener \<Rightarrow> fanout \<Rightarrow> (nat \<times> bool) \<times> fanout" where
  "watch meetingId l s =
     (case map_of (fo_rooms s) meetingId of
       Some existing \<Rightarrow>
         ((rm_id existing, False),
          s\<lparr>fo_rooms := AList.update meetingId
              (existing\<lparr>rm_listeners := add_listener l (rm_listeners existing)\<rparr>) (fo_rooms s)\<rparr>)
     | None \<Rightarrow>
         ((fo_next s, True),
          s\<lparr>fo_rooms := fo_rooms s @ [(meetingId, \<lparr>rm_id = fo_next s, rm_listeners = [l]\<rparr>)],
            fo_next := fo_next s + 1\<rparr>))"

text \<open>The subscription issued by \<open>watch\<close> is confirmed or rejected; a rejection removes the room if it is
  still the one that was created.\<close>

definition subscribe_settles :: "uuid \<Rightarrow> nat \<Rightarrow> bool \<Rightarrow> fanout \<Rightarrow> fanout" where
  "subscribe_settles meetingId roomId ok s =
     (if ok then s\<lparr>fo_channels := (if meetingId \<in> set (fo_channels s) then fo_channels s
                                  else fo_channels s @ [meetingId])\<rparr>
      else case map_of (fo_rooms s) meetingId of
        Some r \<Rightarrow> if rm_id r = roomId then s\<lparr>fo_rooms := AList.delete meetingId (fo_rooms s)\<rparr> else s
      | None \<Rightarrow> s)"

text \<open>\<open>unwatch\<close> up to its first await: whether the call goes on to unsubscribe.\<close>

definition unwatch :: "uuid \<Rightarrow> listener \<Rightarrow> fanout \<Rightarrow> bool \<times> fanout" where
  "unwatch meetingId l s =
     (case map_of (fo_rooms s) meetingId of
       None \<Rightarrow> (False, s)
     | Some r \<Rightarrow>
         let left = filter (\<lambda>k. k \<noteq> l) (rm_listeners r)
         in if left \<noteq> []
            then (False, s\<lparr>fo_rooms := AList.update meetingId (r\<lparr>rm_listeners := left\<rparr>) (fo_rooms s)\<rparr>)
            else (True, s\<lparr>fo_rooms := AList.delete meetingId (fo_rooms s),
                          fo_heads := AList.delete meetingId (fo_heads s)\<rparr>))"

text \<open>Its end: \<open>sUnsubscribe\<close> of the channel drops every handler of the connection for it.\<close>

definition unsubscribe :: "uuid \<Rightarrow> fanout \<Rightarrow> fanout" where
  "unsubscribe meetingId s = s\<lparr>fo_channels := filter (\<lambda>m. m \<noteq> meetingId) (fo_channels s)\<rparr>"

definition observeHead :: "uuid \<Rightarrow> int \<Rightarrow> fanout \<Rightarrow> bool \<times> fanout" where
  "observeHead meetingId position s =
     (if (case map_of (fo_heads s) meetingId of None \<Rightarrow> False | Some previous \<Rightarrow> previous \<ge> position)
      then (False, s)
      else (True, s\<lparr>fo_heads := AList.update meetingId position (fo_heads s)\<rparr>))"

text \<open>\<open>notify\<close>: every listener of the room is called; one that throws does not stop the others.\<close>

definition notify :: "uuid \<Rightarrow> chat_notification \<Rightarrow> fanout \<Rightarrow> (listener \<times> chat_notification) list" where
  "notify meetingId notification s = map (\<lambda>l. (l, notification)) (listeners_of s meetingId)"

datatype fanout_metric = Received | Invalid

definition receive ::
  "zod \<Rightarrow> realtime_config \<Rightarrow> uuid \<Rightarrow> wire_event \<Rightarrow> fanout
     \<Rightarrow> fanout_metric \<times> (listener \<times> chat_notification) list \<times> fanout" where
  "receive z realtime meetingId e s =
     (if int (we_bytes e) > rc_maxMessageBytes realtime then (Invalid, [], s)
      else case we_parsed e of
        None \<Rightarrow> (Invalid, [], s)
      | Some v \<Rightarrow>
          (case parseChatMessage z v of
            Inl _ \<Rightarrow> (Invalid, [], s)
          | Inr message \<Rightarrow>
              if cm_meetingId message \<noteq> meetingId then (Invalid, [], s)
              else let s' = snd (observeHead meetingId (cm_position message) s)
                   in (Received, notify meetingId (MessageNotice message) s', s')))"

text \<open>One batch of \<open>pollHighWatermarks\<close>: the heads that were read, compared one by one.\<close>

fun poll_heads :: "(uuid \<times> int) list \<Rightarrow> fanout \<Rightarrow> (listener \<times> chat_notification) list \<times> fanout" where
  "poll_heads [] s = ([], s)"
| "poll_heads ((m, p) # heads) s =
     (case observeHead m p s of
       (True, s') \<Rightarrow> (case poll_heads heads s' of (out, s'') \<Rightarrow> (notify m (HighWatermark p) s' @ out, s''))
     | (False, s') \<Rightarrow> poll_heads heads s')"

text \<open>The whole poll. \<open>read\<close> is \<open>readHighWatermarks\<close>; the first batch that fails ends the poll, and the
  flag is reset in any case.\<close>

fun poll_batches ::
  "(uuid list \<Rightarrow> (uuid \<times> int) list outcome) \<Rightarrow> uuid list list \<Rightarrow> fanout
     \<Rightarrow> (listener \<times> chat_notification) list \<times> fanout" where
  "poll_batches read [] s = ([], s)"
| "poll_batches read (batch # batches) s =
     (case read batch of
       Inl _ \<Rightarrow> ([], s)
     | Inr heads \<Rightarrow>
         (case poll_heads heads s of (out, s') \<Rightarrow>
           (case poll_batches read batches s' of (out', s'') \<Rightarrow> (out @ out', s''))))"

definition pollHighWatermarks ::
  "(uuid list \<Rightarrow> (uuid \<times> int) list outcome) \<Rightarrow> fanout \<Rightarrow> (listener \<times> chat_notification) list \<times> fanout" where
  "pollHighWatermarks read s =
     (if fo_polling s \<or> fo_rooms s = [] then ([], s)
      else case poll_batches read (windows 1000 (map fst (fo_rooms s))) (s\<lparr>fo_polling := True\<rparr>) of
        (out, s') \<Rightarrow> (out, s'\<lparr>fo_polling := False\<rparr>))"

definition fanout_destroy :: "fanout \<Rightarrow> uuid list \<times> fanout" where
  "fanout_destroy s = (map fst (fo_rooms s), s\<lparr>fo_rooms := [], fo_heads := []\<rparr>)"

section \<open>Histories\<close>

datatype fanout_event =
  Watch uuid listener
| Settles uuid nat bool
| Unwatch uuid listener
| Unsubscribe uuid
| Receive uuid wire_event
| PollBatch "(uuid \<times> int) list"
| FanoutDestroy

fun fanout_step :: "zod \<Rightarrow> realtime_config \<Rightarrow> fanout \<Rightarrow> fanout_event \<Rightarrow> fanout" where
  "fanout_step z rt s (Watch m l) = snd (watch m l s)"
| "fanout_step z rt s (Settles m i ok) = subscribe_settles m i ok s"
| "fanout_step z rt s (Unwatch m l) = snd (unwatch m l s)"
| "fanout_step z rt s (Unsubscribe m) = unsubscribe m s"
| "fanout_step z rt s (Receive m e) = snd (snd (receive z rt m e s))"
| "fanout_step z rt s (PollBatch heads) = snd (poll_heads heads s)"
| "fanout_step z rt s FanoutDestroy = snd (fanout_destroy s)"

definition new_fanout :: fanout where
  "new_fanout = \<lparr>fo_rooms = [], fo_heads = [], fo_channels = [], fo_next = 0, fo_polling = False\<rparr>"

definition fanout_inv :: "fanout \<Rightarrow> bool" where
  "fanout_inv s =
     (distinct (map fst (fo_rooms s)) \<and>
      list_all (\<lambda>(m, r). rm_listeners r \<noteq> [] \<and> distinct (rm_listeners r) \<and> rm_id r < fo_next s) (fo_rooms s))"

lemma list_all_update:
  "list_all P xs \<Longrightarrow> P (k, v) \<Longrightarrow> list_all P (AList.update k v xs)"
  by (induction xs) auto

lemma list_all_delete: "list_all P xs \<Longrightarrow> list_all P (AList.delete k xs)"
  by (auto simp: list_all_iff AList.delete_eq)

lemma room_listed: "fanout_inv s \<Longrightarrow> map_of (fo_rooms s) m = Some r \<Longrightarrow>
    rm_listeners r \<noteq> [] \<and> distinct (rm_listeners r) \<and> rm_id r < fo_next s"
  by (auto simp: fanout_inv_def list_all_iff dest!: map_of_SomeD)

lemma watch_keeps [inv_intros]: "fanout_inv s \<Longrightarrow> fanout_inv (snd (watch m l s))"
proof (cases "map_of (fo_rooms s) m")
  case None
  assume "fanout_inv s"
  moreover have "m \<notin> fst ` set (fo_rooms s)" using None by (simp add: map_of_eq_None_iff)
  ultimately show ?thesis using None by (auto simp: watch_def fanout_inv_def list_all_iff)
next
  case (Some r)
  assume inv: "fanout_inv s"
  then show ?thesis using Some room_listed [OF inv Some]
    by (auto simp: watch_def fanout_inv_def distinct_update add_listener_def intro!: list_all_update)
qed

lemma settles_keeps [inv_intros]: "fanout_inv s \<Longrightarrow> fanout_inv (subscribe_settles m i ok s)"
  by (auto simp: subscribe_settles_def fanout_inv_def distinct_delete list_all_delete split: option.splits)

lemma unwatch_keeps [inv_intros]: "fanout_inv s \<Longrightarrow> fanout_inv (snd (unwatch m l s))"
proof (cases "map_of (fo_rooms s) m")
  case (Some r)
  assume inv: "fanout_inv s"
  then show ?thesis using Some room_listed [OF inv Some]
    by (auto simp: unwatch_def Let_def fanout_inv_def distinct_update distinct_delete
        intro!: list_all_update list_all_delete)
qed (simp add: unwatch_def)

lemma observeHead_rooms [simp]: "fo_rooms (snd (observeHead m p s)) = fo_rooms s"
  "fo_next (snd (observeHead m p s)) = fo_next s"
  by (auto simp: observeHead_def)

lemma observeHead_listeners [simp]: "listeners_of (snd (observeHead m p s)) k = listeners_of s k"
  by (simp add: listeners_of_def)

lemma receive_rooms [simp]: "fo_rooms (snd (snd (receive z rt m e s))) = fo_rooms s"
  "fo_next (snd (snd (receive z rt m e s))) = fo_next s"
  by (auto simp: receive_def Let_def split: option.splits sum.splits)

lemma observeHead_frame: "\<exists>h. snd (observeHead m p s) = s\<lparr>fo_heads := h\<rparr>"
  by (auto simp: observeHead_def intro: exI [of _ "fo_heads s"])

lemma poll_heads_frame: "\<exists>h. snd (poll_heads hs s) = s\<lparr>fo_heads := h\<rparr>"
proof (induction hs arbitrary: s)
  case Nil
  show ?case by (intro exI [of _ "fo_heads s"]) simp
next
  case (Cons a hs)
  obtain m p where a: "a = (m, p)" by force
  obtain b s' where o: "observeHead m p s = (b, s')" by force
  from observeHead_frame [of m p s] o obtain h where "s' = s\<lparr>fo_heads := h\<rparr>" by auto
  moreover from Cons.IH [of s'] obtain h' where "snd (poll_heads hs s') = s'\<lparr>fo_heads := h'\<rparr>" by blast
  ultimately have "snd (poll_heads (a # hs) s) = s\<lparr>fo_heads := h'\<rparr>"
    using o a by (cases b) (auto split: prod.splits)
  then show ?case by blast
qed

lemma poll_heads_rooms [simp]: "fo_rooms (snd (poll_heads hs s)) = fo_rooms s"
  "fo_next (snd (poll_heads hs s)) = fo_next s"
  using poll_heads_frame [of hs s] by auto

lemma frame_keeps [inv_intros]:
  "fanout_inv s \<Longrightarrow> fanout_inv (unsubscribe m s)"
  "fanout_inv s \<Longrightarrow> fanout_inv (snd (snd (receive z rt m e s)))"
  "fanout_inv s \<Longrightarrow> fanout_inv (snd (poll_heads hs s))"
  "fanout_inv (snd (fanout_destroy s))"
  by (simp_all add: fanout_inv_def unsubscribe_def fanout_destroy_def)

interpretation fanout_hist: stepwise_invariant "fanout_step z rt" "\<lambda>_ _. True" fanout_inv
proof
  fix s e
  assume "fanout_inv s"
  then show "fanout_inv (fanout_step z rt s e)" by (cases e) (simp_all add: inv_intros)
qed

lemma always_enabled: "enabled_history step (\<lambda>_ _. True) s es"
  by (induction es arbitrary: s) auto

lemma new_fanout_inv: "fanout_inv new_fanout"
  by (simp add: new_fanout_def fanout_inv_def)

lemma reachable_inv: "fanout_inv (foldl (fanout_step z rt) new_fanout es)"
  using fanout_hist.history_keeps [OF new_fanout_inv always_enabled] .

section \<open>Guarantees of the fan-out\<close>

lemma poll_heads_notice:
  assumes "(l, n) \<in> set (fst (poll_heads heads s))"
  shows "\<exists>m p. n = HighWatermark p \<and> (m, p) \<in> set heads \<and> l \<in> set (listeners_of s m) \<and>
    (case map_of (fo_heads s) m of None \<Rightarrow> True | Some q \<Rightarrow> q < p)"
  using assms
proof (induction heads arbitrary: s)
  case (Cons a heads)
  obtain m p where a: "a = (m, p)" by force
  obtain b s' where o: "observeHead m p s = (b, s')" by force
  have rooms: "listeners_of s' k = listeners_of s k" for k
    using observeHead_listeners [of m p s k] o by simp
  have heads: "(case map_of (fo_heads s') k of None \<Rightarrow> True | Some q \<Rightarrow> q < p') \<Longrightarrow>
      (case map_of (fo_heads s) k of None \<Rightarrow> True | Some q \<Rightarrow> q < p')" for k p'
    using o by (auto simp: observeHead_def update_conv' split: if_splits option.splits)
  consider "b" "l \<in> set (listeners_of s m)" "n = HighWatermark p" | "(l, n) \<in> set (fst (poll_heads heads s'))"
    using Cons.prems a o rooms by (cases b) (auto simp: notify_def split: prod.splits)
  then show ?case
  proof cases
    case 1
    then have "case map_of (fo_heads s) m of None \<Rightarrow> True | Some q \<Rightarrow> q < p"
      using o by (auto simp: observeHead_def split: if_splits option.splits)
    then show ?thesis using 1 a by auto
  next
    case 2
    from Cons.IH [OF this] show ?thesis using rooms heads by fastforce
  qed
qed simp

text \<open>The fan-out is exact, over every history of its asynchronous operations: an event that arrives
  on a meeting's channel is dropped unless it is a valid message of that meeting within the frame
  limit, and then every listener of the meeting, and no other, is notified of it exactly once. A poll
  notifies a listener only of a head of a meeting it watches that is higher than any head seen
  there.\<close>

theorem fanout_exact:
  assumes "s = foldl (fanout_step z rt) new_fanout es"
  shows "(case receive z rt m e s of
      (Invalid, out, s') \<Rightarrow> out = [] \<and> s' = s
    | (Received, out, s') \<Rightarrow> (\<exists>message. Option.bind (we_parsed e) (chatMessageSchema z) = Some message \<and>
        cm_meetingId message = m \<and> int (we_bytes e) \<le> rc_maxMessageBytes rt \<and>
        out = map (\<lambda>l. (l, MessageNotice message)) (listeners_of s m) \<and> distinct (map fst out))) \<and>
    ((l, n) \<in> set (fst (poll_heads heads s)) \<longrightarrow>
      (\<exists>k p. n = HighWatermark p \<and> (k, p) \<in> set heads \<and> l \<in> set (listeners_of s k) \<and>
        (case map_of (fo_heads s) k of None \<Rightarrow> True | Some q \<Rightarrow> q < p)))"
proof -
  have inv: "fanout_inv s" using reachable_inv assms by simp
  have dist: "distinct (listeners_of s m)"
    using room_listed [OF inv, of m] by (simp add: listeners_of_def split: option.split)
  have names: "map fst (map (\<lambda>l. (l, x)) ls) = ls" for x :: chat_notification and ls :: "listener list"
    by (induction ls) auto
  show ?thesis
  proof (intro conjI impI poll_heads_notice)
    show "case receive z rt m e s of
        (Invalid, out, s') \<Rightarrow> out = [] \<and> s' = s
      | (Received, out, s') \<Rightarrow> (\<exists>message. Option.bind (we_parsed e) (chatMessageSchema z) = Some message \<and>
          cm_meetingId message = m \<and> int (we_bytes e) \<le> rc_maxMessageBytes rt \<and>
          out = map (\<lambda>l. (l, MessageNotice message)) (listeners_of s m) \<and> distinct (map fst out))"
      using dist names
      by (auto simp: receive_def Let_def notify_def parseChatMessage_def split: option.splits sum.splits)
  qed
qed


definition sample_environment :: environment where
  "sample_environment = \<lparr>NODE_ENV = Production, OUTBOX_BATCH_SIZE = 50, OUTBOX_CONCURRENCY = 10,
     OUTBOX_LEASE_MS = 30000, OUTBOX_MAX_ATTEMPTS = 12, OUTBOX_BASE_RETRY_MS = 1000,
     OUTBOX_MAX_RETRY_MS = 300000, OUTBOX_POLL_INTERVAL_MS = 500, MEETINGS_ENABLED = Some True,
     CAPABILITY_HMAC_KEYRING = None, CAPABILITY_HMAC_KEYRING_FILE = Some ''/run/secrets/capability'',
     SESSION_HMAC_KEYRING = None, SESSION_HMAC_KEYRING_FILE = Some ''/run/secrets/session'',
     MEETING_CAPABILITY_TTL_SECONDS = 86400, MEETING_TTL_SECONDS = 86400,
     SESSION_IDLE_TTL_SECONDS = 3600, SESSION_ABSOLUTE_TTL_SECONDS = 21600, SESSION_COOKIE_NAME = None,
     MEETING_CREATE_RATE_LIMIT = 20, MEETING_JOIN_RATE_LIMIT = 60,
     MEETING_RATE_LIMIT_WINDOW_SECONDS = 60, REALTIME_TICKET_TTL_SECONDS = 20,
     REALTIME_AUTH_TIMEOUT_MS = 5000, REALTIME_HEARTBEAT_INTERVAL_MS = 25000,
     REALTIME_PRESENCE_TTL_SECONDS = 75, REALTIME_MAX_MESSAGE_BYTES = 16384,
     REALTIME_MAX_BUFFERED_BYTES = 1048576, REALTIME_MAX_PENDING_COMMANDS = 16,
     REALTIME_MESSAGE_RATE_PER_SECOND = 20, REALTIME_MESSAGE_BURST = 40,
     REALTIME_MAX_CONNECTIONS_PER_SOURCE = 32, REALTIME_MAX_CONNECTIONS_PER_SESSION = 4,
     REALTIME_TICKET_ISSUE_RATE_LIMIT = 12, REALTIME_TICKET_RATE_WINDOW_SECONDS = 60,
     REALTIME_SESSION_REVALIDATE_SECONDS = 30, REALTIME_MAX_PRESENCE_SNAPSHOT_PARTICIPANTS = 500,
     CHAT_ENABLED = Some True, CHAT_MAX_CIPHERTEXT_BYTES = 8192, CHAT_HISTORY_PAGE_DEFAULT = 50,
     CHAT_HISTORY_PAGE_MAX = 200, CHAT_RATE_PER_PARTICIPANT = 5, CHAT_RATE_BURST = 10,
     CHAT_FAST_PATH_LEASE_MS = 3000, CHAT_HIGH_WATERMARK_INTERVAL_MS = 5000,
     CHAT_REORDER_BUFFER_MESSAGES = 256, CHAT_RETENTION_DAYS = 30, CHAT_CLEANUP_BATCH_SIZE = 500,
     CHAT_CLEANUP_INTERVAL_MS = 300000, REDIS_COMMAND_TIMEOUT_MS = 2000\<rparr>"

definition sample_fanout :: fanout where
  "sample_fanout = foldl (fanout_step strict_zod sample_realtime) new_fanout
     [Watch ''0190a1b2-c3d4-7abc-8def-00000000000a'' 7, Watch ''other'' 8,
      Watch ''0190a1b2-c3d4-7abc-8def-00000000000a'' 9]"

lemma sample_config_loads:
  "loadChatConfig sample_environment Realtime True sample_realtime = Inr sample_chat_config"
  by code_simp


theorem fanout_exact_witness:
  "(\<exists>message. Option.bind (we_parsed (serialized (am_message (fst (projr sample_accept)))))
        (chatMessageSchema strict_zod) = Some message \<and>
      map fst (fst (snd (receive strict_zod sample_realtime ''0190a1b2-c3d4-7abc-8def-00000000000a''
        (serialized (am_message (fst (projr sample_accept)))) sample_fanout))) = [7, 9]) \<and>
   receive strict_zod sample_realtime ''other'' (serialized (am_message (fst (projr sample_accept))))
     sample_fanout = (Invalid, [], sample_fanout)"
proof -
  let ?m = "''0190a1b2-c3d4-7abc-8def-00000000000a''"
  let ?e = "serialized (am_message (fst (projr sample_accept)))"
  have one: "fst (receive strict_zod sample_realtime ?m ?e sample_fanout) = Received"
    "fst (receive strict_zod sample_realtime ''other'' ?e sample_fanout) = Invalid" by code_simp+
  have rooms: "listeners_of sample_fanout ?m = [7, 9]" by code_simp
  obtain out s' where r: "receive strict_zod sample_realtime ?m ?e sample_fanout = (Received, out, s')"
    using one(1) by (metis prod.collapse)
  obtain out' s'' where i: "receive strict_zod sample_realtime ''other'' ?e sample_fanout = (Invalid, out', s'')"
    using one(2) by (metis prod.collapse)
  note exact = fanout_exact [OF sample_fanout_def, where e = ?e and l = 0 and n = "HighWatermark 0" and heads = "[]"]
  show ?thesis using exact [of ?m] exact [of "''other''"] r i rooms by auto
qed

section \<open>A lost subscription\<close>

text \<open>Between the removal of the last listener and the \<open>sUnsubscribe\<close> that follows, \<open>unwatch\<close> awaits. A
  \<open>watch\<close> in between opens a new room on the same channel and is confirmed, and the pending
  \<open>sUnsubscribe\<close> then silences it: the listener is registered, the channel is not subscribed, and only
  the watermark poll reaches it.\<close>

theorem rewatch_loses_subscription:
  "let s = foldl (fanout_step strict_zod sample_realtime) new_fanout
     [Watch ''m'' 1, Settles ''m'' 0 True, Unwatch ''m'' 1, Watch ''m'' 2, Settles ''m'' 1 True, Unsubscribe ''m'']
   in listeners_of s ''m'' = [2] \<and> ''m'' \<notin> set (fo_channels s)"
  by code_simp

end
