(* ===== verification/RealtimeRegistry.thy ===== *)
theory RealtimeRegistry
  imports RealtimeProtocol ChatFanout
begin

text \<open>
  The connections of one process (\<open>realtime-connection.registry.ts\<close>): the context of every socket and the
  two indexes that bound them, by source address and by session. A context is an object that queued
  commands keep a reference to after its socket is removed, so the objects live in a store of their own
  and the registry's map is the list of the sockets registered.
\<close>

section \<open>State and operations\<close>

type_synonym socket_id = nat

text \<open>\<open>RealtimeConnectionContext\<close>. The command chain is the list of frames that have not started; the live
  cursor and the unsubscriber of a chat subscription are named by its listener.\<close>

record connection =
  ct_connectionId :: uuid
  ct_sourceKey :: string
  ct_origin :: string
  ct_principal :: "principal option"
  ct_lastValidatedAtMs :: instant
  ct_alive :: bool
  ct_pendingCommands :: int
  ct_commandTail :: "json option list"
  ct_currentCommandId :: "uuid option"
  ct_authenticationTimer :: bool
  ct_unwatchPresence :: "uuid option"
  ct_unwatchChat :: "(uuid \<times> listener) option"
  ct_chatDeviceId :: "uuid option"
  ct_chatCursor :: "listener option"
  ct_closed :: bool

record connection_registry =
  rg_contexts :: "socket_id list"
  rg_objects :: "socket_id \<Rightarrow> connection option"
  rg_sourceCounts :: "string \<Rightarrow> int option"
  rg_sessionSockets :: "uuid \<Rightarrow> socket_id list option"

definition new_registry :: connection_registry where
  "new_registry = \<lparr>rg_contexts = [], rg_objects = Map.empty, rg_sourceCounts = Map.empty,
     rg_sessionSockets = Map.empty\<rparr>"

definition registry_get :: "socket_id \<Rightarrow> connection_registry \<Rightarrow> connection option" where
  "registry_get s r = (if s \<in> set (rg_contexts r) then rg_objects r s else None)"

definition registry_entries :: "connection_registry \<Rightarrow> socket_id list" where
  "registry_entries r = rg_contexts r"

definition put_context :: "socket_id \<Rightarrow> connection \<Rightarrow> connection_registry \<Rightarrow> connection_registry" where
  "put_context s c r = r\<lparr>rg_objects := (rg_objects r)(s \<mapsto> c)\<rparr>"

definition new_connection :: "uuid \<Rightarrow> string \<Rightarrow> string \<Rightarrow> connection" where
  "new_connection connectionId sourceKey origin =
     \<lparr>ct_connectionId = connectionId, ct_sourceKey = sourceKey, ct_origin = origin, ct_principal = None,
      ct_lastValidatedAtMs = 0, ct_alive = True, ct_pendingCommands = 0, ct_commandTail = [],
      ct_currentCommandId = None, ct_authenticationTimer = False, ct_unwatchPresence = None,
      ct_unwatchChat = None, ct_chatDeviceId = None, ct_chatCursor = None, ct_closed = False\<rparr>"

definition registry_register ::
  "realtime_config \<Rightarrow> uuid \<Rightarrow> socket_id \<Rightarrow> string \<Rightarrow> string \<Rightarrow> connection_registry \<Rightarrow> bool \<times> connection_registry" where
  "registry_register config connectionId s origin sourceKey r =
     (let n = or_else (rg_sourceCounts r sourceKey) 0
      in if n \<ge> rc_maxConnectionsPerSource config then (False, r)
         else (True, (put_context s (new_connection connectionId sourceKey origin) r)
           \<lparr>rg_contexts := (if s \<in> set (rg_contexts r) then rg_contexts r else rg_contexts r @ [s]),
            rg_sourceCounts := (rg_sourceCounts r)(sourceKey \<mapsto> n + 1)\<rparr>))"

definition registry_authenticate ::
  "realtime_config \<Rightarrow> instant \<Rightarrow> socket_id \<Rightarrow> principal \<Rightarrow> connection_registry \<Rightarrow> bool \<times> connection_registry" where
  "registry_authenticate config now s who r =
     (case registry_get s r of
       None \<Rightarrow> (False, r)
     | Some c \<Rightarrow>
         if ct_principal c \<noteq> None then (False, r)
         else let sockets = or_else (rg_sessionSockets r (pr_sessionId who)) []
              in if int (length sockets) \<ge> rc_maxConnectionsPerSession config then (False, r)
                 else (True, (put_context s (c\<lparr>ct_principal := Some who, ct_lastValidatedAtMs := now\<rparr>) r)
                   \<lparr>rg_sessionSockets := (rg_sessionSockets r)(pr_sessionId who \<mapsto> List.insert s sockets)\<rparr>))"

definition decrement :: "string \<Rightarrow> (string \<Rightarrow> int option) \<Rightarrow> string \<Rightarrow> int option" where
  "decrement k index =
     (let remaining = or_else (index k) 1 - 1
      in if remaining \<le> 0 then index(k := None) else index(k \<mapsto> remaining))"

definition drop_session :: "socket_id \<Rightarrow> uuid \<Rightarrow> (uuid \<Rightarrow> socket_id list option) \<Rightarrow> uuid \<Rightarrow> socket_id list option" where
  "drop_session s i index =
     (case index i of
       None \<Rightarrow> index
     | Some sockets \<Rightarrow>
         let rest = removeAll s sockets
         in if rest = [] then index(i := None) else index(i \<mapsto> rest))"

definition registry_remove :: "socket_id \<Rightarrow> connection_registry \<Rightarrow> connection option \<times> connection_registry" where
  "registry_remove s r =
     (case registry_get s r of
       None \<Rightarrow> (None, r)
     | Some c \<Rightarrow>
         if ct_closed c then (None, r)
         else let c' = c\<lparr>ct_closed := True\<rparr>
              in (Some c', (put_context s c' r)
                \<lparr>rg_contexts := removeAll s (rg_contexts r),
                 rg_sourceCounts := decrement (ct_sourceKey c) (rg_sourceCounts r),
                 rg_sessionSockets := (case ct_principal c of
                   None \<Rightarrow> rg_sessionSockets r
                 | Some who \<Rightarrow> drop_session s (pr_sessionId who) (rg_sessionSockets r))\<rparr>))"

section \<open>The indexes are exact\<close>

definition source_of :: "connection_registry \<Rightarrow> socket_id \<Rightarrow> string option" where
  "source_of r s = map_option ct_sourceKey (rg_objects r s)"

definition session_of :: "connection_registry \<Rightarrow> socket_id \<Rightarrow> uuid option" where
  "session_of r s = map_option pr_sessionId (Option.bind (rg_objects r s) ct_principal)"

definition from_source :: "connection_registry \<Rightarrow> string \<Rightarrow> socket_id list" where
  "from_source r k = filter (\<lambda>s. source_of r s = Some k) (rg_contexts r)"

definition of_session :: "connection_registry \<Rightarrow> uuid \<Rightarrow> socket_id list" where
  "of_session r i = filter (\<lambda>s. session_of r s = Some i) (rg_contexts r)"

text \<open>An index entry lists the given sockets, each once, and is absent when there are none.\<close>

definition lists_exactly :: "socket_id list option \<Rightarrow> socket_id list \<Rightarrow> bool" where
  "lists_exactly entry ss =
     (case entry of
       None \<Rightarrow> ss = []
     | Some sockets \<Rightarrow> distinct sockets \<and> sockets \<noteq> [] \<and> set sockets = set ss)"

definition registry_inv :: "realtime_config \<Rightarrow> connection_registry \<Rightarrow> bool" where
  "registry_inv config r =
     (distinct (rg_contexts r) \<and>
      (\<forall>s \<in> set (rg_contexts r). \<exists>c. rg_objects r s = Some c \<and> \<not> ct_closed c) \<and>
      (\<forall>k. rg_sourceCounts r k =
         (if from_source r k = [] then None else Some (int (length (from_source r k))))) \<and>
      (\<forall>k. int (length (from_source r k)) \<le> rc_maxConnectionsPerSource config) \<and>
      (\<forall>i. lists_exactly (rg_sessionSockets r i) (of_session r i)) \<and>
      (\<forall>i. int (length (of_session r i)) \<le> rc_maxConnectionsPerSession config))"

lemma registry_invI:
  assumes "distinct (rg_contexts r)"
    and "\<And>s. s \<in> set (rg_contexts r) \<Longrightarrow> \<exists>c. rg_objects r s = Some c \<and> \<not> ct_closed c"
    and "\<And>k. rg_sourceCounts r k = (if from_source r k = [] then None else Some (int (length (from_source r k))))"
    and "\<And>k. int (length (from_source r k)) \<le> rc_maxConnectionsPerSource config"
    and "\<And>i. lists_exactly (rg_sessionSockets r i) (of_session r i)"
    and "\<And>i. int (length (of_session r i)) \<le> rc_maxConnectionsPerSession config"
  shows "registry_inv config r"
  using assms by (simp add: registry_inv_def)

lemma registry_invD:
  assumes "registry_inv config r"
  shows "distinct (rg_contexts r)"
    and "s \<in> set (rg_contexts r) \<Longrightarrow> \<exists>c. rg_objects r s = Some c \<and> \<not> ct_closed c"
    and "rg_sourceCounts r k = (if from_source r k = [] then None else Some (int (length (from_source r k))))"
    and "int (length (from_source r k)) \<le> rc_maxConnectionsPerSource config"
    and "lists_exactly (rg_sessionSockets r i) (of_session r i)"
    and "int (length (of_session r i)) \<le> rc_maxConnectionsPerSession config"
  using assms by (auto simp: registry_inv_def)

text \<open>How many sockets a session has, read from the index.\<close>

lemma session_index_length:
  assumes "registry_inv config r"
  shows "length (or_else (rg_sessionSockets r i) []) = length (of_session r i)"
proof -
  have "distinct (of_session r i)" using registry_invD(1) [OF assms] by (simp add: of_session_def)
  then show ?thesis
    using registry_invD(5) [OF assms, of i] distinct_card [of "of_session r i"]
    by (auto simp: lists_exactly_def or_else_def distinct_card [symmetric] split: option.splits)
qed

lemma source_index_length:
  "registry_inv config r \<Longrightarrow> or_else (rg_sourceCounts r k) 0 = int (length (from_source r k))"
  by (simp add: registry_invD(3) or_else_def)

lemma put_context_fields [simp]:
  "rg_contexts (put_context s c r) = rg_contexts r" "rg_objects (put_context s c r) = (rg_objects r)(s \<mapsto> c)"
  "rg_sourceCounts (put_context s c r) = rg_sourceCounts r"
  "rg_sessionSockets (put_context s c r) = rg_sessionSockets r"
  by (simp_all add: put_context_def)

text \<open>Replacing a context by one with the same source and session keeps everything.\<close>

lemma put_context_views:
  assumes "rg_objects r s = Some c" "ct_sourceKey c' = ct_sourceKey c"
    and "map_option pr_sessionId (ct_principal c') = map_option pr_sessionId (ct_principal c)"
  shows "from_source (put_context s c' r) k = from_source r k" "of_session (put_context s c' r) i = of_session r i"
proof -
  have "source_of (put_context s c' r) = source_of r" "session_of (put_context s c' r) = session_of r"
    using assms by (auto simp: source_of_def session_of_def)
  then show "from_source (put_context s c' r) k = from_source r k" "of_session (put_context s c' r) i = of_session r i"
    by (simp_all add: from_source_def of_session_def)
qed

lemma put_context_inv [inv_intros]:
  assumes "registry_inv config r" "rg_objects r s = Some c" "ct_sourceKey c' = ct_sourceKey c"
    and "map_option pr_sessionId (ct_principal c') = map_option pr_sessionId (ct_principal c)"
    and "ct_closed c' = ct_closed c"
  shows "registry_inv config (put_context s c' r)"
proof (rule registry_invI, goal_cases)
  case (2 t)
  then show ?case using registry_invD(2) [OF assms(1), of t] assms(2,5) by auto
qed (use registry_invD [OF assms(1)] put_context_views [OF assms(2-4)] in simp_all)


lemma registry_register_inv [inv_intros]:
  assumes "registry_inv config r" "rg_objects r s = None"
  shows "registry_inv config (snd (registry_register config i s origin key r))"
proof (cases "or_else (rg_sourceCounts r key) 0 \<ge> rc_maxConnectionsPerSource config")
  case False
  let ?r = "snd (registry_register config i s origin key r)"
  have new: "s \<notin> set (rg_contexts r)" using registry_invD(2) [OF assms(1), of s] assms(2) by auto
  have r: "rg_contexts ?r = rg_contexts r @ [s]"
    "rg_objects ?r = (rg_objects r)(s \<mapsto> new_connection i key origin)"
    "rg_sourceCounts ?r = (rg_sourceCounts r)(key \<mapsto> or_else (rg_sourceCounts r key) 0 + 1)"
    "rg_sessionSockets ?r = rg_sessionSockets r"
    using False new by (simp_all add: registry_register_def Let_def)
  have src: "from_source ?r k = from_source r k @ (if k = key then [s] else [])" for k
    using new by (auto simp: from_source_def r source_of_def new_connection_def intro!: filter_cong)
  have ses: "of_session ?r k = of_session r k" for k
    using new by (auto simp: of_session_def r session_of_def new_connection_def intro!: filter_cong)
  show ?thesis
  proof (rule registry_invI, goal_cases)
    case 1
    then show ?case using registry_invD(1) [OF assms(1)] new by (simp add: r)
  next
    case (2 t)
    then show ?case using registry_invD(2) [OF assms(1), of t] by (auto simp: r new_connection_def)
  next
    case (3 k)
    then show ?case using registry_invD(3) [OF assms(1), of k]
      by (simp add: r(3) src source_index_length [OF assms(1)])
  next
    case (4 k)
    then show ?case using registry_invD(4) [OF assms(1), of k] False
      by (simp add: src source_index_length [OF assms(1)])
  qed (use registry_invD [OF assms(1)] in \<open>simp_all add: r(4) ses\<close>)
qed (simp add: registry_register_def assms)

lemma authenticate_inv [inv_intros]:
  assumes "registry_inv config r"
  shows "registry_inv config (snd (registry_authenticate config now s who r))"
proof (cases "fst (registry_authenticate config now s who r)")
  case True
  let ?r = "snd (registry_authenticate config now s who r)" and ?i = "pr_sessionId who"
  let ?old = "or_else (rg_sessionSockets r ?i) []"
  from True obtain c where c: "s \<in> set (rg_contexts r)" "rg_objects r s = Some c" "ct_principal c = None"
    and room: "int (length ?old) < rc_maxConnectionsPerSession config"
    and r: "?r = (put_context s (c\<lparr>ct_principal := Some who, ct_lastValidatedAtMs := now\<rparr>) r)
      \<lparr>rg_sessionSockets := (rg_sessionSockets r)(?i \<mapsto> List.insert s ?old)\<rparr>"
    by (auto simp: registry_authenticate_def registry_get_def Let_def split: option.splits if_splits)
  have src: "from_source ?r k = from_source r k" for k
    using c(2) by (auto simp: from_source_def r source_of_def intro!: filter_cong)
  have ses: "of_session ?r k = (if k = ?i then filter (\<lambda>t. t = s \<or> session_of r t = Some k) (rg_contexts r)
      else of_session r k)" for k
    using c by (auto simp: of_session_def r session_of_def intro!: filter_cong)
  have none: "session_of r s = None" using c by (simp add: session_of_def)
  then have out: "s \<notin> set (of_session r k)" for k by (simp add: of_session_def)
  have set_new: "set (of_session ?r ?i) = insert s (set (of_session r ?i))"
    using c(1) unfolding ses by (auto simp: of_session_def)
  have dist: "distinct (of_session ?r ?i)" "distinct (of_session r ?i)"
    using registry_invD(1) [OF assms] by (simp_all add: of_session_def r)
  have len: "length (of_session ?r ?i) = Suc (length (of_session r ?i))"
    using distinct_card [OF dist(1)] distinct_card [OF dist(2)] set_new out by simp
  have old: "distinct ?old" "set ?old = set (of_session r ?i)"
    using registry_invD(5) [OF assms, of ?i] by (auto simp: lists_exactly_def or_else_def split: option.splits)
  show ?thesis
  proof (rule registry_invI, goal_cases)
    case (2 t)
    then show ?case using registry_invD(2) [OF assms, of t] c(2) by (auto simp: r)
  next
    case (5 k)
    show ?case
    proof (cases "k = ?i")
      case True
      have "rg_sessionSockets ?r k = Some (List.insert s ?old)" by (simp add: r True)
      moreover have "List.insert s ?old \<noteq> []" by (auto simp: List.insert_def)
      ultimately show ?thesis using old set_new by (simp add: lists_exactly_def True distinct_insert)
    qed (use registry_invD(5) [OF assms, of k] ses [of k] in \<open>simp add: r\<close>)
  next
    case (6 k)
    then show ?case
      using registry_invD(6) [OF assms, of k] room len ses [of k] session_index_length [OF assms, of ?i]
      by (cases "k = ?i") simp_all
  qed (use registry_invD [OF assms] src in \<open>simp_all add: r\<close>)
next
  case False
  then have "snd (registry_authenticate config now s who r) = r"
    by (auto simp: registry_authenticate_def Let_def split: option.splits if_splits)
  with assms show ?thesis by simp
qed

lemma registry_remove_inv [inv_intros]:
  assumes "registry_inv config r"
  shows "registry_inv config (snd (registry_remove s r))"
proof (cases "fst (registry_remove s r)")
  case None
  then have "snd (registry_remove s r) = r" by (auto simp: registry_remove_def Let_def split: option.splits if_splits)
  with assms show ?thesis by simp
next
  case (Some c')
  let ?r = "snd (registry_remove s r)"
  from Some obtain c where c: "s \<in> set (rg_contexts r)" "rg_objects r s = Some c"
    and r: "?r = (put_context s (c\<lparr>ct_closed := True\<rparr>) r)\<lparr>rg_contexts := removeAll s (rg_contexts r),
      rg_sourceCounts := decrement (ct_sourceKey c) (rg_sourceCounts r),
      rg_sessionSockets := (case ct_principal c of None \<Rightarrow> rg_sessionSockets r
        | Some who \<Rightarrow> drop_session s (pr_sessionId who) (rg_sessionSockets r))\<rparr>"
    by (auto simp: registry_remove_def registry_get_def Let_def split: option.splits if_splits)
  have removed: "filter P (removeAll s xs) = removeAll s (filter P xs)" for P and xs :: "nat list"
    by (induction xs) auto
  have views: "source_of ?r = source_of r" "session_of ?r = session_of r"
    using c(2) by (auto simp: source_of_def session_of_def r)
  have src: "from_source ?r k = removeAll s (from_source r k)" for k
    unfolding from_source_def views removed [symmetric] by (simp add: r)
  have ses: "of_session ?r k = removeAll s (of_session r k)" for k
    unfolding of_session_def views removed [symmetric] by (simp add: r)
  have dist: "distinct (from_source r k)" "distinct (of_session r k)" for k
    using registry_invD(1) [OF assms] by (simp_all add: from_source_def of_session_def)
  have mem: "s \<in> set (from_source r k) \<longleftrightarrow> k = ct_sourceKey c"
    "s \<in> set (of_session r k) \<longleftrightarrow> map_option pr_sessionId (ct_principal c) = Some k" for k
    using c by (auto simp: from_source_def of_session_def source_of_def session_of_def)
  have len: "length (removeAll s xs) \<le> length xs" for xs :: "nat list" by (simp add: length_removeAll_less_eq)
  have counts: "decrement (ct_sourceKey c) (rg_sourceCounts r) k =
      (if removeAll s (from_source r k) = [] then None else Some (int (length (removeAll s (from_source r k)))))" for k
  proof (cases "k = ct_sourceKey c")
    case True
    have n: "length (from_source r k) = Suc (length (removeAll s (from_source r k)))"
      using dist(1) [of k] mem(1) [of k] True length_pos_if_in_set [of s "from_source r k"]
      by (simp add: distinct_remove1_removeAll [symmetric] length_remove1)
    then have "from_source r k \<noteq> []" by auto
    then show ?thesis using True registry_invD(3) [OF assms, of k]
      by (simp add: decrement_def or_else_def Let_def n [unfolded True])
  next
    case False
    then show ?thesis using registry_invD(3) [OF assms, of k] mem(1) [of k]
      by (simp add: decrement_def Let_def)
  qed
  have entry: "lists_exactly (rg_sessionSockets ?r k) (removeAll s (of_session r k))" for k
  proof (cases "map_option pr_sessionId (ct_principal c) = Some k")
    case True
    then obtain who where who: "ct_principal c = Some who" "pr_sessionId who = k" by auto
    from True mem(2) [of k] have "s \<in> set (of_session r k)" by simp
    with registry_invD(5) [OF assms, of k] obtain sockets where sockets: "rg_sessionSockets r k = Some sockets"
      "distinct sockets" "set sockets = set (of_session r k)"
      by (auto simp: lists_exactly_def split: option.splits)
    have "removeAll s sockets = [] \<longleftrightarrow> removeAll s (of_session r k) = []"
      by (metis set_empty set_removeAll sockets(3))
    then show ?thesis using sockets who
      by (auto simp: r drop_session_def lists_exactly_def Let_def distinct_removeAll)
  next
    case False
    then have "rg_sessionSockets ?r k = rg_sessionSockets r k"
      by (auto simp: r drop_session_def Let_def split: option.splits)
    then show ?thesis using registry_invD(5) [OF assms, of k] mem(2) [of k] False by simp
  qed
  show ?thesis
  proof (rule registry_invI, goal_cases)
    case (2 t)
    then show ?case using registry_invD(2) [OF assms, of t] by (auto simp: r)
  next
    case (3 k)
    then show ?case using counts [of k] unfolding src by (simp add: r)
  next
    case (4 k)
    then show ?case using registry_invD(4) [OF assms, of k] len [of "from_source r k"] unfolding src by linarith
  next
    case (6 k)
    then show ?case using registry_invD(6) [OF assms, of k] len [of "of_session r k"] unfolding ses by linarith
  next
    case (5 k)
    then show ?case using entry [of k] unfolding ses .
  qed (use registry_invD(1) [OF assms] in \<open>simp add: r distinct_removeAll\<close>)
qed

section \<open>Histories\<close>

text \<open>The operations of the registry and the replacement of a principal by its revalidated form, which
  keeps the session.\<close>

datatype registry_event =
  Registering uuid socket_id string string
| Authenticating instant socket_id principal
| Refreshing instant socket_id principal
| Removing socket_id

definition refresh_principal :: "instant \<Rightarrow> principal \<Rightarrow> connection \<Rightarrow> connection" where
  "refresh_principal now who c = c\<lparr>ct_principal := Some who, ct_lastValidatedAtMs := now\<rparr>"

fun registry_step :: "realtime_config \<Rightarrow> connection_registry \<Rightarrow> registry_event \<Rightarrow> connection_registry" where
  "registry_step config r (Registering i s origin key) = snd (registry_register config i s origin key r)"
| "registry_step config r (Authenticating now s who) = snd (registry_authenticate config now s who r)"
| "registry_step config r (Refreshing now s who) =
     (case rg_objects r s of None \<Rightarrow> r | Some c \<Rightarrow> put_context s (refresh_principal now who c) r)"
| "registry_step config r (Removing s) = snd (registry_remove s r)"

fun registry_enabled :: "connection_registry \<Rightarrow> registry_event \<Rightarrow> bool" where
  "registry_enabled r (Registering i s origin key) = (rg_objects r s = None)"
| "registry_enabled r (Refreshing now s who) = (session_of r s = Some (pr_sessionId who))"
| "registry_enabled r _ = True"

interpretation connections: stepwise_invariant "registry_step config" registry_enabled "registry_inv config"
proof
  fix r e assume inv: "registry_inv config r" and enabled: "registry_enabled r e"
  show "registry_inv config (registry_step config r e)"
  proof (cases e)
    case (Refreshing now s who)
    then show ?thesis using inv enabled
      by (auto simp: session_of_def refresh_principal_def split: option.split intro!: put_context_inv)
  qed (use inv enabled in \<open>auto intro: inv_intros\<close>)
qed

lemma new_registry_inv:
  "0 \<le> rc_maxConnectionsPerSource config \<Longrightarrow> 0 \<le> rc_maxConnectionsPerSession config \<Longrightarrow>
     registry_inv config new_registry"
  by (simp add: registry_inv_def new_registry_def from_source_def of_session_def lists_exactly_def)

text \<open>Whatever connections are opened, authenticated, revalidated and closed, in any order and even when a
  close is reported twice, at every moment the registered sockets of one source are at most
  \<open>maxConnectionsPerSource\<close> and those of one session at most \<open>maxConnectionsPerSession\<close>; the source index
  counts exactly them and has no entry for a source without sockets, and the session index lists exactly
  them.\<close>

theorem registry_bounded_and_exact:
  assumes "0 \<le> rc_maxConnectionsPerSource config" "0 \<le> rc_maxConnectionsPerSession config"
    and "enabled_history (registry_step config) registry_enabled new_registry es"
    and "r = foldl (registry_step config) new_registry es"
  shows "int (length (from_source r k)) \<le> rc_maxConnectionsPerSource config \<and>
    int (length (of_session r i)) \<le> rc_maxConnectionsPerSession config \<and>
    rg_sourceCounts r k = (if from_source r k = [] then None else Some (int (length (from_source r k)))) \<and>
    lists_exactly (rg_sessionSockets r i) (of_session r i)"
proof -
  have "registry_inv config r"
    unfolding assms(4) by (rule connections.history_keeps [OF new_registry_inv [OF assms(1,2)] assms(3)])
  then show ?thesis by (simp add: registry_inv_def)
qed

theorem registry_bounded_and_exact_witness:
  "let r = foldl (registry_step sample_realtime_config) new_registry
       [Registering ''a'' 1 ''https://hello.example'' ''s'', Registering ''b'' 2 ''https://hello.example'' ''s'',
        Authenticating 5 1 sample_principal, Removing 2, Removing 2]
   in from_source r ''s'' = [1] \<and> rg_sourceCounts r ''s'' = Some 1 \<and>
     lists_exactly (rg_sessionSockets r (pr_sessionId sample_principal)) [1]"
proof -
  let ?es = "[Registering ''a'' 1 ''https://hello.example'' ''s'', Registering ''b'' 2 ''https://hello.example'' ''s'',
    Authenticating 5 1 sample_principal, Removing 2, Removing 2]"
  define r where "r = foldl (registry_step sample_realtime_config) new_registry ?es"
  have limits: "rc_maxConnectionsPerSource sample_realtime_config = 50"
    "rc_maxConnectionsPerSession sample_realtime_config = 4"
    by (simp_all add: sample_realtime_config_def)
  note eval = registry_register_def registry_authenticate_def registry_remove_def registry_get_def new_registry_def put_context_def
    new_connection_def or_else_def decrement_def limits from_source_def of_session_def source_of_def session_of_def
    Let_def List.insert_def
  have "from_source r ''s'' = [1]" "of_session r (pr_sessionId sample_principal) = [1]"
    unfolding r_def by (simp_all add: eval)
  moreover have "enabled_history (registry_step sample_realtime_config) registry_enabled new_registry ?es"
    by (simp add: eval)
  ultimately show ?thesis
    using registry_bounded_and_exact [OF _ _ _ r_def, of "''s''" "pr_sessionId sample_principal"]
    unfolding Let_def r_def [symmetric] by (simp add: limits)
qed

end
