(* ===== verification/RealtimeGateway.thy ===== *)
theory RealtimeGateway
  imports RealtimeRegistry
begin

text \<open>
  The gateway (\<open>realtime.gateway.ts\<close>, \<open>realtime-outbound-sender.ts\<close>) as a reactive machine. Its events are the
  callbacks of the sockets and timers and the answers of the services it awaits; a step runs the code from
  one \<open>await\<close> to the next. A command that waits for a service is the \<open>stage\<close> of its socket, so the events of
  other sockets, and the close of its own, interleave with it at exactly the points where the code yields.
  Services are called by outputs and answer by events; their answers are modelled in the theories of the
  services.
\<close>

section \<open>State\<close>

datatype ready_state = Connecting | Open | Closing | Closed

record socket =
  so_readyState :: ready_state
  so_bufferedAmount :: int

text \<open>The variables captured by the listener of \<open>prepareChatSubscription\<close>.\<close>

record subscription =
  sb_socket :: socket_id
  sb_pending :: "chat_notification list"
  sb_cursor :: "live_cursor option"
  sb_active :: bool
  sb_overflowed :: bool

text \<open>Where the running command of a socket awaits, with the local variables it needs afterwards.\<close>

datatype stage =
  AwaitTicket uuid
| AwaitPresenceWatch uuid principal
| AwaitPresenceOpen uuid principal
| AwaitRevalidate client_message
| AwaitSnapshot uuid principal "chat_subscription option"
| AwaitUnwatch uuid principal chat_subscription presence_snapshot
| AwaitFanout uuid principal chat_subscription presence_snapshot listener
| AwaitHistory uuid principal chat_subscription presence_snapshot listener
| AwaitRelease failure
| AwaitAccept uuid
| AwaitFastPath
| AwaitPage uuid
| AwaitHeartbeat uuid

record gateway =
  gw_registry :: connection_registry
  gw_sockets :: "socket_id \<Rightarrow> socket option"
  gw_buckets :: "socket_id \<Rightarrow> message_buckets"
  gw_running :: "socket_id \<Rightarrow> stage option"
  gw_subscriptions :: "listener \<Rightarrow> subscription option"
  gw_next :: listener

text \<open>The configuration, with the two library functions the sender depends on: the text of a number that is
  not an integer, and the growth of \<open>bufferedAmount\<close> by a frame of a given size.\<close>

record gateway_config =
  gc_realtime :: realtime_config
  gc_chat :: chat_config
  gc_zod :: zod
  gc_number :: "rat \<Rightarrow> string"
  gc_framed :: "int \<Rightarrow> int"

datatype service_call =
  ConsumeTicket string string string
| Revalidate principal
| WatchPresence uuid
| UnwatchPresence uuid
| OpenPresence uuid presence_connection
| HeartbeatPresence uuid uuid uuid
| ClosePresence uuid uuid uuid
| SnapshotPresence uuid
| WatchFanout uuid listener
| UnwatchFanout uuid listener
| Synchronize history_query int
| AcceptMessage submit_command
| PublishFastPath accepted_message

datatype service_answer =
  TicketAnswer "principal outcome"
| RevalidateAnswer "principal outcome"
| WatchPresenceAnswer bool
| OpenPresenceAnswer bool
| SnapshotAnswer presence_snapshot
| WatchAnswer "unit outcome"
| UnwatchAnswer "unit outcome"
| PageAnswer "chat_page outcome"
| AcceptAnswer "accepted_message outcome"
| FastPathAnswer "unit outcome"
| HeartbeatAnswer bool

text \<open>\<open>Call\<close> is awaited by the command of the socket, \<open>Background\<close> by nobody.\<close>

datatype gateway_output =
  SendText socket_id server_message
| CloseFrame socket_id int string
| Terminate socket_id
| PingFrame socket_id
| Call socket_id service_call
| Background socket_id service_call

type_synonym action = "gateway \<Rightarrow> gateway_output list \<times> gateway"

definition then_do :: "action \<Rightarrow> action \<Rightarrow> action" where
  "then_do a b g = (case a g of (out, g') \<Rightarrow> (case b g' of (out', g'') \<Rightarrow> (out @ out', g'')))"

fun do_all :: "action list \<Rightarrow> action" where
  "do_all [] g = ([], g)"
| "do_all (a # as) g = then_do a (do_all as) g"

definition emit :: "gateway_output \<Rightarrow> action" where
  "emit x g = ([x], g)"

section \<open>Sockets and contexts\<close>

definition context_of :: "socket_id \<Rightarrow> gateway \<Rightarrow> connection option" where
  "context_of s g = rg_objects (gw_registry g) s"

definition set_context :: "socket_id \<Rightarrow> connection \<Rightarrow> gateway \<Rightarrow> gateway" where
  "set_context s c g = g\<lparr>gw_registry := put_context s c (gw_registry g)\<rparr>"

definition update_context :: "socket_id \<Rightarrow> (connection \<Rightarrow> connection) \<Rightarrow> action" where
  "update_context s f g = ([], case context_of s g of None \<Rightarrow> g | Some c \<Rightarrow> set_context s (f c) g)"

definition set_stage :: "socket_id \<Rightarrow> stage option \<Rightarrow> gateway \<Rightarrow> gateway" where
  "set_stage s st g = g\<lparr>gw_running := (gw_running g)(s := st)\<rparr>"

definition await :: "socket_id \<Rightarrow> stage \<Rightarrow> service_call \<Rightarrow> action" where
  "await s st call g = ([Call s call], set_stage s (Some st) g)"

definition closeSocket :: "socket_id \<Rightarrow> int \<Rightarrow> string \<Rightarrow> action" where
  "closeSocket s code reason g =
     (case gw_sockets g s of
       Some so \<Rightarrow>
         if so_readyState so = Open \<or> so_readyState so = Connecting
         then ([CloseFrame s code reason],
           g\<lparr>gw_sockets := (gw_sockets g)(s \<mapsto> so\<lparr>so_readyState := Closing\<rparr>)\<rparr>)
         else ([], g)
     | None \<Rightarrow> ([], g))"

definition CLOSE_AUTHENTICATION :: int where "CLOSE_AUTHENTICATION = 4001"
definition CLOSE_FORBIDDEN :: int where "CLOSE_FORBIDDEN = 4003"
definition CLOSE_LIMIT :: int where "CLOSE_LIMIT = 4008"
definition CLOSE_REVOKED :: int where "CLOSE_REVOKED = 4009"
definition CLOSE_DRAINING :: int where "CLOSE_DRAINING = 4010"

section \<open>Sending\<close>

definition message_bytes :: "gateway_config \<Rightarrow> server_message \<Rightarrow> int" where
  "message_bytes config m = int (utf8_length (stringify (gc_number config) (server_json m)))"

text \<open>\<open>RealtimeOutboundSender.send\<close>: whether the message was sent.\<close>

definition sender_send ::
  "gateway_config \<Rightarrow> socket_id \<Rightarrow> server_message \<Rightarrow> gateway \<Rightarrow> bool \<times> gateway_output list \<times> gateway" where
  "sender_send config s m g =
     (case gw_sockets g s of
       None \<Rightarrow> (False, [], g)
     | Some so \<Rightarrow>
         let size = message_bytes config m
         in if so_readyState so \<noteq> Open \<or> so_bufferedAmount so + size > rc_maxBufferedBytes (gc_realtime config)
            then (False, [], g)
            else (True, [SendText s m], g\<lparr>gw_sockets := (gw_sockets g)(s \<mapsto>
              so\<lparr>so_bufferedAmount := so_bufferedAmount so + gc_framed config size\<rparr>)\<rparr>))"

definition send_best_effort :: "gateway_config \<Rightarrow> socket_id \<Rightarrow> server_message \<Rightarrow> action" where
  "send_best_effort config s m g = snd (sender_send config s m g)"

definition sendReliable :: "gateway_config \<Rightarrow> socket_id \<Rightarrow> server_message \<Rightarrow> action" where
  "sendReliable config s m g =
     (case sender_send config s m g of
       (True, out, g') \<Rightarrow> (out, g')
     | (False, out, g') \<Rightarrow> then_do (\<lambda>g. (out, g)) (closeSocket s 1013 ''slow_consumer'') g')"

section \<open>The end of a command\<close>

text \<open>The \<open>finally\<close> of the chain.\<close>

definition finish :: "socket_id \<Rightarrow> action" where
  "finish s = then_do
     (update_context s (\<lambda>c. c\<lparr>ct_currentCommandId := None, ct_pendingCommands := ct_pendingCommands c - 1\<rparr>))
     (\<lambda>g. ([], set_stage s None g))"

definition internalError :: app_error where
  "internalError = \<lparr>ae_code = ''REALTIME_INTERNAL_ERROR'', ae_kind = Internal,
     ae_message = ''The realtime command could not be completed.'', ae_safeDetails = None\<rparr>"

definition command_error :: "failure \<Rightarrow> app_error" where
  "command_error e = (case e of ApplicationError a \<Rightarrow> a | _ \<Rightarrow> internalError)"

definition error_payload :: "app_error \<Rightarrow> (string \<times> json) list" where
  "error_payload a =
     [(''code'', JStr (ae_code a)), (''message'', JStr (ae_message a)),
      (''retryable'', JBool (ae_kind a = Dependency \<or> ae_kind a = RateLimited))] @
     optional_entry ''details'' JObj (ae_safeDetails a)"

text \<open>The code and reason a socket is closed with after an error, if it is.\<close>

definition error_close :: "bool \<Rightarrow> app_error \<Rightarrow> (int \<times> string) option" where
  "error_close authenticated a =
     (if take 5 (ae_code a) = ''CHAT_'' then None
      else case ae_kind a of
        Authentication \<Rightarrow>
          Some (if authenticated then (CLOSE_REVOKED, ''session_revoked'')
                else (CLOSE_AUTHENTICATION, ''authentication_failed''))
      | Validation \<Rightarrow> Some (CLOSE_LIMIT, ''protocol_violation'')
      | Conflict \<Rightarrow> Some (CLOSE_LIMIT, ''protocol_violation'')
      | RateLimited \<Rightarrow> Some (CLOSE_LIMIT, ''connection_limit'')
      | Internal \<Rightarrow> Some (1011, ''internal_error'')
      | _ \<Rightarrow> None)"

definition handleCommandError :: "gateway_config \<Rightarrow> socket_id \<Rightarrow> failure \<Rightarrow> action" where
  "handleCommandError config s e g =
     (case context_of s g of
       None \<Rightarrow> ([], g)
     | Some c \<Rightarrow>
         let a = command_error e;
             message = (case ct_currentCommandId c of
               None \<Rightarrow> realtimeEvent ''error'' (error_payload a)
             | Some i \<Rightarrow> realtimeResult i ''error'' (error_payload a))
         in case sender_send config s message g of
           (False, out, g') \<Rightarrow> then_do (\<lambda>g. (out, g)) (closeSocket s 1013 ''slow_consumer'') g'
         | (True, out, g') \<Rightarrow>
             then_do (\<lambda>g. (out, g))
               (case error_close (ct_principal c \<noteq> None) a of
                 None \<Rightarrow> (\<lambda>g. ([], g))
               | Some (code, reason) \<Rightarrow> closeSocket s code reason) g')"

definition fail :: "gateway_config \<Rightarrow> socket_id \<Rightarrow> failure \<Rightarrow> action" where
  "fail config s e = then_do (handleCommandError config s e) (finish s)"

definition reply :: "gateway_config \<Rightarrow> socket_id \<Rightarrow> server_message \<Rightarrow> action" where
  "reply config s m = then_do (sendReliable config s m) (finish s)"


section \<open>Chat subscriptions\<close>

definition chatDisabled :: failure where
  "chatDisabled = app_failure ''CHAT_DISABLED'' Authorization ''Encrypted chat is disabled for this deployment.''"

text \<open>The callbacks of \<open>createChatCursor\<close>.\<close>

fun cursor_callback :: "gateway_config \<Rightarrow> socket_id \<Rightarrow> cursor_output \<Rightarrow> action" where
  "cursor_callback config s (Deliver m) =
     sendReliable config s (realtimeEvent ''chat.message.created'' (message_payload m))"
| "cursor_callback config s (Gap p) =
     sendReliable config s (realtimeEvent ''room.high_watermark'' [(''position'', position_json p)])"
| "cursor_callback config s Overflow = closeSocket s 1013 ''chat_resync_required''"

definition callbacks :: "gateway_config \<Rightarrow> socket_id \<Rightarrow> cursor_output list \<Rightarrow> action" where
  "callbacks config s outs = do_all (map (cursor_callback config s) outs)"

definition new_subscription :: "socket_id \<Rightarrow> subscription" where
  "new_subscription s = \<lparr>sb_socket = s, sb_pending = [], sb_cursor = None, sb_active = False, sb_overflowed = False\<rparr>"

text \<open>The listener of a subscription: what it asks the cursor's callbacks to do, and whether it gave up.\<close>

definition listener_call :: "int \<Rightarrow> chat_notification \<Rightarrow> subscription \<Rightarrow> cursor_output list \<times> subscription" where
  "listener_call reorderBuffer n sub =
     (case (sb_active sub, sb_cursor sub) of
       (True, Some cursor) \<Rightarrow>
         (case cursor_accept cursor n of (cursor', out) \<Rightarrow> (out, sub\<lparr>sb_cursor := Some cursor'\<rparr>))
     | _ \<Rightarrow>
         if int (length (sb_pending sub)) \<ge> reorderBuffer then ([Overflow], sub\<lparr>sb_overflowed := True\<rparr>)
         else ([], sub\<lparr>sb_pending := sb_pending sub @ [n]\<rparr>))"

fun accept_all :: "live_cursor \<Rightarrow> chat_notification list \<Rightarrow> cursor_output list \<times> live_cursor" where
  "accept_all cursor [] = ([], cursor)"
| "accept_all cursor (n # ns) =
     (case cursor_accept cursor n of (cursor', out) \<Rightarrow>
       (case accept_all cursor' ns of (out', cursor'') \<Rightarrow> (out @ out', cursor'')))"

text \<open>\<open>activate\<close>.\<close>

definition activate :: "subscription \<Rightarrow> cursor_output list \<times> subscription" where
  "activate sub =
     (if sb_active sub \<or> sb_overflowed sub then ([], sub)
      else case sb_cursor sub of
        None \<Rightarrow> ([], sub\<lparr>sb_active := True, sb_pending := []\<rparr>)
      | Some cursor \<Rightarrow>
          (case accept_all cursor (sb_pending sub) of (out, cursor') \<Rightarrow>
            (out, sub\<lparr>sb_active := True, sb_pending := [], sb_cursor := Some cursor'\<rparr>)))"

definition set_subscription :: "listener \<Rightarrow> subscription \<Rightarrow> gateway \<Rightarrow> gateway" where
  "set_subscription l sub g = g\<lparr>gw_subscriptions := (gw_subscriptions g)(l \<mapsto> sub)\<rparr>"

text \<open>A notification of the fan-out for a listener; the overflow of a listener that is not active closes the
  socket with the same code and reason as that of the cursor.\<close>

definition notified :: "gateway_config \<Rightarrow> listener \<Rightarrow> chat_notification \<Rightarrow> action" where
  "notified config l n g =
     (case gw_subscriptions g l of
       None \<Rightarrow> ([], g)
     | Some sub \<Rightarrow>
         (case listener_call (cc_reorderBufferMessages (gc_chat config)) n sub of (outs, sub') \<Rightarrow>
           callbacks config (sb_socket sub) outs (set_subscription l sub' g)))"

definition activate_subscription :: "gateway_config \<Rightarrow> listener \<Rightarrow> action" where
  "activate_subscription config l g =
     (case gw_subscriptions g l of
       None \<Rightarrow> ([], g)
     | Some sub \<Rightarrow>
         (case activate sub of (outs, sub') \<Rightarrow> callbacks config (sb_socket sub) outs (set_subscription l sub' g)))"

text \<open>\<open>context.chatCursor.advance\<close>.\<close>

definition advance_cursor :: "gateway_config \<Rightarrow> socket_id \<Rightarrow> int \<Rightarrow> action" where
  "advance_cursor config s position g =
     (case Option.bind (context_of s g) ct_chatCursor of
       None \<Rightarrow> ([], g)
     | Some l \<Rightarrow>
         (case gw_subscriptions g l of
           None \<Rightarrow> ([], g)
         | Some sub \<Rightarrow>
             (case sb_cursor sub of
               None \<Rightarrow> ([], g)
             | Some cursor \<Rightarrow>
                 (case cursor_advance cursor position of (cursor', outs) \<Rightarrow>
                   callbacks config s outs (set_subscription l (sub\<lparr>sb_cursor := Some cursor'\<rparr>) g)))))"

text \<open>\<open>prepareChatSubscription\<close> after its first await: the context is cleared, the listener created and the
  fan-out asked to call it.\<close>

definition subscribe ::
  "socket_id \<Rightarrow> uuid \<Rightarrow> principal \<Rightarrow> chat_subscription \<Rightarrow> presence_snapshot \<Rightarrow> action" where
  "subscribe s i who request snapshot = then_do
     (update_context s (\<lambda>c. c\<lparr>ct_unwatchChat := None, ct_chatCursor := None, ct_chatDeviceId := None\<rparr>))
     (\<lambda>g. let l = gw_next g
          in await s (AwaitFanout i who request snapshot l) (WatchFanout (pr_meetingId who) l)
            (set_subscription l (new_subscription s) (g\<lparr>gw_next := l + 1\<rparr>)))"

text \<open>The limit of a query is normalized by the use case, which is given it separately.\<close>

definition history_request :: "chat_config \<Rightarrow> principal \<Rightarrow> uuid \<Rightarrow> int \<Rightarrow> int option \<Rightarrow> service_call" where
  "history_request chat who device after limit =
     Synchronize \<lparr>hq_principal = who, hq_deviceId = device, hq_afterPosition = after, hq_limit = 0\<rparr>
       (or_else limit (cc_historyPageDefault chat))"

definition subscribed ::
  "gateway_config \<Rightarrow> socket_id \<Rightarrow> uuid \<Rightarrow> principal \<Rightarrow> chat_subscription \<Rightarrow> presence_snapshot \<Rightarrow> listener \<Rightarrow> chat_page
     \<Rightarrow> live_cursor \<Rightarrow> action" where
  "subscribed config s i who request snapshot l page cursor = do_all
     [\<lambda>g. ([], case gw_subscriptions g l of
         None \<Rightarrow> g | Some sub \<Rightarrow> set_subscription l (sub\<lparr>sb_cursor := Some cursor\<rparr>) g),
      update_context s (\<lambda>c. c\<lparr>ct_unwatchChat := Some (pr_meetingId who, l),
        ct_chatDeviceId := Some (cs_deviceId request), ct_chatCursor := Some l\<rparr>),
      sendReliable config s (room_snapshot i who snapshot (Some page)),
      activate_subscription config l,
      finish s]"

section \<open>Commands\<close>

definition pong :: "uuid \<Rightarrow> instant \<Rightarrow> (string \<times> json) list \<Rightarrow> server_message" where
  "pong i now extra = realtimeResult i ''pong'' ((''serverTimeMs'', JInt now) # extra)"

definition subscriptionRequired :: failure where
  "subscriptionRequired = app_failure ''CHAT_SUBSCRIPTION_REQUIRED'' Authorization
     ''Subscribe this E2EE device to the room before requesting chat synchronization.''"

text \<open>The \<open>switch\<close> of \<open>process\<close>, with the principal that \<open>requireFreshPrincipal\<close> returned.\<close>

fun dispatch :: "gateway_config \<Rightarrow> instant \<Rightarrow> socket_id \<Rightarrow> principal \<Rightarrow> client_message \<Rightarrow> action" where
  "dispatch config now s who (RoomSubscribe i chat) =
     await s (AwaitSnapshot i who chat) (SnapshotPresence (pr_meetingId who))"
| "dispatch config now s who (ChatSubmit i payload) =
     (if \<not> cc_enabled (gc_chat config) then fail config s chatDisabled
      else case parseSubmitChatMessage payload who (gc_chat config) of
        Inl e \<Rightarrow> fail config s e
      | Inr command \<Rightarrow> await s (AwaitAccept i) (AcceptMessage command))"
| "dispatch config now s who (ChatSyncRequest i y) =
     (\<lambda>g. if \<not> cc_enabled (gc_chat config) then fail config s chatDisabled g
       else case context_of s g of
         None \<Rightarrow> ([], g)
       | Some c \<Rightarrow>
           if ct_chatCursor c = None \<or> ct_chatDeviceId c \<noteq> Some (cy_deviceId y)
           then fail config s subscriptionRequired g
           else await s (AwaitPage i)
             (history_request (gc_chat config) who (cy_deviceId y) (cy_afterPosition y) (cy_limit y)) g)"
| "dispatch config now s who (PresenceHeartbeat i revision) =
     (\<lambda>g. case context_of s g of
       None \<Rightarrow> ([], g)
     | Some c \<Rightarrow> await s (AwaitHeartbeat i)
         (HeartbeatPresence (pr_meetingId who) (pr_sessionId who) (ct_connectionId c)) g)"
| "dispatch config now s who (Ping i clientTime) =
     reply config s (pong i now (optional_entry ''clientTimeMs'' JInt clientTime))"
| "dispatch config now s who (SessionAuthenticate i ticket binding) =
     fail config s (app_failure ''REALTIME_COMMAND_UNSUPPORTED'' Validation
       ''The realtime command is not supported.'')"

definition alreadyAuthenticated :: failure where
  "alreadyAuthenticated = app_failure ''REALTIME_ALREADY_AUTHENTICATED'' Conflict
     ''The realtime connection is already authenticated.''"

definition sessionLimit :: failure where
  "sessionLimit = app_failure ''REALTIME_SESSION_CONNECTION_LIMIT'' RateLimited
     ''The anonymous session has too many realtime connections.''"

definition authenticationRequired :: failure where
  "authenticationRequired = app_failure ''REALTIME_AUTHENTICATION_REQUIRED'' Authentication
     ''Realtime authentication is required.''"

definition fresh :: "realtime_config \<Rightarrow> instant \<Rightarrow> connection \<Rightarrow> bool" where
  "fresh config now c = (now - ct_lastValidatedAtMs c < rc_sessionRevalidateSeconds config * 1000)"

definition requireFreshPrincipal :: "gateway_config \<Rightarrow> instant \<Rightarrow> socket_id \<Rightarrow> connection \<Rightarrow> client_message \<Rightarrow> action" where
  "requireFreshPrincipal config now s c m =
     (case ct_principal c of
       None \<Rightarrow> fail config s authenticationRequired
     | Some who \<Rightarrow>
         if fresh (gc_realtime config) now c then dispatch config now s who m
         else await s (AwaitRevalidate m) (Revalidate who))"

definition gateway_process :: "gateway_config \<Rightarrow> instant \<Rightarrow> socket_id \<Rightarrow> connection \<Rightarrow> client_message \<Rightarrow> action" where
  "gateway_process config now s c m =
     (case m of
       SessionAuthenticate i ticket binding \<Rightarrow>
         if ct_principal c \<noteq> None then fail config s alreadyAuthenticated
         else await s (AwaitTicket i) (ConsumeTicket ticket (ct_origin c) binding)
     | _ \<Rightarrow> requireFreshPrincipal config now s c m)"

text \<open>The next link of the chain of a socket.\<close>

definition run_next :: "gateway_config \<Rightarrow> instant \<Rightarrow> socket_id \<Rightarrow> action" where
  "run_next config now s g =
     (case (gw_running g s, context_of s g) of
       (None, Some c) \<Rightarrow>
         (case ct_commandTail c of
           [] \<Rightarrow> ([], g)
         | frame # rest \<Rightarrow>
             let g1 = set_context s (c\<lparr>ct_commandTail := rest\<rparr>) g
             in case parseRealtimeClientMessage (gc_zod config) frame of
               Inl e \<Rightarrow> fail config s e g1
             | Inr m \<Rightarrow>
                 let c1 = c\<lparr>ct_commandTail := rest, ct_currentCommandId := Some (message_id m)\<rparr>
                 in gateway_process config now s c1 m (set_context s c1 g))
     | _ \<Rightarrow> ([], g))"


section \<open>Answers\<close>

text \<open>The continuation of each await that does more than fail or reply.\<close>

definition after_ticket :: "gateway_config \<Rightarrow> instant \<Rightarrow> socket_id \<Rightarrow> uuid \<Rightarrow> principal \<Rightarrow> action" where
  "after_ticket config now s i who g =
     (case registry_authenticate (gc_realtime config) now s who (gw_registry g) of
       (False, r) \<Rightarrow> fail config s sessionLimit (g\<lparr>gw_registry := r\<rparr>)
     | (True, r) \<Rightarrow>
         then_do (update_context s (\<lambda>c. c\<lparr>ct_authenticationTimer := False\<rparr>))
           (await s (AwaitPresenceWatch i who) (WatchPresence (pr_meetingId who))) (g\<lparr>gw_registry := r\<rparr>))"

definition after_presence_watch :: "socket_id \<Rightarrow> uuid \<Rightarrow> principal \<Rightarrow> bool \<Rightarrow> action" where
  "after_presence_watch s i who ok g =
     (case context_of s g of
       None \<Rightarrow> ([], g)
     | Some c \<Rightarrow>
         await s (AwaitPresenceOpen i who)
           (OpenPresence (pr_meetingId who) (toPresenceConnection who (ct_connectionId c)))
           (set_context s (c\<lparr>ct_unwatchPresence := (if ok then Some (pr_meetingId who) else None)\<rparr>) g))"

definition after_snapshot ::
  "gateway_config \<Rightarrow> socket_id \<Rightarrow> uuid \<Rightarrow> principal \<Rightarrow> chat_subscription option \<Rightarrow> presence_snapshot \<Rightarrow> action" where
  "after_snapshot config s i who chat snapshot =
     (case chat of
       None \<Rightarrow> reply config s (room_snapshot i who snapshot None)
     | Some request \<Rightarrow>
         if \<not> cc_enabled (gc_chat config) then fail config s chatDisabled
         else (\<lambda>g. case Option.bind (context_of s g) ct_unwatchChat of
           None \<Rightarrow> subscribe s i who request snapshot g
         | Some (meeting, l) \<Rightarrow>
             await s (AwaitUnwatch i who request snapshot) (UnwatchFanout meeting l) g))"

definition after_history ::
  "gateway_config \<Rightarrow> socket_id \<Rightarrow> uuid \<Rightarrow> principal \<Rightarrow> chat_subscription \<Rightarrow> presence_snapshot \<Rightarrow> listener
     \<Rightarrow> chat_page outcome \<Rightarrow> action" where
  "after_history config s i who request snapshot l answer =
     (case and_then answer (\<lambda>page. and_then
         (new_cursor (cp_highWatermark page) (cc_reorderBufferMessages (gc_chat config))) (\<lambda>cursor. Inr (page, cursor))) of
       Inl e \<Rightarrow> await s (AwaitRelease e) (UnwatchFanout (pr_meetingId who) l)
     | Inr (page, cursor) \<Rightarrow> subscribed config s i who request snapshot l page cursor)"

definition after_page :: "gateway_config \<Rightarrow> socket_id \<Rightarrow> uuid \<Rightarrow> chat_page \<Rightarrow> action" where
  "after_page config s i page = do_all
     [sendReliable config s (realtimeResult i ''chat.sync.page'' (page_json page)),
      advance_cursor config s (cp_nextAfterPosition page), finish s]"

definition settle :: "gateway_config \<Rightarrow> socket_id \<Rightarrow> 'a outcome \<Rightarrow> ('a \<Rightarrow> action) \<Rightarrow> action" where
  "settle config s answer f = (case answer of Inl e \<Rightarrow> fail config s e | Inr x \<Rightarrow> f x)"

text \<open>An answer of another kind than the one awaited cannot arrive.\<close>

definition ignored :: action where "ignored g = ([], g)"

fun resume :: "gateway_config \<Rightarrow> instant \<Rightarrow> socket_id \<Rightarrow> stage \<Rightarrow> service_answer \<Rightarrow> action" where
  "resume config now s (AwaitTicket i) answer =
     (case answer of TicketAnswer r \<Rightarrow> settle config s r (after_ticket config now s i) | _ \<Rightarrow> ignored)"
| "resume config now s (AwaitPresenceWatch i who) answer =
     (case answer of WatchPresenceAnswer ok \<Rightarrow> after_presence_watch s i who ok | _ \<Rightarrow> ignored)"
| "resume config now s (AwaitPresenceOpen i who) answer =
     (case answer of OpenPresenceAnswer available \<Rightarrow> reply config s (session_authenticated i who available)
      | _ \<Rightarrow> ignored)"
| "resume config now s (AwaitRevalidate m) answer =
     (case answer of
       RevalidateAnswer r \<Rightarrow> settle config s r (\<lambda>who.
         then_do (update_context s (refresh_principal now who)) (dispatch config now s who m))
      | _ \<Rightarrow> ignored)"
| "resume config now s (AwaitSnapshot i who chat) answer =
     (case answer of SnapshotAnswer snapshot \<Rightarrow> after_snapshot config s i who chat snapshot | _ \<Rightarrow> ignored)"
| "resume config now s (AwaitUnwatch i who request snapshot) answer =
     (case answer of UnwatchAnswer r \<Rightarrow> settle config s r (\<lambda>_. subscribe s i who request snapshot) | _ \<Rightarrow> ignored)"
| "resume config now s (AwaitFanout i who request snapshot l) answer =
     (case answer of
       WatchAnswer r \<Rightarrow> settle config s r (\<lambda>_. await s (AwaitHistory i who request snapshot l)
         (history_request (gc_chat config) who (cs_deviceId request) (or_else (cs_afterPosition request) 0)
           (cs_limit request)))
      | _ \<Rightarrow> ignored)"
| "resume config now s (AwaitHistory i who request snapshot l) answer =
     (case answer of PageAnswer r \<Rightarrow> after_history config s i who request snapshot l r | _ \<Rightarrow> ignored)"
| "resume config now s (AwaitRelease e) answer =
     (case answer of UnwatchAnswer r \<Rightarrow> settle config s r (\<lambda>_. fail config s e) | _ \<Rightarrow> ignored)"
| "resume config now s (AwaitAccept i) answer =
     (case answer of
       AcceptAnswer r \<Rightarrow> settle config s r (\<lambda>accepted.
         then_do (sendReliable config s (message_accepted i accepted)) (await s AwaitFastPath (PublishFastPath accepted)))
      | _ \<Rightarrow> ignored)"
| "resume config now s AwaitFastPath answer =
     (case answer of FastPathAnswer r \<Rightarrow> settle config s r (\<lambda>_. finish s) | _ \<Rightarrow> ignored)"
| "resume config now s (AwaitPage i) answer =
     (case answer of PageAnswer r \<Rightarrow> settle config s r (after_page config s i) | _ \<Rightarrow> ignored)"
| "resume config now s (AwaitHeartbeat i) answer =
     (case answer of
       HeartbeatAnswer available \<Rightarrow> reply config s (pong i now [(''presenceStatus'', presence_status available)])
      | _ \<Rightarrow> ignored)"

section \<open>Frames, timers and the life of a connection\<close>

definition enqueue :: "gateway_config \<Rightarrow> rat \<Rightarrow> socket_id \<Rightarrow> bool \<Rightarrow> int \<Rightarrow> json option \<Rightarrow> action" where
  "enqueue config nowMs s isBinary byteLength frame g =
     (case registry_get s (gw_registry g) of
       None \<Rightarrow> ([], g)
     | Some c \<Rightarrow>
         if ct_closed c then ([], g)
         else if isBinary then closeSocket s 1003 ''text_frames_only'' g
         else if byteLength > rc_maxMessageBytes (gc_realtime config) then closeSocket s 1009 ''message_too_large'' g
         else case message_consume (gc_realtime config) (ct_principal c \<noteq> None) nowMs (gw_buckets g s) of
           (allowed, buckets) \<Rightarrow>
             let g1 = g\<lparr>gw_buckets := (gw_buckets g)(s := buckets)\<rparr>
             in if \<not> allowed then closeSocket s CLOSE_LIMIT ''message_rate_limit'' g1
                else if ct_pendingCommands c \<ge> rc_maxPendingCommands (gc_realtime config)
                then closeSocket s CLOSE_LIMIT ''command_queue_full'' g1
                else ([], set_context s (c\<lparr>ct_pendingCommands := ct_pendingCommands c + 1,
                  ct_commandTail := ct_commandTail c @ [frame]\<rparr>) g1))"

definition no_buckets :: message_buckets where
  "no_buckets = \<lparr>mb_unauthenticated = None, mb_authenticated = None\<rparr>"

definition handleConnection :: "gateway_config \<Rightarrow> uuid \<Rightarrow> socket_id \<Rightarrow> string option \<Rightarrow> string \<Rightarrow> action" where
  "handleConnection config connectionId s origin sourceKey g0 =
     (let g = g0\<lparr>gw_sockets := (gw_sockets g0)(s \<mapsto> \<lparr>so_readyState = Open, so_bufferedAmount = 0\<rparr>),
                gw_buckets := (gw_buckets g0)(s := no_buckets)\<rparr>
      in case origin of
        None \<Rightarrow> closeSocket s CLOSE_FORBIDDEN ''origin_required'' g
      | Some origin \<Rightarrow>
          (case registry_register (gc_realtime config) connectionId s origin sourceKey (gw_registry g) of
            (False, r) \<Rightarrow> closeSocket s CLOSE_LIMIT ''connection_limit'' (g\<lparr>gw_registry := r\<rparr>)
          | (True, r) \<Rightarrow>
              update_context s (\<lambda>c. c\<lparr>ct_authenticationTimer := True\<rparr>) (g\<lparr>gw_registry := r\<rparr>)))"

definition authentication_timeout :: "socket_id \<Rightarrow> action" where
  "authentication_timeout s g =
     (case context_of s g of
       Some c \<Rightarrow> if ct_authenticationTimer c
         then closeSocket s CLOSE_AUTHENTICATION ''authentication_timeout'' g else ([], g)
     | None \<Rightarrow> ([], g))"

definition handlePong :: "socket_id \<Rightarrow> action" where
  "handlePong s g =
     (case registry_get s (gw_registry g) of
       None \<Rightarrow> ([], g)
     | Some c \<Rightarrow>
         ((case ct_principal c of
            None \<Rightarrow> []
          | Some who \<Rightarrow> [Background s (HeartbeatPresence (pr_meetingId who) (pr_sessionId who) (ct_connectionId c))]),
          set_context s (c\<lparr>ct_alive := True\<rparr>) g))"

definition sweep_one :: "socket_id \<Rightarrow> action" where
  "sweep_one s g =
     (case (context_of s g, gw_sockets g s) of
       (Some c, Some so) \<Rightarrow>
         if \<not> ct_alive c
         then ([Terminate s], g\<lparr>gw_sockets := (gw_sockets g)(s \<mapsto> so\<lparr>so_readyState := Closing\<rparr>)\<rparr>)
         else (if so_readyState so = Open then [PingFrame s] else [],
           set_context s (c\<lparr>ct_alive := False\<rparr>) g)
     | _ \<Rightarrow> ([], g))"

definition runHeartbeatSweep :: action where
  "runHeartbeatSweep g = do_all (map sweep_one (registry_entries (gw_registry g))) g"

definition cleanup :: "socket_id \<Rightarrow> action" where
  "cleanup s g =
     (case registry_remove s (gw_registry g) of
       (None, r) \<Rightarrow> ([], g\<lparr>gw_registry := r\<rparr>)
     | (Some c, r) \<Rightarrow>
         ((case ct_unwatchPresence c of None \<Rightarrow> [] | Some m \<Rightarrow> [Background s (UnwatchPresence m)]) @
          (case ct_unwatchChat c of None \<Rightarrow> [] | Some (m, l) \<Rightarrow> [Background s (UnwatchFanout m l)]) @
          (case ct_principal c of
            None \<Rightarrow> []
          | Some who \<Rightarrow> [Background s (ClosePresence (pr_meetingId who) (pr_sessionId who) (ct_connectionId c))]),
          g\<lparr>gw_registry := put_context s (c\<lparr>ct_authenticationTimer := False\<rparr>) r\<rparr>))"

text \<open>The socket's own \<open>close\<close> event.\<close>

definition socket_closed :: "socket_id \<Rightarrow> action" where
  "socket_closed s g = cleanup s (case gw_sockets g s of
     None \<Rightarrow> g | Some so \<Rightarrow> g\<lparr>gw_sockets := (gw_sockets g)(s \<mapsto> so\<lparr>so_readyState := Closed\<rparr>)\<rparr>)"

definition gateway_destroy :: "gateway_config \<Rightarrow> action" where
  "gateway_destroy config g =
     (let entries = registry_entries (gw_registry g)
      in then_do
        (do_all (map (\<lambda>s. then_do
          (send_best_effort config s (realtimeEvent ''server.draining'' [(''retryable'', JBool True)]))
          (closeSocket s CLOSE_DRAINING ''server_draining'')) entries))
        (do_all (map cleanup entries)) g)"

text \<open>The presence listener of a connection.\<close>

definition presence_changed :: "gateway_config \<Rightarrow> socket_id \<Rightarrow> string \<Rightarrow> action" where
  "presence_changed config s revision =
     send_best_effort config s (realtimeEvent ''presence.changed'' [(''revision'', JStr revision)])"

definition buffered :: "socket_id \<Rightarrow> int \<Rightarrow> action" where
  "buffered s n g = ([], case gw_sockets g s of
     None \<Rightarrow> g | Some so \<Rightarrow> g\<lparr>gw_sockets := (gw_sockets g)(s \<mapsto> so\<lparr>so_bufferedAmount := n\<rparr>)\<rparr>)"

section \<open>The machine\<close>

datatype gateway_event =
  Connection uuid socket_id "string option" string
| Frame rat socket_id bool int "json option"
| Turn instant socket_id
| Answer instant socket_id service_answer
| Notified listener chat_notification
| PresenceRevision socket_id string
| AuthenticationTimeout socket_id
| Pong socket_id
| HeartbeatSweep
| SocketClosed socket_id
| Buffered socket_id int
| GatewayDestroy

fun gateway_handle :: "gateway_config \<Rightarrow> gateway_event \<Rightarrow> action" where
  "gateway_handle config (Connection i s origin key) = handleConnection config i s origin key"
| "gateway_handle config (Frame nowMs s isBinary byteLength frame) = enqueue config nowMs s isBinary byteLength frame"
| "gateway_handle config (Turn now s) = run_next config now s"
| "gateway_handle config (Answer now s answer) =
     (\<lambda>g. case gw_running g s of None \<Rightarrow> ([], g) | Some st \<Rightarrow> resume config now s st answer g)"
| "gateway_handle config (Notified l n) = notified config l n"
| "gateway_handle config (PresenceRevision s revision) = presence_changed config s revision"
| "gateway_handle config (AuthenticationTimeout s) = authentication_timeout s"
| "gateway_handle config (Pong s) = handlePong s"
| "gateway_handle config HeartbeatSweep = runHeartbeatSweep"
| "gateway_handle config (SocketClosed s) = socket_closed s"
| "gateway_handle config (Buffered s n) = buffered s n"
| "gateway_handle config GatewayDestroy = gateway_destroy config"

definition gateway_step :: "gateway_config \<Rightarrow> gateway \<Rightarrow> gateway_event \<Rightarrow> gateway" where
  "gateway_step config g e = snd (gateway_handle config e g)"

text \<open>What the outputs of a whole history are.\<close>

fun gateway_outputs :: "gateway_config \<Rightarrow> gateway \<Rightarrow> gateway_event list \<Rightarrow> gateway_output list" where
  "gateway_outputs config g [] = []"
| "gateway_outputs config g (e # es) =
     fst (gateway_handle config e g) @ gateway_outputs config (gateway_step config g e) es"

definition new_gateway :: gateway where
  "new_gateway = \<lparr>gw_registry = new_registry, gw_sockets = Map.empty, gw_buckets = (\<lambda>_. no_buckets),
     gw_running = Map.empty, gw_subscriptions = Map.empty, gw_next = 0\<rparr>"

end
