(* ===== verification/RealtimeSafety.thy ===== *)
theory RealtimeSafety
  imports RealtimeGateway
begin

text \<open>
  What the gateway guarantees over every interleaving of its events: bounded memory for each connection,
  and that a socket calls the services only for the identity whose ticket it presented. The proofs are
  triples over the pieces of code between two awaits: what holds before, what holds after, that every
  service call made in between is made for the identity of its socket, and that no identity changes.
\<close>

section \<open>Identities\<close>

definition same_identity :: "principal \<Rightarrow> principal \<Rightarrow> bool" where
  "same_identity a b = (pr_sessionId a = pr_sessionId b \<and> pr_participantId a = pr_participantId b \<and>
     pr_meetingId a = pr_meetingId b)"

lemma same_identity_refl [simp]: "same_identity a a"
  by (simp add: same_identity_def)

lemma same_identity_sym: "same_identity a b \<Longrightarrow> same_identity b a"
  by (simp add: same_identity_def)

lemma same_identity_trans: "same_identity a b \<Longrightarrow> same_identity b c \<Longrightarrow> same_identity a c"
  by (simp add: same_identity_def)

text \<open>The socket is authenticated with the identity of \<open>who\<close>.\<close>

definition acting :: "socket_id \<Rightarrow> principal \<Rightarrow> gateway \<Rightarrow> bool" where
  "acting s who g = (\<exists>c p. context_of s g = Some c \<and> ct_principal c = Some p \<and> same_identity p who)"

text \<open>No socket loses its identity, and the only identities gained are those of \<open>N\<close>.\<close>

definition identities_kept :: "(socket_id \<Rightarrow> principal \<Rightarrow> bool) \<Rightarrow> gateway \<Rightarrow> gateway \<Rightarrow> bool" where
  "identities_kept N g g' =
     (\<forall>s who. (acting s who g \<longrightarrow> acting s who g') \<and> (acting s who g' \<longrightarrow> acting s who g \<or> N s who))"

text \<open>A call that concerns exactly the session and meeting of \<open>who\<close>; releasing what was acquired, consuming a
  ticket and publishing an accepted message are not made on anybody's behalf.\<close>

fun call_for :: "principal \<Rightarrow> service_call \<Rightarrow> bool" where
  "call_for who (Revalidate p) = same_identity p who"
| "call_for who (WatchPresence m) = (m = pr_meetingId who)"
| "call_for who (OpenPresence m c) =
     (m = pr_meetingId who \<and> pn_sessionId c = pr_sessionId who \<and> pn_participantId c = pr_participantId who)"
| "call_for who (HeartbeatPresence m i _) = (m = pr_meetingId who \<and> i = pr_sessionId who)"
| "call_for who (ClosePresence m i _) = (m = pr_meetingId who \<and> i = pr_sessionId who)"
| "call_for who (SnapshotPresence m) = (m = pr_meetingId who)"
| "call_for who (WatchFanout m _) = (m = pr_meetingId who)"
| "call_for who (Synchronize q _) = same_identity (hq_principal q) who"
| "call_for who (AcceptMessage command) = same_identity (sm_principal command) who"
| "call_for who _ = True"

fun on_behalf :: "service_call \<Rightarrow> bool" where
  "on_behalf (ConsumeTicket _ _ _) = False"
| "on_behalf (UnwatchPresence _) = False"
| "on_behalf (UnwatchFanout _ _) = False"
| "on_behalf (PublishFastPath _) = False"
| "on_behalf _ = True"

lemma call_for_identity: "call_for who call \<Longrightarrow> same_identity who who' \<Longrightarrow> call_for who' call"
  by (cases call) (auto simp: same_identity_def)

fun output_call :: "gateway_output \<Rightarrow> (socket_id \<times> service_call) option" where
  "output_call (Call s call) = Some (s, call)"
| "output_call (Background s call) = Some (s, call)"
| "output_call _ = None"

definition call_ok :: "gateway \<Rightarrow> socket_id \<Rightarrow> service_call \<Rightarrow> bool" where
  "call_ok g s call = (on_behalf call \<longrightarrow> (\<exists>who. acting s who g \<and> call_for who call))"

definition outputs_ok :: "gateway \<Rightarrow> gateway_output list \<Rightarrow> bool" where
  "outputs_ok g outs = (\<forall>x \<in> set outs. \<forall>s call. output_call x = Some (s, call) \<longrightarrow> call_ok g s call)"

lemma outputs_ok_simps [simp]:
  "outputs_ok g []"
  "outputs_ok g (xs @ ys) \<longleftrightarrow> outputs_ok g xs \<and> outputs_ok g ys"
  "outputs_ok g (SendText s m # xs) \<longleftrightarrow> outputs_ok g xs"
  "outputs_ok g (CloseFrame s code reason # xs) \<longleftrightarrow> outputs_ok g xs"
  "outputs_ok g (Terminate s # xs) \<longleftrightarrow> outputs_ok g xs"
  "outputs_ok g (PingFrame s # xs) \<longleftrightarrow> outputs_ok g xs"
  "outputs_ok g (Call s call # xs) \<longleftrightarrow> call_ok g s call \<and> outputs_ok g xs"
  "outputs_ok g (Background s call # xs) \<longleftrightarrow> call_ok g s call \<and> outputs_ok g xs"
  by (auto simp: outputs_ok_def)

lemma call_ok_kept: "call_ok g s call \<Longrightarrow> identities_kept N g g' \<Longrightarrow> call_ok g' s call"
  by (auto simp: call_ok_def identities_kept_def)

lemma outputs_ok_kept: "outputs_ok g xs \<Longrightarrow> identities_kept N g g' \<Longrightarrow> outputs_ok g' xs"
  unfolding outputs_ok_def by (blast intro: call_ok_kept)

lemma identities_kept_refl [simp]: "identities_kept N g g"
  by (simp add: identities_kept_def)

lemma identities_kept_trans: "identities_kept N a b \<Longrightarrow> identities_kept N b c \<Longrightarrow> identities_kept N a c"
  by (auto simp: identities_kept_def)

section \<open>Triples\<close>

definition does :: "(socket_id \<Rightarrow> principal \<Rightarrow> bool) \<Rightarrow> (gateway \<Rightarrow> bool) \<Rightarrow> action \<Rightarrow> (gateway \<Rightarrow> bool) \<Rightarrow> bool" where
  "does N P a Q = (\<forall>g. P g \<longrightarrow> (case a g of (outs, g') \<Rightarrow> Q g' \<and> outputs_ok g' outs \<and> identities_kept N g g'))"

named_theorems does_intros \<open>triples of the pieces of code\<close>

lemma doesI:
  "(\<And>g outs g'. P g \<Longrightarrow> a g = (outs, g') \<Longrightarrow> Q g' \<and> outputs_ok g' outs \<and> identities_kept N g g') \<Longrightarrow> does N P a Q"
  by (auto simp: does_def)

lemma doesD:
  "does N P a Q \<Longrightarrow> P g \<Longrightarrow> a g = (outs, g') \<Longrightarrow> Q g' \<and> outputs_ok g' outs \<and> identities_kept N g g'"
  by (auto simp: does_def)

lemma does_then [does_intros]:
  assumes "does N P a Q" "does N Q b R"
  shows "does N P (then_do a b) R"
proof (rule doesI)
  fix g outs g'
  assume "P g" and run: "then_do a b g = (outs, g')"
  obtain out1 g1 out2 where a: "a g = (out1, g1)" and b: "b g1 = (out2, g')" and outs: "outs = out1 @ out2"
    using run by (auto simp: then_do_def split: prod.splits)
  from doesD [OF assms(1) \<open>P g\<close> a] have 1: "Q g1" "outputs_ok g1 out1" "identities_kept N g g1" by auto
  from doesD [OF assms(2) 1(1) b] have 2: "R g'" "outputs_ok g' out2" "identities_kept N g1 g'" by auto
  show "R g' \<and> outputs_ok g' outs \<and> identities_kept N g g'"
    using 1 2 outs by (auto intro: outputs_ok_kept identities_kept_trans)
qed

lemma does_all:
  assumes "\<And>a. a \<in> set as \<Longrightarrow> does N P a P"
  shows "does N P (do_all as) P"
  using assms
proof (induction as)
  case (Cons a as)
  have eq: "do_all (a # as) = then_do a (do_all as)" by (rule ext) simp
  show ?case unfolding eq using Cons by (auto intro: does_then)
qed (simp add: does_def)

lemma does_pre: "does N P a Q \<Longrightarrow> (\<And>g. P' g \<Longrightarrow> P g) \<Longrightarrow> does N P' a Q"
  by (simp add: does_def)

lemma does_nothing [does_intros]: "does N P (\<lambda>g. ([], g)) P"
  by (simp add: does_def)

text \<open>What a socket acts for is kept by everything.\<close>

lemma does_frame:
  assumes "does N P a Q"
  shows "does N (\<lambda>g. P g \<and> acting s who g) a (\<lambda>g. Q g \<and> acting s who g)"
  using assms by (fastforce simp: does_def identities_kept_def)

text \<open>Code that first looks at the state is proved state by state.\<close>

lemma does_pointwise: "(\<And>g. P g \<Longrightarrow> does N ((=) g) a Q) \<Longrightarrow> does N P a Q"
  by (simp add: does_def)

lemma does_at: "does N P a Q \<Longrightarrow> P g \<Longrightarrow> b g = a g \<Longrightarrow> does N ((=) g) b Q"
  by (simp add: does_def)

text \<open>Code that starts by moving to another state with the same identities.\<close>

lemma does_moved:
  "does N P a Q \<Longrightarrow> P h \<Longrightarrow> identities_kept N g h \<Longrightarrow> b g = a h \<Longrightarrow> does N ((=) g) b Q"
  by (auto simp: does_def split: prod.splits intro: identities_kept_trans)

section \<open>The invariant\<close>

text \<open>The principal a waiting command was started with is the one of its socket.\<close>

fun stage_principal :: "stage \<Rightarrow> principal option" where
  "stage_principal (AwaitPresenceWatch _ who) = Some who"
| "stage_principal (AwaitPresenceOpen _ who) = Some who"
| "stage_principal (AwaitSnapshot _ who _) = Some who"
| "stage_principal (AwaitUnwatch _ who _ _) = Some who"
| "stage_principal (AwaitFanout _ who _ _ _) = Some who"
| "stage_principal (AwaitHistory _ who _ _ _) = Some who"
| "stage_principal _ = None"

definition stage_ok :: "socket_id \<Rightarrow> stage \<Rightarrow> gateway \<Rightarrow> bool" where
  "stage_ok s st g = (\<forall>who. stage_principal st = Some who \<longrightarrow> acting s who g)"

text \<open>\<open>busy\<close> is the socket whose command is being executed right now, between two awaits.\<close>

definition in_progress :: "socket_id option \<Rightarrow> gateway \<Rightarrow> socket_id \<Rightarrow> bool" where
  "in_progress busy g s = (busy = Some s \<or> gw_running g s \<noteq> None)"

definition queue_ok :: "gateway_config \<Rightarrow> bool \<Rightarrow> connection \<Rightarrow> bool" where
  "queue_ok config running c =
     (ct_pendingCommands c = int (length (ct_commandTail c)) + (if running then 1 else 0) \<and>
      ct_pendingCommands c \<le> rc_maxPendingCommands (gc_realtime config))"

definition connection_ok :: "gateway_config \<Rightarrow> socket_id option \<Rightarrow> gateway \<Rightarrow> socket_id \<Rightarrow> bool" where
  "connection_ok config busy g s =
     ((in_progress busy g s \<longrightarrow> context_of s g \<noteq> None) \<and>
      (\<forall>c. context_of s g = Some c \<longrightarrow> queue_ok config (in_progress busy g s) c) \<and>
      (\<forall>st. busy \<noteq> Some s \<longrightarrow> gw_running g s = Some st \<longrightarrow> stage_ok s st g))"

definition subscription_ok :: "gateway_config \<Rightarrow> subscription \<Rightarrow> bool" where
  "subscription_ok config sub =
     (int (length (sb_pending sub)) \<le> max 0 (cc_reorderBufferMessages (gc_chat config)) \<and>
      (\<forall>cursor. sb_cursor sub = Some cursor \<longrightarrow>
         cursor_inv cursor \<and> cu_maximumPending cursor = cc_reorderBufferMessages (gc_chat config)))"

definition gateway_inv :: "gateway_config \<Rightarrow> socket_id option \<Rightarrow> gateway \<Rightarrow> bool" where
  "gateway_inv config busy g =
     (registry_inv (gc_realtime config) (gw_registry g) \<and> (\<forall>s. connection_ok config busy g s) \<and>
      (\<forall>l sub. gw_subscriptions g l = Some sub \<longrightarrow> subscription_ok config sub))"

text \<open>It does not depend on the sockets, the rate limits and the counter of listeners.\<close>

lemma acting_cong: "gw_registry g' = gw_registry g \<Longrightarrow> acting s who g' = acting s who g"
  by (simp add: acting_def context_of_def)

lemma gateway_inv_cong:
  assumes "gw_registry g' = gw_registry g" "gw_running g' = gw_running g" "gw_subscriptions g' = gw_subscriptions g"
  shows "gateway_inv config busy g' = gateway_inv config busy g"
  unfolding gateway_inv_def connection_ok_def in_progress_def stage_ok_def context_of_def
    acting_cong [OF assms(1)] assms ..

lemma identities_kept_registry: "gw_registry g' = gw_registry g \<Longrightarrow> identities_kept N g g'"
  by (simp add: identities_kept_def acting_def context_of_def)

text \<open>An action that only writes to sockets.\<close>

definition socket_only :: "action \<Rightarrow> bool" where
  "socket_only a = (\<forall>g outs g'. a g = (outs, g') \<longrightarrow>
     gw_registry g' = gw_registry g \<and> gw_running g' = gw_running g \<and> gw_subscriptions g' = gw_subscriptions g \<and>
     list_all (\<lambda>x. output_call x = None) outs)"

lemma socket_onlyI:
  assumes "\<And>g outs g'. a g = (outs, g') \<Longrightarrow> gw_registry g' = gw_registry g \<and> gw_running g' = gw_running g \<and>
    gw_subscriptions g' = gw_subscriptions g \<and> list_all (\<lambda>x. output_call x = None) outs"
  shows "socket_only a"
  using assms unfolding socket_only_def by blast

lemma quiet_nothing [simp]: "socket_only (\<lambda>g. ([], g))" and quiet_const [simp]: "list_all (\<lambda>x. output_call x = None) outs \<Longrightarrow> socket_only (\<lambda>g. (outs, g))"
  by (simp_all add: socket_only_def)

lemma quiet_then: "socket_only a \<Longrightarrow> socket_only b \<Longrightarrow> socket_only (then_do a b)"
  by (rule socket_onlyI) (fastforce simp: socket_only_def then_do_def split: prod.splits)

lemma quiet_all: "(\<And>a. a \<in> set as \<Longrightarrow> socket_only a) \<Longrightarrow> socket_only (do_all as)"
proof (induction as)
  case (Cons a as)
  have eq: "do_all (a # as) = then_do a (do_all as)" by (rule ext) simp
  show ?case unfolding eq using Cons by (auto intro: quiet_then)
qed (simp add: socket_only_def)

lemma quiet_closeSocket [simp]: "socket_only (closeSocket s code reason)"
  by (rule socket_onlyI) (auto simp: closeSocket_def split: option.splits if_splits)

lemma quiet_sender:
  "sender_send config s m g = (sent, outs, g') \<Longrightarrow> gw_registry g' = gw_registry g \<and> gw_running g' = gw_running g \<and>
     gw_subscriptions g' = gw_subscriptions g \<and> list_all (\<lambda>x. output_call x = None) outs"
  by (auto simp: sender_send_def Let_def split: option.splits if_splits)

lemma quiet_best_effort [simp]: "socket_only (send_best_effort config s m)"
  by (rule socket_onlyI, simp only: send_best_effort_def) (metis quiet_sender prod.collapse snd_conv)

text \<open>A send followed by something that depends on whether it succeeded.\<close>

lemma quiet_after_sender:
  assumes "sender_send config s m g = (sent, out, g1)" "then_do (\<lambda>g. (out, g)) b g1 = (outs, g')" "socket_only b"
  shows "gw_registry g' = gw_registry g \<and> gw_running g' = gw_running g \<and>
    gw_subscriptions g' = gw_subscriptions g \<and> list_all (\<lambda>x. output_call x = None) outs"
proof -
  note q = quiet_sender [OF assms(1)]
  have "socket_only (then_do (\<lambda>g. (out, g)) b)" using q assms(3) by (intro quiet_then) simp_all
  with assms(2) have "gw_registry g' = gw_registry g1 \<and> gw_running g' = gw_running g1 \<and>
      gw_subscriptions g' = gw_subscriptions g1 \<and> list_all (\<lambda>x. output_call x = None) outs"
    unfolding socket_only_def by blast
  with q show ?thesis by simp
qed

lemma quiet_sendReliable [simp]: "socket_only (sendReliable config s m)"
proof (rule socket_onlyI)
  fix g outs g'
  assume run: "sendReliable config s m g = (outs, g')"
  obtain sent out g1 where send: "sender_send config s m g = (sent, out, g1)" by (metis prod_cases3)
  have "then_do (\<lambda>g. (out, g)) (if sent then (\<lambda>g. ([], g)) else closeSocket s 1013 ''slow_consumer'') g1 = (outs, g')"
    using run by (auto simp: sendReliable_def send then_do_def split: if_splits)
  from quiet_after_sender [OF send this]
  show "gw_registry g' = gw_registry g \<and> gw_running g' = gw_running g \<and>
      gw_subscriptions g' = gw_subscriptions g \<and> list_all (\<lambda>x. output_call x = None) outs" by simp
qed

lemma quiet_handleCommandError [simp]: "socket_only (handleCommandError config s e)"
proof (rule socket_onlyI)
  fix g outs g'
  assume run: "handleCommandError config s e g = (outs, g')"
  show "gw_registry g' = gw_registry g \<and> gw_running g' = gw_running g \<and>
      gw_subscriptions g' = gw_subscriptions g \<and> list_all (\<lambda>x. output_call x = None) outs"
  proof (cases "context_of s g")
    case (Some c)
    define m where "m = (case ct_currentCommandId c of
        None \<Rightarrow> realtimeEvent ''error'' (error_payload (command_error e))
      | Some i \<Rightarrow> realtimeResult i ''error'' (error_payload (command_error e)))"
    define close where "close = (case error_close (ct_principal c \<noteq> None) (command_error e) of
        None \<Rightarrow> (\<lambda>g. ([], g)) | Some (code, reason) \<Rightarrow> closeSocket s code reason)"
    have socket_only: "socket_only (if sent then close else closeSocket s 1013 ''slow_consumer'')" for sent
      unfolding close_def by (auto split: option.split)
    obtain sent out g1 where send: "sender_send config s m g = (sent, out, g1)" by (metis prod_cases3)
    have "then_do (\<lambda>g. (out, g)) (if sent then close else closeSocket s 1013 ''slow_consumer'') g1 = (outs, g')"
      using run by (cases sent)
        (simp_all add: handleCommandError_def Some Let_def m_def [symmetric] close_def send)
    from quiet_after_sender [OF send this socket_only] show ?thesis .
  qed (use run in \<open>simp add: handleCommandError_def\<close>)
qed

lemma quiet_callbacks [simp]: "socket_only (callbacks config s outs)"
proof -
  have "socket_only (cursor_callback config s x)" for x by (cases x) simp_all
  then show ?thesis unfolding callbacks_def by (intro quiet_all) auto
qed

lemma does_quiet [does_intros]:
  assumes "socket_only a"
  shows "does N (gateway_inv config busy) a (gateway_inv config busy)"
proof (rule doesI)
  fix g outs g'
  assume inv: "gateway_inv config busy g" and run: "a g = (outs, g')"
  have q: "gw_registry g' = gw_registry g" "gw_running g' = gw_running g" "gw_subscriptions g' = gw_subscriptions g"
    "list_all (\<lambda>x. output_call x = None) outs"
    using assms run unfolding socket_only_def by blast+
  have "outputs_ok g' outs" using q(4) by (auto simp: outputs_ok_def list_all_iff)
  with inv q show "gateway_inv config busy g' \<and> outputs_ok g' outs \<and> identities_kept N g g'"
    by (simp add: gateway_inv_cong [OF q(1-3)] identities_kept_registry)
qed

section \<open>Contexts\<close>

text \<open>The same connection with the same identity.\<close>

definition renewed :: "connection \<Rightarrow> connection \<Rightarrow> bool" where
  "renewed c c' =
     (ct_sourceKey c' = ct_sourceKey c \<and> ct_closed c' = ct_closed c \<and>
      rel_option same_identity (ct_principal c) (ct_principal c'))"

lemma context_of_set [simp]:
  "context_of t (set_context s c g) = (if t = s then Some c else context_of t g)"
  "gw_running (set_context s c g) = gw_running g" "gw_subscriptions (set_context s c g) = gw_subscriptions g"
  by (simp_all add: context_of_def set_context_def)

lemma context_of_stage [simp]:
  "context_of t (set_stage s st g) = context_of t g" "gw_registry (set_stage s st g) = gw_registry g"
  "gw_subscriptions (set_stage s st g) = gw_subscriptions g"
  "gw_running (set_stage s st g) = (gw_running g)(s := st)"
  by (simp_all add: context_of_def set_stage_def)

lemma acting_stage [simp]: "acting t who (set_stage s st g) = acting t who g"
  by (simp add: acting_def)

lemma renewed_refl: "rel_option same_identity (ct_principal c) (ct_principal c)"
  by (rule option.rel_refl) simp

lemma identities_set_context:
  assumes "context_of s g = Some c" "renewed c c'"
  shows "identities_kept N g (set_context s c' g)"
  using assms unfolding identities_kept_def acting_def renewed_def
  by (auto simp: option_rel_Some1 option_rel_Some2 same_identity_def)

lemma registry_set_context:
  assumes "registry_inv rt (gw_registry g)" "context_of s g = Some c" "renewed c c'"
  shows "registry_inv rt (gw_registry (set_context s c' g))"
proof -
  have "map_option pr_sessionId (ct_principal c') = map_option pr_sessionId (ct_principal c)"
    using assms(3) by (cases "ct_principal c"; cases "ct_principal c'") (auto simp: renewed_def same_identity_def)
  with assms show ?thesis
    unfolding set_context_def by (auto simp: renewed_def context_of_def intro: put_context_inv)
qed

text \<open>Writing a context, and moving the command of the socket to another stage.\<close>

lemma gateway_inv_write:
  assumes inv: "gateway_inv config busy g" and c: "context_of s g = Some c" and new: "renewed c c'"
    and queue: "queue_ok config (in_progress busy' g' s) c'"
    and stage: "\<And>st. busy' \<noteq> Some s \<Longrightarrow> gw_running g' s = Some st \<Longrightarrow> stage_ok s st g'"
    and g': "gw_registry g' = gw_registry (set_context s c' g)" "gw_subscriptions g' = gw_subscriptions g"
      "\<And>t. t \<noteq> s \<Longrightarrow> gw_running g' t = gw_running g t"
    and busy: "busy \<in> {None, Some s}" "busy' \<in> {None, Some s}"
  shows "gateway_inv config busy' g'"
proof -
  have ctx: "context_of t g' = (if t = s then Some c' else context_of t g)" for t
    using context_of_set(1) [of t s c' g] by (simp add: context_of_def g'(1))
  have kept: "identities_kept N g g'"
    using identities_set_context [OF c new] by (simp add: identities_kept_def acting_def ctx)
  have "connection_ok config busy' g' t" for t
  proof (cases "t = s")
    case True
    then show ?thesis using queue stage by (auto simp: connection_ok_def ctx)
  next
    case False
    then have run: "gw_running g' t = gw_running g t" "in_progress busy' g' t = in_progress busy g t"
      using g'(3) busy by (auto simp: in_progress_def)
    have "connection_ok config busy g t" using inv by (simp add: gateway_inv_def)
    with False kept busy run show ?thesis
      by (auto simp: connection_ok_def ctx stage_ok_def identities_kept_def)
  qed
  moreover have "registry_inv (gc_realtime config) (gw_registry g')"
    unfolding g'(1) by (rule registry_set_context [OF _ c new]) (use inv in \<open>simp add: gateway_inv_def\<close>)
  ultimately show ?thesis using inv g'(2) by (simp add: gateway_inv_def)
qed

lemma gateway_inv_queue:
  "gateway_inv config busy g \<Longrightarrow> context_of s g = Some c \<Longrightarrow> queue_ok config (in_progress busy g s) c"
  by (auto simp: gateway_inv_def connection_ok_def)

lemma busy_context: "gateway_inv config (Some s) g \<Longrightarrow> \<exists>c. context_of s g = Some c"
  by (auto simp: gateway_inv_def connection_ok_def in_progress_def)

lemma does_update_context:
  assumes "\<And>c. renewed c (f c) \<and> ct_pendingCommands (f c) = ct_pendingCommands c \<and> ct_commandTail (f c) = ct_commandTail c"
    and busy: "busy \<in> {None, Some s}"
  shows "does N (gateway_inv config busy) (update_context s f) (gateway_inv config busy)"
proof (rule doesI)
  fix g outs g'
  assume inv: "gateway_inv config busy g" and run: "update_context s f g = (outs, g')"
  show "gateway_inv config busy g' \<and> outputs_ok g' outs \<and> identities_kept N g g'"
  proof (cases "context_of s g")
    case (Some c)
    then have g': "g' = set_context s (f c) g" "outs = []" using run by (auto simp: update_context_def)
    have "gateway_inv config busy (set_context s (f c) g)"
    proof (rule gateway_inv_write [OF inv Some])
      show "queue_ok config (in_progress busy (set_context s (f c) g) s) (f c)"
        using gateway_inv_queue [OF inv Some] assms(1) [of c] by (simp add: queue_ok_def in_progress_def)
      show "stage_ok s st (set_context s (f c) g)"
        if "busy \<noteq> Some s" "gw_running (set_context s (f c) g) s = Some st" for st
      proof -
        have "stage_ok s st g" using inv that by (simp add: gateway_inv_def connection_ok_def)
        with identities_set_context [OF Some, of "f c"] assms(1) [of c] show ?thesis
          by (simp add: stage_ok_def identities_kept_def)
      qed
    qed (use assms(1) [of c] busy in auto)
    with g' identities_set_context [OF Some, of "f c"] assms(1) [of c] show ?thesis by simp
  qed (use run inv in \<open>simp add: update_context_def\<close>)
qed

section \<open>The end of a piece of code\<close>

lemma does_finish [does_intros]: "does N (gateway_inv config (Some s)) (finish s) (gateway_inv config None)"
proof (rule doesI)
  fix g outs g'
  assume inv: "gateway_inv config (Some s) g" and run: "finish s g = (outs, g')"
  from busy_context [OF inv] obtain c where c: "context_of s g = Some c" by blast
  let ?c = "c\<lparr>ct_currentCommandId := None, ct_pendingCommands := ct_pendingCommands c - 1\<rparr>"
  have g': "g' = set_stage s None (set_context s ?c g)" "outs = []"
    using run c by (auto simp: finish_def then_do_def update_context_def)
  have new: "renewed c ?c" by (simp add: renewed_def renewed_refl)
  have "gateway_inv config None g'"
    by (rule gateway_inv_write [OF inv c new])
      (use gateway_inv_queue [OF inv c] in \<open>auto simp: g' queue_ok_def in_progress_def\<close>)
  with identities_set_context [OF c new] show "gateway_inv config None g' \<and> outputs_ok g' outs \<and> identities_kept N g g'"
    by (simp add: g' identities_kept_def)
qed

lemma does_await:
  "does N (\<lambda>g. gateway_inv config (Some s) g \<and> stage_ok s st g \<and> call_ok g s call) (await s st call) (gateway_inv config None)"
proof (rule doesI)
  fix g outs g'
  assume pre: "gateway_inv config (Some s) g \<and> stage_ok s st g \<and> call_ok g s call" and run: "await s st call g = (outs, g')"
  then have inv: "gateway_inv config (Some s) g" by simp
  from busy_context [OF inv] obtain c where c: "context_of s g = Some c" by blast
  have g': "g' = set_stage s (Some st) g" "outs = [Call s call]" using run by (auto simp: await_def)
  have same: "gw_registry (set_context s c g) = gw_registry g"
    using c by (simp add: set_context_def put_context_def context_of_def map_upd_triv)
  have "gateway_inv config None g'"
    by (rule gateway_inv_write [OF inv c, of c])
      (use pre gateway_inv_queue [OF inv c] same in
        \<open>auto simp: g' renewed_def renewed_refl in_progress_def stage_ok_def\<close>)
  moreover have "call_ok g' s call" "identities_kept N g g'" using pre by (simp_all add: g' call_ok_def identities_kept_def)
  ultimately show "gateway_inv config None g' \<and> outputs_ok g' outs \<and> identities_kept N g g'" by (simp add: g')
qed

text \<open>The two forms in which it is used.\<close>

lemma does_await_acting:
  assumes "\<And>who'. stage_principal st = Some who' \<Longrightarrow> same_identity who who'" "on_behalf call \<Longrightarrow> call_for who call"
  shows "does N (\<lambda>g. gateway_inv config (Some s) g \<and> acting s who g) (await s st call) (gateway_inv config None)"
  by (rule does_pre [OF does_await])
    (use assms in \<open>auto simp: stage_ok_def call_ok_def acting_def intro: same_identity_trans\<close>)

lemma does_await_free [does_intros]:
  assumes "stage_principal st = None" "\<not> on_behalf call"
  shows "does N (gateway_inv config (Some s)) (await s st call) (gateway_inv config None)"
  by (rule does_pre [OF does_await]) (use assms in \<open>simp add: stage_ok_def call_ok_def\<close>)

lemma does_fail [does_intros]: "does N (gateway_inv config (Some s)) (fail config s e) (gateway_inv config None)"
  unfolding fail_def by (intro does_then [OF does_quiet] does_finish) simp

lemma does_reply [does_intros]: "does N (gateway_inv config (Some s)) (reply config s m) (gateway_inv config None)"
  unfolding reply_def by (intro does_then [OF does_quiet] does_finish) simp

lemma does_drop: "does N (gateway_inv config busy) a Q \<Longrightarrow> does N (\<lambda>g. gateway_inv config busy g \<and> acting s who g) a Q"
  by (erule does_pre) simp

section \<open>Subscriptions\<close>

lemma cursor_accept_keeps:
  assumes "cursor_accept cursor n = (cursor', out)" "cursor_inv cursor"
  shows "cursor_inv cursor' \<and> cu_maximumPending cursor' = cu_maximumPending cursor"
  using cursor_step_spec [OF assms(2), of "Accepting n"] cursor_step_maximum [of cursor "Accepting n"] assms(1) by simp

lemma cursor_advance_keeps:
  assumes "cursor_advance cursor p = (cursor', out)" "cursor_inv cursor"
  shows "cursor_inv cursor' \<and> cu_maximumPending cursor' = cu_maximumPending cursor"
  using cursor_step_spec [OF assms(2), of "Advancing p"] cursor_step_maximum [of cursor "Advancing p"] assms(1) by simp

lemma accept_all_keeps:
  assumes "accept_all cursor ns = (out, cursor')" "cursor_inv cursor"
  shows "cursor_inv cursor' \<and> cu_maximumPending cursor' = cu_maximumPending cursor"
  using assms
proof (induction ns arbitrary: cursor out)
  case (Cons n ns)
  obtain c1 o1 where one: "cursor_accept cursor n = (c1, o1)" by fastforce
  note k = cursor_accept_keeps [OF one Cons.prems(2)]
  from Cons.prems one obtain o2 where "accept_all c1 ns = (o2, cursor')" by (auto split: prod.splits)
  from Cons.IH [OF this] k show ?case by simp
qed simp

lemma listener_call_ok:
  assumes "listener_call (cc_reorderBufferMessages (gc_chat config)) n sub = (outs, sub')" "subscription_ok config sub"
  shows "subscription_ok config sub'"
  using assms cursor_accept_keeps
  by (fastforce simp: listener_call_def subscription_ok_def split: bool.splits option.splits prod.splits if_splits)

lemma activate_ok:
  assumes "activate sub = (outs, sub')" "subscription_ok config sub"
  shows "subscription_ok config sub'"
  using assms accept_all_keeps
  by (fastforce simp: activate_def subscription_ok_def split: option.splits prod.splits if_splits)

lemma gateway_inv_subscription:
  assumes "gateway_inv config busy g" "subscription_ok config sub"
  shows "gateway_inv config busy (set_subscription l sub g)"
proof -
  have ctx: "context_of t (set_subscription l sub g) = context_of t g" for t
    by (simp add: context_of_def set_subscription_def)
  have "connection_ok config busy (set_subscription l sub g) t = connection_ok config busy g t" for t
    unfolding connection_ok_def in_progress_def stage_ok_def acting_def ctx by (simp add: set_subscription_def)
  with assms show ?thesis by (simp add: gateway_inv_def) (simp add: set_subscription_def)
qed

lemma subscription_callbacks:
  assumes "gateway_inv config busy g" "subscription_ok config sub"
    and "callbacks config s outs (set_subscription l sub g) = (out, g')"
  shows "gateway_inv config busy g' \<and> outputs_ok g' out \<and> identities_kept N g g'"
proof -
  have "identities_kept N g (set_subscription l sub g)" by (rule identities_kept_registry) (simp add: set_subscription_def)
  with doesD [OF does_quiet [OF quiet_callbacks] gateway_inv_subscription [OF assms(1,2)] assms(3)] show ?thesis
    by (auto intro: identities_kept_trans)
qed

lemma inv_subscription_ok: "gateway_inv config busy g \<Longrightarrow> gw_subscriptions g l = Some sub \<Longrightarrow> subscription_ok config sub"
  by (simp add: gateway_inv_def)

lemma does_notified [does_intros]: "does N (gateway_inv config busy) (notified config l n) (gateway_inv config busy)"
proof (rule doesI)
  fix g outs g'
  assume inv: "gateway_inv config busy g" and run: "notified config l n g = (outs, g')"
  show "gateway_inv config busy g' \<and> outputs_ok g' outs \<and> identities_kept N g g'"
  proof (cases "gw_subscriptions g l")
    case (Some sub)
    obtain calls sub' where call: "listener_call (cc_reorderBufferMessages (gc_chat config)) n sub = (calls, sub')"
      by fastforce
    with run Some have "callbacks config (sb_socket sub) calls (set_subscription l sub' g) = (outs, g')"
      by (simp add: notified_def)
    from subscription_callbacks [OF inv listener_call_ok [OF call inv_subscription_ok [OF inv Some]] this]
    show ?thesis .
  qed (use run inv in \<open>simp add: notified_def\<close>)
qed

lemma does_activate [does_intros]:
  "does N (gateway_inv config busy) (activate_subscription config l) (gateway_inv config busy)"
proof (rule doesI)
  fix g outs g'
  assume inv: "gateway_inv config busy g" and run: "activate_subscription config l g = (outs, g')"
  show "gateway_inv config busy g' \<and> outputs_ok g' outs \<and> identities_kept N g g'"
  proof (cases "gw_subscriptions g l")
    case (Some sub)
    obtain calls sub' where call: "activate sub = (calls, sub')" by fastforce
    with run Some have "callbacks config (sb_socket sub) calls (set_subscription l sub' g) = (outs, g')"
      by (simp add: activate_subscription_def)
    from subscription_callbacks [OF inv activate_ok [OF call inv_subscription_ok [OF inv Some]] this]
    show ?thesis .
  qed (use run inv in \<open>simp add: activate_subscription_def\<close>)
qed

lemma does_advance [does_intros]:
  "does N (gateway_inv config busy) (advance_cursor config s p) (gateway_inv config busy)"
proof (rule doesI)
  fix g outs g'
  assume inv: "gateway_inv config busy g" and run: "advance_cursor config s p g = (outs, g')"
  consider (idle) "outs = []" "g' = g"
    | (moves) l sub cursor cursor' calls where "gw_subscriptions g l = Some sub" "sb_cursor sub = Some cursor"
      "cursor_advance cursor p = (cursor', calls)"
      "callbacks config s calls (set_subscription l (sub\<lparr>sb_cursor := Some cursor'\<rparr>) g) = (outs, g')"
    using run unfolding advance_cursor_def by (auto split: option.splits prod.splits)
  then show "gateway_inv config busy g' \<and> outputs_ok g' outs \<and> identities_kept N g g'"
  proof cases
    case moves
    have "subscription_ok config (sub\<lparr>sb_cursor := Some cursor'\<rparr>)"
      using inv_subscription_ok [OF inv moves(1)] cursor_advance_keeps [OF moves(3)] moves(2)
      by (simp add: subscription_ok_def)
    from subscription_callbacks [OF inv this moves(4)] show ?thesis .
  qed (use inv in simp)
qed

section \<open>Commands\<close>

lemma new_subscription_ok: "subscription_ok config (new_subscription s)"
  by (simp add: subscription_ok_def new_subscription_def)

text \<open>Framed composition: the identity is carried through the first action.\<close>

lemma does_then_acting:
  assumes "does N (gateway_inv config busy) a (gateway_inv config busy)"
    and "does N (\<lambda>g. gateway_inv config busy g \<and> acting s who g) b Q"
  shows "does N (\<lambda>g. gateway_inv config busy g \<and> acting s who g) (then_do a b) Q"
  by (rule does_then [OF does_frame [OF assms(1)] assms(2)])

lemma does_subscribe:
  "does N (\<lambda>g. gateway_inv config (Some s) g \<and> acting s who g) (subscribe s i who request snapshot) (gateway_inv config None)"
  unfolding subscribe_def
proof (rule does_then_acting)
  show "does N (gateway_inv config (Some s))
      (update_context s (\<lambda>c. c\<lparr>ct_unwatchChat := None, ct_chatCursor := None, ct_chatDeviceId := None\<rparr>))
      (gateway_inv config (Some s))"
    by (rule does_update_context) (simp_all add: renewed_def renewed_refl)
  show "does N (\<lambda>g. gateway_inv config (Some s) g \<and> acting s who g)
      (\<lambda>g. let l = gw_next g in await s (AwaitFanout i who request snapshot l) (WatchFanout (pr_meetingId who) l)
        (set_subscription l (new_subscription s) (g\<lparr>gw_next := l + 1\<rparr>))) (gateway_inv config None)"
  proof (rule doesI)
    fix g outs g'
    let ?g = "set_subscription (gw_next g) (new_subscription s) (g\<lparr>gw_next := gw_next g + 1\<rparr>)"
    assume pre: "gateway_inv config (Some s) g \<and> acting s who g"
      and run: "(let l = gw_next g in await s (AwaitFanout i who request snapshot l) (WatchFanout (pr_meetingId who) l)
        (set_subscription l (new_subscription s) (g\<lparr>gw_next := l + 1\<rparr>))) = (outs, g')"
    have "gateway_inv config (Some s) (g\<lparr>gw_next := gw_next g + 1\<rparr>)"
      using pre by (subst gateway_inv_cong [of _ g]) simp_all
    then have "gateway_inv config (Some s) ?g" by (rule gateway_inv_subscription [OF _ new_subscription_ok])
    moreover have kept: "identities_kept N g ?g" by (rule identities_kept_registry) (simp add: set_subscription_def)
    ultimately have "gateway_inv config (Some s) ?g \<and> acting s who ?g" using pre by (auto simp: identities_kept_def)
    moreover have "await s (AwaitFanout i who request snapshot (gw_next g))
        (WatchFanout (pr_meetingId who) (gw_next g)) ?g = (outs, g')"
      using run by (simp add: Let_def)
    ultimately have "gateway_inv config None g' \<and> outputs_ok g' outs \<and> identities_kept N ?g g'"
      by (rule doesD [OF does_await_acting, rotated 2]) simp_all
    with kept show "gateway_inv config None g' \<and> outputs_ok g' outs \<and> identities_kept N g g'"
      by (auto intro: identities_kept_trans)
  qed
qed

lemma do_all_Cons: "do_all (a # as) = then_do a (do_all as)" and do_all_Nil: "do_all [] = (\<lambda>g. ([], g))"
  by (rule ext, simp)+

lemma does_subscribed:
  assumes "cursor_inv cursor" "cu_maximumPending cursor = cc_reorderBufferMessages (gc_chat config)"
  shows "does N (gateway_inv config (Some s)) (subscribed config s i who request snapshot l page cursor)
    (gateway_inv config None)"
proof -
  have cursor: "does N (gateway_inv config (Some s)) (\<lambda>g. ([], case gw_subscriptions g l of None \<Rightarrow> g
      | Some sub \<Rightarrow> set_subscription l (sub\<lparr>sb_cursor := Some cursor\<rparr>) g)) (gateway_inv config (Some s))"
  proof (rule doesI)
    fix g g' :: gateway and outs :: "gateway_output list"
    assume inv: "gateway_inv config (Some s) g" and run: "([], case gw_subscriptions g l of None \<Rightarrow> g
      | Some sub \<Rightarrow> set_subscription l (sub\<lparr>sb_cursor := Some cursor\<rparr>) g) = (outs, g')"
    show "gateway_inv config (Some s) g' \<and> outputs_ok g' outs \<and> identities_kept N g g'"
    proof (cases "gw_subscriptions g l")
      case (Some sub)
      have "subscription_ok config (sub\<lparr>sb_cursor := Some cursor\<rparr>)"
        using inv_subscription_ok [OF inv Some] assms by (simp add: subscription_ok_def)
      from gateway_inv_subscription [OF inv this, of l] run Some show ?thesis
        by (auto intro: identities_kept_registry simp: set_subscription_def)
    qed (use run inv in simp)
  qed
  show ?thesis
    unfolding subscribed_def do_all_Cons do_all_Nil
    by (rule does_then [OF cursor] does_then [OF does_update_context] does_then [OF does_quiet]
        does_then [OF does_activate] does_then [OF does_finish] does_nothing
        | simp add: renewed_def renewed_refl)+
qed

lemma acting_heartbeat: "same_identity p who \<Longrightarrow> call_for p call \<Longrightarrow> call_for who call"
  by (rule call_for_identity)

lemma does_dispatch:
  "does N (\<lambda>g. gateway_inv config (Some s) g \<and> acting s who g) (dispatch config now s who m) (gateway_inv config None)"
proof (cases m)
  case (RoomSubscribe i chat)
  then show ?thesis unfolding RoomSubscribe dispatch.simps by (intro does_await_acting) simp_all
next
  case (ChatSubmit i payload)
  show ?thesis
  proof (cases "cc_enabled (gc_chat config)")
    case True
    show ?thesis
    proof (cases "parseSubmitChatMessage payload who (gc_chat config)")
      case (Inr command)
      then have "sm_principal command = who" by (auto simp: parseSubmitChatMessage_def Let_def split: if_splits)
      moreover have "dispatch config now s who m = await s (AwaitAccept i) (AcceptMessage command)"
        using True Inr ChatSubmit by simp
      ultimately show ?thesis by (simp only:) (intro does_await_acting, simp_all)
    qed (use True ChatSubmit in \<open>simp add: does_drop does_fail\<close>)
  qed (simp add: ChatSubmit does_drop does_fail)
next
  case (ChatSyncRequest i y)
  show ?thesis
  proof (rule does_pointwise)
    fix g assume pre: "gateway_inv config (Some s) g \<and> acting s who g"
    then obtain c where c: "context_of s g = Some c" by (auto simp: acting_def)
    consider (failed) e where "dispatch config now s who m g = fail config s e g"
      | (page) "dispatch config now s who m g = await s (AwaitPage i)
          (history_request (gc_chat config) who (cy_deviceId y) (cy_afterPosition y) (cy_limit y)) g"
      using c ChatSyncRequest
      by (cases "cc_enabled (gc_chat config)";
          cases "ct_chatCursor c = None \<or> ct_chatDeviceId c \<noteq> Some (cy_deviceId y)") auto
    then show "does N ((=) g) (dispatch config now s who m) (gateway_inv config None)"
    proof cases
      case failed
      then show ?thesis by (rule does_at [OF does_fail, rotated]) (use pre in simp)
    next
      case page
      then show ?thesis
        by (rule does_at [OF does_await_acting [where who = who], rotated 3]) (use pre in \<open>simp_all add: history_request_def\<close>)
    qed
  qed
next
  case (PresenceHeartbeat i revision)
  show ?thesis
  proof (rule does_pointwise)
    fix g assume pre: "gateway_inv config (Some s) g \<and> acting s who g"
    then obtain c where c: "context_of s g = Some c" by (auto simp: acting_def)
    then have "dispatch config now s who m g = await s (AwaitHeartbeat i)
        (HeartbeatPresence (pr_meetingId who) (pr_sessionId who) (ct_connectionId c)) g"
      by (simp add: PresenceHeartbeat)
    then show "does N ((=) g) (dispatch config now s who m) (gateway_inv config None)"
      by (rule does_at [OF does_await_acting [where who = who], rotated 3]) (use pre in simp_all)
  qed
next
  case (Ping i t)
  then show ?thesis by (simp add: does_drop does_reply)
qed (simp add: does_drop does_fail)

lemma does_requireFresh:
  "does N (\<lambda>g. gateway_inv config (Some s) g \<and> context_of s g = Some c) (requireFreshPrincipal config now s c m)
    (gateway_inv config None)"
proof (cases "ct_principal c")
  case None
  then show ?thesis by (auto simp: requireFreshPrincipal_def intro: does_pre [OF does_fail])
next
  case (Some who)
  have "does N (\<lambda>g. gateway_inv config (Some s) g \<and> acting s who g) (requireFreshPrincipal config now s c m)
      (gateway_inv config None)"
  proof (cases "fresh (gc_realtime config) now c")
    case True
    then show ?thesis using does_dispatch by (simp add: requireFreshPrincipal_def Some)
  next
    case False
    then have "requireFreshPrincipal config now s c m = await s (AwaitRevalidate m) (Revalidate who)"
      by (simp add: requireFreshPrincipal_def Some)
    then show ?thesis by (simp only:) (intro does_await_acting, simp_all)
  qed
  then show ?thesis by (rule does_pre) (auto simp: acting_def Some)
qed

lemma does_process:
  "does N (\<lambda>g. gateway_inv config (Some s) g \<and> context_of s g = Some c) (gateway_process config now s c m)
    (gateway_inv config None)"
proof (cases m)
  case (SessionAuthenticate i t b)
  then show ?thesis
    by (cases "ct_principal c = None")
      (auto simp: gateway_process_def intro: does_pre [OF does_fail] does_pre [OF does_await_free])
qed (auto simp: gateway_process_def intro!: does_requireFresh)

lemma gateway_inv_begin:
  assumes "gateway_inv config None g" "gw_running g s = None" "context_of s g = Some c" "ct_commandTail c = frame # rest"
    and "renewed c c'" "ct_commandTail c' = rest" "ct_pendingCommands c' = ct_pendingCommands c"
  shows "gateway_inv config (Some s) (set_context s c' g)"
  by (rule gateway_inv_write [OF assms(1,3,5)])
    (use gateway_inv_queue [OF assms(1,3)] assms in \<open>auto simp: queue_ok_def in_progress_def\<close>)

lemma does_run_next: "does N (gateway_inv config None) (run_next config now s) (gateway_inv config None)"
proof (rule does_pointwise)
  fix g assume inv: "gateway_inv config None g"
  consider (idle) "run_next config now s g = ([], g)"
    | (starts) c frame rest where "gw_running g s = None" "context_of s g = Some c" "ct_commandTail c = frame # rest"
    by (cases "gw_running g s"; cases "context_of s g"; cases "ct_commandTail (the (context_of s g))")
      (auto simp: run_next_def)
  then show "does N ((=) g) (run_next config now s) (gateway_inv config None)"
  proof cases
    case idle
    then show ?thesis by (rule does_at [OF does_nothing, of "gateway_inv config None", rotated]) (rule inv)
  next
    case (starts c frame rest)
    note begins = gateway_inv_begin [OF inv starts]
    show ?thesis
    proof (cases "parseRealtimeClientMessage (gc_zod config) frame")
      case (Inl e)
      let ?c = "c\<lparr>ct_commandTail := rest\<rparr>"
      have new: "renewed c ?c" by (simp add: renewed_def renewed_refl)
      have "run_next config now s g = fail config s e (set_context s ?c g)"
        using starts Inl by (simp add: run_next_def Let_def)
      moreover have "gateway_inv config (Some s) (set_context s ?c g)" by (rule begins [OF new]) simp_all
      ultimately show ?thesis
        using does_moved [OF does_fail _ identities_set_context [OF starts(2) new]] by blast
    next
      case (Inr m)
      let ?c = "c\<lparr>ct_commandTail := rest, ct_currentCommandId := Some (message_id m)\<rparr>"
      have new: "renewed c ?c" by (simp add: renewed_def renewed_refl)
      have "run_next config now s g = gateway_process config now s ?c m (set_context s ?c g)"
        using starts Inr by (simp add: run_next_def Let_def)
      moreover have "gateway_inv config (Some s) (set_context s ?c g) \<and> context_of s (set_context s ?c g) = Some ?c"
        using begins [OF new] by simp
      ultimately show ?thesis
        using does_moved [OF does_process _ identities_set_context [OF starts(2) new]] by blast
    qed
  qed
qed

section \<open>Answers\<close>

text \<open>A waiting command becomes the running one.\<close>

lemma gateway_inv_wake:
  assumes "gateway_inv config None g" "gw_running g s = Some st"
  shows "gateway_inv config (Some s) g" "\<And>who. stage_principal st = Some who \<Longrightarrow> acting s who g"
proof -
  have ok: "connection_ok config None g t" for t using assms(1) by (simp add: gateway_inv_def)
  have "connection_ok config (Some s) g t" for t
    using ok [of t] assms(2) by (cases "t = s") (auto simp: connection_ok_def in_progress_def)
  with assms(1) show "gateway_inv config (Some s) g" by (simp add: gateway_inv_def)
  show "acting s who g" if "stage_principal st = Some who" for who
    using ok [of s] assms(2) that by (auto simp: connection_ok_def stage_ok_def)
qed

lemma does_settle:
  assumes "\<And>x. answer = Inr x \<Longrightarrow> does N P (f x) (gateway_inv config None)" "\<And>g. P g \<Longrightarrow> gateway_inv config (Some s) g"
  shows "does N P (settle config s answer f) (gateway_inv config None)"
  using assms by (auto simp: settle_def split: sum.split intro: does_pre [OF does_fail])

lemma does_after_presence_watch:
  "does N (\<lambda>g. gateway_inv config (Some s) g \<and> acting s who g) (after_presence_watch s i who ok) (gateway_inv config None)"
proof (rule doesI)
  fix g outs g'
  assume pre: "gateway_inv config (Some s) g \<and> acting s who g" and run: "after_presence_watch s i who ok g = (outs, g')"
  then obtain c where c: "context_of s g = Some c" by (auto simp: acting_def)
  let ?f = "\<lambda>c. c\<lparr>ct_unwatchPresence := (if ok then Some (pr_meetingId who) else None)\<rparr>"
  have "then_do (update_context s ?f) (await s (AwaitPresenceOpen i who)
      (OpenPresence (pr_meetingId who) (toPresenceConnection who (ct_connectionId c)))) g = (outs, g')"
    using run c by (simp add: after_presence_watch_def then_do_def update_context_def split: prod.splits)
  moreover have "does N (\<lambda>g. gateway_inv config (Some s) g \<and> acting s who g)
      (then_do (update_context s ?f) (await s (AwaitPresenceOpen i who)
        (OpenPresence (pr_meetingId who) (toPresenceConnection who (ct_connectionId c))))) (gateway_inv config None)"
    by (intro does_then_acting does_update_context does_await_acting)
      (simp_all add: renewed_def renewed_refl toPresenceConnection_def)
  ultimately show "gateway_inv config None g' \<and> outputs_ok g' outs \<and> identities_kept N g g'"
    using pre doesD by blast
qed

lemma authenticate_gateway:
  assumes gained: "\<And>p. same_identity p who \<Longrightarrow> N s p" and inv: "gateway_inv config (Some s) g"
    and auth: "registry_authenticate (gc_realtime config) now s who (gw_registry g) = (ok, r)"
  shows "gateway_inv config (Some s) (g\<lparr>gw_registry := r\<rparr>) \<and> identities_kept N g (g\<lparr>gw_registry := r\<rparr>) \<and>
    (ok \<longrightarrow> acting s who (g\<lparr>gw_registry := r\<rparr>))"
proof (cases ok)
  case False
  then have "r = gw_registry g"
    using auth by (auto simp: registry_authenticate_def Let_def split: option.splits if_splits)
  with inv False show ?thesis by (simp add: identities_kept_registry)
next
  case True
  let ?g = "g\<lparr>gw_registry := r\<rparr>"
  from auth True obtain c where c: "context_of s g = Some c" "ct_principal c = None"
    and r: "rg_objects r = (rg_objects (gw_registry g))(s \<mapsto> c\<lparr>ct_principal := Some who, ct_lastValidatedAtMs := now\<rparr>)"
    by (auto simp: registry_authenticate_def registry_get_def context_of_def Let_def split: option.splits if_splits)
  have ctx: "context_of t ?g = (if t = s then Some (c\<lparr>ct_principal := Some who, ct_lastValidatedAtMs := now\<rparr>)
      else context_of t g)" for t
    by (simp add: context_of_def r)
  have kept: "identities_kept N g ?g" using c gained by (auto simp: identities_kept_def acting_def ctx dest: same_identity_sym)
  have "connection_ok config (Some s) ?g t" for t
  proof -
    have ok: "connection_ok config (Some s) g t" using inv by (simp add: gateway_inv_def)
    show ?thesis
    proof (cases "t = s")
      case True
      then show ?thesis using ok c(1) by (auto simp: connection_ok_def ctx in_progress_def queue_ok_def)
    next
      case False
      then show ?thesis using ok kept
        by (auto simp: connection_ok_def ctx in_progress_def stage_ok_def identities_kept_def)
    qed
  qed
  moreover have "registry_inv (gc_realtime config) r"
    using authenticate_inv [of "gc_realtime config" "gw_registry g" now s who] inv auth
    by (simp add: gateway_inv_def)
  ultimately have "gateway_inv config (Some s) ?g" using inv by (simp add: gateway_inv_def)
  moreover have "acting s who ?g" by (simp add: acting_def ctx)
  ultimately show ?thesis using kept by simp
qed

lemma does_after_ticket:
  assumes gained: "\<And>p. same_identity p who \<Longrightarrow> N s p"
  shows "does N (gateway_inv config (Some s)) (after_ticket config now s i who) (gateway_inv config None)"
proof (rule doesI)
  fix g outs g'
  assume inv: "gateway_inv config (Some s) g" and run: "after_ticket config now s i who g = (outs, g')"
  obtain ok r where auth: "registry_authenticate (gc_realtime config) now s who (gw_registry g) = (ok, r)" by fastforce
  note a = authenticate_gateway [where N = N, OF gained inv auth]
  let ?go = "then_do (update_context s (\<lambda>c. c\<lparr>ct_authenticationTimer := False\<rparr>))
    (await s (AwaitPresenceWatch i who) (WatchPresence (pr_meetingId who)))"
  have "gateway_inv config None g' \<and> outputs_ok g' outs \<and> identities_kept N (g\<lparr>gw_registry := r\<rparr>) g'"
  proof (cases ok)
    case False
    then have "fail config s sessionLimit (g\<lparr>gw_registry := r\<rparr>) = (outs, g')"
      using run auth by (simp add: after_ticket_def)
    then show ?thesis using a doesD [OF does_fail] by blast
  next
    case True
    have "does N (\<lambda>g. gateway_inv config (Some s) g \<and> acting s who g) ?go (gateway_inv config None)"
      by (intro does_then_acting does_update_context does_await_acting) (simp_all add: renewed_def renewed_refl)
    moreover have "?go (g\<lparr>gw_registry := r\<rparr>) = (outs, g')" using True run auth by (simp add: after_ticket_def)
    ultimately show ?thesis using a True doesD by blast
  qed
  with a show "gateway_inv config None g' \<and> outputs_ok g' outs \<and> identities_kept N g g'"
    by (auto intro: identities_kept_trans)
qed

lemma does_after_snapshot:
  "does N (\<lambda>g. gateway_inv config (Some s) g \<and> acting s who g) (after_snapshot config s i who chat snapshot)
    (gateway_inv config None)"
proof (cases chat)
  case (Some request)
  show ?thesis
  proof (cases "cc_enabled (gc_chat config)")
    case True
    show ?thesis
    proof (rule does_pointwise)
      fix g assume pre: "gateway_inv config (Some s) g \<and> acting s who g"
      show "does N ((=) g) (after_snapshot config s i who chat snapshot) (gateway_inv config None)"
      proof (cases "Option.bind (context_of s g) ct_unwatchChat")
        case None
        then show ?thesis
          by (intro does_at [OF does_subscribe pre]) (simp add: after_snapshot_def Some True)
      next
        case (Some ml)
        obtain meeting l where ml: "ml = (meeting, l)" by fastforce
        show ?thesis
          by (rule does_at [OF does_await_acting [where who = who and st = "AwaitUnwatch i who request snapshot"
                  and call = "UnwatchFanout meeting l"] pre])
            (use Some ml \<open>chat = Some request\<close> True in \<open>simp_all add: after_snapshot_def\<close>)
      qed
    qed
  qed (simp add: Some after_snapshot_def does_drop does_fail)
qed (simp add: after_snapshot_def does_drop does_reply)

lemma does_after_history:
  "does N (\<lambda>g. gateway_inv config (Some s) g \<and> acting s who g) (after_history config s i who request snapshot l answer)
    (gateway_inv config None)"
proof (cases "and_then answer (\<lambda>page. and_then
    (new_cursor (cp_highWatermark page) (cc_reorderBufferMessages (gc_chat config))) (\<lambda>cursor. Inr (page, cursor)))")
  case (Inl e)
  then have "after_history config s i who request snapshot l answer =
      await s (AwaitRelease e) (UnwatchFanout (pr_meetingId who) l)" by (simp add: after_history_def)
  then show ?thesis by (simp only:) (intro does_drop does_await_free, simp_all)
next
  case (Inr pc)
  obtain page cursor where pc: "pc = (page, cursor)" by fastforce
  from Inr have "new_cursor (cp_highWatermark page) (cc_reorderBufferMessages (gc_chat config)) = Inr cursor"
    by (auto simp: pc and_then_def split: sum.splits)
  then have "cursor_inv cursor" "cu_maximumPending cursor = cc_reorderBufferMessages (gc_chat config)"
    by (auto simp: new_cursor_def cursor_inv_def split: if_splits)
  note subscribed = does_subscribed [OF this]
  have "after_history config s i who request snapshot l answer =
      subscribed config s i who request snapshot l page cursor" using Inr by (simp add: after_history_def pc)
  then show ?thesis by (simp only:) (intro does_drop subscribed)
qed

lemma does_after_page: "does N (gateway_inv config (Some s)) (after_page config s i page) (gateway_inv config None)"
  unfolding after_page_def do_all_Cons do_all_Nil
  by (rule does_then [OF does_quiet] does_then [OF does_advance] does_then [OF does_finish] does_nothing | simp)+

lemma does_revalidated:
  "does N (\<lambda>g. gateway_inv config (Some s) g \<and> acting s who g)
    (then_do (update_context s (refresh_principal now who)) (dispatch config now s who m)) (gateway_inv config None)"
proof (rule does_pointwise)
  fix g assume pre: "gateway_inv config (Some s) g \<and> acting s who g"
  then obtain c p where c: "context_of s g = Some c" "ct_principal c = Some p" "same_identity p who"
    by (auto simp: acting_def)
  let ?f = "\<lambda>c. if ct_principal c \<noteq> None \<and> same_identity (the (ct_principal c)) who then refresh_principal now who c else c"
  have f: "renewed c (?f c) \<and> ct_pendingCommands (?f c) = ct_pendingCommands c \<and> ct_commandTail (?f c) = ct_commandTail c" for c
    by (cases "ct_principal c") (auto simp: renewed_def refresh_principal_def renewed_refl)
  have "update_context s (refresh_principal now who) g = update_context s ?f g" by (simp add: update_context_def c)
  then have eq: "then_do (update_context s (refresh_principal now who)) (dispatch config now s who m) g =
      then_do (update_context s ?f) (dispatch config now s who m) g" by (simp add: then_do_def)
  have "does N (\<lambda>g. gateway_inv config (Some s) g \<and> acting s who g)
      (then_do (update_context s ?f) (dispatch config now s who m)) (gateway_inv config None)"
    by (rule does_then_acting [OF does_update_context does_dispatch]) (use f in simp_all)
  then show "does N ((=) g) (then_do (update_context s (refresh_principal now who)) (dispatch config now s who m))
      (gateway_inv config None)" using pre eq by (rule does_at)
qed

lemma does_resume:
  assumes inv: "gateway_inv config None g" and st: "gw_running g s = Some st" and run: "resume config now s st answer g = (outs, g')"
    and law: "\<And>who. answer = RevalidateAnswer (Inr who) \<Longrightarrow> acting s who g"
    and gained: "\<And>who p. answer = TicketAnswer (Inr who) \<Longrightarrow> same_identity p who \<Longrightarrow> N s p"
  shows "gateway_inv config None g' \<and> outputs_ok g' outs \<and> identities_kept N g g'"
proof -
  let ?post = "gateway_inv config None"
  note busy = gateway_inv_wake(1) [OF inv st]
  have acting: "gateway_inv config (Some s) g \<and> acting s who g" if "stage_principal st = Some who" for who
    using busy gateway_inv_wake(2) [OF inv st that] by blast
  have plain: ?thesis if "does N (gateway_inv config (Some s)) (resume config now s st answer) ?post"
    using doesD [OF that busy run] .
  have acted: ?thesis if "does N (\<lambda>g. gateway_inv config (Some s) g \<and> acting s who g) (resume config now s st answer) ?post"
    "stage_principal st = Some who" for who
    using doesD [OF that(1) acting [OF that(2)] run] .
  have ignored: ?thesis if "resume config now s st answer = ignored"
    using run inv that by (simp add: ignored_def)
  show ?thesis
  proof (cases st)
    case (AwaitTicket i)
    then show ?thesis
      by - (cases answer; ((rule ignored, (simp; fail)) | (rule plain, simp, (intro does_settle does_after_ticket; simp add: gained))))
  next
    case (AwaitPresenceWatch i who)
    then show ?thesis
      by - (cases answer; ((rule ignored, (simp; fail)) | (rule acted [of who], simp, (intro does_after_presence_watch; simp), simp)))
  next
    case (AwaitPresenceOpen i who)
    then show ?thesis
      by - (cases answer; ((rule ignored, (simp; fail)) | (rule plain, simp, (intro does_reply; simp))))
  next
    case (AwaitRevalidate m)
    show ?thesis
    proof (cases "\<exists>who. answer = RevalidateAnswer (Inr who)")
      case True
      then obtain who where who: "answer = RevalidateAnswer (Inr who)" by blast
      have "does N (\<lambda>g. gateway_inv config (Some s) g \<and> acting s who g) (resume config now s st answer) ?post"
        using does_revalidated by (simp add: AwaitRevalidate who settle_def)
      from doesD [OF this _ run] busy law [OF who] show ?thesis by blast
    next
      case False
      then have "resume config now s st answer = ignored \<or> (\<exists>e. resume config now s st answer = fail config s e)"
        by (cases answer) (auto simp: AwaitRevalidate settle_def split: sum.split)
      then show ?thesis
      proof
        assume "\<exists>e. resume config now s st answer = fail config s e"
        then obtain e where "resume config now s st answer = fail config s e" by blast
        then show ?thesis by (intro plain) (simp add: does_fail)
      qed (rule ignored)
    qed
  next
    case (AwaitSnapshot i who chat)
    then show ?thesis
      by - (cases answer; ((rule ignored, (simp; fail)) | (rule acted [of who], simp, (intro does_after_snapshot; simp), simp)))
  next
    case (AwaitUnwatch i who request snapshot)
    then show ?thesis
      by - (cases answer; ((rule ignored, (simp; fail)) | (rule acted [of who], simp, (intro does_settle does_subscribe; simp), simp)))
  next
    case (AwaitFanout i who request snapshot l)
    then show ?thesis
      by - (cases answer; ((rule ignored, (simp; fail)) | (rule acted [of who], simp, (intro does_settle does_await_acting; simp add: history_request_def), simp)))
  next
    case (AwaitHistory i who request snapshot l)
    then show ?thesis
      by - (cases answer; ((rule ignored, (simp; fail)) | (rule acted [of who], simp, (intro does_after_history; simp), simp)))
  next
    case (AwaitRelease e)
    then show ?thesis
      by - (cases answer; ((rule ignored, (simp; fail)) | (rule plain, simp, (intro does_settle does_fail; simp))))
  next
    case (AwaitAccept i)
    then show ?thesis
      by - (cases answer; ((rule ignored, (simp; fail)) | (rule plain, simp, (intro does_settle does_then [OF does_quiet] does_await_free; simp))))
  next
    case AwaitFastPath
    then show ?thesis
      by - (cases answer; ((rule ignored, (simp; fail)) | (rule plain, simp, (intro does_settle does_finish; simp))))
  next
    case (AwaitPage i)
    then show ?thesis
      by - (cases answer; ((rule ignored, (simp; fail)) | (rule plain, simp, (intro does_settle does_after_page; simp))))
  next
    case (AwaitHeartbeat i)
    then show ?thesis
      by - (cases answer; ((rule ignored, (simp; fail)) | (rule plain, simp, (intro does_reply; simp))))
  qed
qed

section \<open>Frames, timers and the life of a connection\<close>

text \<open>The registry changes, but every context keeps its queue and its identity, or is new.\<close>

lemma gateway_inv_registry:
  assumes inv: "gateway_inv config None g" and r: "registry_inv (gc_realtime config) r"
    and old: "\<And>t c. context_of t g = Some c \<Longrightarrow> \<exists>c'. rg_objects r t = Some c' \<and>
      rel_option same_identity (ct_principal c) (ct_principal c') \<and> ct_pendingCommands c' = ct_pendingCommands c \<and>
      ct_commandTail c' = ct_commandTail c"
    and new: "\<And>t c'. context_of t g = None \<Longrightarrow> rg_objects r t = Some c' \<Longrightarrow>
      queue_ok config False c' \<and> ct_principal c' = None"
  shows "gateway_inv config None (g\<lparr>gw_registry := r\<rparr>) \<and> identities_kept N g (g\<lparr>gw_registry := r\<rparr>)"
proof -
  let ?g = "g\<lparr>gw_registry := r\<rparr>"
  have ctx: "context_of t ?g = rg_objects r t" for t by (simp add: context_of_def)
  have kept: "identities_kept N g ?g"
  proof -
    have "acting t who ?g \<longleftrightarrow> acting t who g" for t who
    proof (cases "context_of t g")
      case None
      with new [OF None] show ?thesis by (auto simp: acting_def ctx)
    next
      case (Some c)
      with old [OF Some] show ?thesis
        by (cases "ct_principal c") (auto simp: acting_def ctx option_rel_Some1 same_identity_def)
    qed
    then show ?thesis by (simp add: identities_kept_def)
  qed
  have "connection_ok config None ?g t" for t
  proof -
    have ok: "connection_ok config None g t" using inv by (simp add: gateway_inv_def)
    show ?thesis
    proof (cases "context_of t g")
      case None
      then have "gw_running g t = None" using ok by (auto simp: connection_ok_def in_progress_def)
      with new [OF None] show ?thesis by (auto simp: connection_ok_def in_progress_def ctx)
    next
      case (Some c)
      with ok old [OF Some] kept show ?thesis
        by (auto simp: connection_ok_def in_progress_def ctx queue_ok_def stage_ok_def identities_kept_def)
    qed
  qed
  with inv r kept show ?thesis by (simp add: gateway_inv_def)
qed

lemma does_handleConnection:
  assumes "0 \<le> rc_maxPendingCommands (gc_realtime config)" and inv: "gateway_inv config None g" and new: "context_of s g = None"
    and run: "handleConnection config i s origin key g = (outs, g')"
  shows "gateway_inv config None g' \<and> outputs_ok g' outs \<and> identities_kept N g g'"
proof -
  let ?g = "g\<lparr>gw_sockets := (gw_sockets g)(s \<mapsto> \<lparr>so_readyState = Open, so_bufferedAmount = 0\<rparr>),
    gw_buckets := (gw_buckets g)(s := no_buckets)\<rparr>"
  have inv1: "gateway_inv config None ?g" using inv by (subst gateway_inv_cong [of _ g]) simp_all
  have kept1: "identities_kept N g ?g" by (rule identities_kept_registry) simp
  have closes: ?thesis if "closeSocket s code reason h = (outs, g')" "gateway_inv config None h" "identities_kept N g h" for code reason h
    using doesD [OF does_quiet [OF quiet_closeSocket] that(2,1)] that(3) by (auto intro: identities_kept_trans)
  show ?thesis
  proof (cases origin)
    case None
    then show ?thesis using run inv1 kept1 by (intro closes [of CLOSE_FORBIDDEN "''origin_required''" ?g]) (simp_all add: handleConnection_def Let_def)
  next
    case (Some site)
    obtain ok r where reg: "registry_register (gc_realtime config) i s site key (gw_registry g) = (ok, r)" by fastforce
    show ?thesis
    proof (cases ok)
      case False
      then have "r = gw_registry g" using reg by (auto simp: registry_register_def Let_def split: if_splits)
      then show ?thesis using run reg False inv1 kept1 Some
        by (intro closes [of CLOSE_LIMIT "''connection_limit''" ?g]) (simp_all add: handleConnection_def Let_def)
    next
      case True
      have objects: "rg_objects r = (rg_objects (gw_registry g))(s \<mapsto> new_connection i key site)"
        using reg True by (auto simp: registry_register_def Let_def split: if_splits)
      have "registry_inv (gc_realtime config) r"
        using registry_register_inv [of "gc_realtime config" "gw_registry g" s i site key] inv new reg
        by (simp add: gateway_inv_def context_of_def)
      then have inv2: "gateway_inv config None (?g\<lparr>gw_registry := r\<rparr>) \<and> identities_kept N ?g (?g\<lparr>gw_registry := r\<rparr>)"
        by (rule gateway_inv_registry [OF inv1])
          (use new assms(1) in \<open>auto simp: objects context_of_def renewed_refl queue_ok_def new_connection_def split: if_splits\<close>)
      have "update_context s (\<lambda>c. c\<lparr>ct_authenticationTimer := True\<rparr>) (?g\<lparr>gw_registry := r\<rparr>) = (outs, g')"
        using run reg True Some by (simp add: handleConnection_def Let_def)
      moreover have "does N (gateway_inv config None) (update_context s (\<lambda>c. c\<lparr>ct_authenticationTimer := True\<rparr>)) (gateway_inv config None)"
        by (rule does_update_context) (simp_all add: renewed_def renewed_refl)
      ultimately show ?thesis using inv2 kept1 doesD by (blast intro: identities_kept_trans)
    qed
  qed
qed

lemma does_set_context:
  assumes "context_of s g = Some c" "renewed c c'" "gateway_inv config None g"
    and "ct_pendingCommands c' = ct_pendingCommands c" "ct_commandTail c' = ct_commandTail c"
  shows "gateway_inv config None (set_context s c' g) \<and> identities_kept N g (set_context s c' g)"
proof -
  have "does N (gateway_inv config None) (update_context s (\<lambda>d. if d = c then c' else d)) (gateway_inv config None)"
    by (rule does_update_context) (use assms in \<open>auto simp: renewed_def renewed_refl\<close>)
  from doesD [OF this assms(3)] assms(1) show ?thesis by (auto simp: update_context_def)
qed

lemma guarded_branches:
  "(if a then r0 else if b then r1 else if c then r2 else if d then r3 else if e then r4 else r5) = r \<Longrightarrow>
     r0 = r \<or> r1 = r \<or> r2 = r \<or> r3 = r \<or> r4 = r \<or> \<not> e \<and> r5 = r"
  by (auto split: if_splits)

lemma does_enqueue: "does N (gateway_inv config None) (enqueue config nowMs s isBinary n frame) (gateway_inv config None)"
proof (rule doesI)
  fix g outs g'
  assume inv: "gateway_inv config None g" and run: "enqueue config nowMs s isBinary n frame g = (outs, g')"
  show "gateway_inv config None g' \<and> outputs_ok g' outs \<and> identities_kept N g g'"
  proof (cases "registry_get s (gw_registry g)")
    case (Some c)
    obtain allowed buckets where
      take: "message_consume (gc_realtime config) (ct_principal c \<noteq> None) nowMs (gw_buckets g s) = (allowed, buckets)"
      by fastforce
    let ?g = "g\<lparr>gw_buckets := (gw_buckets g)(s := buckets)\<rparr>"
    let ?c = "c\<lparr>ct_pendingCommands := ct_pendingCommands c + 1, ct_commandTail := ct_commandTail c @ [frame]\<rparr>"
    have c: "context_of s g = Some c" using Some by (auto simp: registry_get_def context_of_def split: if_splits)
    have inv1: "gateway_inv config None ?g" using inv by (subst gateway_inv_cong [of _ g]) simp_all
    have kept1: "identities_kept N g ?g" by (rule identities_kept_registry) simp
    consider (nothing) "outs = []" "g' = g"
      | (closed) code reason h where "closeSocket s code reason h = (outs, g')" "h = g \<or> h = ?g"
      | (queued) "outs = []" "g' = set_context s ?c ?g" "ct_pendingCommands c < rc_maxPendingCommands (gc_realtime config)"
    proof -
      let ?over = "rc_maxMessageBytes (gc_realtime config) < n"
      let ?full = "ct_pendingCommands c \<ge> rc_maxPendingCommands (gc_realtime config)"
      have "(if ct_closed c then ([], g) else if isBinary then closeSocket s 1003 ''text_frames_only'' g
          else if ?over then closeSocket s 1009 ''message_too_large'' g
          else if \<not> allowed then closeSocket s CLOSE_LIMIT ''message_rate_limit'' ?g
          else if ?full then closeSocket s CLOSE_LIMIT ''command_queue_full'' ?g else ([], set_context s ?c ?g)) = (outs, g')"
        using run unfolding enqueue_def Some option.case take prod.case Let_def .
      from guarded_branches [OF this] show ?thesis
      proof (elim disjE conjE)
        assume "([], g) = (outs, g')"
        then show ?thesis by - (rule nothing, simp_all)
      next
        assume "\<not> ?full" "([], set_context s ?c ?g) = (outs, g')"
        then show ?thesis by - (rule queued, simp_all)
      qed (erule closed, simp)+
    qed
    then show ?thesis
    proof cases
      case closed
      then have "gateway_inv config None h" "identities_kept N g h" using inv inv1 kept1 by auto
      with doesD [OF does_quiet [OF quiet_closeSocket] _ closed(1)] show ?thesis by (blast intro: identities_kept_trans)
    next
      case queued
      have c1: "context_of s ?g = Some c" using c by (simp add: context_of_def)
      have new: "renewed c ?c" by (simp add: renewed_def renewed_refl)
      have "gateway_inv config None g'"
      proof (rule gateway_inv_write [OF inv1 c1 new])
        show "queue_ok config (in_progress None g' s) ?c"
          using gateway_inv_queue [OF inv c] queued by (simp add: queue_ok_def in_progress_def)
        show "stage_ok s st g'" if "gw_running g' s = Some st" for st
        proof -
          have "stage_ok s st ?g" using inv1 that queued(2) by (auto simp: gateway_inv_def connection_ok_def)
          with identities_set_context [OF c1 new] show ?thesis by (simp add: stage_ok_def identities_kept_def queued(2))
        qed
      qed (simp_all add: queued)
      with identities_set_context [OF c1 new] kept1 queued show ?thesis by (auto intro: identities_kept_trans)
    qed (use inv in simp)
  qed (use run inv in \<open>simp add: enqueue_def\<close>)
qed

lemma does_timeout: "does N (gateway_inv config None) (authentication_timeout s) (gateway_inv config None)"
proof -
  have "socket_only (authentication_timeout s)"
    using quiet_closeSocket [of s] unfolding authentication_timeout_def socket_only_def by (auto split: option.split)
  then show ?thesis by (rule does_quiet)
qed

lemma does_pong: "does N (gateway_inv config None) (handlePong s) (gateway_inv config None)"
proof (rule doesI)
  fix g outs g'
  assume inv: "gateway_inv config None g" and run: "handlePong s g = (outs, g')"
  show "gateway_inv config None g' \<and> outputs_ok g' outs \<and> identities_kept N g g'"
  proof (cases "registry_get s (gw_registry g)")
    case (Some c)
    let ?c = "c\<lparr>ct_alive := True\<rparr>"
    have c: "context_of s g = Some c" using Some by (auto simp: registry_get_def context_of_def split: if_splits)
    have g': "g' = set_context s ?c g" using run Some by (simp add: handlePong_def)
    have ok: "gateway_inv config None g' \<and> identities_kept N g g'"
      unfolding g' by (rule does_set_context [OF c _ inv]) (simp_all add: renewed_def renewed_refl)
    have "outputs_ok g' outs"
    proof (cases "ct_principal c")
      case (Some who)
      then have "acting s who g'" by (simp add: acting_def g')
      moreover have "outs = [Background s (HeartbeatPresence (pr_meetingId who) (pr_sessionId who) (ct_connectionId c))]"
        using run \<open>registry_get s (gw_registry g) = Some c\<close> Some by (simp add: handlePong_def)
      ultimately show ?thesis by (auto simp: call_ok_def)
    qed (use run Some in \<open>simp add: handlePong_def\<close>)
    with ok show ?thesis by blast
  qed (use run inv in \<open>simp add: handlePong_def\<close>)
qed

lemma does_sweep_one: "does N (gateway_inv config None) (sweep_one s) (gateway_inv config None)"
proof (rule doesI)
  fix g outs g'
  assume inv: "gateway_inv config None g" and run: "sweep_one s g = (outs, g')"
  consider (nothing) "outs = []" "g' = g"
    | (dead) so where "outs = [Terminate s]" "g' = g\<lparr>gw_sockets := (gw_sockets g)(s \<mapsto> so)\<rparr>"
    | (alive) c where "context_of s g = Some c" "outs = [] \<or> outs = [PingFrame s]" "g' = set_context s (c\<lparr>ct_alive := False\<rparr>) g"
    using run by (auto simp: sweep_one_def split: option.splits if_splits)
  then show "gateway_inv config None g' \<and> outputs_ok g' outs \<and> identities_kept N g g'"
  proof cases
    case dead
    have "gateway_inv config None g'" using inv unfolding dead(2) by (subst gateway_inv_cong [of _ g]) simp_all
    moreover have "identities_kept N g g'" unfolding dead(2) by (rule identities_kept_registry) simp
    ultimately show ?thesis using dead(1) by simp
  next
    case (alive c)
    have "gateway_inv config None g' \<and> identities_kept N g g'"
      unfolding alive(3) by (rule does_set_context [OF alive(1) _ inv]) (simp_all add: renewed_def renewed_refl)
    with alive(2) show ?thesis by auto
  qed (use inv in simp)
qed

lemma does_sweep: "does N (gateway_inv config None) runHeartbeatSweep (gateway_inv config None)"
proof (rule does_pointwise)
  fix g assume inv: "gateway_inv config None g"
  have "does N (gateway_inv config None) (do_all (map sweep_one (registry_entries (gw_registry g)))) (gateway_inv config None)"
    by (rule does_all) (auto simp: does_sweep_one)
  then show "does N ((=) g) runHeartbeatSweep (gateway_inv config None)"
    using inv by (rule does_at) (simp add: runHeartbeatSweep_def)
qed


lemma does_cleanup: "does N (gateway_inv config None) (cleanup s) (gateway_inv config None)"
proof (rule doesI)
  fix g outs g'
  assume inv: "gateway_inv config None g" and run: "cleanup s g = (outs, g')"
  show "gateway_inv config None g' \<and> outputs_ok g' outs \<and> identities_kept N g g'"
  proof (cases "fst (registry_remove s (gw_registry g))")
    case None
    then have "g' = g \<and> outs = []"
      using run by (auto simp: cleanup_def registry_remove_def Let_def split: option.splits if_splits)
    with inv show ?thesis by simp
  next
    case (Some c')
    obtain r where removed: "registry_remove s (gw_registry g) = (Some c', r)" using Some by (cases "registry_remove s (gw_registry g)") auto
    let ?c = "c'\<lparr>ct_authenticationTimer := False\<rparr>"
    from removed obtain c where c: "context_of s g = Some c" and c': "c' = c\<lparr>ct_closed := True\<rparr>"
      and objects: "rg_objects r = (rg_objects (gw_registry g))(s \<mapsto> c')"
      by (auto simp: registry_remove_def registry_get_def context_of_def Let_def split: option.splits if_splits)
    have g': "g' = g\<lparr>gw_registry := put_context s ?c r\<rparr>" using run unfolding cleanup_def removed by simp
    have "registry_inv (gc_realtime config) r"
      using registry_remove_inv [of "gc_realtime config" "gw_registry g" s] inv removed by (simp add: gateway_inv_def)
    then have "registry_inv (gc_realtime config) (put_context s ?c r)"
      by (rule put_context_inv [where c = c']) (simp_all add: objects)
    then have ok: "gateway_inv config None g' \<and> identities_kept N g g'" unfolding g'
      by (rule gateway_inv_registry [OF inv])
        (use c in \<open>auto simp: objects context_of_def c' renewed_refl split: if_splits\<close>)
    have "outputs_ok g' outs"
    proof (cases "ct_principal c")
      case None
      then show ?thesis using run unfolding cleanup_def removed
        by (auto simp: c' call_ok_def split: option.splits)
    next
      case (Some who)
      have "acting s who g'" by (simp add: acting_def g' context_of_def c' Some)
      then show ?thesis using run unfolding cleanup_def removed
        by (auto simp: c' Some call_ok_def split: option.splits)
    qed
    with ok show ?thesis by blast
  qed
qed

lemma does_destroy: "does N (gateway_inv config None) (gateway_destroy config) (gateway_inv config None)"
proof (rule does_pointwise)
  fix g assume inv: "gateway_inv config None g"
  let ?entries = "registry_entries (gw_registry g)"
  let ?notify = "\<lambda>s. then_do (send_best_effort config s (realtimeEvent ''server.draining'' [(''retryable'', JBool True)]))
    (closeSocket s CLOSE_DRAINING ''server_draining'')"
  have "does N (gateway_inv config None) (then_do (do_all (map ?notify ?entries)) (do_all (map cleanup ?entries)))
      (gateway_inv config None)"
    by (rule does_then [OF does_all does_all]) (auto simp: does_cleanup intro!: does_quiet [OF quiet_then])
  then show "does N ((=) g) (gateway_destroy config) (gateway_inv config None)"
    using inv by (rule does_at) (simp add: gateway_destroy_def Let_def)
qed

lemma does_closed: "does N (gateway_inv config None) (socket_closed s) (gateway_inv config None)"
proof (rule doesI)
  fix g g' :: gateway and outs
  let ?g = "case gw_sockets g s of None \<Rightarrow> g | Some so \<Rightarrow> g\<lparr>gw_sockets := (gw_sockets g)(s \<mapsto> so\<lparr>so_readyState := Closed\<rparr>)\<rparr>"
  assume inv: "gateway_inv config None g" and run: "socket_closed s g = (outs, g')"
  have same: "gw_registry ?g = gw_registry g" "gw_running ?g = gw_running g" "gw_subscriptions ?g = gw_subscriptions g"
    by (simp_all split: option.split)
  have "gateway_inv config None ?g" using inv unfolding gateway_inv_cong [OF same] .
  moreover have "cleanup s ?g = (outs, g')" using run by (simp add: socket_closed_def)
  ultimately have "gateway_inv config None g' \<and> outputs_ok g' outs \<and> identities_kept N ?g g'"
    by (rule doesD [OF does_cleanup])
  with identities_kept_registry [OF same(1)] show "gateway_inv config None g' \<and> outputs_ok g' outs \<and> identities_kept N g g'"
    by (blast intro: identities_kept_trans)
qed

lemma quiet_buffered: "socket_only (buffered s n)"
  by (rule socket_onlyI) (auto simp: buffered_def split: option.splits)

section \<open>Histories\<close>

text \<open>What the environment promises: a connection is announced with a socket of its own, and a session is
  revalidated for the identity it was asked about, which is the law of \<open>session_gate\<close>.\<close>

fun lawful :: "gateway \<Rightarrow> gateway_event \<Rightarrow> bool" where
  "lawful g (Connection i s origin key) = (context_of s g = None)"
| "lawful g (Answer now s (RevalidateAnswer (Inr who))) = (gw_running g s \<noteq> None \<longrightarrow> acting s who g)"
| "lawful g _ = True"

lemma gateway_handle_ok:
  assumes "0 \<le> rc_maxPendingCommands (gc_realtime config)" "gateway_inv config None g" "lawful g e"
    and "gateway_handle config e g = (outs, g')"
    and gained: "\<And>now s who p. e = Answer now s (TicketAnswer (Inr who)) \<Longrightarrow> same_identity p who \<Longrightarrow> N s p"
  shows "gateway_inv config None g' \<and> outputs_ok g' outs \<and> identities_kept N g g'"
proof -
  have does: ?thesis if "does N (gateway_inv config None) (gateway_handle config e) (gateway_inv config None)"
    using doesD [OF that assms(2,4)] .
  show ?thesis
  proof (cases e)
    case (Connection i s origin key)
    from assms(3,4) show ?thesis unfolding Connection gateway_handle.simps lawful.simps
      by (rule does_handleConnection [OF assms(1,2)])
  next
    case (Answer now s answer)
    show ?thesis
    proof (cases "gw_running g s")
      case None
      then show ?thesis using assms Answer by simp
    next
      case (Some st)
      from assms(4) have "resume config now s st answer g = (outs, g')" by (simp add: Answer Some)
      moreover have "acting s who g" if "answer = RevalidateAnswer (Inr who)" for who
        using assms(3) by (simp add: Answer that Some)
      moreover have "N s p" if "answer = TicketAnswer (Inr who)" "same_identity p who" for who p
        using gained Answer that by blast
      ultimately show ?thesis by (rule does_resume [OF assms(2) Some])
    qed
  next
    case (Frame nowMs s b n frame)
    then show ?thesis by (intro does) (simp add: does_enqueue)
  next
    case (Turn now s)
    then show ?thesis by (intro does) (simp add: does_run_next)
  next
    case (Notified l n)
    then show ?thesis by (intro does) (simp add: does_notified)
  next
    case (PresenceRevision s revision)
    then show ?thesis by (intro does) (simp add: does_quiet presence_changed_def)
  next
    case (AuthenticationTimeout s)
    then show ?thesis by (intro does) (simp add: does_timeout)
  next
    case (Pong s)
    then show ?thesis by (intro does) (simp add: does_pong)
  next
    case HeartbeatSweep
    then show ?thesis by (intro does) (simp add: does_sweep)
  next
    case (SocketClosed s)
    then show ?thesis by (intro does) (simp add: does_closed)
  next
    case (Buffered s n)
    then show ?thesis by (intro does) (simp add: does_quiet quiet_buffered)
  next
    case GatewayDestroy
    then show ?thesis by (intro does) (simp add: does_destroy)
  qed
qed

definition gateway_limits :: "gateway_config \<Rightarrow> bool" where
  "gateway_limits config =
     (0 \<le> rc_maxPendingCommands (gc_realtime config) \<and> 0 \<le> rc_maxConnectionsPerSource (gc_realtime config) \<and>
      0 \<le> rc_maxConnectionsPerSession (gc_realtime config))"

interpretation gateway: stepwise_invariant "gateway_step config" lawful
  "\<lambda>g. gateway_limits config \<and> gateway_inv config None g"
proof
  fix g e assume "gateway_limits config \<and> gateway_inv config None g" "lawful g e"
  then show "gateway_limits config \<and> gateway_inv config None (gateway_step config g e)"
    using gateway_handle_ok [of config g e "fst (gateway_handle config e g)" "snd (gateway_handle config e g)" "\<lambda>_ _. True"]
    by (simp add: gateway_limits_def gateway_step_def)
qed

lemma new_gateway_inv: "gateway_limits config \<Longrightarrow> gateway_inv config None new_gateway"
  by (simp add: gateway_limits_def gateway_inv_def new_gateway_def new_registry_inv connection_ok_def in_progress_def
      context_of_def) (simp add: new_registry_def)

end
