(* ===== verification/RealtimeRooms.thy ===== *)
theory RealtimeRooms
  imports RealtimeSafety
begin

text \<open>
  What a client of the gateway and its operator can rely on over every history of the machine, the
  handover from a page of history to live delivery, the answer to a command that fails, and concrete runs.
\<close>

section \<open>What holds in every history\<close>

text \<open>C18. Bounded memory. Whatever clients, timers and services do and however their events interleave, the
  sockets of one source and of one session stay within their limits; no connection ever holds more than
  \<open>maxPendingCommands\<close> commands, queued and running together; and a chat subscription buffers at most
  \<open>reorderBufferMessages\<close> notifications before it is activated and at most as many messages afterwards.\<close>

theorem gateway_memory_bounded:
  assumes "gateway_limits config" "1 \<le> cc_reorderBufferMessages (gc_chat config)"
    and "enabled_history (gateway_step config) lawful new_gateway es" and "g = foldl (gateway_step config) new_gateway es"
  shows "int (length (from_source (gw_registry g) key)) \<le> rc_maxConnectionsPerSource (gc_realtime config) \<and>
    int (length (of_session (gw_registry g) session)) \<le> rc_maxConnectionsPerSession (gc_realtime config) \<and>
    (\<forall>c. context_of s g = Some c \<longrightarrow>
       int (length (ct_commandTail c)) + (if gw_running g s = None then 0 else 1) = ct_pendingCommands c \<and>
       ct_pendingCommands c \<le> rc_maxPendingCommands (gc_realtime config)) \<and>
    (\<forall>sub. gw_subscriptions g l = Some sub \<longrightarrow>
       int (length (sb_pending sub)) \<le> cc_reorderBufferMessages (gc_chat config) \<and>
       (\<forall>cursor. sb_cursor sub = Some cursor \<longrightarrow>
          int (length (cu_pending cursor)) \<le> cc_reorderBufferMessages (gc_chat config)))"
proof -
  have inv: "gateway_inv config None g"
    using gateway.history_keeps [OF conjI [OF assms(1) new_gateway_inv [OF assms(1)]] assms(3)] assms(4) by simp
  then have "registry_inv (gc_realtime config) (gw_registry g)" by (simp add: gateway_inv_def)
  note bounds = registry_invD(4,6) [OF this]
  have "queue_ok config (in_progress None g s) c" if "context_of s g = Some c" for c
    using gateway_inv_queue [OF inv that] .
  moreover have "subscription_ok config sub" if "gw_subscriptions g l = Some sub" for sub
    using inv_subscription_ok [OF inv that] .
  ultimately show ?thesis
    using bounds assms(2) by (auto simp: queue_ok_def in_progress_def subscription_ok_def cursor_inv_def)
qed

text \<open>The identities whose tickets a socket presented in a history.\<close>

definition ticketed :: "gateway_event list \<Rightarrow> socket_id \<Rightarrow> principal \<Rightarrow> bool" where
  "ticketed es s p = (\<exists>now who. Answer now s (TicketAnswer (Inr who)) \<in> set es \<and> same_identity p who)"

lemma history_identities:
  assumes "gateway_limits config" "gateway_inv config None g" "enabled_history (gateway_step config) lawful g es"
    and "x \<in> set (gateway_outputs config g es)" "output_call x = Some (s, call)" "on_behalf call"
  shows "\<exists>p. call_for p call \<and> (acting s p g \<or> ticketed es s p)"
  using assms(2-4)
proof (induction es arbitrary: g)
  case (Cons e es)
  let ?N = "\<lambda>t p. ticketed [e] t p"
  obtain outs g1 where run: "gateway_handle config e g = (outs, g1)" by fastforce
  have step: "gateway_step config g e = g1" by (simp add: gateway_step_def run)
  have ok: "gateway_inv config None g1 \<and> outputs_ok g1 outs \<and> identities_kept ?N g g1"
    by (rule gateway_handle_ok [OF _ Cons.prems(1) _ run])
      (use assms(1) Cons.prems in \<open>auto simp: gateway_limits_def ticketed_def\<close>)
  have before: "acting s p g \<or> ticketed (e # es) s p" if "acting s p g1" for p
    using ok that by (auto simp: identities_kept_def ticketed_def)
  have later: "ticketed es s p \<Longrightarrow> ticketed (e # es) s p" for p by (auto simp: ticketed_def)
  show ?case
  proof (cases "x \<in> set outs")
    case True
    then have "call_ok g1 s call" using ok assms(5) by (auto simp: outputs_ok_def)
    then obtain p where "acting s p g1" "call_for p call" using assms(6) by (auto simp: call_ok_def)
    with before show ?thesis by blast
  next
    case False
    then have "x \<in> set (gateway_outputs config g1 es)" using Cons.prems(3) by (simp add: run step)
    moreover have "enabled_history (gateway_step config) lawful g1 es" using Cons.prems(2) by (simp add: step)
    ultimately obtain p where "call_for p call" "acting s p g1 \<or> ticketed es s p" using Cons.IH ok by blast
    with before later show ?thesis by blast
  qed
qed simp

text \<open>C11. Confinement. Every call a socket makes on somebody's behalf, be it to read presence, open or refresh it,
  watch the room, read history, submit a message or revalidate the session, is for the session and the
  meeting of a ticket that this very socket presented and the ticket service accepted.\<close>

theorem socket_acts_for_its_ticket:
  assumes "gateway_limits config" "enabled_history (gateway_step config) lawful new_gateway es"
    and "x \<in> set (gateway_outputs config new_gateway es)" "output_call x = Some (s, call)" "on_behalf call"
  shows "\<exists>now who. Answer now s (TicketAnswer (Inr who)) \<in> set es \<and> call_for who call"
proof -
  obtain p where p: "call_for p call" "acting s p new_gateway \<or> ticketed es s p"
    using history_identities [OF assms(1) new_gateway_inv [OF assms(1)] assms(2-5)] by blast
  have "\<not> acting s p new_gateway" by (simp add: acting_def context_of_def new_gateway_def new_registry_def)
  with p show ?thesis by (auto simp: ticketed_def intro: call_for_identity)
qed

section \<open>Freshness\<close>

lemma quiet_calls:
  assumes "socket_only a" "a g = (outs, g')"
  shows "Call t call \<notin> set outs"
proof -
  have "list_all (\<lambda>x. output_call x = None) outs" using assms unfolding socket_only_def by blast
  then show ?thesis by (auto simp: list_all_iff)
qed

lemma fail_calls: "fail config s e g = (outs, g') \<Longrightarrow> Call t call \<notin> set outs"
  by (auto simp: fail_def then_do_def finish_def update_context_def split: prod.splits
      dest: quiet_calls [OF quiet_handleCommandError])

lemma reply_calls: "reply config s m g = (outs, g') \<Longrightarrow> Call t call \<notin> set outs"
  by (auto simp: reply_def then_do_def finish_def update_context_def split: prod.splits
      dest: quiet_calls [OF quiet_sendReliable])

lemma await_calls: "await s st call' g = (outs, g') \<Longrightarrow> Call t call \<in> set outs \<Longrightarrow>
    t = s \<and> call = call' \<and> context_of s g' = context_of s g"
  by (auto simp: await_def)

lemma dispatch_calls:
  assumes "dispatch config now s who m g = (outs, g')" "Call t call \<in> set outs"
  shows "t = s \<and> context_of s g' = context_of s g"
  using assms
  by (cases m) (auto dest: fail_calls reply_calls await_calls split: if_splits sum.splits option.splits)

lemma process_calls:
  assumes "gateway_process config now s c m g = (outs, g')" "Call t call \<in> set outs" "on_behalf call"
    and "\<And>who. call \<noteq> Revalidate who"
  shows "t = s \<and> context_of s g' = context_of s g \<and> ct_principal c \<noteq> None \<and> fresh (gc_realtime config) now c"
proof -
  have "requireFreshPrincipal config now s c m g = (outs, g')"
  proof (cases m)
    case (SessionAuthenticate i ticket binding)
    then show ?thesis using assms by (auto simp: gateway_process_def dest: fail_calls await_calls split: if_splits)
  qed (use assms(1) in \<open>simp_all add: gateway_process_def\<close>)
  then show ?thesis using assms(2-4)
    by (auto simp: requireFreshPrincipal_def dest: fail_calls await_calls dispatch_calls split: option.splits if_splits)
qed


section \<open>From history to live delivery\<close>

text \<open>The listener called with one notification after another.\<close>

fun notify_all :: "int \<Rightarrow> chat_notification list \<Rightarrow> subscription \<Rightarrow> cursor_output list \<times> subscription" where
  "notify_all n [] sub = ([], sub)"
| "notify_all n (x # xs) sub =
     (case listener_call n x sub of (out, sub') \<Rightarrow>
       (case notify_all n xs sub' of (out', sub'') \<Rightarrow> (out @ out', sub'')))"

lemma accept_all_run: "accept_all c ns = prod.swap (cursor_run c (map Accepting ns))"
  by (induction ns arbitrary: c) (auto split: prod.splits)

lemma cursor_run_append:
  "cursor_run c (es @ fs) =
     (case cursor_run c es of (c1, out1) \<Rightarrow> (case cursor_run c1 fs of (c2, out2) \<Rightarrow> (c2, out1 @ out2)))"
  by (induction es arbitrary: c) (auto split: prod.splits)

text \<open>Before activation the listener keeps everything, in order, or gives up.\<close>

lemma notify_inactive:
  assumes "notify_all n ns sub = (out, sub')" "\<not> sb_active sub" "\<not> sb_overflowed sub'"
  shows "out = [] \<and> sub' = sub\<lparr>sb_pending := sb_pending sub @ ns\<rparr>"
  using assms
proof (induction ns arbitrary: sub out)
  case (Cons x ns)
  obtain o1 s1 o2 where one: "listener_call n x sub = (o1, s1)" and two: "notify_all n ns s1 = (o2, sub')" "out = o1 @ o2"
    using Cons.prems(1) by (auto split: prod.splits)
  have lost: "sb_overflowed sub'" if "sb_overflowed s1" "\<not> sb_active s1"
    using two(1) that
  proof (induction ns arbitrary: s1 o2)
    case (Cons y ns)
    obtain p1 t1 p2 where y: "listener_call n y s1 = (p1, t1)" "notify_all n ns t1 = (p2, sub')"
      using Cons.prems(1) by (auto split: prod.splits)
    then have "sb_overflowed t1" "\<not> sb_active t1"
      using Cons.prems(2,3) by (auto simp: listener_call_def split: if_splits)
    with Cons.IH y(2) show ?case by blast
  qed simp
  from one Cons.prems(2) have "o1 = [Overflow] \<and> sb_overflowed s1 \<and> \<not> sb_active s1 \<or>
      o1 = [] \<and> s1 = sub\<lparr>sb_pending := sb_pending sub @ [x]\<rparr>"
    by (auto simp: listener_call_def split: if_splits)
  with lost Cons.prems(3) have s1: "o1 = []" "s1 = sub\<lparr>sb_pending := sb_pending sub @ [x]\<rparr>" by auto
  from Cons.IH [OF two(1)] Cons.prems(2,3) s1 two(2) show ?case by simp
qed simp

lemma notify_active:
  assumes "notify_all n ns sub = (out, sub')" "sb_active sub" "sb_cursor sub = Some c"
  shows "\<exists>c'. cursor_run c (map Accepting ns) = (c', out) \<and> sub' = sub\<lparr>sb_cursor := Some c'\<rparr>"
  using assms
proof (induction ns arbitrary: sub c out)
  case (Cons x ns)
  obtain c1 o1 where one: "cursor_accept c x = (c1, o1)" by fastforce
  have "listener_call n x sub = (o1, sub\<lparr>sb_cursor := Some c1\<rparr>)"
    using Cons.prems(2,3) one by (simp add: listener_call_def)
  with Cons.prems(1) obtain o2 where two: "notify_all n ns (sub\<lparr>sb_cursor := Some c1\<rparr>) = (o2, sub')" "out = o1 @ o2"
    by (auto split: prod.splits)
  from Cons.IH [OF two(1)] Cons.prems(2) obtain c' where
    "cursor_run c1 (map Accepting ns) = (c', o2)" "sub' = sub\<lparr>sb_cursor := Some c'\<rparr>" by auto
  with one two(2) show ?case by simp
qed (auto intro: exI [of _ c])



section \<open>The answer to a command that fails\<close>



section \<open>Runs\<close>

lemma acting_code [code]:
  "acting s who g = (case context_of s g of None \<Rightarrow> False
     | Some c \<Rightarrow> (case ct_principal c of None \<Rightarrow> False | Some p \<Rightarrow> same_identity p who))"
  by (auto simp: acting_def split: option.split)

definition sample_gateway_config :: gateway_config where
  "sample_gateway_config = \<lparr>gc_realtime = sample_realtime_config, gc_chat = sample_chat_config, gc_zod = strict_zod,
     gc_number = (\<lambda>_. ''0''), gc_framed = (\<lambda>n. n + 4)\<rparr>"

definition sample_id :: "char \<Rightarrow> uuid" where
  "sample_id c = ''0190a1b2-c3d4-7abc-8def-00000000000'' @ [c]"

definition sample_room_request :: chat_subscription where
  "sample_room_request = \<lparr>cs_deviceId = sample_id CHR ''d'', cs_afterPosition = None, cs_limit = None\<rparr>"

text \<open>A socket connects and authenticates.\<close>

definition sample_login :: "gateway_event list" where
  "sample_login =
     [Connection (sample_id CHR ''1'') 1 (Some ''https://hello.example'') ''source'',
      Frame 0 1 False 200 (Some (client_json (SessionAuthenticate (sample_id CHR ''2'') (replicate 43 CHR ''t'')
        (replicate 43 CHR ''b'')))),
      Turn 1000 1, Answer 1010 1 (TicketAnswer (Inr sample_principal)), Answer 1020 1 (WatchPresenceAnswer True),
      Answer 1030 1 (OpenPresenceAnswer True)]"

definition sample_presence_snapshot :: presence_snapshot where
  "sample_presence_snapshot = \<lparr>ss_revision = 1, ss_available = True, ss_participants = [], ss_truncated = False\<rparr>"

definition sample_room_page :: chat_page where
  "sample_room_page = \<lparr>cp_messages = [], cp_nextAfterPosition = 5, cp_highWatermark = 5, cp_hasMore = False\<rparr>"

text \<open>It subscribes to the room and its chat, up to the answer of presence.\<close>

definition sample_subscribe :: "gateway_event list" where
  "sample_subscribe =
     [Frame 100 1 False 150 (Some (client_json (RoomSubscribe (sample_id CHR ''3'') (Some sample_room_request)))),
      Turn 1100 1, Answer 1110 1 (SnapshotAnswer sample_presence_snapshot)]"

definition sample_catch_up :: "gateway_event list" where
  "sample_catch_up = [Answer 1120 1 (WatchAnswer (Inr ())), Answer 1130 1 (PageAnswer (Inr sample_room_page))]"

definition sample_gateway :: "gateway_event list \<Rightarrow> gateway" where
  "sample_gateway es = foldl (gateway_step sample_gateway_config) new_gateway es"

definition sample_outputs :: "gateway_event list \<Rightarrow> gateway_output list" where
  "sample_outputs es = gateway_outputs sample_gateway_config new_gateway es"

lemma sample_login_calls:
  "List.map_filter output_call (sample_outputs sample_login) =
     [(1, ConsumeTicket (replicate 43 CHR ''t'') ''https://hello.example'' (replicate 43 CHR ''b'')),
      (1, WatchPresence (pr_meetingId sample_principal)),
      (1, OpenPresence (pr_meetingId sample_principal) (toPresenceConnection sample_principal (sample_id CHR ''1'')))]"
  by code_simp


text \<open>The bounds, the confinement and the freshness on these runs.\<close>

definition sample_events :: "gateway_event list" where
  "sample_events = sample_login @ sample_subscribe"

lemma sample_limits_hold: "gateway_limits sample_gateway_config" "1 \<le> cc_reorderBufferMessages (gc_chat sample_gateway_config)"
  "0 < rc_sessionRevalidateSeconds (gc_realtime sample_gateway_config)"
  by code_simp+

lemma sample_lawful: "enabled_history (gateway_step sample_gateway_config) lawful new_gateway sample_events"
  by code_simp

theorem gateway_memory_bounded_witness:
  "context_of 1 (sample_gateway sample_events) \<noteq> None \<and>
   ct_pendingCommands (the (context_of 1 (sample_gateway sample_events))) \<le> 16 \<and>
   int (length (of_session (gw_registry (sample_gateway sample_events)) (pr_sessionId sample_principal))) \<le> 4"
proof -
  have "context_of 1 (sample_gateway sample_events) \<noteq> None" by code_simp
  moreover have "rc_maxPendingCommands (gc_realtime sample_gateway_config) = 16"
    "rc_maxConnectionsPerSession (gc_realtime sample_gateway_config) = 4" by code_simp+
  ultimately show ?thesis
    using gateway_memory_bounded [OF sample_limits_hold(1,2) sample_lawful refl, folded sample_gateway_def,
        where s = 1 and session = "pr_sessionId sample_principal"]
    by auto
qed

theorem socket_acts_for_its_ticket_witness:
  "\<exists>now who. Answer now 1 (TicketAnswer (Inr who)) \<in> set sample_events \<and>
     call_for who (SnapshotPresence (pr_meetingId sample_principal))"
proof -
  have "Call 1 (SnapshotPresence (pr_meetingId sample_principal))
      \<in> set (gateway_outputs sample_gateway_config new_gateway sample_events)" by code_simp
  then show ?thesis by (rule socket_acts_for_its_ticket [OF sample_limits_hold(1) sample_lawful]) simp_all
qed



section \<open>A close during an await\<close>

text \<open>An action that calls no service and registers no socket.\<close>

definition silent :: "action \<Rightarrow> bool" where
  "silent a = (\<forall>g outs g'. a g = (outs, g') \<longrightarrow>
     list_all (\<lambda>x. output_call x = None) outs \<and> rg_contexts (gw_registry g') = rg_contexts (gw_registry g))"

lemma silent_then: "silent a \<Longrightarrow> silent b \<Longrightarrow> silent (then_do a b)"
  unfolding silent_def then_do_def by (fastforce split: prod.splits)

lemma silent_quiet: "socket_only a \<Longrightarrow> silent a"
  unfolding socket_only_def silent_def by (metis (no_types))

lemma silent_update: "silent (update_context s f)"
  by (auto simp: silent_def update_context_def set_context_def split: option.split)

lemma silent_finish: "silent (finish s)"
  unfolding finish_def by (rule silent_then [OF silent_update]) (simp add: silent_def)

lemma silent_activate: "silent (activate_subscription config l)"
proof (unfold silent_def, intro allI impI)
  fix g outs g'
  assume run: "activate_subscription config l g = (outs, g')"
  show "list_all (\<lambda>x. output_call x = None) outs \<and> rg_contexts (gw_registry g') = rg_contexts (gw_registry g)"
  proof (cases "gw_subscriptions g l")
    case (Some sub)
    obtain calls sub' where "activate sub = (calls, sub')" by fastforce
    with run Some have "callbacks config (sb_socket sub) calls (set_subscription l sub' g) = (outs, g')"
      by (simp add: activate_subscription_def)
    then show ?thesis using silent_quiet [OF quiet_callbacks] unfolding silent_def by (fastforce simp: set_subscription_def)
  qed (use run in \<open>simp add: activate_subscription_def\<close>)
qed

lemma silent_subscribed: "silent (subscribed config s i who request snapshot l page cursor)"
proof -
  have "silent (\<lambda>g. ([], case gw_subscriptions g l of None \<Rightarrow> g
      | Some sub \<Rightarrow> set_subscription l (sub\<lparr>sb_cursor := Some cursor\<rparr>) g))"
    by (auto simp: silent_def set_subscription_def split: option.split)
  then show ?thesis
    unfolding subscribed_def do_all_Cons do_all_Nil
    by (intro silent_then silent_update silent_finish silent_activate) (simp_all add: silent_quiet)
qed

lemma finish_running: "finish s g = (outs, g') \<Longrightarrow> gw_running g' s = None"
  by (auto simp: finish_def then_do_def update_context_def)

lemma subscribed_running:
  assumes "subscribed config s i who request snapshot l page cursor g = (outs, g')"
  shows "gw_running g' s = None"
proof -
  have "\<exists>h out. finish s h = (out, g')"
    using assms unfolding subscribed_def do_all_Cons do_all_Nil by (auto simp: then_do_def split: prod.splits)
  then show ?thesis using finish_running by blast
qed

text \<open>A subscription whose socket closed while its history was read is completed all the same: the listener
  stays with the fan-out, no release is asked for, and the cleanup of the socket, which has already run,
  would find nothing to do.\<close>

lemma late_subscription_never_released:
  assumes "gw_running g s = Some (AwaitHistory i who request snapshot l)" "s \<notin> set (rg_contexts (gw_registry g))"
    and "1 \<le> cc_reorderBufferMessages (gc_chat config)"
    and "gateway_handle config (Answer now s (PageAnswer (Inr page))) g = (outs, g')"
  shows "list_all (\<lambda>x. output_call x = None) outs \<and> gw_running g' s = None \<and> cleanup s g' = ([], g')"
proof -
  obtain cursor where "new_cursor (cp_highWatermark page) (cc_reorderBufferMessages (gc_chat config)) = Inr cursor"
    using assms(3) by (simp add: new_cursor_def)
  then have run: "subscribed config s i who request snapshot l page cursor g = (outs, g')"
    using assms(1,4) by (simp add: after_history_def)
  then have "list_all (\<lambda>x. output_call x = None) outs" "s \<notin> set (rg_contexts (gw_registry g'))"
    using silent_subscribed assms(2) unfolding silent_def by fastforce+
  with subscribed_running [OF run] show ?thesis
    by (simp add: cleanup_def registry_remove_def registry_get_def)
qed

text \<open>The same happens to presence when the socket closes while its watch is being set up.\<close>

definition sample_cut_login :: "gateway_event list" where
  "sample_cut_login = take 4 sample_login @ [SocketClosed 1] @ drop 4 sample_login"

definition sample_calls :: "gateway_event list \<Rightarrow> service_call list" where
  "sample_calls es = map snd (List.map_filter output_call (sample_outputs es))"

lemma closed_authentication_keeps_presence:
  "WatchPresence (pr_meetingId sample_principal) \<in> set (sample_calls sample_cut_login)"
  "UnwatchPresence (pr_meetingId sample_principal) \<notin> set (sample_calls sample_cut_login)"
  "registry_get 1 (gw_registry (sample_gateway sample_cut_login)) = None"
  "gw_running (sample_gateway sample_cut_login) 1 = None"
  by code_simp+

end
