(* ===== verification/Migrations.thy ===== *)
theory Migrations
  imports Transactions Config
begin

text \<open>
  The migration runner (\<open>platform/database/migration-runner.ts\<close>): reading a directory of SQL files, checking
  the history against it, and applying what is missing, each file in a transaction of its own. A run holds
  an advisory lock, so runs follow each other; each may fail at any point, also with a commit in doubt.
\<close>

section \<open>Files\<close>

record migration_file =
  mf_version :: string
  mf_filename :: string
  mf_sql :: string
  mf_checksum :: string

record applied_row =
  av_version :: string
  av_filename :: string
  av_checksum :: string

text \<open>The history table, once it exists, and the rest of the database.\<close>

record 'd migrated =
  mg_history :: "applied_row list option"
  mg_schema :: 'd

definition ends_with :: "string \<Rightarrow> string \<Rightarrow> bool" where
  "ends_with suffix s = (length suffix \<le> length s \<and> drop (length s - length suffix) s = suffix)"

text \<open>\<open>/^([0-9]{4})_([a-z0-9_]+)\.sql$/\<close>: the version of a file.\<close>

definition migration_version :: "string \<Rightarrow> string option" where
  "migration_version filename =
     (let stem = take (length filename - 4) filename
      in if ends_with ''.sql'' filename \<and> 5 < length stem \<and> list_all is_digit (take 4 stem) \<and> stem ! 4 = CHR ''_'' \<and>
        list_all (\<lambda>c. is_lower c \<or> is_digit c \<or> c = CHR ''_'') (drop 5 stem)
      then Some (take 4 stem) else None)"

fun read_files :: "(string \<Rightarrow> string) \<Rightarrow> string list \<Rightarrow> (string \<times> string) list \<Rightarrow> migration_file list outcome" where
  "read_files sha256hex versions [] = Inr []"
| "read_files sha256hex versions ((filename, sql) # rest) =
     (case migration_version filename of
       None \<Rightarrow> Inl (ConfigurationError ''Migration filenames or versions are invalid'')
     | Some v \<Rightarrow>
         if v \<in> set versions then Inl (ConfigurationError ''Migration filenames or versions are invalid'')
         else if trim_string sql = [] then Inl (ConfigurationError (''Migration '' @ v @ '' is empty''))
         else and_then (read_files sha256hex (v # versions) rest) (\<lambda>ms.
           Inr (\<lparr>mf_version = v, mf_filename = filename, mf_sql = sql, mf_checksum = sha256hex sql\<rparr> # ms)))"

text \<open>A directory is the list of its names with their contents.\<close>

definition readMigrationFiles ::
  "(string \<Rightarrow> string) \<Rightarrow> (string \<times> string) list \<Rightarrow> migration_file list outcome" where
  "readMigrationFiles sha256hex directory =
     (let files = sort_key fst (filter (\<lambda>f. ends_with ''.sql'' (fst f)) directory)
      in if files = [] then Inl (ConfigurationError ''No SQL migrations were found'')
      else read_files sha256hex [] files)"

section \<open>History\<close>

definition history_row :: "migration_file \<Rightarrow> applied_row" where
  "history_row m = \<lparr>av_version = mf_version m, av_filename = mf_filename m, av_checksum = mf_checksum m\<rparr>"

definition ensureMigrationTable :: "'d migrated \<Rightarrow> 'd migrated" where
  "ensureMigrationTable db = db\<lparr>mg_history := Some (or_else (mg_history db) [])\<rparr>"

definition loadAppliedMigrations :: "'d migrated \<Rightarrow> applied_row list" where
  "loadAppliedMigrations db = sort_key av_version (or_else (mg_history db) [])"

fun verify_rows :: "migration_file list \<Rightarrow> applied_row list \<Rightarrow> unit outcome" where
  "verify_rows ms [] = Inr ()"
| "verify_rows ms (r # rows) =
     (case find (\<lambda>m. mf_version m = av_version r) ms of
       None \<Rightarrow> Inl (ConfigurationError (''Applied migration '' @ av_version r @ '' has no local file''))
     | Some m \<Rightarrow>
         if mf_filename m \<noteq> av_filename r \<or> mf_checksum m \<noteq> av_checksum r
         then Inl (ConfigurationError (''Applied migration '' @ av_version r @ '' no longer matches its file''))
         else verify_rows ms rows)"

definition verifyAppliedMigrations :: "migration_file list \<Rightarrow> 'd migrated \<Rightarrow> unit outcome" where
  "verifyAppliedMigrations ms db = verify_rows ms (loadAppliedMigrations db)"

text \<open>The checks of the table: key, unique file name, format of the checksum.\<close>

definition insert_history :: "applied_row \<Rightarrow> applied_row list \<Rightarrow> applied_row list outcome" where
  "insert_history r rows =
     (if \<not> sha256_hex (av_checksum r) then Inl (PgError ''23514'')
      else if av_version r \<in> av_version ` set rows \<or> av_filename r \<in> av_filename ` set rows
      then Inl (PgError ''23505'')
      else Inr (rows @ [r]))"

section \<open>Applying\<close>

text \<open>What the SQL of a file does to the database is the argument \<open>exec\<close>; \<open>BEGIN\<close>, the file, the row and
  \<open>COMMIT\<close> form one transaction.\<close>

definition applyMigration ::
  "(string \<Rightarrow> 'd \<Rightarrow> 'd outcome) \<Rightarrow> commit_fate \<Rightarrow> migration_file \<Rightarrow> 'd migrated \<Rightarrow> unit outcome \<times> 'd migrated" where
  "applyMigration exec fate m db =
     (case and_then (exec (mf_sql m) (mg_schema db)) (\<lambda>d.
           and_then (insert_history (history_row m) (or_else (mg_history db) [])) (\<lambda>rows.
           Inr \<lparr>mg_history = Some rows, mg_schema = d\<rparr>)) of
       Inl e \<Rightarrow> (Inl e, db)
     | Inr db' \<Rightarrow>
         (case fate of
           Committed \<Rightarrow> (Inr (), db')
         | CommitRefused e \<Rightarrow> (Inl e, db)
         | CommitInDoubt e \<Rightarrow> (Inl e, db')))"

text \<open>The fate of a commit is indexed by the number of files that follow.\<close>

fun apply_pending ::
  "(string \<Rightarrow> 'd \<Rightarrow> 'd outcome) \<Rightarrow> (nat \<Rightarrow> commit_fate) \<Rightarrow> string list \<Rightarrow> migration_file list \<Rightarrow> 'd migrated
     \<Rightarrow> unit outcome \<times> 'd migrated" where
  "apply_pending exec fate applied [] db = (Inr (), db)"
| "apply_pending exec fate applied (m # ms) db =
     (if mf_version m \<in> set applied then apply_pending exec fate applied ms db
      else case applyMigration exec (fate (length ms)) m db of
        (Inl e, db') \<Rightarrow> (Inl e, db')
      | (Inr _, db') \<Rightarrow> apply_pending exec fate applied ms db')"

text \<open>A run of the migration process; \<open>fault\<close> is a failure to get the client, the lock or the table.\<close>

record migration_env =
  me_fault :: "failure option"
  me_fate :: "nat \<Rightarrow> commit_fate"

definition migrations_run ::
  "(string \<Rightarrow> string) \<Rightarrow> (string \<Rightarrow> 'd \<Rightarrow> 'd outcome) \<Rightarrow> migration_env \<Rightarrow> app_role \<Rightarrow> (string \<times> string) list \<Rightarrow>
     'd migrated \<Rightarrow> unit outcome \<times> 'd migrated" where
  "migrations_run sha256hex exec env role directory db =
     (if role \<noteq> Migration
      then (Inl (ConfigurationError ''Migrations can only run through the migration entrypoint''), db)
      else case readMigrationFiles sha256hex directory of
        Inl e \<Rightarrow> (Inl e, db)
      | Inr ms \<Rightarrow>
          (case me_fault env of
            Some e \<Rightarrow> (Inl e, db)
          | None \<Rightarrow>
              let ready = ensureMigrationTable db
              in case verifyAppliedMigrations ms ready of
                Inl e \<Rightarrow> (Inl e, ready)
              | Inr _ \<Rightarrow> apply_pending exec (me_fate env) (map av_version (loadAppliedMigrations ready)) ms ready))"

section \<open>What the history says\<close>

fun exec_all :: "(string \<Rightarrow> 'd \<Rightarrow> 'd outcome) \<Rightarrow> migration_file list \<Rightarrow> 'd \<Rightarrow> 'd outcome" where
  "exec_all exec [] d = Inr d"
| "exec_all exec (m # ms) d = and_then (exec (mf_sql m) d) (exec_all exec ms)"

lemma exec_all_append: "exec_all exec (ms @ ns) d = and_then (exec_all exec ms d) (exec_all exec ns)"
  by (induction ms arbitrary: d) (auto simp: and_then_def split: sum.split)

text \<open>The files applied so far, in their order: the history is their rows, and the database is what their
  SQL made of the initial one.\<close>

definition applied_files ::
  "(string \<Rightarrow> string) \<Rightarrow> (string \<Rightarrow> 'd \<Rightarrow> 'd outcome) \<Rightarrow> 'd \<Rightarrow> migration_file list \<Rightarrow> 'd migrated \<Rightarrow> bool" where
  "applied_files sha256hex exec d0 ms db =
     (or_else (mg_history db) [] = map history_row ms \<and> distinct (map mf_version ms) \<and>
      exec_all exec ms d0 = Inr (mg_schema db) \<and> (\<forall>m \<in> set ms. mf_checksum m = sha256hex (mf_sql m)))"

lemma ensureMigrationTable_simps [simp]:
  "or_else (mg_history (ensureMigrationTable db)) [] = or_else (mg_history db) []"
  "mg_schema (ensureMigrationTable db) = mg_schema db"
  by (simp_all add: ensureMigrationTable_def)

lemma applied_files_ensure: "applied_files sha exec d0 ms (ensureMigrationTable db) = applied_files sha exec d0 ms db"
  by (simp add: applied_files_def)

lemma read_files_ok:
  "read_files sha versions fs = Inr ms \<Longrightarrow>
     distinct (map mf_version ms) \<and> set versions \<inter> mf_version ` set ms = {} \<and>
     (\<forall>m \<in> set ms. mf_checksum m = sha (mf_sql m))"
  by (induction sha versions fs arbitrary: ms rule: read_files.induct)
    (fastforce simp: and_then_Inr_iff split: option.splits if_splits)+

lemma readMigrationFiles_ok:
  "readMigrationFiles sha directory = Inr ms \<Longrightarrow>
     distinct (map mf_version ms) \<and> (\<forall>m \<in> set ms. mf_checksum m = sha (mf_sql m))"
  by (auto simp: readMigrationFiles_def Let_def dest: read_files_ok split: if_splits)

lemma read_files_length: "read_files sha versions fs = Inr ms \<Longrightarrow> length ms = length fs"
  by (induction sha versions fs arbitrary: ms rule: read_files.induct)
    (auto simp: and_then_Inr_iff split: option.splits if_splits)

lemma read_files_nonempty: "readMigrationFiles sha directory = Inr ms \<Longrightarrow> ms \<noteq> []"
  by (auto simp: readMigrationFiles_def Let_def dest: read_files_length split: if_splits)

lemma applyMigration_cases:
  assumes "applyMigration exec fate m db = (r, db')"
  obtains (kept) e where "r = Inl e" "db' = db"
  | (applied) d where "exec (mf_sql m) (mg_schema db) = Inr d"
      "mf_version m \<notin> av_version ` set (or_else (mg_history db) [])"
      "db' = \<lparr>mg_history = Some (or_else (mg_history db) [] @ [history_row m]), mg_schema = d\<rparr>"
      "r = Inr () \<longleftrightarrow> fate = Committed"
proof -
  let ?rows = "or_else (mg_history db) []"
  let ?tx = "and_then (exec (mf_sql m) (mg_schema db)) (\<lambda>d.
    and_then (insert_history (history_row m) ?rows) (\<lambda>rows. Inr \<lparr>mg_history = Some rows, mg_schema = d\<rparr>))"
  show thesis
  proof (cases ?tx)
    case (Inl e)
    then have "r = Inl e" "db' = db" using assms by (simp_all add: applyMigration_def)
    then show thesis by (rule kept)
  next
    case (Inr db1)
    then obtain d rows where d: "exec (mf_sql m) (mg_schema db) = Inr d"
      "insert_history (history_row m) ?rows = Inr rows" "db1 = \<lparr>mg_history = Some rows, mg_schema = d\<rparr>"
      by (auto simp: and_then_Inr_iff)
    from d(2) have rows: "rows = ?rows @ [history_row m]" "mf_version m \<notin> av_version ` set ?rows"
      by (auto simp: insert_history_def history_row_def split: if_splits)
    have res: "applyMigration exec fate m db = (case fate of Committed \<Rightarrow> (Inr (), db1)
        | CommitRefused e \<Rightarrow> (Inl e, db) | CommitInDoubt e \<Rightarrow> (Inl e, db1))"
      unfolding applyMigration_def Inr by simp
    show thesis
    proof (cases "db' = db1")
      case True
      show thesis
        by (rule applied [OF d(1) rows(2)]) (use assms res True d(3) rows(1) in \<open>auto split: commit_fate.splits\<close>)
    next
      case False
      then obtain e where "r = Inl e" "db' = db" using assms res by (auto split: commit_fate.splits)
      then show thesis by (rule kept)
    qed
  qed
qed

lemma applyMigration_keeps:
  assumes "applied_files sha exec d0 ms db" and "applyMigration exec fate m db = (r, db')"
    and "mf_checksum m = sha (mf_sql m)"
  shows "applied_files sha exec d0 ms db' \<and> r \<noteq> Inr () \<or> applied_files sha exec d0 (ms @ [m]) db'"
  using assms(2)
proof (cases rule: applyMigration_cases)
  case (applied d)
  have "av_version ` set (or_else (mg_history db) []) = mf_version ` set ms"
    using assms(1) by (simp add: applied_files_def history_row_def image_image)
  then show ?thesis using assms(1,3) applied
    by (auto simp: applied_files_def exec_all_append)
qed (use assms(1) in simp)

lemma apply_pending_keeps:
  assumes "applied_files sha exec d0 ms db" and "\<forall>m \<in> set fs. mf_checksum m = sha (mf_sql m)"
    and "apply_pending exec fate applied fs db = (r, db')"
  shows "\<exists>more. applied_files sha exec d0 (ms @ more) db' \<and> set more \<subseteq> set fs \<and>
    (r = Inr () \<longrightarrow> more = filter (\<lambda>m. mf_version m \<notin> set applied) fs)"
  using assms
proof (induction fs arbitrary: ms db)
  case (Cons m fs)
  show ?case
  proof (cases "mf_version m \<in> set applied")
    case True
    with Cons.IH [OF Cons.prems(1)] Cons.prems(2,3) show ?thesis by fastforce
  next
    case False
    obtain r1 db1 where a: "applyMigration exec (fate (length fs)) m db = (r1, db1)" by fastforce
    from applyMigration_keeps [OF Cons.prems(1) a] Cons.prems(2)
    consider (kept) "applied_files sha exec d0 ms db1" "r1 \<noteq> Inr ()" | (added) "applied_files sha exec d0 (ms @ [m]) db1"
      by auto
    then show ?thesis
    proof cases
      case kept
      then have "r = r1" "db' = db1" using Cons.prems(3) False a by (auto split: sum.splits)
      with kept show ?thesis by (intro exI [of _ "[]"]) simp
    next
      case added
      show ?thesis
      proof (cases r1)
        case (Inl e)
        then have "r = Inl e" "db' = db1" using Cons.prems(3) False a by auto
        with added show ?thesis by (intro exI [of _ "[m]"]) simp
      next
        case (Inr x)
        then have "apply_pending exec fate applied fs db1 = (r, db')" using Cons.prems(3) False a by simp
        from Cons.IH [OF added _ this] Cons.prems(2) obtain more where
          "applied_files sha exec d0 ((ms @ [m]) @ more) db'" "set more \<subseteq> set fs"
          "r = Inr () \<longrightarrow> more = filter (\<lambda>m. mf_version m \<notin> set applied) fs" by auto
        then show ?thesis using False by (intro exI [of _ "m # more"]) auto
      qed
    qed
  qed
qed auto

lemma verify_rows_ok:
  "distinct (map mf_version fs) \<Longrightarrow> verify_rows fs rows = Inr () \<longleftrightarrow> set rows \<subseteq> history_row ` set fs"
proof (induction rows)
  case (Cons r rows)
  have "(\<exists>m. find (\<lambda>m. mf_version m = av_version r) fs = Some m \<and> mf_filename m = av_filename r \<and>
      mf_checksum m = av_checksum r) \<longleftrightarrow> r \<in> history_row ` set fs"
  proof
    assume "\<exists>m. find (\<lambda>m. mf_version m = av_version r) fs = Some m \<and> mf_filename m = av_filename r \<and>
      mf_checksum m = av_checksum r"
    then obtain m where m: "find (\<lambda>m. mf_version m = av_version r) fs = Some m" "mf_filename m = av_filename r"
      "mf_checksum m = av_checksum r" by blast
    then have "m \<in> set fs" "mf_version m = av_version r" by (auto simp: find_Some_iff)
    moreover from this m have "r = history_row m" by (cases r) (simp add: history_row_def)
    ultimately show "r \<in> history_row ` set fs" by blast
  next
    assume "r \<in> history_row ` set fs"
    then obtain m where m: "m \<in> set fs" "r = history_row m" by blast
    then obtain q where q: "find (\<lambda>m. mf_version m = av_version r) fs = Some q"
      by (cases "find (\<lambda>m. mf_version m = av_version r) fs") (auto simp: find_None_iff history_row_def)
    then have "q \<in> set fs" "mf_version q = mf_version m" by (auto simp: find_Some_iff m(2) history_row_def)
    then have "q = m" using Cons.prems m(1) by (metis distinct_key_eq)
    with q m(2) show "\<exists>m. find (\<lambda>m. mf_version m = av_version r) fs = Some m \<and> mf_filename m = av_filename r \<and>
      mf_checksum m = av_checksum r" by (simp add: history_row_def)
  qed
  moreover have "verify_rows fs (r # rows) = Inr () \<longleftrightarrow>
      (\<exists>m. find (\<lambda>m. mf_version m = av_version r) fs = Some m \<and> mf_filename m = av_filename r \<and>
        mf_checksum m = av_checksum r) \<and> verify_rows fs rows = Inr ()"
    by (auto split: option.splits)
  ultimately show ?case using Cons by simp
qed simp


lemma apply_pending_nothing: "\<forall>m \<in> set fs. mf_version m \<in> set applied \<Longrightarrow> apply_pending exec fate applied fs db = (Inr (), db)"
  by (induction fs) auto

lemma migrations_run_keeps:
  assumes "applied_files sha exec d0 ms db" and "migrations_run sha exec env role directory db = (r, db')"
  shows "\<exists>more. applied_files sha exec d0 (ms @ more) db'"
proof (cases "readMigrationFiles sha directory")
  case (Inr fs)
  then have checksums: "\<forall>m \<in> set fs. mf_checksum m = sha (mf_sql m)" using readMigrationFiles_ok by blast
  have ready: "applied_files sha exec d0 (ms @ []) (ensureMigrationTable db)"
    using assms(1) by (simp add: applied_files_ensure)
  consider (kept) "db' = db" | (refused) "db' = ensureMigrationTable db"
    | (ran) "apply_pending exec (me_fate env) (map av_version (loadAppliedMigrations (ensureMigrationTable db))) fs
        (ensureMigrationTable db) = (r, db')"
    using assms(2) by (auto simp: migrations_run_def Inr Let_def split: if_splits option.splits sum.splits)
  then show ?thesis
  proof cases
    case kept
    then show ?thesis using assms(1) by (intro exI [of _ "[]"]) simp
  next
    case refused
    then show ?thesis using ready by blast
  next
    case ran
    from apply_pending_keeps [OF ready checksums this] show ?thesis by auto
  qed
qed (use assms in \<open>auto simp: migrations_run_def intro!: exI [of _ "[]"] split: if_splits\<close>)

text \<open>A run that succeeds has applied exactly the files of the directory, and says so when it is repeated.\<close>

lemma migrations_run_complete:
  assumes "applied_files sha exec d0 ms db"
    and "migrations_run sha exec env role directory db = (Inr (), db')" and "me_fault env' = None"
  shows "\<exists>fs. readMigrationFiles sha directory = Inr fs \<and> set (or_else (mg_history db') []) = history_row ` set fs \<and>
    migrations_run sha exec env' role directory db' = (Inr (), db')"
proof -
  let ?ready = "ensureMigrationTable db"
  let ?applied = "map av_version (loadAppliedMigrations ?ready)"
  obtain fs where role: "role = Migration" and fs: "readMigrationFiles sha directory = Inr fs"
    and verified: "verifyAppliedMigrations fs ?ready = Inr ()"
    and ran: "apply_pending exec (me_fate env) ?applied fs ?ready = (Inr (), db')"
    using assms(2) by (auto simp: migrations_run_def Let_def split: if_splits option.splits sum.splits)
  have dist: "distinct (map mf_version fs)" and sums: "\<forall>m \<in> set fs. mf_checksum m = sha (mf_sql m)"
    using readMigrationFiles_ok [OF fs] by blast+
  have ready: "applied_files sha exec d0 ms ?ready" using assms(1) by (simp add: applied_files_ensure)
  from apply_pending_keeps [OF ready sums ran] obtain more where
    finished: "applied_files sha exec d0 (ms @ more) db'" and more: "more = filter (\<lambda>m. mf_version m \<notin> set ?applied) fs"
    by blast
  have rows: "or_else (mg_history ?ready) [] = map history_row ms" using ready by (simp only: applied_files_def)
  have old: "history_row ` set ms \<subseteq> history_row ` set fs"
    using verified dist rows by (auto simp: verifyAppliedMigrations_def loadAppliedMigrations_def verify_rows_ok)
  have versions: "set ?applied = mf_version ` set ms"
    using rows by (auto simp: loadAppliedMigrations_def history_row_def image_image)
  have "history_row m \<in> history_row ` set ms" if "m \<in> set fs" "mf_version m \<in> mf_version ` set ms" for m
  proof -
    from that(2) obtain q where q: "q \<in> set ms" "mf_version q = mf_version m" by auto
    with old obtain f where f: "f \<in> set fs" "history_row q = history_row f" by blast
    then have "f = m" using that(1) q(2) dist by (metis applied_row.ext_inject distinct_key_eq history_row_def)
    then show ?thesis using f(2) q(1) by (metis imageI)
  qed
  then have rows': "set (or_else (mg_history db') []) = history_row ` set fs"
    using finished old more versions by (auto simp: applied_files_def image_Un)
  then obtain h where h: "mg_history db' = Some h" "set h = history_row ` set fs"
    using read_files_nonempty [OF fs] by (cases "mg_history db'") auto
  have again: "ensureMigrationTable db' = db'" by (simp add: ensureMigrationTable_def h(1))
  have "verifyAppliedMigrations fs db' = Inr ()"
    using h dist by (simp add: verifyAppliedMigrations_def loadAppliedMigrations_def verify_rows_ok)
  moreover have "apply_pending exec (me_fate env') (map av_version (loadAppliedMigrations db')) fs db' = (Inr (), db')"
    by (rule apply_pending_nothing) (use h(2) in \<open>auto simp: loadAppliedMigrations_def h(1) history_row_def image_image\<close>)
  ultimately have "migrations_run sha exec env' role directory db' = (Inr (), db')"
    by (simp add: migrations_run_def role fs assms(3) again)
  with rows' fs show ?thesis by blast
qed

text \<open>A history of runs, each with its own directory and its own faults.\<close>

definition migrations_history ::
  "(string \<Rightarrow> string) \<Rightarrow> (string \<Rightarrow> 'd \<Rightarrow> 'd outcome) \<Rightarrow> (migration_env \<times> (string \<times> string) list) list \<Rightarrow> 'd \<Rightarrow> 'd migrated" where
  "migrations_history sha256hex exec runs d0 =
     foldl (\<lambda>db (env, directory). snd (migrations_run sha256hex exec env Migration directory db))
       \<lparr>mg_history = None, mg_schema = d0\<rparr> runs"

lemma migrations_history_applied: "\<exists>ms. applied_files sha exec d0 ms (migrations_history sha exec runs d0)"
proof (induction runs rule: rev_induct)
  case Nil
  show ?case by (intro exI [of _ "[]"]) (simp add: migrations_history_def applied_files_def)
next
  case (snoc run runs)
  then obtain ms where ms: "applied_files sha exec d0 ms (migrations_history sha exec runs d0)" by blast
  obtain env directory where run: "run = (env, directory)" by fastforce
  from migrations_run_keeps [OF ms, of env Migration directory] show ?case
    by (simp add: migrations_history_def run) (metis prod.collapse)
qed

text \<open>C36. Every migration takes effect exactly once. Over every history of runs, whatever directories they are
  given and wherever they fail, a commit in doubt included, the database is what the SQL of the recorded
  files made of the initial one, each file once and in the order of the record, and no version is recorded
  twice. A record is never changed: a run only appends. A run that succeeds has recorded exactly the files
  of its directory, under their checksums, and running it again changes nothing.\<close>

theorem migrations_applied_once:
  assumes "db = migrations_history sha exec runs d0" and "migrations_run sha exec env role directory db = (r, db')"
  shows "\<exists>ms more. applied_files sha exec d0 ms db \<and> applied_files sha exec d0 (ms @ more) db' \<and>
    (r = Inr () \<longrightarrow> (\<exists>fs. readMigrationFiles sha directory = Inr fs \<and>
      set (or_else (mg_history db') []) = history_row ` set fs \<and>
      migrations_run sha exec \<lparr>me_fault = None, me_fate = fate\<rparr> role directory db' = (Inr (), db')))"
proof -
  obtain ms where ms: "applied_files sha exec d0 ms db" using migrations_history_applied [of sha exec d0 runs] assms(1) by blast
  from migrations_run_keeps [OF ms assms(2)] obtain more where "applied_files sha exec d0 (ms @ more) db'" by blast
  moreover have "\<exists>fs. readMigrationFiles sha directory = Inr fs \<and>
      set (or_else (mg_history db') []) = history_row ` set fs \<and>
      migrations_run sha exec \<lparr>me_fault = None, me_fate = fate\<rparr> role directory db' = (Inr (), db')" if "r = Inr ()"
    by (rule migrations_run_complete [OF ms]) (use assms(2) that in simp_all)
  ultimately show ?thesis using ms by blast
qed

section \<open>A sample\<close>

definition sample_directory :: "(string \<times> string) list" where
  "sample_directory = [(''0002_chat.sql'', ''B''), (''README.md'', ''x''), (''0001_core.sql'', ''A'')]"

definition sample_exec :: "string \<Rightarrow> string \<Rightarrow> string outcome" where
  "sample_exec sql d = Inr (d @ sql)"

definition sample_sha :: "string \<Rightarrow> string" where
  "sample_sha s = replicate 64 (if s = ''A'' then CHR ''a'' else CHR ''b'')"

text \<open>The commit of the first file of the first run is in doubt; the second run does the rest.\<close>

definition sample_doubt :: migration_env where
  "sample_doubt = \<lparr>me_fault = None, me_fate = (\<lambda>n. CommitInDoubt (DependencyFault ''lost''))\<rparr>"

definition sample_calm :: migration_env where
  "sample_calm = \<lparr>me_fault = None, me_fate = (\<lambda>n. Committed)\<rparr>"

definition sample_first :: "string migrated" where
  "sample_first = migrations_history sample_sha sample_exec [(sample_doubt, sample_directory)] []"

lemma sample_first_evaluated: "mg_schema sample_first = ''A'' \<and> map av_version (or_else (mg_history sample_first) []) = [''0001'']"
  by code_simp

definition sample_second :: "unit outcome \<times> string migrated" where
  "sample_second = migrations_run sample_sha sample_exec sample_calm Migration sample_directory sample_first"

lemma sample_second_evaluated: "fst sample_second = Inr () \<and> mg_schema (snd sample_second) = ''AB''"
  by code_simp

theorem migrations_applied_once_witness:
  "\<exists>fs. readMigrationFiles sample_sha sample_directory = Inr fs \<and>
     set (or_else (mg_history (snd sample_second)) []) = history_row ` set fs \<and>
     migrations_run sample_sha sample_exec sample_calm Migration sample_directory (snd sample_second) =
       (Inr (), snd sample_second)"
proof -
  have run: "migrations_run sample_sha sample_exec sample_calm Migration sample_directory sample_first =
      (fst sample_second, snd sample_second)" by (simp add: sample_second_def)
  from migrations_applied_once [OF sample_first_def run, of "\<lambda>n. Committed"] show ?thesis
    unfolding sample_calm_def using sample_second_evaluated by blast
qed

end
