(* ===== verification/SfuPolicy.thy ===== *)
theory SfuPolicy
  imports Schema
begin

text \<open>
  The permissions of a media admission (\<open>sfu-admission.constants.ts\<close>, \<open>sfu-admission.policy.ts\<close>): the
  vocabulary of the media server, the combinations of roles the product allows, and the list of
  permissions derived from the durable policy of a meeting and a participant.
\<close>

section \<open>Vocabulary\<close>

datatype sfu_permission =
    RoomJoin | TransportCreateSend | TransportCreateRecv | MediaProduceAudio | MediaProduceVideo
  | MediaConsume | DataProduce | DataConsume | E2eeEnable | RoomModerate | RecordingManage

fun permission_name :: "sfu_permission \<Rightarrow> string" where
  "permission_name RoomJoin = ''room:join''"
| "permission_name TransportCreateSend = ''transport:create:send''"
| "permission_name TransportCreateRecv = ''transport:create:recv''"
| "permission_name MediaProduceAudio = ''media:produce:audio''"
| "permission_name MediaProduceVideo = ''media:produce:video''"
| "permission_name MediaConsume = ''media:consume''"
| "permission_name DataProduce = ''data:produce''"
| "permission_name DataConsume = ''data:consume''"
| "permission_name E2eeEnable = ''e2ee:enable''"
| "permission_name RoomModerate = ''room:moderate''"
| "permission_name RecordingManage = ''recording:manage''"

fun sfu_role_name :: "sfu_role \<Rightarrow> string" where
  "sfu_role_name SfuHost = ''host''"
| "sfu_role_name SfuSpeaker = ''speaker''"
| "sfu_role_name SfuViewer = ''viewer''"

lemma permission_name_inject [simp]: "permission_name a = permission_name b \<longleftrightarrow> a = b"
  by (cases a; cases b) simp_all

section \<open>Derivation\<close>

record sfu_policy_input =
  pi_meetingMode :: meeting_mode
  pi_productRole :: product_role
  pi_sfuRole :: sfu_role
  pi_mediaE2eePolicy :: media_e2ee_policy
  pi_hasActiveMediaMembership :: bool

definition assertRoleCombination :: "meeting_mode \<Rightarrow> product_role \<Rightarrow> sfu_role \<Rightarrow> unit outcome" where
  "assertRoleCombination meetingMode productRole sfuRole =
     ensure
       ((productRole = Host \<and> sfuRole = SfuHost) \<or>
        (productRole = Viewer \<and> sfuRole = SfuViewer \<and> meetingMode = Live) \<or>
        (productRole = Presenter \<and> sfuRole = SfuSpeaker \<and> meetingMode = Live) \<or>
        (productRole = Participant \<and> sfuRole = SfuSpeaker \<and> meetingMode \<noteq> Live))
       (app_failure ''SFU_PERMISSION_PROFILE_INVALID'' Authorization
         ''The participant permission profile cannot be admitted.'')"

definition deriveSfuPermissions :: "sfu_policy_input \<Rightarrow> sfu_permission list outcome" where
  "deriveSfuPermissions input =
     and_then (assertRoleCombination (pi_meetingMode input) (pi_productRole input) (pi_sfuRole input)) (\<lambda>_.
     if pi_mediaE2eePolicy input = E2eeRequired \<and> \<not> pi_hasActiveMediaMembership input
     then Inl (app_failure ''SFU_E2EE_NOT_READY'' Conflict
       ''Media encryption membership must be active before joining the SFU.'')
     else
       let mayPublish = (pi_productRole input \<noteq> Viewer) in
       Inr ([RoomJoin, TransportCreateRecv, MediaConsume] @
         (if mayPublish then [TransportCreateSend, MediaProduceAudio] else []) @
         (if mayPublish \<and> pi_meetingMode input \<noteq> AudioCall \<and>
             (pi_meetingMode input \<noteq> Live \<or> pi_productRole input = Host \<or> pi_productRole input = Presenter)
          then [MediaProduceVideo] else []) @
         (if pi_productRole input = Host then [RoomModerate] else []) @
         (if pi_mediaE2eePolicy input \<noteq> E2eeDisabled \<and> pi_hasActiveMediaMembership input
          then [E2eeEnable] else [])))"

text \<open>\<open>permissions.join("\0")\<close>, the comparison made when an admission is finalized.\<close>

fun joined_permissions :: "sfu_permission list \<Rightarrow> string" where
  "joined_permissions [] = []"
| "joined_permissions [p] = permission_name p"
| "joined_permissions (p # q # ps) = permission_name p @ [CHR 0x00] @ joined_permissions (q # ps)"

section \<open>What is granted\<close>

lemma permission_name_plain: "CHR 0x00 \<notin> set (permission_name p)"
  by (cases p) simp_all

lemma permission_name_nonempty [simp]: "permission_name p \<noteq> []"
  by (cases p) simp_all

lemma first_separator:
  "a @ c # s = b @ c # t \<Longrightarrow> c \<notin> set a \<Longrightarrow> c \<notin> set b \<Longrightarrow> a = b \<and> s = t"
  by (induction a arbitrary: b) (case_tac b, auto)+

lemma joined_head:
  "joined_permissions (p # ps) = permission_name p @ (if ps = [] then [] else CHR 0x00 # joined_permissions ps)"
  by (cases ps) auto

text \<open>The comparison by joined names is the equality of the lists.\<close>

lemma joined_permissions_inject [simp]: "joined_permissions ps = joined_permissions qs \<longleftrightarrow> ps = qs"
proof (induction ps arbitrary: qs)
  case Nil
  show ?case by (cases qs) (auto simp: joined_head)
next
  case (Cons p ps)
  show ?case
  proof (cases qs)
    case Nil
    then show ?thesis by (simp add: joined_head)
  next
    case (Cons q qs')
    have "ps = qs' \<and> p = q" if eq: "joined_permissions (p # ps) = joined_permissions (q # qs')"
    proof -
      have sep: "CHR 0x00 \<in> set (joined_permissions (r # rs)) \<longleftrightarrow> rs \<noteq> []" for r rs
        by (simp add: joined_head permission_name_plain)
      from sep [of p ps] sep [of q qs'] eq have "ps = [] \<longleftrightarrow> qs' = []" by metis
      then show ?thesis
      proof (cases "ps = []")
        case False
        with \<open>ps = [] \<longleftrightarrow> qs' = []\<close> eq
        have "permission_name p @ CHR 0x00 # joined_permissions ps = permission_name q @ CHR 0x00 # joined_permissions qs'"
          by (simp add: joined_head)
        from first_separator [OF this permission_name_plain permission_name_plain] Cons.IH show ?thesis by simp
      qed (use eq \<open>ps = [] \<longleftrightarrow> qs' = []\<close> in simp)
    qed
    then show ?thesis using local.Cons by auto
  qed
qed

lemma derive_error_public:
  "deriveSfuPermissions input = Inl e \<Longrightarrow>
     has_code ''SFU_PERMISSION_PROFILE_INVALID'' e \<or> has_code ''SFU_E2EE_NOT_READY'' e"
  by (auto simp: deriveSfuPermissions_def assertRoleCombination_def and_then_Inl_iff Let_def split: if_splits)

text \<open>The rows the table of participants admits never fail the role check for a role of their mode.\<close>

definition role_fits_mode :: "meeting_mode \<Rightarrow> product_role \<Rightarrow> bool" where
  "role_fits_mode mode role =
     (role = Host \<or> (if mode = Live then role \<in> {Viewer, Presenter} else role = Participant))"


definition sample_viewer :: participant where
  "sample_viewer = \<lparr>p_id = ''viewer'', p_meeting_id = ''meeting'', p_display_name = [65], p_product_role = Viewer,
     p_sfu_role = SfuViewer, p_permission_profile = ''viewer'', p_permission_profile_version = 1,
     p_state = PActive, p_chat_join_position = 0\<rparr>"

definition sample_viewer_input :: sfu_policy_input where
  "sample_viewer_input = \<lparr>pi_meetingMode = Live, pi_productRole = p_product_role sample_viewer,
     pi_sfuRole = p_sfu_role sample_viewer, pi_mediaE2eePolicy = E2eeRequired, pi_hasActiveMediaMembership = True\<rparr>"


end
