(* ===== verification/SfuRepository.thy ===== *)
theory SfuRepository
  imports Sessions SfuPolicy
begin

text \<open>
  The durable half of media admission (\<open>postgres-sfu-admission.repository.ts\<close>): transaction A locks the
  authorization of a session and reserves an attempt, transaction B compares everything again after the
  token was signed and publishes the attempt or invalidates it; signing failures, revocation and
  maintenance move the attempts on. The clock readings of a transaction are the values of a function of
  their order.
\<close>

section \<open>Types\<close>

record issue_admission =
  ad_commandId :: uuid
  ad_principal :: principal

record prepared_admission =
  pa_auditId :: uuid
  pa_tokenId :: uuid
  pa_keyId :: string
  pa_sessionId :: uuid
  pa_participantId :: uuid
  pa_meetingId :: uuid
  pa_displayName :: code_points
  pa_role :: sfu_role
  pa_permissions :: "sfu_permission list"
  pa_permissionProfileVersion :: int
  pa_issuedAtSeconds :: int
  pa_expiresAtSeconds :: int

definition admissionConflict :: failure where
  "admissionConflict = app_failure ''SFU_ADMISSION_STATE_CHANGED'' Conflict
     ''Participant authorization changed while admission was being issued.''"

definition commandReplayed :: failure where
  "commandReplayed = app_failure ''SFU_ADMISSION_COMMAND_REPLAYED'' Conflict
     ''This SFU admission command was already processed; use a new command identifier.''"

section \<open>Authorization\<close>

definition has_active_media_membership :: "instant \<Rightarrow> uuid \<Rightarrow> uuid \<Rightarrow> database \<Rightarrow> bool" where
  "has_active_media_membership now meetingId participantId db =
     list_ex (\<lambda>g. list_ex (\<lambda>member. list_ex (\<lambda>d.
        gm_group_id member = g_id g \<and> d_id d = gm_device_id member \<and>
        g_meeting_id g = meetingId \<and> g_purpose g = PurposeMedia \<and> g_state g = GroupActive \<and>
        gm_participant_id member = participantId \<and> gm_state member = MemberActive \<and>
        d_participant_id d = participantId \<and> d_state d = DevActive \<and> d_expires_at d > now)
       (e2ee_devices db)) (group_members db)) (e2ee_groups db)"

text \<open>The length of a string is counted in UTF-16 units.\<close>

definition utf16_length :: "code_points \<Rightarrow> nat" where
  "utf16_length s = sum_list (map (\<lambda>c. if c < 0x10000 then 1 else 2) s)"

definition authorizationSchema :: "zod \<Rightarrow> session_row \<Rightarrow> bool" where
  "authorizationSchema z row = (case row of (s, p, m) \<Rightarrow>
     z_uuid z (s_id s) \<and> z_uuid z (p_id p) \<and> z_uuid z (m_id m) \<and>
     1 \<le> utf16_length (p_display_name p) \<and> utf16_length (p_display_name p) \<le> 128 \<and>
     0 < p_permission_profile_version p)"

definition SELECT_AUTHORIZATION :: "instant \<Rightarrow> principal \<Rightarrow> database \<Rightarrow> session_row list" where
  "SELECT_AUTHORIZATION now who db =
     [(s, p, m). s \<leftarrow> sessions db, p \<leftarrow> participants db, m \<leftarrow> meetings db,
        s_id s = pr_sessionId who \<and> p_id p = pr_participantId who \<and> m_id m = pr_meetingId who \<and>
        session_live now s p m]"

definition loadAuthorization :: "zod \<Rightarrow> instant \<Rightarrow> issue_admission \<Rightarrow> database \<Rightarrow> session_row outcome" where
  "loadAuthorization z now command db =
     and_then (require (first_row (SELECT_AUTHORIZATION now (ad_principal command) db)) invalidSession) (\<lambda>row.
     if authorizationSchema z row then Inr row else Inl ZodError)"

text \<open>The policy input read from the rows of a participant and a meeting.\<close>

definition row_policy :: "participant \<Rightarrow> meeting \<Rightarrow> bool \<Rightarrow> sfu_policy_input" where
  "row_policy p m member =
     \<lparr>pi_meetingMode = m_mode m, pi_productRole = p_product_role p, pi_sfuRole = p_sfu_role p,
      pi_mediaE2eePolicy = m_media_e2ee_policy m, pi_hasActiveMediaMembership = member\<rparr>"

section \<open>Transaction A\<close>

definition throwReplay :: "issue_admission \<Rightarrow> database \<Rightarrow> failure" where
  "throwReplay command db =
     (if list_ex (\<lambda>r. aa_session_id r = pr_sessionId (ad_principal command) \<and> aa_command_id r = ad_commandId command)
          (sfu_admissions db)
      then commandReplayed else PlainError ''Conflicting SFU admission row is missing'')"

text \<open>\<open>INSERT ... ON CONFLICT (session_id, command_id) DO NOTHING RETURNING id\<close>: no row on a conflict, an error
  for another duplicate key.\<close>

definition reserve_attempt :: "admission_row \<Rightarrow> database \<Rightarrow> (uuid option \<times> database) outcome" where
  "reserve_attempt r db =
     (if \<not> admission_checks r then Inl check_violation
      else if list_ex (\<lambda>q. aa_session_id q = aa_session_id r \<and> aa_command_id q = aa_command_id r) (sfu_admissions db)
      then Inr (None, db)
      else if list_ex (admission_same_key r) (sfu_admissions db) then Inl unique_violation
      else Inr (Some (aa_id r), db\<lparr>sfu_admissions := sfu_admissions db @ [r]\<rparr>))"

definition admission_expiry :: "sfu_config \<Rightarrow> instant \<Rightarrow> psession \<Rightarrow> instant" where
  "admission_expiry config now s = min (now + sc_tokenTtlSeconds config * 1000) (s_absolute_expires_at s)"

record admission_ids =
  ai_auditId :: uuid
  ai_tokenId :: uuid

definition prepare_admission ::
  "zod \<Rightarrow> sfu_config \<Rightarrow> (nat \<Rightarrow> instant) \<Rightarrow> admission_ids \<Rightarrow> issue_admission \<Rightarrow> string \<Rightarrow> (database, prepared_admission) tx" where
  "prepare_admission z config ck ids command keyId db =
     and_then (loadAuthorization z (ck 0) command db) (\<lambda>(s, p, m).
     and_then (deriveSfuPermissions (row_policy p m (has_active_media_membership (ck 1) (m_id m) (p_id p) db))) (\<lambda>permissions.
     let now = ck 2; expiresAtMs = admission_expiry config now s in
     if expiresAtMs - now < 1000 then Inl invalidSession
     else and_then (reserve_attempt
         \<lparr>aa_id = ai_auditId ids, aa_session_id = s_id s, aa_participant_id = p_id p, aa_meeting_id = m_id m,
          aa_command_id = ad_commandId command, aa_token_id = ai_tokenId ids, aa_key_id = keyId,
          aa_permission_profile_version = p_permission_profile_version p, aa_state = AdmRequested,
          aa_result_code = None, aa_requested_at = ck 3, aa_issued_at = None, aa_expires_at = expiresAtMs,
          aa_invalidated_at = None\<rparr> db) (\<lambda>(auditId, db').
       case auditId of
         None \<Rightarrow> Inl (throwReplay command db')
       | Some i \<Rightarrow>
           Inr (\<lparr>pa_auditId = i, pa_tokenId = ai_tokenId ids, pa_keyId = keyId, pa_sessionId = s_id s,
             pa_participantId = p_id p, pa_meetingId = m_id m, pa_displayName = p_display_name p,
             pa_role = p_sfu_role p, pa_permissions = permissions,
             pa_permissionProfileVersion = p_permission_profile_version p,
             pa_issuedAtSeconds = now div 1000, pa_expiresAtSeconds = expiresAtMs div 1000\<rparr>, db'))))"

section \<open>Transaction B\<close>

type_synonym finalization_row = "admission_row \<times> session_row"

definition finalization_rows :: "uuid \<Rightarrow> database \<Rightarrow> finalization_row list" where
  "finalization_rows auditId db =
     [(a, s, p, m). a \<leftarrow> sfu_admissions db, s \<leftarrow> sessions db, p \<leftarrow> participants db, m \<leftarrow> meetings db,
        s_id s = aa_session_id a \<and> p_id p = aa_participant_id a \<and> m_id m = aa_meeting_id a \<and> aa_id a = auditId]"

definition finalizationSchema :: "zod \<Rightarrow> finalization_row \<Rightarrow> bool" where
  "finalizationSchema z row = (case row of (a, srow) \<Rightarrow>
     authorizationSchema z srow \<and> z_uuid z (aa_session_id a) \<and> z_uuid z (aa_participant_id a) \<and>
     z_uuid z (aa_meeting_id a) \<and> z_uuid z (aa_token_id a) \<and>
     1 \<le> length (aa_key_id a) \<and> length (aa_key_id a) \<le> 128 \<and> 0 < aa_permission_profile_version a)"

definition isStillAuthorized :: "instant \<Rightarrow> bool \<Rightarrow> finalization_row \<Rightarrow> prepared_admission \<Rightarrow> bool" where
  "isStillAuthorized now member row g = (case row of (a, s, p, m) \<Rightarrow>
     if aa_state a \<noteq> AdmRequested \<or> aa_session_id a \<noteq> pa_sessionId g \<or>
        aa_participant_id a \<noteq> pa_participantId g \<or> aa_meeting_id a \<noteq> pa_meetingId g \<or>
        aa_token_id a \<noteq> pa_tokenId g \<or> aa_key_id a \<noteq> pa_keyId g \<or>
        aa_permission_profile_version a \<noteq> pa_permissionProfileVersion g \<or>
        p_permission_profile_version p \<noteq> pa_permissionProfileVersion g \<or>
        p_sfu_role p \<noteq> pa_role g \<or> p_display_name p \<noteq> pa_displayName g \<or>
        s_state s \<notin> {SActive, SRotating} \<or> p_state p \<notin> {PPendingKeySync, PActive} \<or>
        m_state m \<notin> {MOpen, MActive} \<or> s_idle_expires_at s \<le> now \<or> s_absolute_expires_at s \<le> now \<or>
        m_expires_at m \<le> now \<or> aa_expires_at a \<le> now
     then False
     else (case deriveSfuPermissions (row_policy p m member) of
       Inl _ \<Rightarrow> False
     | Inr permissions \<Rightarrow> joined_permissions permissions = joined_permissions (pa_permissions g)))"

definition finalized_row :: "instant \<Rightarrow> bool \<Rightarrow> admission_row \<Rightarrow> admission_row" where
  "finalized_row now valid r =
     (if valid then r\<lparr>aa_state := AdmIssued, aa_result_code := Some ''issued'', aa_issued_at := Some now\<rparr>
      else r\<lparr>aa_state := AdmInvalidated, aa_result_code := Some ''state_changed'', aa_invalidated_at := Some now\<rparr>)"

definition activated :: "instant \<Rightarrow> meeting \<Rightarrow> meeting" where
  "activated now m = m\<lparr>m_state := MActive,
     m_activated_at := Some (case m_activated_at m of None \<Rightarrow> now | Some t \<Rightarrow> t), m_version := m_version m + 1\<rparr>"

definition activate_meeting :: "instant \<Rightarrow> uuid \<Rightarrow> (database, unit) tx" where
  "activate_meeting now meetingId db =
     (let P = (\<lambda>m. m_id m = meetingId \<and> m_state m = MOpen); rows = filter P (meetings db)
      in if list_ex (\<lambda>m. m_version (activated now m) > MAX_SIGNED_BIGINT) rows then Inl numeric_out_of_range
         else if list_ex (\<lambda>m. \<not> meeting_checks (activated now m)) rows then Inl check_violation
         else Inr ((), db\<lparr>meetings := update_where P (activated now) (meetings db)\<rparr>))"

definition finalize_admission :: "zod \<Rightarrow> (nat \<Rightarrow> instant) \<Rightarrow> prepared_admission \<Rightarrow> (database, bool) tx" where
  "finalize_admission z ck g db =
     and_then (require (first_row (finalization_rows (pa_auditId g) db))
       (PlainError ''SFU admission audit row is missing'')) (\<lambda>row.
     and_then (ensure (finalizationSchema z row) ZodError) (\<lambda>_.
     case row of (a, s, p, m) \<Rightarrow>
     let valid = isStillAuthorized (ck 0) (has_active_media_membership (ck 1) (m_id m) (p_id p) db) row g;
         P = (\<lambda>r. aa_id r = pa_auditId g \<and> aa_state r = AdmRequested);
         db' = db\<lparr>sfu_admissions := update_where P (finalized_row (ck 2) valid) (sfu_admissions db)\<rparr>
     in and_then (ensure (count_where P (sfu_admissions db) = 1) admissionConflict) (\<lambda>_.
        and_then (if valid \<and> m_state m = MOpen then activate_meeting (ck 3) (pa_meetingId g) db' else Inr ((), db'))
          (\<lambda>(_, db''). Inr (valid, db'')))))"

section \<open>The other transitions\<close>

definition assertResultCode :: "string \<Rightarrow> unit outcome" where
  "assertResultCode value =
     ensure (1 \<le> length value \<and> length value \<le> 64 \<and>
         list_all (\<lambda>c. in_range 97 122 c \<or> is_digit c \<or> c = CHR ''_'') value)
       (PlainError ''Invalid SFU audit result code'')"

definition sign_failed_row :: "string \<Rightarrow> admission_row \<Rightarrow> admission_row" where
  "sign_failed_row resultCode r = r\<lparr>aa_state := AdmSignFailed, aa_result_code := Some resultCode\<rparr>"

definition invalidated_row :: "instant \<Rightarrow> string \<Rightarrow> admission_row \<Rightarrow> admission_row" where
  "invalidated_row now resultCode r =
     r\<lparr>aa_state := AdmInvalidated, aa_result_code := Some resultCode, aa_invalidated_at := Some now\<rparr>"

definition markSigningFailed :: "uuid \<Rightarrow> string \<Rightarrow> (database, unit) tx" where
  "markSigningFailed auditId resultCode db =
     and_then (assertResultCode resultCode) (\<lambda>_.
     Inr ((), db\<lparr>sfu_admissions := update_where (\<lambda>r. aa_id r = auditId \<and> aa_state r = AdmRequested)
       (sign_failed_row resultCode) (sfu_admissions db)\<rparr>))"

definition invalidateSession :: "(nat \<Rightarrow> instant) \<Rightarrow> uuid \<Rightarrow> string \<Rightarrow> (database, nat) tx" where
  "invalidateSession ck sessionId resultCode db =
     and_then (assertResultCode resultCode) (\<lambda>_.
     let P = (\<lambda>r. aa_session_id r = sessionId \<and> aa_state r \<in> {AdmRequested, AdmIssued} \<and> aa_expires_at r > ck 0)
     in Inr (count_where P (sfu_admissions db),
          db\<lparr>sfu_admissions := update_where P (invalidated_row (ck 1) resultCode) (sfu_admissions db)\<rparr>))"

definition DAY_MS :: int where "DAY_MS = 86400000"

text \<open>Rows another transaction has locked are skipped.\<close>

definition expire_attempts :: "(nat \<Rightarrow> instant) \<Rightarrow> (uuid \<Rightarrow> bool) \<Rightarrow> nat \<Rightarrow> admission_row list \<Rightarrow> nat \<times> admission_row list" where
  "expire_attempts ck locked batchSize rows =
     (let picked = map aa_id (select_limit
            (\<lambda>r. aa_state r = AdmRequested \<and> aa_expires_at r \<le> ck 0 \<and> \<not> locked (aa_id r))
            (\<lambda>r. (aa_expires_at r, aa_id r)) batchSize rows);
          P = (\<lambda>r. aa_id r \<in> set picked)
      in (count_where P rows, update_where P (invalidated_row (ck 1) ''expired_before_issue'') rows))"

definition forget_attempts ::
  "instant \<Rightarrow> (uuid \<Rightarrow> bool) \<Rightarrow> nat \<Rightarrow> int \<Rightarrow> admission_row list \<Rightarrow> nat \<times> admission_row list" where
  "forget_attempts now locked batchSize retentionDays rows =
     (let picked = map aa_id (select_limit
            (\<lambda>r. aa_state r \<in> {AdmIssued, AdmSignFailed, AdmInvalidated} \<and>
                 aa_requested_at r < now - retentionDays * DAY_MS \<and> \<not> locked (aa_id r))
            (\<lambda>r. (aa_requested_at r, aa_id r)) batchSize rows);
          P = (\<lambda>r. aa_id r \<in> set picked)
      in (count_where P rows, filter (\<lambda>r. \<not> P r) rows))"

definition maintain :: "(nat \<Rightarrow> instant) \<Rightarrow> (uuid \<Rightarrow> bool) \<Rightarrow> nat \<Rightarrow> int \<Rightarrow> (database, nat) tx" where
  "maintain ck locked batchSize retentionDays db =
     (case expire_attempts ck locked batchSize (sfu_admissions db) of (invalidated, rows) \<Rightarrow>
      case forget_attempts (ck 2) locked batchSize retentionDays rows of (deleted, rows') \<Rightarrow>
        Inr (invalidated + deleted, db\<lparr>sfu_admissions := rows'\<rparr>))"

section \<open>What the statements do to the attempts\<close>

text \<open>The columns no statement rewrites.\<close>

definition attempt_key :: "admission_row \<Rightarrow> uuid \<times> uuid \<times> uuid \<times> instant" where
  "attempt_key r = (aa_id r, aa_session_id r, aa_command_id r, aa_requested_at r)"

text \<open>Attempts only move on: those of the second table stem from the first, and none returns to \<open>requested\<close>.\<close>

definition advances :: "admission_row list \<Rightarrow> admission_row list \<Rightarrow> bool" where
  "advances rows rows' =
     list_all (\<lambda>r'. list_ex (\<lambda>r. attempt_key r' = attempt_key r \<and> (aa_state r' = AdmRequested \<longrightarrow> aa_state r = AdmRequested))
       rows) rows'"

lemma advances_iff:
  "advances rows rows' \<longleftrightarrow> (\<forall>r' \<in> set rows'. \<exists>r \<in> set rows. attempt_key r' = attempt_key r \<and>
     (aa_state r' = AdmRequested \<longrightarrow> aa_state r = AdmRequested))"
  by (simp add: advances_def list_all_iff list_ex_iff)

lemma advances_update:
  assumes "\<And>r. attempt_key (f r) = attempt_key r" and "\<And>r. aa_state (f r) \<noteq> AdmRequested"
  shows "advances rows (update_where P f rows)" and "map attempt_key (update_where P f rows) = map attempt_key rows"
proof -
  show "advances rows (update_where P f rows)"
    unfolding advances_iff Ball_def mem_update_where using assms by metis
  show "map attempt_key (update_where P f rows) = map attempt_key rows"
    by (rule map_update_where) (rule assms(1))
qed

lemma rewritten_rows [simp]:
  "attempt_key (finalized_row now valid r) = attempt_key r" "aa_state (finalized_row now valid r) \<noteq> AdmRequested"
  "attempt_key (sign_failed_row code r) = attempt_key r" "aa_state (sign_failed_row code r) \<noteq> AdmRequested"
  "attempt_key (invalidated_row now code r) = attempt_key r" "aa_state (invalidated_row now code r) \<noteq> AdmRequested"
  by (simp_all add: attempt_key_def finalized_row_def sign_failed_row_def invalidated_row_def)

lemma aa_id_keys: "map aa_id rows = map fst (map attempt_key rows)"
  by (simp add: attempt_key_def comp_def)

lemma activate_meeting_keeps: "activate_meeting now i db = Inr (u, db') \<Longrightarrow> sfu_admissions db' = sfu_admissions db"
  by (auto simp: activate_meeting_def Let_def split: if_splits)

lemma prepare_rows:
  assumes "prepare_admission z config ck ids command keyId db = Inr (g, db')"
  obtains r where "db' = db\<lparr>sfu_admissions := sfu_admissions db @ [r]\<rparr>"
    "attempt_key r = (ai_auditId ids, pr_sessionId (ad_principal command), ad_commandId command, ck 3)"
    "pa_auditId g = ai_auditId ids" "aa_state r = AdmRequested"
    "\<forall>q \<in> set (sfu_admissions db). \<not> admission_same_key r q"
    "\<forall>q \<in> set (sfu_admissions db). \<not> (aa_session_id q = pr_sessionId (ad_principal command) \<and> aa_command_id q = ad_commandId command)"
proof -
  from assms obtain s p m where l: "loadAuthorization z (ck 0) command db = Inr (s, p, m)"
    by (auto simp: prepare_admission_def and_then_Inr_iff)
  then have s: "s_id s = pr_sessionId (ad_principal command)"
    by (auto simp: loadAuthorization_def and_then_Inr_iff SELECT_AUTHORIZATION_def split: if_splits
        dest!: first_row_Some_mem)
  show thesis
    using assms s
    by (auto simp: prepare_admission_def l and_then_Inr_iff Let_def reserve_attempt_def list_ex_iff attempt_key_def
        split: if_splits option.splits intro!: that)
qed

lemma finalize_rows:
  assumes "finalize_admission z ck g db = Inr (valid, db')"
  shows "sfu_admissions db' = update_where (\<lambda>r. aa_id r = pa_auditId g \<and> aa_state r = AdmRequested)
      (finalized_row (ck 2) valid) (sfu_admissions db)"
    and "\<exists>r \<in> set (sfu_admissions db). aa_id r = pa_auditId g \<and> aa_state r = AdmRequested"
proof -
  have count: "\<exists>r \<in> set (sfu_admissions db). aa_id r = i \<and> aa_state r = AdmRequested"
    if "count_where (\<lambda>r. aa_id r = i \<and> aa_state r = AdmRequested) (sfu_admissions db) = Suc 0" for i
    using that by (metis (mono_tags, lifting) count_where_0 nat.distinct(1))
  show "sfu_admissions db' = update_where (\<lambda>r. aa_id r = pa_auditId g \<and> aa_state r = AdmRequested)
      (finalized_row (ck 2) valid) (sfu_admissions db)"
    using assms
    by (auto simp: finalize_admission_def and_then_Inr_iff Let_def dest!: activate_meeting_keeps split: if_splits)
  show "\<exists>r \<in> set (sfu_admissions db). aa_id r = pa_auditId g \<and> aa_state r = AdmRequested"
    using assms by (auto simp: finalize_admission_def and_then_Inr_iff Let_def intro!: count)
qed

lemma maintain_rows:
  assumes "maintain ck locked n days db = Inr (c, db')"
  obtains P where "advances (sfu_admissions db) (sfu_admissions db')"
    "map attempt_key (sfu_admissions db') = filter P (map attempt_key (sfu_admissions db))"
    "distinct (map aa_id (sfu_admissions db)) \<Longrightarrow>
       \<forall>r \<in> set (sfu_admissions db). ck 2 - days * DAY_MS \<le> aa_requested_at r \<longrightarrow> P (attempt_key r)"
proof -
  let ?rows = "sfu_admissions db"
  let ?mid = "snd (expire_attempts ck locked n ?rows)"
  let ?S = "\<lambda>r. aa_state r \<in> {AdmIssued, AdmSignFailed, AdmInvalidated} \<and>
      aa_requested_at r < ck 2 - days * DAY_MS \<and> \<not> locked (aa_id r)"
  let ?picked = "select_limit ?S (\<lambda>r. (aa_requested_at r, aa_id r)) n ?mid"
  let ?P = "\<lambda>k. fst k \<notin> aa_id ` set ?picked"
  have mid: "advances ?rows ?mid" "map attempt_key ?mid = map attempt_key ?rows"
    by (simp_all add: expire_attempts_def Let_def advances_update)
  have rows': "sfu_admissions db' = filter (\<lambda>r. ?P (attempt_key r)) ?mid"
    using assms by (auto simp: maintain_def forget_attempts_def Let_def attempt_key_def split: prod.splits)
  show thesis
  proof (rule that)
    show "advances ?rows (sfu_admissions db')" using mid(1) by (auto simp: rows' advances_iff)
    show "map attempt_key (sfu_admissions db') = filter ?P (map attempt_key ?rows)"
      by (simp add: rows' mid(2) [symmetric] filter_map comp_def)
    assume d: "distinct (map aa_id ?rows)"
    then have d': "distinct (map aa_id ?mid)" by (simp only: aa_id_keys mid(2))
    show "\<forall>r \<in> set ?rows. ck 2 - days * DAY_MS \<le> aa_requested_at r \<longrightarrow> ?P (attempt_key r)"
    proof (intro ballI impI)
      fix r assume r: "r \<in> set ?rows" "ck 2 - days * DAY_MS \<le> aa_requested_at r"
      then have "attempt_key r \<in> set (map attempt_key ?mid)" by (simp add: mid(2))
      then obtain q where q: "q \<in> set ?mid" "attempt_key q = attempt_key r" by auto
      show "?P (attempt_key r)"
      proof
        assume "fst (attempt_key r) \<in> aa_id ` set ?picked"
        then have "aa_id q \<in> aa_id ` set ?picked" using q(2) by (simp add: attempt_key_def)
        from picked_rows_satisfy [OF d' q(1) this] q(2) r(2) show False by (simp add: attempt_key_def)
      qed
    qed
  qed
qed

section \<open>Histories\<close>

text \<open>The transactions of any number of processes in their order of commit. The second component records the
  attempts for which \<open>finalize\<close> allowed a token. Other modules write other tables.\<close>

datatype admission_event =
    EvPrepare "nat \<Rightarrow> instant" admission_ids issue_admission string
  | EvFinalize "nat \<Rightarrow> instant" prepared_admission
  | EvSignFailed uuid string
  | EvInvalidate "nat \<Rightarrow> instant" uuid string
  | EvMaintain "nat \<Rightarrow> instant" "uuid \<Rightarrow> bool" nat int
  | EvOther "database \<Rightarrow> database"

fun admission_step :: "zod \<Rightarrow> sfu_config \<Rightarrow> database \<times> uuid list \<Rightarrow> admission_event \<Rightarrow> database \<times> uuid list" where
  "admission_step z c (db, tokens) (EvPrepare ck ids command keyId) =
     (snd (atomically (prepare_admission z c ck ids command keyId) db), tokens)"
| "admission_step z c (db, tokens) (EvFinalize ck g) =
     (case atomically (finalize_admission z ck g) db of
       (r, db') \<Rightarrow> (db', if r = Inr True then tokens @ [pa_auditId g] else tokens))"
| "admission_step z c (db, tokens) (EvSignFailed i code) = (snd (atomically (markSigningFailed i code) db), tokens)"
| "admission_step z c (db, tokens) (EvInvalidate ck i code) = (snd (atomically (invalidateSession ck i code) db), tokens)"
| "admission_step z c (db, tokens) (EvMaintain ck locked n days) = (snd (atomically (maintain ck locked n days) db), tokens)"
| "admission_step z c (db, tokens) (EvOther f) = ((f db)\<lparr>sfu_admissions := sfu_admissions db\<rparr>, tokens)"

text \<open>The database never generates an identifier twice, and maintenance spares an attempt for the retention
  period.\<close>

fun admission_enabled :: "instant \<Rightarrow> database \<times> uuid list \<Rightarrow> admission_event \<Rightarrow> bool" where
  "admission_enabled t (db, tokens) (EvPrepare ck ids command keyId) = (ai_auditId ids \<notin> set tokens)"
| "admission_enabled t st (EvMaintain ck locked n days) = (ck 2 - days * DAY_MS \<le> t)"
| "admission_enabled t st _ = True"

definition admission_inv :: "uuid \<times> uuid \<times> uuid \<times> instant \<Rightarrow> database \<times> uuid list \<Rightarrow> bool" where
  "admission_inv k st =
     (distinct (snd st) \<and> distinct (map aa_id (sfu_admissions (fst st))) \<and>
      list_all (\<lambda>r. aa_id r \<in> set (snd st) \<longrightarrow> aa_state r \<noteq> AdmRequested) (sfu_admissions (fst st)) \<and>
      k \<in> attempt_key ` set (sfu_admissions (fst st)))"

lemma advances_inv:
  assumes "admission_inv k (db, tokens)" and "advances (sfu_admissions db) (sfu_admissions db')"
    and "distinct (map aa_id (sfu_admissions db'))" and "k \<in> attempt_key ` set (sfu_admissions db')"
  shows "admission_inv k (db', tokens)"
proof -
  have "aa_state r' \<noteq> AdmRequested" if r': "r' \<in> set (sfu_admissions db')" "aa_id r' \<in> set tokens" for r'
  proof -
    from assms(2) r'(1) obtain r where r: "r \<in> set (sfu_admissions db)" "attempt_key r' = attempt_key r"
      "aa_state r' = AdmRequested \<longrightarrow> aa_state r = AdmRequested" unfolding advances_iff by blast
    with assms(1) r'(2) show ?thesis by (auto simp: admission_inv_def attempt_key_def list_all_iff)
  qed
  with assms show ?thesis by (auto simp: admission_inv_def list_all_iff)
qed

lemma same_keys_inv:
  assumes "admission_inv k (db, tokens)" and "advances (sfu_admissions db) (sfu_admissions db')"
    and "map attempt_key (sfu_admissions db') = map attempt_key (sfu_admissions db)"
  shows "admission_inv k (db', tokens)"
proof (rule advances_inv [OF assms(1,2)])
  show "distinct (map aa_id (sfu_admissions db'))"
    using assms(1) unfolding aa_id_keys assms(3) by (simp add: admission_inv_def aa_id_keys del: map_map)
  show "k \<in> attempt_key ` set (sfu_admissions db')"
    using assms(1) arg_cong [OF assms(3), of set] by (simp add: admission_inv_def)
qed

lemma advances_refl [simp]: "advances rows rows"
  by (auto simp: advances_iff)

lemma prepare_inv:
  assumes "admission_inv k (db, tokens)" and "ai_auditId ids \<notin> set tokens"
    and "prepare_admission z c ck ids command keyId db = Inr (g, db')"
  shows "admission_inv k (db', tokens)"
proof -
  from assms(3) obtain r where r: "db' = db\<lparr>sfu_admissions := sfu_admissions db @ [r]\<rparr>"
    "attempt_key r = (ai_auditId ids, pr_sessionId (ad_principal command), ad_commandId command, ck 3)"
    "\<forall>q \<in> set (sfu_admissions db). \<not> admission_same_key r q" by (rule prepare_rows)
  from r(2) have "aa_id r = ai_auditId ids" by (simp add: attempt_key_def)
  with assms(1,2) r(1,3) show ?thesis
    by (force simp: admission_inv_def admission_same_key_def)
qed

lemma maintain_inv:
  assumes "admission_inv k (db, tokens)" and "k = (i, s, cmd, t)" and "ck 2 - days * DAY_MS \<le> t"
    and "maintain ck locked n days db = Inr (x, db')"
  shows "admission_inv k (db', tokens)"
proof -
  from assms(1) have d: "distinct (map aa_id (sfu_admissions db))" by (simp add: admission_inv_def)
  obtain P where P: "advances (sfu_admissions db) (sfu_admissions db')"
    "map attempt_key (sfu_admissions db') = filter P (map attempt_key (sfu_admissions db))"
    "\<forall>r \<in> set (sfu_admissions db). ck 2 - days * DAY_MS \<le> aa_requested_at r \<longrightarrow> P (attempt_key r)"
    using maintain_rows [OF assms(4)] d by metis
  show ?thesis
  proof (rule advances_inv [OF assms(1) P(1)])
    show "distinct (map aa_id (sfu_admissions db'))"
      using d unfolding aa_id_keys P(2) by (rule distinct_map_filterI)
    from assms(1) obtain r where r: "r \<in> set (sfu_admissions db)" "attempt_key r = k" by (auto simp: admission_inv_def)
    with P(3) assms(2,3) have "P k" by (auto simp: attempt_key_def)
    with r have "k \<in> set (map attempt_key (sfu_admissions db'))" unfolding P(2) by auto
    then show "k \<in> attempt_key ` set (sfu_admissions db')" by simp
  qed
qed

lemma finalize_inv:
  assumes "admission_inv k (db, tokens)" and "finalize_admission z ck g db = Inr (valid, db')"
  shows "admission_inv k (db', if valid then tokens @ [pa_auditId g] else tokens)"
proof -
  note rows = finalize_rows [OF assms(2)]
  have inv: "admission_inv k (db', tokens)"
    by (rule same_keys_inv [OF assms(1)]) (simp_all add: rows(1) advances_update)
  have "pa_auditId g \<notin> set tokens" using rows(2) assms(1) by (auto simp: admission_inv_def list_all_iff)
  moreover have "\<forall>r \<in> set (sfu_admissions db'). aa_id r = pa_auditId g \<longrightarrow> aa_state r \<noteq> AdmRequested"
    by (auto simp: rows(1) mem_update_where)
  ultimately show ?thesis using inv by (auto simp: admission_inv_def list_all_iff)
qed

lemma admission_step_keeps:
  assumes "admission_inv (i, s, cmd, t) st" and "admission_enabled t st e"
  shows "admission_inv (i, s, cmd, t) (admission_step z c st e)"
proof -
  obtain db tokens where st: "st = (db, tokens)" by (cases st)
  note inv = assms(1) [unfolded st]
  have kept: "admission_inv (i, s, cmd, t) (snd (atomically work db), tokens)"
    if "\<And>x db'. work db = Inr (x, db') \<Longrightarrow> admission_inv (i, s, cmd, t) (db', tokens)" for work :: "(database, 'x) tx"
    using that inv by (cases "work db") (auto simp: atomically_def)
  show ?thesis
  proof (cases e)
    case (EvFinalize ck g)
    then show ?thesis
      using finalize_inv [OF inv, of z ck g] inv
      by (cases "finalize_admission z ck g db") (auto simp: st atomically_def)
  next
    case (EvSignFailed j code)
    then show ?thesis
      by (auto simp: st markSigningFailed_def and_then_Inr_iff advances_update
          intro!: kept same_keys_inv [OF inv])
  next
    case (EvInvalidate ck j code)
    then show ?thesis
      by (auto simp: st invalidateSession_def and_then_Inr_iff advances_update Let_def
          intro!: kept same_keys_inv [OF inv])
  next
    case (EvOther f)
    then show ?thesis using inv by (simp add: st admission_inv_def)
  qed (use assms(2) in \<open>auto simp: st intro!: kept intro: prepare_inv [OF inv] maintain_inv [OF inv refl]\<close>)
qed

interpretation admissions: stepwise_invariant "admission_step z c" "admission_enabled t" "admission_inv (i, s, cmd, t)"
  by unfold_locales (rule admission_step_keeps)

text \<open>C22. A command is admitted at most once. After an attempt was reserved for a session and a command, over
  every interleaving of the transactions of all processes and for as long as maintenance retains the
  attempt, no second attempt can be reserved for them; and no attempt is ever finalized as issued twice,
  whatever is retried.\<close>

theorem sfu_command_admitted_once:
  assumes "prepare_admission z c ck ids command keyId db = Inr (g, db1)" and "distinct (map aa_id (sfu_admissions db))"
    and "enabled_history (admission_step z c) (admission_enabled (ck 3)) (db1, []) es"
    and "foldl (admission_step z c) (db1, []) es = (db2, tokens)"
    and "ad_commandId command' = ad_commandId command"
    and "pr_sessionId (ad_principal command') = pr_sessionId (ad_principal command)"
  shows "distinct tokens \<and> isl (prepare_admission z c ck' ids' command' keyId' db2)"
proof -
  let ?k = "(ai_auditId ids, pr_sessionId (ad_principal command), ad_commandId command, ck 3)"
  from assms(1) obtain r where r: "db1 = db\<lparr>sfu_admissions := sfu_admissions db @ [r]\<rparr>" "attempt_key r = ?k"
    "\<forall>q \<in> set (sfu_admissions db). \<not> admission_same_key r q" by (rule prepare_rows)
  from r(3) have "aa_id r \<notin> aa_id ` set (sfu_admissions db)" by (auto simp: admission_same_key_def)
  then have "admission_inv ?k (db1, [])" using assms(2) by (simp add: r(1) r(2) [symmetric] admission_inv_def list_all_iff)
  from admissions.history_keeps [OF this assms(3)] assms(4) have inv: "admission_inv ?k (db2, tokens)" by simp
  then obtain q where q: "q \<in> set (sfu_admissions db2)" "aa_session_id q = pr_sessionId (ad_principal command')"
    "aa_command_id q = ad_commandId command'" using assms(5,6) by (auto simp: admission_inv_def attempt_key_def)
  have "isl (prepare_admission z c ck' ids' command' keyId' db2)"
  proof (cases "prepare_admission z c ck' ids' command' keyId' db2")
    case (Inr x)
    then obtain g' db3 where "prepare_admission z c ck' ids' command' keyId' db2 = Inr (g', db3)" by (cases x) auto
    then show ?thesis by (rule prepare_rows) (use q in blast)
  qed simp
  with inv show ?thesis by (simp add: admission_inv_def)
qed

definition sample_media_db :: database where
  "sample_media_db = sample_proofs_db\<lparr>e2ee_groups := [\<lparr>g_id = ''0190a1b2-c3d4-7abc-8def-00000000000f'',
     g_meeting_id = ''0190a1b2-c3d4-7abc-8def-00000000000a'', g_purpose = PurposeMedia, g_epoch = 1,
     g_state = GroupActive\<rparr>]\<rparr>"

definition sample_admission :: issue_admission where
  "sample_admission = \<lparr>ad_commandId = ''0190a1b2-c3d4-7abc-8def-0000000000d1'', ad_principal = sample_principal\<rparr>"

definition sample_ids :: admission_ids where
  "sample_ids = \<lparr>ai_auditId = ''0190a1b2-c3d4-7abc-8def-0000000000d2'',
     ai_tokenId = ''0190a1b2-c3d4-7abc-8def-0000000000d3''\<rparr>"

definition sample_admission_config :: sfu_config where
  "sample_admission_config = \<lparr>sc_enabled = True, sc_issuer = ''https://api.example'', sc_audience = ''sfu'',
     sc_publicUrl = ''wss://sfu.example'', sc_tokenTtlSeconds = 60, sc_clockSkewSeconds = 5, sc_issueRateLimit = 20,
     sc_rateLimitWindowSeconds = 60, sc_signerConcurrency = 4, sc_signerQueueCapacity = 16, sc_signerTimeoutMs = 2000,
     sc_auditRetentionDays = 30, sc_auditCleanupBatchSize = 500, sc_auditCleanupIntervalMs = 60000\<rparr>"

definition sample_clock :: "instant \<Rightarrow> nat \<Rightarrow> instant" where "sample_clock t n = t + int n"

definition sample_prepared :: "(prepared_admission \<times> database) outcome" where
  "sample_prepared = prepare_admission strict_zod sample_admission_config (sample_clock 1000) sample_ids sample_admission
     ''key-1'' sample_media_db"

lemma sample_prepared_evaluated:
  "prepare_admission strict_zod sample_admission_config (sample_clock 1000) sample_ids sample_admission ''key-1'' sample_media_db =
     Inr (fst (projr sample_prepared), snd (projr sample_prepared))"
proof -
  have "\<not> isl sample_prepared" by code_simp
  then show ?thesis unfolding sample_prepared_def by (rule Inr_pair_of_eval)
qed

theorem sfu_command_admitted_once_witness:
  "isl (prepare_admission strict_zod sample_admission_config (sample_clock 9000) sample_ids sample_admission ''key-1''
     (fst (foldl (admission_step strict_zod sample_admission_config) (snd (projr sample_prepared), [])
       [EvFinalize (sample_clock 2000) (fst (projr sample_prepared))])))"
proof -
  have "distinct (map aa_id (sfu_admissions sample_media_db))" by code_simp
  from sfu_command_admitted_once [OF sample_prepared_evaluated this _ prod.collapse [symmetric] refl refl,
      of "[EvFinalize (sample_clock 2000) (fst (projr sample_prepared))]"]
  show ?thesis by simp
qed

end
