(* ===== verification/JsonText.thy ===== *)
theory JsonText
  imports MeetingService
begin

text \<open>
  The text \<open>JSON.stringify\<close> produces for flat objects of strings, integers and lists of strings, over code
  points, and its UTF-8 bytes. Both are injective: bytes that are signed determine what was serialized.
\<close>

section \<open>UTF-8\<close>

definition scalar :: "nat \<Rightarrow> bool" where
  "scalar c = (c < 0xd800 \<or> 0xe000 \<le> c \<and> c < 0x110000)"

lemma unat_byte [simp]: "n < 256 \<Longrightarrow> unat (of_nat n :: byte) = n"
  by (simp add: unat_of_nat)

text \<open>Reading the first code point back.\<close>

definition utf8_first :: "nat list \<Rightarrow> nat" where
  "utf8_first bs =
     (if hd bs < 0x80 then hd bs
      else if hd bs < 0xe0 then (hd bs - 0xc0) * 64 + (bs ! 1 - 0x80)
      else if hd bs < 0xf0 then (hd bs - 0xe0) * 4096 + (bs ! 1 - 0x80) * 64 + (bs ! 2 - 0x80)
      else (hd bs - 0xf0) * 262144 + (bs ! 1 - 0x80) * 4096 + (bs ! 2 - 0x80) * 64 + (bs ! 3 - 0x80))"

lemma two_digits: "n div (b * b) * (b * b) + n div b mod b * b + n mod b = n" for n b :: nat
proof -
  have "n div b div b * b + n div b mod b = n div b" "n div b * b + n mod b = n" by simp_all
  then show ?thesis by (metis add_mult_distrib div_mult2_eq mult.assoc)
qed

lemma three_digits:
  "n div (b * b * b) * (b * b * b) + n div (b * b) mod b * (b * b) + n div b mod b * b + n mod b = n" for n b :: nat
proof -
  have "n div (b * b) = n div (b * b * b) * b + n div (b * b) mod b" by (simp add: div_mult2_eq)
  then have "n div (b * b) * (b * b) = n div (b * b * b) * (b * b * b) + n div (b * b) mod b * (b * b)"
    by (metis (no_types) add_mult_distrib mult.assoc mult.commute)
  with two_digits [of n b] show ?thesis by simp
qed

lemma utf8_first_point:
  assumes "scalar c"
  shows "utf8_first (map unat (utf8_point c @ rest)) = c"
proof -
  consider "c < 0x80" | "0x80 \<le> c" "c < 0x800" | "0x800 \<le> c" "c < 0x10000" "\<not> (0xd800 \<le> c \<and> c < 0xe000)"
    | "0x10000 \<le> c" "c < 0x110000"
    using assms by (cases "c < 0x80"; cases "c < 0x800"; cases "c < 0x10000") (auto simp: scalar_def)
  then show ?thesis
  proof cases
    case 2
    then have "c div 64 < 32" by simp
    with 2 show ?thesis by (simp add: utf8_point_def utf8_first_def del: of_nat_add)
  next
    case 3
    then have "c div 4096 < 16" by simp
    moreover have "c div 4096 * 4096 + c div 64 mod 64 * 64 + c mod 64 = c" using two_digits [of c 64] by simp
    ultimately show ?thesis using 3 by (simp add: utf8_point_def utf8_first_def del: of_nat_add)
  next
    case 4
    then have "c div 262144 < 5" by simp
    moreover have "c div 262144 * 262144 + c div 4096 mod 64 * 4096 + c div 64 mod 64 * 64 + c mod 64 = c"
      using three_digits [of c 64] by simp
    ultimately show ?thesis using 4 by (simp add: utf8_point_def utf8_first_def del: of_nat_add)
  qed (simp add: utf8_point_def utf8_first_def)
qed

lemma utf8_point_prefix:
  assumes "scalar c" "scalar d" "utf8_point c @ s = utf8_point d @ t"
  shows "c = d \<and> s = t"
proof -
  from assms have "c = d" by (metis utf8_first_point)
  with assms(3) show ?thesis by simp
qed

lemma utf8_points_inject:
  "list_all scalar a \<Longrightarrow> list_all scalar b \<Longrightarrow> utf8_points a = utf8_points b \<Longrightarrow> a = b"
proof (induction a arbitrary: b)
  case Nil
  then show ?case by (cases b) (auto simp: utf8_points_def utf8_point_def split: if_splits)
next
  case (Cons c a)
  show ?case
  proof (cases b)
    case Nil
    with Cons.prems show ?thesis by (auto simp: utf8_points_def utf8_point_def split: if_splits)
  next
    case (Cons d b')
    with Cons.prems have "utf8_point c @ utf8_points a = utf8_point d @ utf8_points b'"
      by (simp add: utf8_points_def)
    with utf8_point_prefix Cons.prems Cons have "c = d" "utf8_points a = utf8_points b'" by auto
    with Cons.IH Cons.prems Cons show ?thesis by simp
  qed
qed

section \<open>Strings\<close>

definition hex4 :: "nat \<Rightarrow> code_points" where
  "hex4 c = map (\<lambda>d. of_char (hex_digit d)) [c div 4096 mod 16, c div 256 mod 16, c div 16 mod 16, c mod 16]"

definition short_escape :: "nat \<Rightarrow> nat option" where
  "short_escape c =
     map_of [(34, 34), (92, 92), (8, 98), (9, 116), (10, 110), (12, 102), (13, 114)] c"

definition json_point :: "nat \<Rightarrow> code_points" where
  "json_point c =
     (case short_escape c of
       Some e \<Rightarrow> [92, e]
     | None \<Rightarrow> if c < 32 \<or> 0xd800 \<le> c \<and> c < 0xe000 then [92, 117] @ hex4 c else [c])"

definition json_text :: "code_points \<Rightarrow> code_points" where
  "json_text s = [34] @ concat (map json_point s) @ [34]"

lemma hex_digit_inject: "a < 16 \<Longrightarrow> b < 16 \<Longrightarrow> (of_char (hex_digit a) :: nat) = of_char (hex_digit b) \<Longrightarrow> a = b"
  by (auto simp: hex_digit_def split: if_splits)

lemma hex4_inject: "hex4 c = hex4 d \<Longrightarrow> c < 65536 \<Longrightarrow> d < 65536 \<Longrightarrow> c = d"
proof -
  assume eq: "hex4 c = hex4 d" and lt: "c < 65536" "d < 65536"
  have "c div 4096 mod 16 = d div 4096 mod 16" "c div 256 mod 16 = d div 256 mod 16"
    "c div 16 mod 16 = d div 16 mod 16" "c mod 16 = d mod 16"
    using eq by (auto simp: hex4_def intro: hex_digit_inject)
  moreover have "n = n div 4096 mod 16 * 4096 + n div 256 mod 16 * 256 + n div 16 mod 16 * 16 + n mod 16"
    if "n < 65536" for n :: nat using three_digits [of n 16] that by simp
  ultimately show ?thesis using lt by metis
qed

lemma short_escape_cases:
  assumes "short_escape c = Some e"
  shows "(c, e) \<in> {(34, 34), (92, 92), (8, 98), (9, 116), (10, 110), (12, 102), (13, 114)}"
  using assms by (auto simp: short_escape_def split: if_splits)

lemma json_point_prefix:
  assumes "json_point c @ s = json_point d @ t"
  shows "c = d \<and> s = t"
proof -
  have plain: "c \<noteq> 92" if "short_escape c = None" for c using that by (auto simp: short_escape_def split: if_splits)
  show ?thesis
  proof (cases "short_escape c")
    case (Some e)
    show ?thesis
    proof (cases "short_escape d")
      case Some2: (Some e')
      from assms have "e = e'" "s = t" by (simp_all add: json_point_def Some Some2)
      with short_escape_cases [OF Some] short_escape_cases [OF Some2] show ?thesis by auto
    qed (use assms Some short_escape_cases [OF Some] plain [of d] in \<open>auto simp: json_point_def split: if_splits\<close>)
  next
    case None
    show ?thesis
    proof (cases "short_escape d")
      case (Some e')
      with assms None short_escape_cases [OF Some] plain [OF None] show ?thesis by (auto simp: json_point_def split: if_splits)
    next
      case None2: None
      have "hex4 c = hex4 d \<and> s = t" if "hex4 c @ s = hex4 d @ t" using that by (simp add: hex4_def)
      with assms None None2 plain [OF None] plain [OF None2] hex4_inject [of c d] show ?thesis
        by (auto simp: json_point_def split: if_splits)
    qed
  qed
qed

lemma json_point_head: "\<exists>x xs. json_point c = x # xs \<and> x \<noteq> 34"
  by (auto simp: json_point_def short_escape_def split: option.splits if_splits)

lemma json_body_prefix:
  "concat (map json_point a) @ 34 # s = concat (map json_point b) @ 34 # t \<Longrightarrow> a = b \<and> s = t"
proof (induction a arbitrary: b)
  case Nil
  then show ?case using json_point_head [of "hd b"] by (cases b) auto
next
  case (Cons c a)
  show ?case
  proof (cases b)
    case Nil
    with Cons.prems json_point_head [of c] show ?thesis by auto
  next
    case (Cons d b')
    with Cons.prems have "json_point c @ (concat (map json_point a) @ 34 # s) =
        json_point d @ (concat (map json_point b') @ 34 # t)" by simp
    from json_point_prefix [OF this] Cons.IH [of b'] Cons show ?thesis by simp
  qed
qed

lemma json_text_prefix: "json_text a @ s = json_text b @ t \<Longrightarrow> a = b \<and> s = t"
  using json_body_prefix [of a s b t] by (simp add: json_text_def)

lemma json_text_scalar: "list_all (\<lambda>c. c < 0x110000) s \<Longrightarrow> list_all scalar (json_text s)"
proof -
  have d: "of_char (hex_digit n) < (0xd800 :: nat)" for n
    by (rule order.strict_trans [of _ 256]) simp_all
  have "list_all scalar (json_point c)" if "c < 0x110000" for c
    using that d by (auto simp: json_point_def hex4_def scalar_def split: option.splits dest!: short_escape_cases)
  then show "list_all (\<lambda>c. c < 0x110000) s \<Longrightarrow> list_all scalar (json_text s)"
    unfolding json_text_def by (induction s) (auto simp: scalar_def)
qed

section \<open>Values and objects\<close>

datatype json_value = VStr code_points | VInt int | VStrs "code_points list"

definition points :: "string \<Rightarrow> code_points" where
  "points s = map of_char s"

fun comma_joined :: "code_points list \<Rightarrow> code_points" where
  "comma_joined [] = []"
| "comma_joined [t] = t"
| "comma_joined (t # u # ts) = t @ [44] @ comma_joined (u # ts)"

fun value_json :: "json_value \<Rightarrow> code_points" where
  "value_json (VStr s) = json_text s"
| "value_json (VInt i) = points (dec_int i)"
| "value_json (VStrs ss) = [91] @ comma_joined (map json_text ss) @ [93]"

definition object_json :: "(string \<times> json_value) list \<Rightarrow> code_points" where
  "object_json fs = [123] @ comma_joined (map (\<lambda>(k, v). json_text (points k) @ [58] @ value_json v) fs) @ [125]"

lemma comma_joined_Cons: "comma_joined (t # ts) = t @ (if ts = [] then [] else 44 # comma_joined ts)"
  by (cases ts) auto

lemma points_inject [simp]: "points a = points b \<longleftrightarrow> a = b"
  by (simp add: points_def inj_map_eq_map inj_of_char)

lemma first_of: "a @ x # s = b @ y # t \<Longrightarrow> x \<notin> set b \<Longrightarrow> y \<notin> set a \<Longrightarrow> x \<notin> set a \<Longrightarrow> y \<notin> set b \<Longrightarrow> a = b \<and> x = y \<and> s = t"
proof (induction a arbitrary: b)
  case Nil
  then show ?case by (cases b) auto
next
  case (Cons z a)
  then show ?case by (cases b) auto
qed

lemma dec_int_points: "c \<in> set (points (dec_int i)) \<Longrightarrow> c = 45 \<or> 48 \<le> c \<and> c \<le> 57"
  using dec_digits unfolding points_def dec_int_def
  by (fastforce simp: is_digit_def in_range_def list_all_iff split: if_splits)

lemma strings_prefix:
  "comma_joined (map json_text a) @ 93 # s = comma_joined (map json_text b) @ 93 # t \<Longrightarrow> a = b \<and> s = t"
proof (induction a arbitrary: b)
  case Nil
  then show ?case by (cases b) (auto simp: comma_joined_Cons json_text_def)
next
  case (Cons x a)
  show ?case
  proof (cases b)
    case Nil
    with Cons.prems show ?thesis by (simp add: comma_joined_Cons json_text_def)
  next
    case (Cons y b')
    let ?rest = "\<lambda>l u. if l = [] then 93 # u else 44 # comma_joined (map json_text l) @ 93 # u"
    from Cons.prems Cons have "json_text x @ ?rest a s = json_text y @ ?rest b' t"
      by (simp add: comma_joined_Cons split: if_splits)
    from json_text_prefix [OF this] have "x = y" "?rest a s = ?rest b' t" by auto
    then show ?thesis using Cons.IH [of b'] Cons by (auto split: if_splits)
  qed
qed

lemma value_json_prefix:
  assumes "value_json v @ x # s = value_json w @ y # t" and "x \<in> {44, 125}" and "y \<in> {44, 125}"
  shows "v = w \<and> x = y \<and> s = t"
proof -
  have head: "\<exists>c cs. value_json v = c # cs \<and> (case v of VStr _ \<Rightarrow> c = 34 | VInt _ \<Rightarrow> c = 45 \<or> 48 \<le> c \<and> c \<le> 57 | VStrs _ \<Rightarrow> c = 91)" for v
  proof (cases v)
    case (VInt i)
    have "points (dec_int i) \<noteq> []" by (simp add: points_def dec_int_def dec_nonempty)
    then obtain c cs where "points (dec_int i) = c # cs" by (cases "points (dec_int i)") auto
    with dec_int_points [of c i] VInt show ?thesis by auto
  qed (auto simp: json_text_def)
  show ?thesis
  proof (cases v; cases w)
    fix i j assume v: "v = VInt i" "w = VInt j"
    have no: "44 \<notin> set (points (dec_int k))" "125 \<notin> set (points (dec_int k))" for k using dec_int_points [of _ k] by fastforce+
    with assms v first_of [of "points (dec_int i)" x s "points (dec_int j)" y t] show ?thesis by auto
  next
    fix a b assume "v = VStr a" "w = VStr b"
    with assms json_text_prefix [of a "x # s" b "y # t"] show ?thesis by auto
  next
    fix a b assume "v = VStrs a" "w = VStrs b"
    with assms strings_prefix [of a "x # s" b "y # t"] show ?thesis by auto
  qed (use assms(1) head [of v] head [of w] in auto)
qed

text \<open>Objects with the same keys and the same text have the same values.\<close>

lemma object_json_inject:
  assumes "object_json fs = object_json gs" and "map fst fs = map fst gs"
  shows "fs = gs"
proof -
  let ?field = "\<lambda>(k, v). json_text (points k) @ [58] @ value_json v"
  have "fs = gs" if "comma_joined (map ?field fs) @ [125] = comma_joined (map ?field gs) @ [125]"
    "map fst fs = map fst gs" for fs gs :: "(string \<times> json_value) list"
    using that
  proof (induction fs arbitrary: gs)
    case (Cons f fs)
    obtain k v where f: "f = (k, v)" by (cases f)
    from Cons.prems(2) f obtain w gs' where gs: "gs = (k, w) # gs'" and keys: "map fst fs = map fst gs'" by auto
    let ?rest = "\<lambda>l. if l = [] then [125] else 44 # comma_joined (map ?field l) @ [125]"
    from Cons.prems(1) have eq: "value_json v @ ?rest fs = value_json w @ ?rest gs'"
      by (simp add: f gs comma_joined_Cons split: if_splits)
    from keys have "fs = [] \<longleftrightarrow> gs' = []" by auto
    then show ?case
    proof (cases "fs = []")
      case True
      with eq \<open>fs = [] \<longleftrightarrow> gs' = []\<close> value_json_prefix [of v 125 "[]" w 125 "[]"] show ?thesis by (simp add: f gs)
    next
      case False
      with eq \<open>fs = [] \<longleftrightarrow> gs' = []\<close>
        value_json_prefix [of v 44 "comma_joined (map ?field fs) @ [125]" w 44 "comma_joined (map ?field gs') @ [125]"]
      have "v = w" "comma_joined (map ?field fs) @ [125] = comma_joined (map ?field gs') @ [125]" by auto
      with Cons.IH [OF _ keys] show ?thesis by (simp add: f gs)
    qed
  qed simp
  from this [of fs gs] assms show ?thesis by (simp add: object_json_def)
qed

text \<open>Every code point of the text of an object is a scalar value.\<close>

fun value_ok :: "json_value \<Rightarrow> bool" where
  "value_ok (VStr s) = list_all (\<lambda>c. c < 0x110000) s"
| "value_ok (VInt i) = True"
| "value_ok (VStrs ss) = list_all (list_all (\<lambda>c. c < 0x110000)) ss"

lemma comma_joined_scalar: "list_all (list_all scalar) ts \<Longrightarrow> list_all scalar (comma_joined ts)"
  by (induction ts) (auto simp: comma_joined_Cons scalar_def)

lemma points_small: "list_all (\<lambda>c. c < 0x110000) (points s)"
proof -
  have "of_char c < (0x110000 :: nat)" for c :: char by (rule order.strict_trans [of _ 256]) simp_all
  then show ?thesis by (simp add: points_def list_all_iff)
qed

lemma value_json_scalar: "value_ok v \<Longrightarrow> list_all scalar (value_json v)"
proof (cases v)
  case (VInt i)
  then show ?thesis using dec_int_points by (fastforce simp: list_all_iff scalar_def)
next
  case (VStrs ss)
  assume "value_ok v"
  with VStrs have "list_all (list_all scalar) (map json_text ss)"
    using json_text_scalar by (auto simp: list.pred_map comp_def intro: list.pred_mono_strong)
  from comma_joined_scalar [OF this] VStrs show ?thesis by (simp add: scalar_def)
qed (simp add: json_text_scalar)

lemma object_json_scalar: "list_all (\<lambda>(k, v). value_ok v) fs \<Longrightarrow> list_all scalar (object_json fs)"
proof -
  assume "list_all (\<lambda>(k, v). value_ok v) fs"
  then have "list_all (list_all scalar) (map (\<lambda>(k, v). json_text (points k) @ [58] @ value_json v) fs)"
    by (induction fs) (auto simp: json_text_scalar points_small value_json_scalar, simp_all add: scalar_def)
  from comma_joined_scalar [OF this] show ?thesis by (simp add: object_json_def scalar_def)
qed

end
