(* ===== verification/SignerExecutor.thy ===== *)
theory SignerExecutor
  imports Config
begin

text \<open>
  The bounded executor in front of the signing key (\<open>bounded-signer-executor.ts\<close>). An operation is named
  by the number of its submission. What the executor does is visible as effects: an operation is started,
  or the promise of its caller is settled. A step handles one event of the process: a submission, the
  settlement of the provider's promise, the timer of a running operation, or shutdown. Whichever of the
  settlement and the timer comes first decides the race; the other then finds the operation gone.
\<close>

section \<open>The executor\<close>

record executor =
  ex_queue :: "nat list"
  ex_active :: "nat list"
  ex_closed :: bool

datatype signer_effect = Started nat | Settled nat "bytes outcome"

definition new_executor :: executor where
  "new_executor = \<lparr>ex_queue = [], ex_active = [], ex_closed = False\<rparr>"

definition signerUnavailable :: "string \<Rightarrow> failure" where
  "signerUnavailable message = app_failure ''SFU_ADMISSION_UNAVAILABLE'' Dependency message"

definition executor_start :: "nat \<Rightarrow> executor \<Rightarrow> executor \<times> signer_effect list" where
  "executor_start queued s = (s\<lparr>ex_active := ex_active s @ [queued]\<rparr>, [Started queued])"

definition executor_execute :: "sfu_config \<Rightarrow> nat \<Rightarrow> executor \<Rightarrow> executor \<times> signer_effect list" where
  "executor_execute c operation s =
     (if ex_closed s \<or> int (length (ex_queue s)) \<ge> sc_signerQueueCapacity c
      then (s, [Settled operation (Inl (signerUnavailable ''SFU admission signer capacity is unavailable.''))])
      else if int (length (ex_active s)) < sc_signerConcurrency c then executor_start operation s
      else (s\<lparr>ex_queue := ex_queue s @ [operation]\<rparr>, []))"

definition executor_close :: "executor \<Rightarrow> executor \<times> signer_effect list" where
  "executor_close s =
     (s\<lparr>ex_closed := True, ex_queue := []\<rparr>,
      map (\<lambda>operation. Settled operation (Inl (signerUnavailable ''SFU admission signer is shutting down.''))) (ex_queue s))"

text \<open>The continuation of the race in \<open>start\<close>: settle, free the slot, start the next queued operation.\<close>

definition executor_settle :: "nat \<Rightarrow> bytes outcome \<Rightarrow> executor \<Rightarrow> executor \<times> signer_effect list" where
  "executor_settle operation r s =
     (if operation \<notin> set (ex_active s) then (s, [])
      else let s' = s\<lparr>ex_active := remove1 operation (ex_active s)\<rparr>
        in case ex_queue s' of
          [] \<Rightarrow> (s', [Settled operation r])
        | following # rest \<Rightarrow>
            (case executor_start following (s'\<lparr>ex_queue := rest\<rparr>) of (s'', es) \<Rightarrow> (s'', Settled operation r # es)))"

definition executor_timeout :: "nat \<Rightarrow> executor \<Rightarrow> executor \<times> signer_effect list" where
  "executor_timeout operation =
     executor_settle operation (Inl (signerUnavailable ''SFU admission signing timed out.''))"

section \<open>Histories\<close>

datatype signer_event = Execute nat | ProviderSettles nat "bytes outcome" | TimesOut nat | CloseSigner

fun executor_handle :: "sfu_config \<Rightarrow> signer_event \<Rightarrow> executor \<Rightarrow> executor \<times> signer_effect list" where
  "executor_handle c (Execute operation) s = executor_execute c operation s"
| "executor_handle c (ProviderSettles operation r) s = executor_settle operation r s"
| "executor_handle c (TimesOut operation) s = executor_timeout operation s"
| "executor_handle c CloseSigner s = executor_close s"

text \<open>The executor with the effects so far.\<close>

definition executor_step ::
  "sfu_config \<Rightarrow> executor \<times> signer_effect list \<Rightarrow> signer_event \<Rightarrow> executor \<times> signer_effect list" where
  "executor_step c st e = (case executor_handle c e (fst st) of (s, es) \<Rightarrow> (s, snd st @ es))"

fun started :: "signer_effect list \<Rightarrow> nat list" where
  "started [] = []"
| "started (Started operation # es) = operation # started es"
| "started (Settled _ _ # es) = started es"

fun answered :: "signer_effect list \<Rightarrow> nat list" where
  "answered [] = []"
| "answered (Started _ # es) = answered es"
| "answered (Settled operation _ # es) = operation # answered es"

fun submitted :: "signer_event list \<Rightarrow> nat list" where
  "submitted [] = []"
| "submitted (Execute operation # es) = operation # submitted es"
| "submitted (_ # es) = submitted es"

definition known :: "executor \<times> signer_effect list \<Rightarrow> nat list" where
  "known st = ex_active (fst st) @ ex_queue (fst st) @ answered (snd st)"

text \<open>Submissions are numbered in their order.\<close>

fun signer_enabled :: "executor \<times> signer_effect list \<Rightarrow> signer_event \<Rightarrow> bool" where
  "signer_enabled st (Execute operation) = list_all (\<lambda>q. q < operation) (known st)"
| "signer_enabled st _ = True"

definition signer_inv :: "sfu_config \<Rightarrow> executor \<times> signer_effect list \<Rightarrow> bool" where
  "signer_inv c st =
     (int (length (ex_active (fst st))) \<le> sc_signerConcurrency c \<and>
      int (length (ex_queue (fst st))) \<le> sc_signerQueueCapacity c \<and>
      (ex_queue (fst st) \<noteq> [] \<longrightarrow> int (length (ex_active (fst st))) = sc_signerConcurrency c) \<and>
      (ex_closed (fst st) \<longrightarrow> ex_queue (fst st) = []) \<and>
      distinct (known st) \<and> set (ex_active (fst st)) \<subseteq> set (started (snd st)) \<and>
      set (started (snd st)) \<subseteq> set (known st) \<and>
      sorted_wrt (<) (started (snd st) @ ex_queue (fst st)))"

lemma started_append [simp]: "started (es @ fs) = started es @ started fs"
  by (induction es rule: started.induct) auto

lemma answered_append [simp]: "answered (es @ fs) = answered es @ answered fs"
  by (induction es rule: answered.induct) auto

lemma effects_of_close [simp]:
  "started (map (\<lambda>q. Settled q (r q)) qs) = []" "answered (map (\<lambda>q. Settled q (r q)) qs) = qs"
  by (induction qs) auto

lemma execute_keeps:
  assumes "signer_inv c st" and "list_all (\<lambda>q. q < operation) (known st)"
  shows "signer_inv c (executor_step c st (Execute operation))"
proof -
  obtain s effs where st: "st = (s, effs)" by (cases st)
  from assms(2) have fresh: "operation \<notin> set (known st)" by (auto simp: list_all_iff)
  from assms have below: "\<forall>q \<in> set (started effs @ ex_queue s). q < operation"
    by (auto simp: signer_inv_def st list_all_iff known_def)
  show ?thesis
    using assms fresh below
    by (auto simp: signer_inv_def st known_def executor_step_def executor_execute_def executor_start_def
        sorted_wrt_append)
qed

lemma settle_keeps:
  assumes "signer_inv c (s, effs)"
  shows "signer_inv c (case executor_settle operation r s of (s', es) \<Rightarrow> (s', effs @ es))"
proof (cases "operation \<in> set (ex_active s)")
  case True
  from assms have d: "distinct (ex_active s)" by (simp add: signer_inv_def known_def)
  with True have len: "length (ex_active s) = Suc (length (remove1 operation (ex_active s)))"
    by (simp add: length_remove1) (metis Suc_pred length_pos_if_in_set)
  show ?thesis
  proof (cases "ex_queue s")
    case Nil
    with assms True d len show ?thesis
      by (auto simp: signer_inv_def known_def executor_settle_def)
  next
    case (Cons n q)
    with assms True d len show ?thesis
      by (auto simp: signer_inv_def known_def executor_settle_def executor_start_def sorted_wrt_append)
  qed
qed (use assms in \<open>simp add: executor_settle_def\<close>)

lemma close_keeps:
  assumes "signer_inv c (s, effs)"
  shows "signer_inv c (case executor_close s of (s', es) \<Rightarrow> (s', effs @ es))"
  using assms by (auto simp: signer_inv_def known_def executor_close_def sorted_wrt_append)

lemma signer_step_keeps:
  assumes "signer_inv c st" and "signer_enabled st e"
  shows "signer_inv c (executor_step c st e)"
proof -
  obtain s effs where st: "st = (s, effs)" by (cases st)
  with assms show ?thesis
    using execute_keeps [of c st] settle_keeps [of c s effs] close_keeps [of c s effs]
    by (cases e) (auto simp: executor_step_def executor_timeout_def)
qed

interpretation signer: stepwise_invariant "executor_step c" signer_enabled "signer_inv c"
  by unfold_locales (rule signer_step_keeps)

text \<open>Nothing submitted is lost: it is running, queued or answered.\<close>

lemma settle_known:
  assumes "distinct (ex_active s)"
  shows "set (known (case executor_settle operation r s of (s', es) \<Rightarrow> (s', effs @ es))) = set (known (s, effs))"
  using assms
  by (cases "ex_queue s") (auto simp: known_def executor_settle_def executor_start_def Let_def)

lemma step_known:
  assumes "signer_inv c st"
  shows "set (known (executor_step c st e)) = set (known st) \<union> set (submitted [e])"
proof -
  obtain s effs where st: "st = (s, effs)" by (cases st)
  from assms have d: "distinct (ex_active s)" by (simp add: signer_inv_def known_def st)
  show ?thesis
    using settle_known [OF d]
    by (cases e)
      (auto simp: st known_def executor_step_def executor_execute_def executor_start_def executor_timeout_def
        executor_close_def)
qed

lemma submitted_Cons: "submitted (e # es) = submitted [e] @ submitted es"
  by (cases e) auto

lemma history_known:
  assumes "signer_inv c st" and "enabled_history (executor_step c) signer_enabled st es"
  shows "set (known (foldl (executor_step c) st es)) = set (known st) \<union> set (submitted es)"
  using assms
proof (induction es arbitrary: st)
  case (Cons e es)
  then have "signer_inv c (executor_step c st e)" by (auto intro: signer_step_keeps)
  with Cons show ?case by (subst submitted_Cons) (auto simp: step_known)
qed simp

text \<open>Letting the oldest running operation time out, again and again.\<close>

fun drain :: "sfu_config \<Rightarrow> nat \<Rightarrow> executor \<times> signer_effect list \<Rightarrow> executor \<times> signer_effect list" where
  "drain c 0 st = st"
| "drain c (Suc n) st =
     (case ex_active (fst st) of [] \<Rightarrow> st | q # _ \<Rightarrow> drain c n (executor_step c st (TimesOut q)))"

lemma drain_empties:
  assumes "signer_inv c st" and "0 < sc_signerConcurrency c"
    and "length (ex_active (fst st)) + length (ex_queue (fst st)) \<le> n"
  shows "ex_active (fst (drain c n st)) = [] \<and> ex_queue (fst (drain c n st)) = [] \<and>
    set (answered (snd (drain c n st))) = set (known st)"
  using assms
proof (induction n arbitrary: st)
  case 0
  then show ?case by (simp add: known_def)
next
  case (Suc n)
  show ?case
  proof (cases "ex_active (fst st)")
    case Nil
    with Suc.prems have "ex_queue (fst st) = []" by (auto simp: signer_inv_def)
    with Nil show ?thesis by (simp add: known_def)
  next
    case (Cons q qs)
    let ?st = "executor_step c st (TimesOut q)"
    have inv: "signer_inv c ?st" using Suc.prems(1) by (intro signer_step_keeps) simp_all
    have "length (ex_active (fst ?st)) + length (ex_queue (fst ?st)) \<le> n"
      using Suc.prems(3) Cons
      by (cases "ex_queue (fst st)")
        (auto simp: executor_step_def executor_timeout_def executor_settle_def executor_start_def split: prod.split)
    from Suc.IH [OF inv Suc.prems(2) this] step_known [OF Suc.prems(1), of "TimesOut q"] Cons
    show ?thesis by simp
  qed
qed

lemma signer_initial: "0 \<le> sc_signerConcurrency c \<Longrightarrow> 0 \<le> sc_signerQueueCapacity c \<Longrightarrow> signer_inv c (new_executor, [])"
  by (simp add: signer_inv_def new_executor_def known_def)

text \<open>C24. The signer is bounded, fair and loses nothing. Over every history of submissions, settlements,
  timeouts and shutdown: at most the configured number of operations run and at most the configured
  number wait, and one waits only while all slots are busy; operations start in the order of their
  submission; every submitted operation is running, waiting or answered, and is answered at most once;
  after shutdown none waits. However the provider behaves, the timers answer every operation: after as many
  timeouts as operations are running and waiting, nothing is left unanswered.\<close>

theorem signer_bounded_fifo:
  assumes "1 \<le> sc_signerConcurrency c" and "1 \<le> sc_signerQueueCapacity c"
    and "enabled_history (executor_step c) signer_enabled (new_executor, []) es"
    and "foldl (executor_step c) (new_executor, []) es = (s, effs)"
  shows "int (length (ex_active s)) \<le> sc_signerConcurrency c \<and>
    int (length (ex_queue s)) \<le> sc_signerQueueCapacity c \<and>
    (ex_queue s \<noteq> [] \<longrightarrow> int (length (ex_active s)) = sc_signerConcurrency c \<and> \<not> ex_closed s) \<and>
    sorted_wrt (<) (started effs @ ex_queue s) \<and>
    distinct (ex_active s @ ex_queue s @ answered effs) \<and>
    set (ex_active s @ ex_queue s @ answered effs) = set (submitted es) \<and>
    set (answered (snd (drain c (length (ex_active s) + length (ex_queue s)) (s, effs)))) = set (submitted es)"
proof -
  have init: "signer_inv c (new_executor, [])" using assms(1,2) by (intro signer_initial) simp_all
  from signer.history_keeps [OF init assms(3)] assms(4) have inv: "signer_inv c (s, effs)" by simp
  from history_known [OF init assms(3)] assms(4)
  have all: "set (known (s, effs)) = set (submitted es)" by (simp add: known_def new_executor_def)
  have "set (answered (snd (drain c (length (ex_active s) + length (ex_queue s)) (s, effs)))) = set (known (s, effs))"
    using drain_empties [OF inv] assms(1) by simp
  with inv all show ?thesis by (auto simp: signer_inv_def known_def)
qed

definition sample_sfu_config :: sfu_config where
  "sample_sfu_config = \<lparr>sc_enabled = True, sc_issuer = ''https://api.example'', sc_audience = ''sfu'',
     sc_publicUrl = ''wss://sfu.example'', sc_tokenTtlSeconds = 60, sc_clockSkewSeconds = 5, sc_issueRateLimit = 20,
     sc_rateLimitWindowSeconds = 60, sc_signerConcurrency = 1, sc_signerQueueCapacity = 1, sc_signerTimeoutMs = 2000,
     sc_auditRetentionDays = 30, sc_auditCleanupBatchSize = 500, sc_auditCleanupIntervalMs = 60000\<rparr>"

theorem signer_bounded_fifo_witness:
  "(case foldl (executor_step sample_sfu_config) (new_executor, []) [Execute 1, Execute 2, Execute 3, ProviderSettles 1 (Inr [7])] of
     (s, effs) \<Rightarrow> started effs = [1, 2] \<and> sorted_wrt (<) (started effs @ ex_queue s) \<and> set (answered effs) = {1, 3})"
proof -
  let ?es = "[Execute 1, Execute 2, Execute 3, ProviderSettles 1 (Inr [7])]"
  let ?st = "foldl (executor_step sample_sfu_config) (new_executor, []) ?es"
  have eval: "started (snd ?st) = [1, 2]" "set (answered (snd ?st)) = {1, 3}"
    and enabled: "enabled_history (executor_step sample_sfu_config) signer_enabled (new_executor, []) ?es"
    by (auto simp: executor_step_def executor_execute_def executor_start_def executor_settle_def new_executor_def
        known_def sample_sfu_config_def)
  have "1 \<le> sc_signerConcurrency sample_sfu_config" "1 \<le> sc_signerQueueCapacity sample_sfu_config"
    by (simp_all add: sample_sfu_config_def)
  from signer_bounded_fifo [OF this enabled, of "fst ?st" "snd ?st"] eval show ?thesis
    by (simp only: split_beta) simp
qed

end
