(* ===== verification/SfuAdmission.thy ===== *)
theory SfuAdmission
  imports SfuRepository JsonText SignerExecutor RateLimits
begin

text \<open>
  Media admission above the repository: the compact token (\<open>sfu-admission-jwt.service.ts\<close>), the use case
  that authorizes, signs and authorizes again (\<open>manage-sfu-admission.use-case.ts\<close>), and the endpoint. The
  outcome of the signer, the executor in front of the provider, is an argument: it answers every
  operation, with a signature or with a failure.
\<close>

section \<open>The token\<close>

definition SFU_ADMISSION_TOKEN_TYPE :: string where "SFU_ADMISSION_TOKEN_TYPE = ''sfu-admission+jwt''"
definition SFU_ADMISSION_TOKEN_USE :: string where "SFU_ADMISSION_TOKEN_USE = ''sfu_admission''"
definition SFU_ADMISSION_ALGORITHM :: string where "SFU_ADMISSION_ALGORITHM = ''EdDSA''"

definition encodeJson :: "(string \<times> json_value) list \<Rightarrow> string" where
  "encodeJson fs = base64url_encode (utf8_points (object_json fs))"

definition jwt_header :: "prepared_admission \<Rightarrow> (string \<times> json_value) list" where
  "jwt_header g =
     [(''alg'', VStr (points SFU_ADMISSION_ALGORITHM)), (''kid'', VStr (points (pa_keyId g))),
      (''typ'', VStr (points SFU_ADMISSION_TOKEN_TYPE))]"

definition jwt_claims :: "prepared_admission \<Rightarrow> string \<Rightarrow> string \<Rightarrow> (string \<times> json_value) list" where
  "jwt_claims g issuer audience =
     [(''iss'', VStr (points issuer)), (''aud'', VStr (points audience)), (''sub'', VStr (points (pa_participantId g))),
      (''iat'', VInt (pa_issuedAtSeconds g)), (''nbf'', VInt (pa_issuedAtSeconds g)),
      (''exp'', VInt (pa_expiresAtSeconds g)), (''jti'', VStr (points (pa_tokenId g))),
      (''tokenUse'', VStr (points SFU_ADMISSION_TOKEN_USE)), (''roomId'', VStr (points (pa_meetingId g))),
      (''role'', VStr (points (sfu_role_name (pa_role g)))),
      (''permissions'', VStrs (map (\<lambda>p. points (permission_name p)) (pa_permissions g))),
      (''displayName'', VStr (pa_displayName g))]"

definition signing_input :: "prepared_admission \<Rightarrow> string \<Rightarrow> string \<Rightarrow> string" where
  "signing_input g issuer audience = encodeJson (jwt_header g) @ ''.'' @ encodeJson (jwt_claims g issuer audience)"

definition jwt_sign :: "(bytes \<Rightarrow> bytes outcome) \<Rightarrow> prepared_admission \<Rightarrow> string \<Rightarrow> string \<Rightarrow> string outcome" where
  "jwt_sign signer g issuer audience =
     and_then (signer (utf8 (signing_input g issuer audience))) (\<lambda>signature.
     Inr (signing_input g issuer audience @ ''.'' @ base64url_encode signature))"

section \<open>The use case\<close>

record issued_admission =
  is_admissionToken :: string
  is_sfuExpiresAt :: string
  is_sfuUrl :: string

definition publicAdmissionError :: "failure \<Rightarrow> failure" where
  "publicAdmissionError e =
     (case e of
       ApplicationError a \<Rightarrow> ApplicationError a
     | _ \<Rightarrow> app_failure ''SFU_ADMISSION_UNAVAILABLE'' Dependency ''SFU admission is temporarily unavailable.'')"

record admission_env =
  ae_prepare :: "database attempt_env"
  ae_prepare_clk :: "nat \<Rightarrow> instant"
  ae_ids :: admission_ids
  ae_keyId :: string
  ae_signer :: "bytes \<Rightarrow> bytes outcome"
  ae_mark :: "database attempt_env"
  ae_finalize :: "database attempt_env"
  ae_finalize_clk :: "nat \<Rightarrow> instant"

definition admission_issue ::
  "zod \<Rightarrow> sfu_config \<Rightarrow> admission_env \<Rightarrow> issue_admission \<Rightarrow> database \<Rightarrow> issued_admission outcome \<times> database" where
  "admission_issue z config env command db =
     (case in_transaction (ae_prepare env)
         (prepare_admission z config (ae_prepare_clk env) (ae_ids env) command (ae_keyId env)) db of
       (Inl e, db1) \<Rightarrow> (Inl (publicAdmissionError e), db1)
     | (Inr g, db1) \<Rightarrow>
         (case jwt_sign (ae_signer env) g (sc_issuer config) (sc_audience config) of
           Inl e \<Rightarrow> (Inl (publicAdmissionError e),
             snd (in_transaction (ae_mark env) (markSigningFailed (pa_auditId g) ''signer_failed'') db1))
         | Inr token \<Rightarrow>
             (case in_transaction (ae_finalize env) (finalize_admission z (ae_finalize_clk env) g) db1 of
               (Inl e, db2) \<Rightarrow> (Inl (publicAdmissionError e), db2)
             | (Inr finalized, db2) \<Rightarrow>
                 (if \<not> finalized then (Inl admissionConflict, db2)
                  else (Inr \<lparr>is_admissionToken = token, is_sfuExpiresAt = toISOString (pa_expiresAtSeconds g * 1000),
                    is_sfuUrl = sc_publicUrl config\<rparr>, db2)))))"

section \<open>The endpoint\<close>

definition parseSfuAdmissionRequest :: "zod \<Rightarrow> json \<Rightarrow> uuid outcome" where
  "parseSfuAdmissionRequest z value =
     (case value of
       JObj obj \<Rightarrow> require (if strict_keys [''commandId''] obj
           then guarded (z_uuid z) (string_field obj ''commandId'') else None) invalidRequest
     | _ \<Rightarrow> Inl invalidRequest)"

record admission_http =
  ah_http :: http_settings
  ah_hmac :: "bytes \<Rightarrow> bytes \<Rightarrow> bytes"
  ah_keyrings :: hmac_service
  ah_session_env :: session_env
  ah_sfu :: sfu_config
  ah_env :: admission_env

record admission_reply =
  ay_body :: issued_admission
  ay_cache_control :: string
  ay_pragma :: string

definition controller_admit ::
  "zod \<Rightarrow> meetings_config \<Rightarrow> admission_http \<Rightarrow> browser_request \<Rightarrow> proof_headers \<Rightarrow> counters \<Rightarrow> database
     \<Rightarrow> admission_reply outcome \<times> counters \<times> database" where
  "controller_admit z config h request headers cs db =
     (case and_then (trusted_assert (ht_allowedOrigins (ah_http h)) request) (\<lambda>_. credentials_extract config headers) of
       Inl e \<Rightarrow> (Inl e, cs, db)
     | Inr credentials \<Rightarrow>
         (case use_case_authenticate z config (ah_hmac h) (ah_keyrings h) (ah_session_env h) credentials db of
           (Inl e, db1) \<Rightarrow> (Inl e, cs, db1)
         | (Inr who, db1) \<Rightarrow>
             (case sfu_consume (ht_sha256hex (ah_http h)) (ah_sfu h) (ht_redis_up (ah_http h)) (br_ip request)
                 (pr_sessionId who) (ht_now (ah_http h)) cs of
               (Inl e, cs') \<Rightarrow> (Inl e, cs', db1)
             | (Inr _, cs') \<Rightarrow>
                 (case parseSfuAdmissionRequest z (br_body request) of
                   Inl e \<Rightarrow> (Inl e, cs', db1)
                 | Inr commandId \<Rightarrow>
                     (case admission_issue z (ah_sfu h) (ah_env h) \<lparr>ad_commandId = commandId, ad_principal = who\<rparr> db1 of
                       (Inl e, db2) \<Rightarrow> (Inl e, cs', db2)
                     | (Inr result, db2) \<Rightarrow>
                         (Inr \<lparr>ay_body = result, ay_cache_control = ''no-store'', ay_pragma = ''no-cache''\<rparr>, cs', db2))))))"

section \<open>What a token says\<close>

lemma encode_no_dot: "CHR ''.'' \<notin> set (base64url_encode bs)"
proof
  assume "CHR ''.'' \<in> set (base64url_encode bs)"
  moreover have "\<not> (is_alnum (CHR ''.'') \<or> CHR ''.'' \<in> set ''_-'')" by code_simp
  ultimately show False using encode_alphabet [of bs] by (auto simp: list_all_iff)
qed

lemma token_segments:
  "split_on (CHR ''.'') (signing_input g iss aud @ ''.'' @ base64url_encode sig) =
     [encodeJson (jwt_header g), encodeJson (jwt_claims g iss aud), base64url_encode sig]"
  by (simp add: signing_input_def encodeJson_def split_on_append split_on_single encode_no_dot)

lemma claims_scalar:
  assumes "list_all (\<lambda>c. c < 0x110000) (pa_displayName g)"
  shows "list_all scalar (object_json (jwt_claims g iss aud))" "list_all scalar (object_json (jwt_header g))"
proof -
  have "list_all (list_all (\<lambda>c. c < 0x110000)) (map (\<lambda>p. points (permission_name p)) ps)" for ps
    by (simp add: list.pred_map comp_def points_small list.pred_True)
  with assms show "list_all scalar (object_json (jwt_claims g iss aud))" "list_all scalar (object_json (jwt_header g))"
    by (auto intro!: object_json_scalar simp: jwt_claims_def jwt_header_def points_small)
qed

lemma encodeJson_inject:
  assumes "encodeJson fs = encodeJson gs" "map fst fs = map fst gs"
    and "list_all scalar (object_json fs)" "list_all scalar (object_json gs)"
  shows "fs = gs"
  using assms utf8_points_inject object_json_inject by (simp add: encodeJson_def)

lemma sfu_role_name_inject [simp]: "sfu_role_name a = sfu_role_name b \<longleftrightarrow> a = b"
  by (cases a; cases b) simp_all

lemma permission_names_inject: "map (\<lambda>p. points (permission_name p)) ps = map (\<lambda>p. points (permission_name p)) qs \<Longrightarrow> ps = qs"
  by (rule map_injective [of "\<lambda>p. points (permission_name p)"]) (auto simp: inj_def)

text \<open>A signed token says exactly what was granted. Its three segments decode to the header, the claims and
  the signature over the first two, so the round trip loses nothing; and tokens that agree in what is signed
  agree in the key, the issuer, the audience, the participant, the meeting, the times, the token
  identifier, the role, the list of permissions and the display name, whatever characters it contains.\<close>

theorem sfu_token_roundtrip:
  assumes "jwt_sign signer g iss aud = Inr token"
    and "list_all (\<lambda>c. c < 0x110000) (pa_displayName g)" and "list_all (\<lambda>c. c < 0x110000) (pa_displayName g')"
  shows "\<exists>sig. signer (utf8 (signing_input g iss aud)) = Inr sig \<and>
    map base64url_decode (split_on (CHR ''.'') token) =
      [utf8_points (object_json (jwt_header g)), utf8_points (object_json (jwt_claims g iss aud)), sig] \<and>
    (take 2 (split_on (CHR ''.'') token) = [encodeJson (jwt_header g'), encodeJson (jwt_claims g' iss' aud')] \<longrightarrow>
      pa_keyId g' = pa_keyId g \<and> iss' = iss \<and> aud' = aud \<and> pa_participantId g' = pa_participantId g \<and>
      pa_meetingId g' = pa_meetingId g \<and> pa_issuedAtSeconds g' = pa_issuedAtSeconds g \<and>
      pa_expiresAtSeconds g' = pa_expiresAtSeconds g \<and> pa_tokenId g' = pa_tokenId g \<and> pa_role g' = pa_role g \<and>
      pa_permissions g' = pa_permissions g \<and> pa_displayName g' = pa_displayName g)"
proof -
  from assms(1) obtain sig where sig: "signer (utf8 (signing_input g iss aud)) = Inr sig"
    "token = signing_input g iss aud @ ''.'' @ base64url_encode sig"
    by (auto simp: jwt_sign_def and_then_Inr_iff)
  have "jwt_header g' = jwt_header g \<and> jwt_claims g' iss' aud' = jwt_claims g iss aud"
    if "take 2 (split_on (CHR ''.'') token) = [encodeJson (jwt_header g'), encodeJson (jwt_claims g' iss' aud')]"
  proof -
    from that have eq: "encodeJson (jwt_header g') = encodeJson (jwt_header g)"
      "encodeJson (jwt_claims g' iss' aud') = encodeJson (jwt_claims g iss aud)"
      unfolding sig(2) token_segments by simp_all
    have "map fst (jwt_header g') = map fst (jwt_header g)"
      "map fst (jwt_claims g' iss' aud') = map fst (jwt_claims g iss aud)"
      by (simp_all add: jwt_header_def jwt_claims_def)
    with eq claims_scalar [OF assms(2)] claims_scalar [OF assms(3)] show ?thesis
      by (intro conjI encodeJson_inject)
  qed
  then show ?thesis
    using sig(1) unfolding sig(2) token_segments
    by (intro exI [of _ sig]) (auto simp: encodeJson_def jwt_header_def jwt_claims_def dest!: permission_names_inject)
qed

section \<open>Authorization across both transactions\<close>

lemma prepare_grant:
  assumes "prepare_admission z config ck ids command keyId db = Inr (g, db')"
  obtains s p m where "s \<in> set (sessions db)" "p \<in> set (participants db)" "m \<in> set (meetings db)"
    "session_live (ck 0) s p m" "s_id s = pr_sessionId (ad_principal command)"
    "p_id p = pr_participantId (ad_principal command)" "m_id m = pr_meetingId (ad_principal command)"
    "pa_sessionId g = s_id s" "pa_participantId g = p_id p" "pa_meetingId g = m_id m"
    "1000 \<le> admission_expiry config (ck 2) s - ck 2" "pa_issuedAtSeconds g = ck 2 div 1000"
    "pa_expiresAtSeconds g = admission_expiry config (ck 2) s div 1000" "pa_keyId g = keyId" "pa_tokenId g = ai_tokenId ids"
proof -
  from assms obtain s p m where l: "loadAuthorization z (ck 0) command db = Inr (s, p, m)"
    by (auto simp: prepare_admission_def and_then_Inr_iff)
  then have "(s, p, m) \<in> set (SELECT_AUTHORIZATION (ck 0) (ad_principal command) db)"
    by (auto simp: loadAuthorization_def and_then_Inr_iff split: if_splits dest!: first_row_Some_mem)
  then have row: "s \<in> set (sessions db)" "p \<in> set (participants db)" "m \<in> set (meetings db)"
    "session_live (ck 0) s p m" "s_id s = pr_sessionId (ad_principal command)"
    "p_id p = pr_participantId (ad_principal command)" "m_id m = pr_meetingId (ad_principal command)"
    by (auto simp: SELECT_AUTHORIZATION_def)
  from assms obtain permissions where
    perms: "deriveSfuPermissions (row_policy p m (has_active_media_membership (ck 1) (m_id m) (p_id p) db)) = Inr permissions"
    by (auto simp: prepare_admission_def l and_then_Inr_iff)
  let ?e = "admission_expiry config (ck 2) s"
  have late: "\<not> ?e - ck 2 < 1000"
  proof
    assume early: "?e - ck 2 < 1000"
    show False
      using assms unfolding prepare_admission_def l perms and_then_simps prod.case Let_def if_P [OF early] by simp
  qed
  from assms obtain x where "(case x of
      (None, db1) \<Rightarrow> Inl (throwReplay command db1)
    | (Some i, db1) \<Rightarrow>
        Inr (\<lparr>pa_auditId = i, pa_tokenId = ai_tokenId ids, pa_keyId = keyId, pa_sessionId = s_id s,
          pa_participantId = p_id p, pa_meetingId = m_id m, pa_displayName = p_display_name p,
          pa_role = p_sfu_role p, pa_permissions = permissions,
          pa_permissionProfileVersion = p_permission_profile_version p,
          pa_issuedAtSeconds = ck 2 div 1000, pa_expiresAtSeconds = ?e div 1000\<rparr>, db1)) = Inr (g, db')"
    unfolding prepare_admission_def l perms and_then_simps prod.case Let_def if_not_P [OF late] and_then_Inr_iff by blast
  then have "pa_sessionId g = s_id s \<and> pa_participantId g = p_id p \<and> pa_meetingId g = m_id m \<and>
      pa_issuedAtSeconds g = ck 2 div 1000 \<and> pa_expiresAtSeconds g = ?e div 1000 \<and> pa_keyId g = keyId \<and>
      pa_tokenId g = ai_tokenId ids"
    by (cases x; cases "fst x") auto
  with row late show thesis by (intro that [of s p m]) simp_all
qed

lemma finalize_granted:
  assumes "finalize_admission z ck g db = Inr (True, db')"
  obtains a s p m where "a \<in> set (sfu_admissions db)" "s \<in> set (sessions db)" "p \<in> set (participants db)"
    "m \<in> set (meetings db)" "s_id s = pa_sessionId g" "p_id p = pa_participantId g" "m_id m = pa_meetingId g"
    "aa_id a = pa_auditId g"
    "isStillAuthorized (ck 0) (has_active_media_membership (ck 1) (m_id m) (p_id p) db) (a, s, p, m) g"
proof -
  from assms obtain a s p m where row: "first_row (finalization_rows (pa_auditId g) db) = Some (a, s, p, m)"
    by (auto simp: finalize_admission_def and_then_Inr_iff)
  with assms have ok: "isStillAuthorized (ck 0) (has_active_media_membership (ck 1) (m_id m) (p_id p) db) (a, s, p, m) g"
    by (auto simp: finalize_admission_def and_then_Inr_iff Let_def)
  from first_row_Some_mem [OF row] have mem: "a \<in> set (sfu_admissions db)" "s \<in> set (sessions db)"
    "p \<in> set (participants db)" "m \<in> set (meetings db)" "s_id s = aa_session_id a" "p_id p = aa_participant_id a"
    "m_id m = aa_meeting_id a" "aa_id a = pa_auditId g" by (auto simp: finalization_rows_def)
  from ok have ids: "aa_session_id a = pa_sessionId g" "aa_participant_id a = pa_participantId g"
    "aa_meeting_id a = pa_meetingId g" by (auto simp: isStillAuthorized_def split: if_splits)
  show thesis by (rule that [OF mem(1-4) _ _ _ mem(8) ok]) (simp_all add: mem ids)
qed

lemma admission_issue_Inr:
  assumes "admission_issue z config env command db = (Inr issued, db')"
  obtains g db1 where
    "prepare_admission z config (ae_prepare_clk env) (ae_ids env) command (ae_keyId env) (before_attempt (ae_prepare env) db) =
       Inr (g, db1)"
    "finalize_admission z (ae_finalize_clk env) g (before_attempt (ae_finalize env) db1) = Inr (True, db')"
    "jwt_sign (ae_signer env) g (sc_issuer config) (sc_audience config) = Inr (is_admissionToken issued)"
proof -
  from assms obtain g db1 token where
    "in_transaction (ae_prepare env)
       (prepare_admission z config (ae_prepare_clk env) (ae_ids env) command (ae_keyId env)) db = (Inr g, db1)"
    "jwt_sign (ae_signer env) g (sc_issuer config) (sc_audience config) = Inr token"
    "in_transaction (ae_finalize env) (finalize_admission z (ae_finalize_clk env) g) db1 = (Inr True, db')"
    "is_admissionToken issued = token"
    by (auto simp: admission_issue_def split: prod.splits sum.splits if_splits)
  then show thesis by (intro that [of g db1]) (auto dest: in_transaction_Inr)
qed

lemma expiry_seconds:
  assumes "1000 \<le> admission_expiry config now s - now"
  shows "now div 1000 < admission_expiry config now s div 1000"
    "admission_expiry config now s div 1000 * 1000 \<le> s_absolute_expires_at s"
    "admission_expiry config now s div 1000 * 1000 \<le> now + sc_tokenTtlSeconds config * 1000"
proof -
  let ?e = "admission_expiry config now s"
  have le: "?e div 1000 * 1000 \<le> ?e" by simp
  have "(now + 1000) div 1000 \<le> ?e div 1000" using assms by (intro zdiv_mono1) simp_all
  then show "now div 1000 < ?e div 1000" by simp
  show "?e div 1000 * 1000 \<le> s_absolute_expires_at s" using le by (simp add: admission_expiry_def)
  show "?e div 1000 * 1000 \<le> now + sc_tokenTtlSeconds config * 1000" using le by (simp add: admission_expiry_def)
qed


definition sample_admission_env :: admission_env where
  "sample_admission_env = \<lparr>ae_prepare = quiet, ae_prepare_clk = sample_clock 1000, ae_ids = sample_ids, ae_keyId = ''key-1'',
     ae_signer = (\<lambda>_. Inr [1, 2, 3]), ae_mark = quiet, ae_finalize = quiet, ae_finalize_clk = sample_clock 2000\<rparr>"

definition sample_grant :: prepared_admission where "sample_grant = fst (projr sample_prepared)"

definition sample_finalized :: "(bool \<times> database) outcome" where
  "sample_finalized = finalize_admission strict_zod (sample_clock 2000) sample_grant (snd (projr sample_prepared))"

definition sample_token :: string where
  "sample_token = signing_input sample_grant ''https://api.example'' ''sfu'' @ ''.'' @ base64url_encode [1, 2, 3]"

lemma sample_signed:
  "jwt_sign (ae_signer sample_admission_env) sample_grant ''https://api.example'' ''sfu'' = Inr sample_token"
  by (simp add: jwt_sign_def sample_admission_env_def sample_token_def)

lemma sample_issue_evaluated:
  "admission_issue strict_zod sample_admission_config sample_admission_env sample_admission sample_media_db =
     (Inr \<lparr>is_admissionToken = sample_token, is_sfuExpiresAt = toISOString (pa_expiresAtSeconds sample_grant * 1000),
        is_sfuUrl = ''wss://sfu.example''\<rparr>, snd (projr sample_finalized))"
proof -
  have "\<not> isl sample_finalized" by code_simp
  moreover have "fst (projr sample_finalized) = True" by code_simp
  ultimately have "sample_finalized = Inr (True, snd (projr sample_finalized))" using Inr_pair_of_eval by metis
  then have final: "finalize_admission strict_zod (sample_clock 2000) sample_grant (snd (projr sample_prepared)) =
      Inr (True, snd (projr sample_finalized))"
    unfolding sample_finalized_def [symmetric] .
  have ids: "ae_prepare sample_admission_env = quiet" "ae_finalize sample_admission_env = quiet"
    "ae_ids sample_admission_env = sample_ids" "ae_keyId sample_admission_env = ''key-1''"
    "ae_prepare_clk sample_admission_env = sample_clock 1000" "ae_finalize_clk sample_admission_env = sample_clock 2000"
    "sc_issuer sample_admission_config = ''https://api.example''" "sc_audience sample_admission_config = ''sfu''"
    "sc_publicUrl sample_admission_config = ''wss://sfu.example''"
    by (simp_all add: sample_admission_env_def sample_admission_config_def)
  have first: "in_transaction quiet (prepare_admission strict_zod sample_admission_config (sample_clock 1000) sample_ids
      sample_admission ''key-1'') sample_media_db = (Inr sample_grant, snd (projr sample_prepared))"
    unfolding sample_grant_def by (rule in_transaction_quiet) (rule sample_prepared_evaluated)
  have second: "in_transaction quiet (finalize_admission strict_zod (sample_clock 2000) sample_grant)
      (snd (projr sample_prepared)) = (Inr True, snd (projr sample_finalized))"
    by (rule in_transaction_quiet) (rule final)
  show ?thesis
    unfolding admission_issue_def ids first prod.case sum.case sample_signed second by simp
qed


theorem sfu_token_roundtrip_witness:
  "map base64url_decode (split_on (CHR ''.'') sample_token) =
     [utf8_points (object_json (jwt_header sample_grant)),
      utf8_points (object_json (jwt_claims sample_grant ''https://api.example'' ''sfu'')), [1, 2, 3]]"
proof -
  have "list_all (\<lambda>c. c < 0x110000) (pa_displayName sample_grant)" by code_simp
  from sfu_token_roundtrip [OF sample_signed this this] show ?thesis
    by (simp add: sample_admission_env_def)
qed

end
