(* ===== verification/SecretPaths.thy ===== *)
theory SecretPaths
  imports Config
begin

text \<open>
  The platform functions the configuration relies on, absolute POSIX paths, and the files secrets are
  read from (\<open>infrastructure-config-loader.ts\<close>, \<open>secret-file-reader.ts\<close>).
\<close>

section \<open>The platform\<close>

text \<open>What \<open>new URL(value)\<close> makes of a text, \<open>None\<close> when it throws.\<close>

record url =
  ul_protocol :: string
  ul_username :: string
  ul_password :: string
  ul_pathname :: string
  ul_search :: string
  ul_hash :: string
  ul_origin :: string
  ul_href :: string
  ul_sslmode :: "string option"

text \<open>The parser of URLs, \<open>net.isIP\<close> and \<open>Number\<close> are functions of the platform; \<open>pf_number\<close> is \<open>None\<close> for the
  values that are not finite.\<close>

record platform =
  pf_url :: "string \<Rightarrow> url option"
  pf_isIP :: "string \<Rightarrow> nat"
  pf_number :: "string \<Rightarrow> rat option"

section \<open>Absolute paths\<close>

definition isAbsolute :: "string \<Rightarrow> bool" where
  "isAbsolute p = (p \<noteq> [] \<and> hd p = CHR ''/'')"

text \<open>\<open>resolve\<close> of an absolute path, as the list of its segments: empty segments and dots vanish, a double dot
  takes back the segment before it and is lost at the root.\<close>

fun climb :: "string list \<Rightarrow> string list \<Rightarrow> string list" where
  "climb seen [] = rev seen"
| "climb seen (x # xs) =
     (if x = [] \<or> x = ''.'' then climb seen xs
      else if x = ''..'' then climb (drop 1 seen) xs
      else climb (x # seen) xs)"

definition segments :: "string \<Rightarrow> string list" where
  "segments p = climb [] (split_on CHR ''/'' p)"

fun joined :: "string list \<Rightarrow> string" where
  "joined [] = []"
| "joined [x] = x"
| "joined (x # xs) = x @ ''/'' @ joined xs"

definition resolve :: "string \<Rightarrow> string" where
  "resolve p = CHR ''/'' # joined (segments p)"

text \<open>\<open>relative\<close> of two absolute paths.\<close>

fun without_common :: "string list \<Rightarrow> string list \<Rightarrow> string list \<times> string list" where
  "without_common (x # xs) (y # ys) = (if x = y then without_common xs ys else (x # xs, y # ys))"
| "without_common xs ys = (xs, ys)"

definition relative_path :: "string \<Rightarrow> string \<Rightarrow> string" where
  "relative_path base p =
     (case without_common (segments base) (segments p) of
       (up, down) \<Rightarrow> joined (replicate (length up) ''..'' @ down))"

definition outside_root :: "string \<Rightarrow> bool" where
  "outside_root fromRoot = (fromRoot = [] \<or> take 2 fromRoot = ''..'' \<or> isAbsolute fromRoot)"

definition normalizeMountRoot :: "string \<Rightarrow> string outcome" where
  "normalizeMountRoot v =
     (if \<not> isAbsolute v then Inl (ConfigurationError ''SECRET_MOUNT_ROOT must be absolute'') else Inr (resolve v))"

definition normalizeSecretPath :: "string \<Rightarrow> string \<Rightarrow> string \<Rightarrow> string outcome" where
  "normalizeSecretPath v name mountRoot =
     (if \<not> isAbsolute v then Inl (ConfigurationError (name @ '' must be absolute''))
      else if outside_root (relative_path mountRoot (resolve v))
      then Inl (ConfigurationError (name @ '' must be a file below SECRET_MOUNT_ROOT''))
      else Inr (resolve v))"

definition normalizeOptionalSecretPath :: "string option \<Rightarrow> string \<Rightarrow> string \<Rightarrow> string option outcome" where
  "normalizeOptionalSecretPath v name mountRoot =
     (case v of None \<Rightarrow> Inr None | Some p \<Rightarrow> and_then (normalizeSecretPath p name mountRoot) (\<lambda>q. Inr (Some q)))"

section \<open>Secret files\<close>

text \<open>An open file: what \<open>stat\<close> says of it and its content as UTF-8 text. \<open>open\<close> itself, with \<open>O_NOFOLLOW\<close>, is an
  argument: it gives the file or the code of the error.\<close>

record open_file =
  of_isFile :: bool
  of_size :: nat
  of_mode :: nat
  of_text :: string

definition MAX_SECRET_BYTES :: nat where "MAX_SECRET_BYTES = 64 * 1024"

definition assertContainedPath :: "string \<Rightarrow> string \<Rightarrow> unit outcome" where
  "assertContainedPath filePath mountRoot =
     (if \<not> isAbsolute filePath then Inl (ConfigurationError ''Secret file path must be absolute'')
      else ensure (\<not> outside_root (relative_path (resolve mountRoot) (resolve filePath)))
        (ConfigurationError ''Secret file path must remain below SECRET_MOUNT_ROOT''))"

definition without_trailing_lines :: "string \<Rightarrow> string" where
  "without_trailing_lines s = rev (dropWhile (\<lambda>c. c = CHR 0x0D \<or> c = CHR 0x0A) (rev s))"

definition configurationReadError :: "string \<Rightarrow> string \<Rightarrow> failure" where
  "configurationReadError filePath code =
     ConfigurationError (''Cannot read configured secret file ('' @ code @ ''): '' @ filePath)"

definition readSecretFile ::
  "(string \<Rightarrow> string + open_file) \<Rightarrow> string \<Rightarrow> bool \<Rightarrow> string \<Rightarrow> string outcome" where
  "readSecretFile open_nofollow mountRoot requireRestrictedPermissions filePath =
     and_then (assertContainedPath filePath mountRoot) (\<lambda>_.
       case open_nofollow filePath of
         Inl code \<Rightarrow> Inl (configurationReadError filePath code)
       | Inr f \<Rightarrow>
           if \<not> of_isFile f then Inl (ConfigurationError ''Secret path must reference a regular file'')
           else if of_size f = 0 \<or> of_size f > MAX_SECRET_BYTES
           then Inl (ConfigurationError ''Secret file must contain between 1 byte and 64 KiB'')
           else if requireRestrictedPermissions \<and> of_mode f mod 64 \<noteq> 0
           then Inl (ConfigurationError ''Secret file permissions must not grant group or other access'')
           else let v = without_trailing_lines (of_text f)
                in if v = [] \<or> CHR 0x00 \<in> set v
                   then Inl (ConfigurationError ''Secret file content is empty or invalid'') else Inr v)"

section \<open>Containment\<close>

text \<open>A segment that a resolved path can have.\<close>

definition path_segment :: "string \<Rightarrow> bool" where
  "path_segment x = (x \<noteq> [] \<and> x \<noteq> ''.'' \<and> x \<noteq> ''..'' \<and> CHR ''/'' \<notin> set x)"

lemma split_on_free: "x \<in> set (split_on c s) \<Longrightarrow> c \<notin> set x"
proof (induction s arbitrary: x)
  case (Cons a s)
  then show ?case by (cases "split_on c s") (auto split: if_splits)
qed simp

lemma climb_plain:
  "list_all path_segment seen \<Longrightarrow> \<forall>x \<in> set xs. CHR ''/'' \<notin> set x \<Longrightarrow> list_all path_segment (climb seen xs)"
proof (induction seen xs rule: climb.induct)
  case (2 seen x xs)
  have "list_all path_segment (drop 1 seen)" using 2(4) by (cases seen) simp_all
  moreover have "path_segment x" if "\<not> (x = [] \<or> x = ''.'')" "x \<noteq> ''..''"
    using 2(5) that by (simp add: path_segment_def)
  ultimately show ?case using 2 by simp
qed (simp add: list_all_iff)

lemma segments_plain: "list_all path_segment (segments p)"
  unfolding segments_def by (rule climb_plain) (auto dest: split_on_free)

lemma climb_resolved: "list_all path_segment xs \<Longrightarrow> climb seen xs = rev seen @ xs"
  by (induction xs arbitrary: seen) (simp_all add: path_segment_def)

lemma split_on_append_sep: "c \<notin> set x \<Longrightarrow> split_on c (x @ c # s) = x # split_on c s"
  by (induction x) auto

lemma split_joined:
  "list_all path_segment xs \<Longrightarrow> xs \<noteq> [] \<Longrightarrow> split_on CHR ''/'' (joined xs) = xs"
  by (induction xs rule: joined.induct) (auto simp: path_segment_def split_on_single split_on_append_sep)

lemma segments_resolve [simp]: "segments (resolve p) = segments p"
proof (cases "segments p = []")
  case True
  then show ?thesis by (simp add: resolve_def segments_def [of "''/''"] segments_def [of "[CHR ''/'']"])
next
  case False
  have "split_on CHR ''/'' (resolve p) = [] # segments p"
    using split_joined [OF segments_plain False] by (simp add: resolve_def)
  then show ?thesis using climb_resolved [OF segments_plain, of "[]" p] by (simp add: segments_def [of "resolve p"])
qed

lemma without_common_prefix:
  "without_common xs ys = (up, down) \<Longrightarrow> \<exists>ps. xs = ps @ up \<and> ys = ps @ down"
proof (induction xs ys rule: without_common.induct)
  case (1 x xs y ys)
  show ?case
  proof (cases "x = y")
    case True
    with 1 obtain ps where "xs = ps @ up" "ys = ps @ down" by auto
    then have "x # xs = (x # ps) @ up \<and> y # ys = (x # ps) @ down" using True by simp
    then show ?thesis by blast
  qed (use 1 in simp)
qed simp_all

lemma without_common_append [simp]: "without_common xs (xs @ ys) = ([], ys)"
  by (induction xs) (cases ys, auto)

lemma joined_first: "joined (x # xs) = x @ (if xs = [] then [] else ''/'' @ joined xs)"
  by (cases xs) simp_all

lemma relative_below:
  "\<not> outside_root (relative_path base p) \<longleftrightarrow>
     (\<exists>rest. segments p = segments base @ rest \<and> rest \<noteq> [] \<and> take 2 (hd rest) \<noteq> ''..'')"
proof
  assume out: "\<not> outside_root (relative_path base p)"
  obtain up down where w: "without_common (segments base) (segments p) = (up, down)" by fastforce
  from without_common_prefix [OF w] obtain ps where ps: "segments base = ps @ up" "segments p = ps @ down" by blast
  have rel: "relative_path base p = joined (replicate (length up) ''..'' @ down)" by (simp add: relative_path_def w)
  have "up = []"
  proof (rule ccontr)
    assume "up \<noteq> []"
    then obtain n where "length up = Suc n" by (cases up) auto
    then have "take 2 (relative_path base p) = ''..''" unfolding rel by (simp add: joined_first)
    with out show False by (simp add: outside_root_def)
  qed
  moreover have "down \<noteq> [] \<and> take 2 (hd down) \<noteq> ''..''"
  proof (cases down)
    case Nil
    with out rel \<open>up = []\<close> show ?thesis by (simp add: outside_root_def)
  next
    case (Cons x xs)
    then have "take 2 (relative_path base p) = ''..''" if "take 2 x = ''..''"
      using that rel \<open>up = []\<close> by (cases x; cases "tl x") (simp_all add: joined_first)
    with out Cons show ?thesis by (auto simp: outside_root_def)
  qed
  ultimately show "\<exists>rest. segments p = segments base @ rest \<and> rest \<noteq> [] \<and> take 2 (hd rest) \<noteq> ''..''"
    using ps by auto
next
  assume "\<exists>rest. segments p = segments base @ rest \<and> rest \<noteq> [] \<and> take 2 (hd rest) \<noteq> ''..''"
  then obtain x xs where p: "segments p = segments base @ x # xs" "take 2 x \<noteq> ''..''" by (metis list.collapse)
  have x: "path_segment x" using segments_plain [of p] by (simp add: p)
  then obtain a y where ay: "x = a # y" "a \<noteq> CHR ''/''" by (cases x) (auto simp: path_segment_def)
  have "relative_path base p = joined (x # xs)" by (simp add: relative_path_def p)
  moreover have "take 2 (joined (x # xs)) \<noteq> ''..''"
    using p(2) x by (cases y) (auto simp: ay(1) joined_first path_segment_def)
  ultimately show "\<not> outside_root (relative_path base p)"
    using ay by (simp add: outside_root_def isAbsolute_def joined_first)
qed

end
