(* ===== verification/EnvironmentSchema.thy ===== *)
theory EnvironmentSchema
  imports SecretPaths
begin

text \<open>
  \<open>environmentSchema\<close> (\<open>load-application-config.ts\<close>): what each variable of the environment must look like,
  and the values, with defaults, the loaders read. The process environment is a partial function from
  names to texts.
\<close>

section \<open>The variables\<close>

datatype redis_mode = Standalone | Cluster
datatype signer_kind = FileSigner | AwsKms

text \<open>\<open>integer(min, max)\<close>, \<open>boolean\<close>, \<open>optionalNonEmptyString\<close>, \<open>z.string().trim().min().max()\<close>, \<open>z.enum\<close>, a plain
  string, and the coerced ratio of the sampler.\<close>

datatype variable_schema =
  IntegerSchema int int
| BooleanSchema
| OptionalText
| BoundedText nat nat
| EnumSchema "string list"
| AnyText
| RatioSchema

definition runtime_variables :: "(string \<times> variable_schema) list" where
  "runtime_variables =
     [(''NODE_ENV'', EnumSchema [''development'', ''test'', ''staging'', ''production'']),
      (''APP_ROLE'', EnumSchema [''api'', ''realtime'', ''worker'', ''migration'']),
      (''APP_VERSION'', BoundedText 1 128),
      (''REGION'', BoundedText 1 64),
      (''SHUTDOWN_GRACE_MS'', IntegerSchema 1000 120000)]"

definition http_variables :: "(string \<times> variable_schema) list" where
  "http_variables =
     [(''HTTP_HOST'', BoundedText 1 255),
      (''HTTP_PORT'', IntegerSchema 1024 65535),
      (''PUBLIC_APP_ORIGIN'', AnyText),
      (''PUBLIC_API_ORIGIN'', AnyText),
      (''PUBLIC_REALTIME_URL'', AnyText),
      (''ALLOWED_ORIGINS'', AnyText),
      (''TRUSTED_PROXY_CIDRS'', AnyText),
      (''HTTP_MAX_BODY_BYTES'', IntegerSchema 1024 16777216),
      (''HTTP_REQUEST_TIMEOUT_MS'', IntegerSchema 100 120000),
      (''HTTP_KEEP_ALIVE_TIMEOUT_MS'', IntegerSchema 1000 300000),
      (''HEALTH_CHECK_TIMEOUT_MS'', IntegerSchema 50 10000)]"

definition publication_variables :: "(string \<times> variable_schema) list" where
  "publication_variables =
     [(''OPENAPI_ENABLED'', BooleanSchema),
      (''OPENAPI_PATH'', AnyText),
      (''OPENAPI_JSON_PATH'', AnyText),
      (''ASYNCAPI_JSON_PATH'', AnyText),
      (''LOG_LEVEL'', EnumSchema [''fatal'', ''error'', ''warn'', ''info'', ''debug'', ''trace'']),
      (''OTEL_EXPORTER_OTLP_ENDPOINT'', OptionalText),
      (''OTEL_TRACES_SAMPLER'', EnumSchema [''always_on'', ''always_off'', ''traceidratio'', ''parentbased_traceidratio'']),
      (''OTEL_TRACES_SAMPLER_ARG'', RatioSchema)]"

definition database_variables :: "(string \<times> variable_schema) list" where
  "database_variables =
     [(''SECRET_MOUNT_ROOT'', AnyText),
      (''DATABASE_ENABLED'', BooleanSchema),
      (''DATABASE_URL'', OptionalText),
      (''DATABASE_URL_FILE'', OptionalText),
      (''DATABASE_DIRECT_URL'', OptionalText),
      (''DATABASE_DIRECT_URL_FILE'', OptionalText),
      (''DATABASE_SSL_CA_FILE'', OptionalText),
      (''DATABASE_TLS_REQUIRED'', BooleanSchema),
      (''DATABASE_POOL_MAX'', IntegerSchema 1 100),
      (''DATABASE_CONNECT_TIMEOUT_MS'', IntegerSchema 100 60000),
      (''DATABASE_QUERY_TIMEOUT_MS'', IntegerSchema 100 120000),
      (''DATABASE_STATEMENT_TIMEOUT_MS'', IntegerSchema 100 120000),
      (''DATABASE_LOCK_TIMEOUT_MS'', IntegerSchema 50 30000),
      (''DATABASE_IDLE_TX_TIMEOUT_MS'', IntegerSchema 100 120000),
      (''DATABASE_APPLICATION_NAME'', OptionalText),
      (''MIGRATION_LOCK_ID'', IntegerSchema 1 2147483647)]"

definition redis_variables :: "(string \<times> variable_schema) list" where
  "redis_variables =
     [(''REDIS_ENABLED'', BooleanSchema),
      (''REDIS_MODE'', EnumSchema [''standalone'', ''cluster'']),
      (''REDIS_URLS'', OptionalText),
      (''REDIS_URL_FILE'', OptionalText),
      (''REDIS_SSL_CA_FILE'', OptionalText),
      (''REDIS_TLS_REQUIRED'', BooleanSchema),
      (''REDIS_CLIENT_NAME'', OptionalText),
      (''REDIS_KEY_PREFIX'', EnumSchema [''hf:v1'']),
      (''REDIS_CONNECT_TIMEOUT_MS'', IntegerSchema 100 60000),
      (''REDIS_COMMAND_TIMEOUT_MS'', IntegerSchema 50 30000),
      (''REDIS_MAX_RECONNECT_DELAY_MS'', IntegerSchema 100 60000)]"

definition outbox_variables :: "(string \<times> variable_schema) list" where
  "outbox_variables =
     [(''OUTBOX_BATCH_SIZE'', IntegerSchema 1 500),
      (''OUTBOX_CONCURRENCY'', IntegerSchema 1 100),
      (''OUTBOX_LEASE_MS'', IntegerSchema 1000 300000),
      (''OUTBOX_MAX_ATTEMPTS'', IntegerSchema 1 100),
      (''OUTBOX_BASE_RETRY_MS'', IntegerSchema 100 60000),
      (''OUTBOX_MAX_RETRY_MS'', IntegerSchema 1000 3600000),
      (''OUTBOX_POLL_INTERVAL_MS'', IntegerSchema 50 60000)]"

definition meeting_variables :: "(string \<times> variable_schema) list" where
  "meeting_variables =
     [(''MEETINGS_ENABLED'', BooleanSchema),
      (''CAPABILITY_HMAC_KEYRING'', OptionalText),
      (''CAPABILITY_HMAC_KEYRING_FILE'', OptionalText),
      (''SESSION_HMAC_KEYRING'', OptionalText),
      (''SESSION_HMAC_KEYRING_FILE'', OptionalText),
      (''MEETING_CAPABILITY_TTL_SECONDS'', IntegerSchema 300 2592000),
      (''MEETING_TTL_SECONDS'', IntegerSchema 300 2592000),
      (''SESSION_IDLE_TTL_SECONDS'', IntegerSchema 60 86400),
      (''SESSION_ABSOLUTE_TTL_SECONDS'', IntegerSchema 300 604800),
      (''SESSION_COOKIE_NAME'', OptionalText),
      (''MEETING_CREATE_RATE_LIMIT'', IntegerSchema 1 10000),
      (''MEETING_JOIN_RATE_LIMIT'', IntegerSchema 1 100000),
      (''MEETING_RATE_LIMIT_WINDOW_SECONDS'', IntegerSchema 1 3600)]"

definition realtime_variables :: "(string \<times> variable_schema) list" where
  "realtime_variables =
     [(''REALTIME_TICKET_TTL_SECONDS'', IntegerSchema 5 60),
      (''REALTIME_AUTH_TIMEOUT_MS'', IntegerSchema 1000 15000),
      (''REALTIME_HEARTBEAT_INTERVAL_MS'', IntegerSchema 5000 60000),
      (''REALTIME_PRESENCE_TTL_SECONDS'', IntegerSchema 30 300),
      (''REALTIME_MAX_MESSAGE_BYTES'', IntegerSchema 1024 65536),
      (''REALTIME_MAX_BUFFERED_BYTES'', IntegerSchema 65536 16777216),
      (''REALTIME_MAX_PENDING_COMMANDS'', IntegerSchema 1 128),
      (''REALTIME_MESSAGE_RATE_PER_SECOND'', IntegerSchema 1 1000),
      (''REALTIME_MESSAGE_BURST'', IntegerSchema 1 2000),
      (''REALTIME_MAX_CONNECTIONS_PER_SOURCE'', IntegerSchema 1 1000),
      (''REALTIME_MAX_CONNECTIONS_PER_SESSION'', IntegerSchema 1 32),
      (''REALTIME_TICKET_ISSUE_RATE_LIMIT'', IntegerSchema 1 1000),
      (''REALTIME_TICKET_RATE_WINDOW_SECONDS'', IntegerSchema 1 3600),
      (''REALTIME_SESSION_REVALIDATE_SECONDS'', IntegerSchema 5 300),
      (''REALTIME_MAX_PRESENCE_SNAPSHOT_PARTICIPANTS'', IntegerSchema 10 10000)]"

definition chat_variables :: "(string \<times> variable_schema) list" where
  "chat_variables =
     [(''CHAT_ENABLED'', BooleanSchema),
      (''CHAT_MAX_CIPHERTEXT_BYTES'', IntegerSchema 64 49152),
      (''CHAT_HISTORY_PAGE_DEFAULT'', IntegerSchema 1 500),
      (''CHAT_HISTORY_PAGE_MAX'', IntegerSchema 1 500),
      (''CHAT_RATE_PER_PARTICIPANT'', IntegerSchema 1 100),
      (''CHAT_RATE_BURST'', IntegerSchema 1 500),
      (''CHAT_FAST_PATH_LEASE_MS'', IntegerSchema 1000 30000),
      (''CHAT_HIGH_WATERMARK_INTERVAL_MS'', IntegerSchema 1000 60000),
      (''CHAT_REORDER_BUFFER_MESSAGES'', IntegerSchema 8 2000),
      (''CHAT_RETENTION_DAYS'', IntegerSchema 1 365),
      (''CHAT_CLEANUP_BATCH_SIZE'', IntegerSchema 10 10000),
      (''CHAT_CLEANUP_INTERVAL_MS'', IntegerSchema 10000 3600000)]"

definition sfu_variables :: "(string \<times> variable_schema) list" where
  "sfu_variables =
     [(''SFU_ADMISSION_ENABLED'', BooleanSchema),
      (''SFU_ADMISSION_ISSUER'', AnyText),
      (''SFU_ADMISSION_AUDIENCE'', BoundedText 1 512),
      (''SFU_PUBLIC_URL'', AnyText),
      (''SFU_ADMISSION_TOKEN_TTL_SECONDS'', IntegerSchema 30 300),
      (''SFU_ADMISSION_CLOCK_SKEW_SECONDS'', IntegerSchema 0 30),
      (''SFU_ADMISSION_ISSUE_RATE_LIMIT'', IntegerSchema 1 1000),
      (''SFU_ADMISSION_RATE_LIMIT_WINDOW_SECONDS'', IntegerSchema 1 3600),
      (''SFU_ADMISSION_SIGNER'', EnumSchema [''file'', ''aws-kms'']),
      (''SFU_ADMISSION_KEY_ID'', OptionalText),
      (''SFU_ADMISSION_PRIVATE_KEY_FILE'', OptionalText),
      (''SFU_ADMISSION_KMS_KEY_ID'', OptionalText),
      (''SFU_ADMISSION_KMS_REGION'', OptionalText),
      (''SFU_ADMISSION_RETIRED_JWKS_FILE'', OptionalText),
      (''SFU_ADMISSION_SIGNER_CONCURRENCY'', IntegerSchema 1 64),
      (''SFU_ADMISSION_SIGNER_QUEUE_CAPACITY'', IntegerSchema 1 10000),
      (''SFU_ADMISSION_SIGN_TIMEOUT_MS'', IntegerSchema 100 30000),
      (''SFU_ADMISSION_AUDIT_RETENTION_DAYS'', IntegerSchema 1 365),
      (''SFU_ADMISSION_AUDIT_CLEANUP_BATCH_SIZE'', IntegerSchema 10 10000),
      (''SFU_ADMISSION_AUDIT_CLEANUP_INTERVAL_MS'', IntegerSchema 10000 3600000)]"

definition environment_variables :: "(string \<times> variable_schema) list" where
  "environment_variables = runtime_variables @
     http_variables @
     publication_variables @
     database_variables @
     redis_variables @
     outbox_variables @
     meeting_variables @
     realtime_variables @
     chat_variables @
     sfu_variables"

section \<open>Checking\<close>

text \<open>The integer a text denotes, read by \<open>Number\<close> when the text is not blank.\<close>

definition integer_text :: "platform \<Rightarrow> string \<Rightarrow> int option" where
  "integer_text p t =
     (if trim_string t = [] then None
      else case pf_number p t of
        None \<Rightarrow> None
      | Some q \<Rightarrow> if q = rat_of_int \<lfloor>q\<rfloor> \<and> \<bar>\<lfloor>q\<rfloor>\<bar> \<le> 9007199254740991 then Some \<lfloor>q\<rfloor> else None)"

definition integer_of :: "platform \<Rightarrow> string \<Rightarrow> int" where
  "integer_of p t = or_else (integer_text p t) 0"

fun accepts :: "platform \<Rightarrow> variable_schema \<Rightarrow> string \<Rightarrow> bool" where
  "accepts p (IntegerSchema lo hi) t = (case integer_text p t of None \<Rightarrow> False | Some n \<Rightarrow> lo \<le> n \<and> n \<le> hi)"
| "accepts p BooleanSchema t = (t = ''true'' \<or> t = ''false'')"
| "accepts p OptionalText t = True"
| "accepts p (BoundedText lo hi) t = (lo \<le> length (trim_string t) \<and> length (trim_string t) \<le> hi)"
| "accepts p (EnumSchema vs) t = (t \<in> set vs)"
| "accepts p AnyText t = True"
| "accepts p RatioSchema t = (case pf_number p t of None \<Rightarrow> False | Some q \<Rightarrow> 0 \<le> q \<and> q \<le> 1)"

definition variable_ok :: "platform \<Rightarrow> (string \<Rightarrow> string option) \<Rightarrow> string \<times> variable_schema \<Rightarrow> bool" where
  "variable_ok p raw v = (case raw (fst v) of None \<Rightarrow> True | Some t \<Rightarrow> accepts p (snd v) t)"

definition invalid_variables :: "platform \<Rightarrow> (string \<Rightarrow> string option) \<Rightarrow> string list" where
  "invalid_variables p raw = map fst (filter (\<lambda>v. \<not> variable_ok p raw v) environment_variables)"

section \<open>Reading\<close>

definition integer_variable :: "platform \<Rightarrow> (string \<Rightarrow> string option) \<Rightarrow> string \<Rightarrow> int \<Rightarrow> int" where
  "integer_variable p raw name d = (case raw name of None \<Rightarrow> d | Some t \<Rightarrow> integer_of p t)"

definition boolean_variable :: "(string \<Rightarrow> string option) \<Rightarrow> string \<Rightarrow> bool option" where
  "boolean_variable raw name = map_option (\<lambda>t. t = ''true'') (raw name)"

definition optional_text :: "(string \<Rightarrow> string option) \<Rightarrow> string \<Rightarrow> string option" where
  "optional_text raw name =
     (case raw name of None \<Rightarrow> None | Some t \<Rightarrow> if trim_string t = [] then None else Some (trim_string t))"

definition text_variable :: "(string \<Rightarrow> string option) \<Rightarrow> string \<Rightarrow> string \<Rightarrow> string" where
  "text_variable raw name d = (case raw name of None \<Rightarrow> d | Some t \<Rightarrow> trim_string t)"

definition node_environment_of :: "string \<Rightarrow> node_environment option" where
  "node_environment_of t = map_of [(''development'', Development), (''test'', Test), (''staging'', Staging),
     (''production'', Production)] t"

definition app_role_of :: "string \<Rightarrow> app_role option" where
  "app_role_of t = map_of [(''api'', Api), (''realtime'', Realtime), (''worker'', Worker), (''migration'', Migration)] t"

definition redis_mode_of :: "string \<Rightarrow> redis_mode option" where
  "redis_mode_of t = map_of [(''standalone'', Standalone), (''cluster'', Cluster)] t"

definition signer_kind_of :: "string \<Rightarrow> signer_kind option" where
  "signer_kind_of t = map_of [(''file'', FileSigner), (''aws-kms'', AwsKms)] t"

record server_environment =
  APP_ROLE :: "app_role option"
  APP_VERSION :: string
  REGION :: string
  SHUTDOWN_GRACE_MS :: int
  HTTP_HOST :: string
  HTTP_PORT :: "int option"
  PUBLIC_APP_ORIGIN :: string
  PUBLIC_API_ORIGIN :: string
  PUBLIC_REALTIME_URL :: string
  ALLOWED_ORIGINS :: "string option"
  TRUSTED_PROXY_CIDRS :: "string option"
  HTTP_MAX_BODY_BYTES :: int
  HTTP_REQUEST_TIMEOUT_MS :: int
  HTTP_KEEP_ALIVE_TIMEOUT_MS :: int
  HEALTH_CHECK_TIMEOUT_MS :: int
  OPENAPI_ENABLED :: "bool option"
  OPENAPI_PATH :: string
  OPENAPI_JSON_PATH :: string
  ASYNCAPI_JSON_PATH :: string
  LOG_LEVEL :: string
  OTEL_EXPORTER_OTLP_ENDPOINT :: "string option"
  OTEL_TRACES_SAMPLER :: string
  OTEL_TRACES_SAMPLER_ARG :: rat

record infrastructure_environment =
  SECRET_MOUNT_ROOT :: string
  DATABASE_ENABLED :: "bool option"
  DATABASE_URL :: "string option"
  DATABASE_URL_FILE :: "string option"
  DATABASE_DIRECT_URL :: "string option"
  DATABASE_DIRECT_URL_FILE :: "string option"
  DATABASE_SSL_CA_FILE :: "string option"
  DATABASE_TLS_REQUIRED :: "bool option"
  DATABASE_POOL_MAX :: int
  DATABASE_CONNECT_TIMEOUT_MS :: int
  DATABASE_QUERY_TIMEOUT_MS :: int
  DATABASE_STATEMENT_TIMEOUT_MS :: int
  DATABASE_LOCK_TIMEOUT_MS :: int
  DATABASE_IDLE_TX_TIMEOUT_MS :: int
  DATABASE_APPLICATION_NAME :: "string option"
  MIGRATION_LOCK_ID :: int
  REDIS_ENABLED :: "bool option"
  REDIS_MODE :: "redis_mode option"
  REDIS_URLS :: "string option"
  REDIS_URL_FILE :: "string option"
  REDIS_SSL_CA_FILE :: "string option"
  REDIS_TLS_REQUIRED :: "bool option"
  REDIS_CLIENT_NAME :: "string option"
  REDIS_KEY_PREFIX :: string
  REDIS_CONNECT_TIMEOUT_MS :: int
  REDIS_MAX_RECONNECT_DELAY_MS :: int

record sfu_environment =
  SFU_ADMISSION_ENABLED :: "bool option"
  SFU_ADMISSION_ISSUER :: string
  SFU_ADMISSION_AUDIENCE :: string
  SFU_PUBLIC_URL :: string
  SFU_ADMISSION_TOKEN_TTL_SECONDS :: int
  SFU_ADMISSION_CLOCK_SKEW_SECONDS :: int
  SFU_ADMISSION_ISSUE_RATE_LIMIT :: int
  SFU_ADMISSION_RATE_LIMIT_WINDOW_SECONDS :: int
  SFU_ADMISSION_SIGNER :: "signer_kind option"
  SFU_ADMISSION_KEY_ID :: "string option"
  SFU_ADMISSION_PRIVATE_KEY_FILE :: "string option"
  SFU_ADMISSION_KMS_KEY_ID :: "string option"
  SFU_ADMISSION_KMS_REGION :: "string option"
  SFU_ADMISSION_RETIRED_JWKS_FILE :: "string option"
  SFU_ADMISSION_SIGNER_CONCURRENCY :: int
  SFU_ADMISSION_SIGNER_QUEUE_CAPACITY :: int
  SFU_ADMISSION_SIGN_TIMEOUT_MS :: int
  SFU_ADMISSION_AUDIT_RETENTION_DAYS :: int
  SFU_ADMISSION_AUDIT_CLEANUP_BATCH_SIZE :: int
  SFU_ADMISSION_AUDIT_CLEANUP_INTERVAL_MS :: int

record full_environment =
  fe_core :: environment
  fe_server :: server_environment
  fe_infrastructure :: infrastructure_environment
  fe_sfu :: sfu_environment

definition read_core :: "platform \<Rightarrow> (string \<Rightarrow> string option) \<Rightarrow> environment" where
  "read_core p raw = \<lparr>
     NODE_ENV = or_else (Option.bind (raw ''NODE_ENV'') node_environment_of) Development,
     OUTBOX_BATCH_SIZE = integer_variable p raw ''OUTBOX_BATCH_SIZE'' 50,
     OUTBOX_CONCURRENCY = integer_variable p raw ''OUTBOX_CONCURRENCY'' 10,
     OUTBOX_LEASE_MS = integer_variable p raw ''OUTBOX_LEASE_MS'' 30000,
     OUTBOX_MAX_ATTEMPTS = integer_variable p raw ''OUTBOX_MAX_ATTEMPTS'' 12,
     OUTBOX_BASE_RETRY_MS = integer_variable p raw ''OUTBOX_BASE_RETRY_MS'' 1000,
     OUTBOX_MAX_RETRY_MS = integer_variable p raw ''OUTBOX_MAX_RETRY_MS'' 300000,
     OUTBOX_POLL_INTERVAL_MS = integer_variable p raw ''OUTBOX_POLL_INTERVAL_MS'' 500,
     MEETINGS_ENABLED = boolean_variable raw ''MEETINGS_ENABLED'',
     CAPABILITY_HMAC_KEYRING = optional_text raw ''CAPABILITY_HMAC_KEYRING'',
     CAPABILITY_HMAC_KEYRING_FILE = optional_text raw ''CAPABILITY_HMAC_KEYRING_FILE'',
     SESSION_HMAC_KEYRING = optional_text raw ''SESSION_HMAC_KEYRING'',
     SESSION_HMAC_KEYRING_FILE = optional_text raw ''SESSION_HMAC_KEYRING_FILE'',
     MEETING_CAPABILITY_TTL_SECONDS = integer_variable p raw ''MEETING_CAPABILITY_TTL_SECONDS'' 86400,
     MEETING_TTL_SECONDS = integer_variable p raw ''MEETING_TTL_SECONDS'' 86400,
     SESSION_IDLE_TTL_SECONDS = integer_variable p raw ''SESSION_IDLE_TTL_SECONDS'' 3600,
     SESSION_ABSOLUTE_TTL_SECONDS = integer_variable p raw ''SESSION_ABSOLUTE_TTL_SECONDS'' 21600,
     SESSION_COOKIE_NAME = optional_text raw ''SESSION_COOKIE_NAME'',
     MEETING_CREATE_RATE_LIMIT = integer_variable p raw ''MEETING_CREATE_RATE_LIMIT'' 20,
     MEETING_JOIN_RATE_LIMIT = integer_variable p raw ''MEETING_JOIN_RATE_LIMIT'' 60,
     MEETING_RATE_LIMIT_WINDOW_SECONDS = integer_variable p raw ''MEETING_RATE_LIMIT_WINDOW_SECONDS'' 60,
     REALTIME_TICKET_TTL_SECONDS = integer_variable p raw ''REALTIME_TICKET_TTL_SECONDS'' 20,
     REALTIME_AUTH_TIMEOUT_MS = integer_variable p raw ''REALTIME_AUTH_TIMEOUT_MS'' 5000,
     REALTIME_HEARTBEAT_INTERVAL_MS = integer_variable p raw ''REALTIME_HEARTBEAT_INTERVAL_MS'' 25000,
     REALTIME_PRESENCE_TTL_SECONDS = integer_variable p raw ''REALTIME_PRESENCE_TTL_SECONDS'' 75,
     REALTIME_MAX_MESSAGE_BYTES = integer_variable p raw ''REALTIME_MAX_MESSAGE_BYTES'' 16384,
     REALTIME_MAX_BUFFERED_BYTES = integer_variable p raw ''REALTIME_MAX_BUFFERED_BYTES'' 1048576,
     REALTIME_MAX_PENDING_COMMANDS = integer_variable p raw ''REALTIME_MAX_PENDING_COMMANDS'' 16,
     REALTIME_MESSAGE_RATE_PER_SECOND = integer_variable p raw ''REALTIME_MESSAGE_RATE_PER_SECOND'' 20,
     REALTIME_MESSAGE_BURST = integer_variable p raw ''REALTIME_MESSAGE_BURST'' 40,
     REALTIME_MAX_CONNECTIONS_PER_SOURCE = integer_variable p raw ''REALTIME_MAX_CONNECTIONS_PER_SOURCE'' 32,
     REALTIME_MAX_CONNECTIONS_PER_SESSION = integer_variable p raw ''REALTIME_MAX_CONNECTIONS_PER_SESSION'' 4,
     REALTIME_TICKET_ISSUE_RATE_LIMIT = integer_variable p raw ''REALTIME_TICKET_ISSUE_RATE_LIMIT'' 12,
     REALTIME_TICKET_RATE_WINDOW_SECONDS = integer_variable p raw ''REALTIME_TICKET_RATE_WINDOW_SECONDS'' 60,
     REALTIME_SESSION_REVALIDATE_SECONDS = integer_variable p raw ''REALTIME_SESSION_REVALIDATE_SECONDS'' 30,
     REALTIME_MAX_PRESENCE_SNAPSHOT_PARTICIPANTS = integer_variable p raw ''REALTIME_MAX_PRESENCE_SNAPSHOT_PARTICIPANTS'' 500,
     CHAT_ENABLED = boolean_variable raw ''CHAT_ENABLED'',
     CHAT_MAX_CIPHERTEXT_BYTES = integer_variable p raw ''CHAT_MAX_CIPHERTEXT_BYTES'' 8192,
     CHAT_HISTORY_PAGE_DEFAULT = integer_variable p raw ''CHAT_HISTORY_PAGE_DEFAULT'' 50,
     CHAT_HISTORY_PAGE_MAX = integer_variable p raw ''CHAT_HISTORY_PAGE_MAX'' 200,
     CHAT_RATE_PER_PARTICIPANT = integer_variable p raw ''CHAT_RATE_PER_PARTICIPANT'' 5,
     CHAT_RATE_BURST = integer_variable p raw ''CHAT_RATE_BURST'' 10,
     CHAT_FAST_PATH_LEASE_MS = integer_variable p raw ''CHAT_FAST_PATH_LEASE_MS'' 3000,
     CHAT_HIGH_WATERMARK_INTERVAL_MS = integer_variable p raw ''CHAT_HIGH_WATERMARK_INTERVAL_MS'' 5000,
     CHAT_REORDER_BUFFER_MESSAGES = integer_variable p raw ''CHAT_REORDER_BUFFER_MESSAGES'' 256,
     CHAT_RETENTION_DAYS = integer_variable p raw ''CHAT_RETENTION_DAYS'' 30,
     CHAT_CLEANUP_BATCH_SIZE = integer_variable p raw ''CHAT_CLEANUP_BATCH_SIZE'' 500,
     CHAT_CLEANUP_INTERVAL_MS = integer_variable p raw ''CHAT_CLEANUP_INTERVAL_MS'' 300000,
     REDIS_COMMAND_TIMEOUT_MS = integer_variable p raw ''REDIS_COMMAND_TIMEOUT_MS'' 2000\<rparr>"

definition read_server :: "platform \<Rightarrow> (string \<Rightarrow> string option) \<Rightarrow> server_environment" where
  "read_server p raw = \<lparr>
     APP_ROLE = Option.bind (raw ''APP_ROLE'') app_role_of,
     APP_VERSION = text_variable raw ''APP_VERSION'' ''0.1.0-dev'',
     REGION = text_variable raw ''REGION'' ''local'',
     SHUTDOWN_GRACE_MS = integer_variable p raw ''SHUTDOWN_GRACE_MS'' 15000,
     HTTP_HOST = text_variable raw ''HTTP_HOST'' ''127.0.0.1'',
     HTTP_PORT = map_option (integer_of p) (raw ''HTTP_PORT''),
     PUBLIC_APP_ORIGIN = text_variable raw ''PUBLIC_APP_ORIGIN'' ''http://localhost:5173'',
     PUBLIC_API_ORIGIN = text_variable raw ''PUBLIC_API_ORIGIN'' ''http://localhost:3000'',
     PUBLIC_REALTIME_URL = text_variable raw ''PUBLIC_REALTIME_URL'' ''ws://localhost:3001/v1/realtime'',
     ALLOWED_ORIGINS = raw ''ALLOWED_ORIGINS'',
     TRUSTED_PROXY_CIDRS = raw ''TRUSTED_PROXY_CIDRS'',
     HTTP_MAX_BODY_BYTES = integer_variable p raw ''HTTP_MAX_BODY_BYTES'' 1048576,
     HTTP_REQUEST_TIMEOUT_MS = integer_variable p raw ''HTTP_REQUEST_TIMEOUT_MS'' 15000,
     HTTP_KEEP_ALIVE_TIMEOUT_MS = integer_variable p raw ''HTTP_KEEP_ALIVE_TIMEOUT_MS'' 72000,
     HEALTH_CHECK_TIMEOUT_MS = integer_variable p raw ''HEALTH_CHECK_TIMEOUT_MS'' 1000,
     OPENAPI_ENABLED = boolean_variable raw ''OPENAPI_ENABLED'',
     OPENAPI_PATH = text_variable raw ''OPENAPI_PATH'' ''/docs'',
     OPENAPI_JSON_PATH = text_variable raw ''OPENAPI_JSON_PATH'' ''/openapi.json'',
     ASYNCAPI_JSON_PATH = text_variable raw ''ASYNCAPI_JSON_PATH'' ''/asyncapi.json'',
     LOG_LEVEL = or_else (raw ''LOG_LEVEL'') ''info'',
     OTEL_EXPORTER_OTLP_ENDPOINT = optional_text raw ''OTEL_EXPORTER_OTLP_ENDPOINT'',
     OTEL_TRACES_SAMPLER = or_else (raw ''OTEL_TRACES_SAMPLER'') ''parentbased_traceidratio'',
     OTEL_TRACES_SAMPLER_ARG = (case raw ''OTEL_TRACES_SAMPLER_ARG'' of None \<Rightarrow> 1 | Some t \<Rightarrow> or_else (pf_number p t) 0)\<rparr>"

definition read_infrastructure :: "platform \<Rightarrow> (string \<Rightarrow> string option) \<Rightarrow> infrastructure_environment" where
  "read_infrastructure p raw = \<lparr>
     SECRET_MOUNT_ROOT = text_variable raw ''SECRET_MOUNT_ROOT'' ''/run/secrets'',
     DATABASE_ENABLED = boolean_variable raw ''DATABASE_ENABLED'',
     DATABASE_URL = optional_text raw ''DATABASE_URL'',
     DATABASE_URL_FILE = optional_text raw ''DATABASE_URL_FILE'',
     DATABASE_DIRECT_URL = optional_text raw ''DATABASE_DIRECT_URL'',
     DATABASE_DIRECT_URL_FILE = optional_text raw ''DATABASE_DIRECT_URL_FILE'',
     DATABASE_SSL_CA_FILE = optional_text raw ''DATABASE_SSL_CA_FILE'',
     DATABASE_TLS_REQUIRED = boolean_variable raw ''DATABASE_TLS_REQUIRED'',
     DATABASE_POOL_MAX = integer_variable p raw ''DATABASE_POOL_MAX'' 10,
     DATABASE_CONNECT_TIMEOUT_MS = integer_variable p raw ''DATABASE_CONNECT_TIMEOUT_MS'' 5000,
     DATABASE_QUERY_TIMEOUT_MS = integer_variable p raw ''DATABASE_QUERY_TIMEOUT_MS'' 10000,
     DATABASE_STATEMENT_TIMEOUT_MS = integer_variable p raw ''DATABASE_STATEMENT_TIMEOUT_MS'' 9000,
     DATABASE_LOCK_TIMEOUT_MS = integer_variable p raw ''DATABASE_LOCK_TIMEOUT_MS'' 2000,
     DATABASE_IDLE_TX_TIMEOUT_MS = integer_variable p raw ''DATABASE_IDLE_TX_TIMEOUT_MS'' 10000,
     DATABASE_APPLICATION_NAME = optional_text raw ''DATABASE_APPLICATION_NAME'',
     MIGRATION_LOCK_ID = integer_variable p raw ''MIGRATION_LOCK_ID'' 1934622993,
     REDIS_ENABLED = boolean_variable raw ''REDIS_ENABLED'',
     REDIS_MODE = Option.bind (raw ''REDIS_MODE'') redis_mode_of,
     REDIS_URLS = optional_text raw ''REDIS_URLS'',
     REDIS_URL_FILE = optional_text raw ''REDIS_URL_FILE'',
     REDIS_SSL_CA_FILE = optional_text raw ''REDIS_SSL_CA_FILE'',
     REDIS_TLS_REQUIRED = boolean_variable raw ''REDIS_TLS_REQUIRED'',
     REDIS_CLIENT_NAME = optional_text raw ''REDIS_CLIENT_NAME'',
     REDIS_KEY_PREFIX = or_else (raw ''REDIS_KEY_PREFIX'') ''hf:v1'',
     REDIS_CONNECT_TIMEOUT_MS = integer_variable p raw ''REDIS_CONNECT_TIMEOUT_MS'' 5000,
     REDIS_MAX_RECONNECT_DELAY_MS = integer_variable p raw ''REDIS_MAX_RECONNECT_DELAY_MS'' 5000\<rparr>"

definition read_sfu :: "platform \<Rightarrow> (string \<Rightarrow> string option) \<Rightarrow> sfu_environment" where
  "read_sfu p raw = \<lparr>
     SFU_ADMISSION_ENABLED = boolean_variable raw ''SFU_ADMISSION_ENABLED'',
     SFU_ADMISSION_ISSUER = text_variable raw ''SFU_ADMISSION_ISSUER'' ''http://localhost:3000'',
     SFU_ADMISSION_AUDIENCE = text_variable raw ''SFU_ADMISSION_AUDIENCE'' ''sfu-server'',
     SFU_PUBLIC_URL = text_variable raw ''SFU_PUBLIC_URL'' ''ws://localhost:4000/ws'',
     SFU_ADMISSION_TOKEN_TTL_SECONDS = integer_variable p raw ''SFU_ADMISSION_TOKEN_TTL_SECONDS'' 60,
     SFU_ADMISSION_CLOCK_SKEW_SECONDS = integer_variable p raw ''SFU_ADMISSION_CLOCK_SKEW_SECONDS'' 5,
     SFU_ADMISSION_ISSUE_RATE_LIMIT = integer_variable p raw ''SFU_ADMISSION_ISSUE_RATE_LIMIT'' 12,
     SFU_ADMISSION_RATE_LIMIT_WINDOW_SECONDS = integer_variable p raw ''SFU_ADMISSION_RATE_LIMIT_WINDOW_SECONDS'' 60,
     SFU_ADMISSION_SIGNER = Option.bind (raw ''SFU_ADMISSION_SIGNER'') signer_kind_of,
     SFU_ADMISSION_KEY_ID = optional_text raw ''SFU_ADMISSION_KEY_ID'',
     SFU_ADMISSION_PRIVATE_KEY_FILE = optional_text raw ''SFU_ADMISSION_PRIVATE_KEY_FILE'',
     SFU_ADMISSION_KMS_KEY_ID = optional_text raw ''SFU_ADMISSION_KMS_KEY_ID'',
     SFU_ADMISSION_KMS_REGION = optional_text raw ''SFU_ADMISSION_KMS_REGION'',
     SFU_ADMISSION_RETIRED_JWKS_FILE = optional_text raw ''SFU_ADMISSION_RETIRED_JWKS_FILE'',
     SFU_ADMISSION_SIGNER_CONCURRENCY = integer_variable p raw ''SFU_ADMISSION_SIGNER_CONCURRENCY'' 8,
     SFU_ADMISSION_SIGNER_QUEUE_CAPACITY = integer_variable p raw ''SFU_ADMISSION_SIGNER_QUEUE_CAPACITY'' 256,
     SFU_ADMISSION_SIGN_TIMEOUT_MS = integer_variable p raw ''SFU_ADMISSION_SIGN_TIMEOUT_MS'' 2000,
     SFU_ADMISSION_AUDIT_RETENTION_DAYS = integer_variable p raw ''SFU_ADMISSION_AUDIT_RETENTION_DAYS'' 30,
     SFU_ADMISSION_AUDIT_CLEANUP_BATCH_SIZE = integer_variable p raw ''SFU_ADMISSION_AUDIT_CLEANUP_BATCH_SIZE'' 500,
     SFU_ADMISSION_AUDIT_CLEANUP_INTERVAL_MS = integer_variable p raw ''SFU_ADMISSION_AUDIT_CLEANUP_INTERVAL_MS'' 300000\<rparr>"

fun comma_list :: "string list \<Rightarrow> string" where
  "comma_list [] = []"
| "comma_list [x] = x"
| "comma_list (x # xs) = x @ '', '' @ comma_list xs"

definition environmentSchema :: "platform \<Rightarrow> (string \<Rightarrow> string option) \<Rightarrow> full_environment outcome" where
  "environmentSchema p raw =
     (if invalid_variables p raw \<noteq> []
      then Inl (ConfigurationError (''Invalid configuration: '' @ comma_list (invalid_variables p raw)))
      else Inr \<lparr>fe_core = read_core p raw, fe_server = read_server p raw,
        fe_infrastructure = read_infrastructure p raw, fe_sfu = read_sfu p raw\<rparr>)"

end
