(* ===== verification/Dependencies.thy ===== *)
theory Dependencies
  imports EnvironmentSchema
begin

text \<open>
  What a process is configured to depend on (\<open>infrastructure-config-loader.ts\<close>,
  \<open>meetings-config-loader.ts\<close>, \<open>sfu-admission-config-loader.ts\<close>): the database, Redis, the HMAC
  keyrings and the signer, each with the source of its secret, and what a staging or production process
  is guaranteed about them.
\<close>

section \<open>Sections\<close>

record secrets_config =
  sk_mountRoot :: string
  sk_requireRestrictedPermissions :: bool

record database_config =
  dc_enabled :: bool
  dc_connectionString :: "string option"
  dc_connectionStringFile :: "string option"
  dc_tlsCaFile :: "string option"
  dc_tlsRequired :: bool
  dc_applicationName :: string
  dc_poolMax :: int
  dc_connectTimeoutMs :: int
  dc_queryTimeoutMs :: int
  dc_statementTimeoutMs :: int
  dc_lockTimeoutMs :: int
  dc_idleTransactionTimeoutMs :: int
  dc_migrationLockId :: int

record redis_config =
  rd_enabled :: bool
  rd_mode :: redis_mode
  rd_connectionUrls :: "string list option"
  rd_connectionUrlsFile :: "string option"
  rd_tlsCaFile :: "string option"
  rd_tlsRequired :: bool
  rd_clientName :: string
  rd_keyPrefix :: string
  rd_connectTimeoutMs :: int
  rd_commandTimeoutMs :: int
  rd_maxReconnectDelayMs :: int

datatype signer_config =
  is_FileSignerConfig: FileSignerConfig (sg_keyId: string) (sg_privateKeyFile: string)
| KmsSignerConfig (sg_keyId: string) (sg_kmsKeyId: string) (sg_region: string)

record sfu_admission_config = sfu_config +
  sc_signer :: "signer_config option"
  sc_retiredJwksFile :: "string option"

text \<open>\<open>readSecretFile(file, config.secrets)\<close>\<close>

definition read_secret :: "(string \<Rightarrow> string + open_file) \<Rightarrow> secrets_config \<Rightarrow> string \<Rightarrow> string outcome" where
  "read_secret open_nofollow secrets f =
     readSecretFile open_nofollow (sk_mountRoot secrets) (sk_requireRestrictedPermissions secrets) f"

definition secure_deployment :: "node_environment \<Rightarrow> bool" where
  "secure_deployment e = (e = Staging \<or> e = Production)"

fun app_role_name :: "app_role \<Rightarrow> string" where
  "app_role_name Api = ''api''"
| "app_role_name Realtime = ''realtime''"
| "app_role_name Worker = ''worker''"
| "app_role_name Migration = ''migration''"

section \<open>Connection strings\<close>

definition parseUrl :: "platform \<Rightarrow> string \<Rightarrow> string \<Rightarrow> url outcome" where
  "parseUrl p v name = require (pf_url p v) (ConfigurationError (name @ '' must contain valid absolute URLs''))"

definition validatePostgresUrl :: "platform \<Rightarrow> string \<Rightarrow> string \<Rightarrow> bool \<Rightarrow> unit outcome" where
  "validatePostgresUrl p v name requireTls =
     and_then (parseUrl p v name) (\<lambda>u.
       if ul_protocol u \<noteq> ''postgres:'' \<and> ul_protocol u \<noteq> ''postgresql:''
       then Inl (ConfigurationError (name @ '' must use postgres or postgresql''))
       else if ul_hash u \<noteq> [] then Inl (ConfigurationError (name @ '' must not contain a fragment''))
       else ensure (\<not> (requireTls \<and> ul_sslmode u = Some ''disable''))
         (ConfigurationError (name @ '' must not disable TLS'')))"

definition validateRedisUrl :: "platform \<Rightarrow> string \<Rightarrow> string \<Rightarrow> bool \<Rightarrow> unit outcome" where
  "validateRedisUrl p v name requireTls =
     and_then (parseUrl p v name) (\<lambda>u.
       if ul_protocol u \<noteq> ''redis:'' \<and> ul_protocol u \<noteq> ''rediss:''
       then Inl (ConfigurationError (name @ '' must use redis or rediss''))
       else if ul_hash u \<noteq> [] \<or> ul_search u \<noteq> []
       then Inl (ConfigurationError (name @ '' must not contain a query or fragment''))
       else ensure (\<not> (requireTls \<and> ul_protocol u \<noteq> ''rediss:''))
         (ConfigurationError (name @ '' must use rediss'')))"

fun validate_all :: "('a \<Rightarrow> unit outcome) \<Rightarrow> 'a list \<Rightarrow> unit outcome" where
  "validate_all f [] = Inr ()"
| "validate_all f (x # xs) = and_then (f x) (\<lambda>_. validate_all f xs)"

text \<open>\<open>[...new Set(values)]\<close>: the first of equal elements stays.\<close>

definition first_occurrences :: "'a list \<Rightarrow> 'a list" where
  "first_occurrences xs = rev (remdups (rev xs))"

definition url_items :: "string \<Rightarrow> string list" where
  "url_items v = filter (\<lambda>x. x \<noteq> [])
     (map trim_string (concat (map (split_on CHR '','') (split_on CHR 0x0A v))))"

definition parseRedisUrls :: "platform \<Rightarrow> string \<Rightarrow> string list outcome" where
  "parseRedisUrls p v =
     (if url_items v = [] then Inl (ConfigurationError ''REDIS_URLS cannot be empty'')
      else and_then (validate_all (\<lambda>u. validateRedisUrl p u ''REDIS_URLS'' False) (url_items v))
        (\<lambda>_. Inr (first_occurrences (url_items v))))"

definition validateResolvedPostgresUrl :: "platform \<Rightarrow> string \<Rightarrow> bool \<Rightarrow> unit outcome" where
  "validateResolvedPostgresUrl p v requireTls = validatePostgresUrl p v ''PostgreSQL secret'' requireTls"

definition parseResolvedRedisUrls :: "platform \<Rightarrow> string \<Rightarrow> bool \<Rightarrow> string list outcome" where
  "parseResolvedRedisUrls p v requireTls =
     (if url_items v = [] then Inl (ConfigurationError ''Redis secret cannot be empty'')
      else and_then (validate_all (\<lambda>u. validateRedisUrl p u ''Redis secret'' requireTls) (url_items v))
        (\<lambda>_. Inr (first_occurrences (url_items v))))"

section \<open>PostgreSQL\<close>

definition selectSecretSource ::
  "platform \<Rightarrow> string option \<Rightarrow> string option \<Rightarrow> string \<Rightarrow> bool \<Rightarrow> string \<Rightarrow>
     (string option \<times> string option) outcome" where
  "selectSecretSource p inlineSecret file name secureDeployment mountRoot =
     (if inlineSecret \<noteq> None \<and> file \<noteq> None
      then Inl (ConfigurationError (name @ '' and '' @ name @ ''_FILE are mutually exclusive''))
      else if secureDeployment \<and> inlineSecret \<noteq> None
      then Inl (ConfigurationError (name @ '' must be provided through '' @ name @ ''_FILE''))
      else case file of
        Some f \<Rightarrow> and_then (normalizeSecretPath f (name @ ''_FILE'') mountRoot) (\<lambda>q. Inr (None, Some q))
      | None \<Rightarrow>
          (case inlineSecret of
            Some s \<Rightarrow> and_then (validatePostgresUrl p s name False) (\<lambda>_. Inr (Some s, None))
          | None \<Rightarrow> Inl (ConfigurationError (name @ ''_FILE is required when PostgreSQL is enabled''))))"

definition databaseDefaults ::
  "infrastructure_environment \<Rightarrow> string \<Rightarrow> app_role \<Rightarrow> bool \<Rightarrow> bool \<Rightarrow> database_config" where
  "databaseDefaults env version role enabled tlsRequired = \<lparr>
     dc_enabled = enabled, dc_connectionString = None, dc_connectionStringFile = None, dc_tlsCaFile = None,
     dc_tlsRequired = tlsRequired,
     dc_applicationName = or_else (DATABASE_APPLICATION_NAME env)
       (take 63 (''hello-friend-'' @ app_role_name role @ ''-'' @ version)),
     dc_poolMax = (if role = Migration then 1 else DATABASE_POOL_MAX env),
     dc_connectTimeoutMs = DATABASE_CONNECT_TIMEOUT_MS env,
     dc_queryTimeoutMs = DATABASE_QUERY_TIMEOUT_MS env,
     dc_statementTimeoutMs = DATABASE_STATEMENT_TIMEOUT_MS env,
     dc_lockTimeoutMs = DATABASE_LOCK_TIMEOUT_MS env,
     dc_idleTransactionTimeoutMs = DATABASE_IDLE_TX_TIMEOUT_MS env,
     dc_migrationLockId = MIGRATION_LOCK_ID env\<rparr>"

definition loadDatabaseConfig ::
  "platform \<Rightarrow> infrastructure_environment \<Rightarrow> string \<Rightarrow> app_role \<Rightarrow> bool \<Rightarrow> string \<Rightarrow> database_config outcome" where
  "loadDatabaseConfig p env version role secureDeployment mountRoot =
     (let enabled = or_else (DATABASE_ENABLED env) secureDeployment;
          inlineSecret = (if role = Migration then DATABASE_DIRECT_URL env else DATABASE_URL env);
          secretFile = (if role = Migration then DATABASE_DIRECT_URL_FILE env else DATABASE_URL_FILE env)
      in if secureDeployment \<and> \<not> enabled
      then Inl (ConfigurationError ''PostgreSQL cannot be disabled outside development'')
      else if \<not> enabled then Inr (databaseDefaults env version role False secureDeployment)
      else and_then (selectSecretSource p inlineSecret secretFile
          (if role = Migration then ''DATABASE_DIRECT_URL'' else ''DATABASE_URL'') secureDeployment mountRoot)
        (\<lambda>(inline, file).
          let tlsRequired = or_else (DATABASE_TLS_REQUIRED env) secureDeployment
          in if secureDeployment \<and> \<not> tlsRequired
          then Inl (ConfigurationError ''DATABASE_TLS_REQUIRED cannot be false outside development'')
          else and_then (normalizeOptionalSecretPath (DATABASE_SSL_CA_FILE env) ''DATABASE_SSL_CA_FILE'' mountRoot)
            (\<lambda>tlsCaFile.
              if secureDeployment \<and> tlsCaFile = None
              then Inl (ConfigurationError ''DATABASE_SSL_CA_FILE is required outside development'')
              else Inr ((databaseDefaults env version role True tlsRequired)
                \<lparr>dc_connectionString := inline, dc_connectionStringFile := file, dc_tlsCaFile := tlsCaFile\<rparr>))))"

section \<open>Redis\<close>

definition selectRedisSource ::
  "platform \<Rightarrow> string option \<Rightarrow> string option \<Rightarrow> bool \<Rightarrow> string \<Rightarrow>
     (string list option \<times> string option) outcome" where
  "selectRedisSource p inlineUrls file secureDeployment mountRoot =
     (if inlineUrls \<noteq> None \<and> file \<noteq> None
      then Inl (ConfigurationError ''REDIS_URLS and REDIS_URL_FILE are mutually exclusive'')
      else if secureDeployment \<and> inlineUrls \<noteq> None
      then Inl (ConfigurationError ''REDIS_URLS must be provided through REDIS_URL_FILE'')
      else case file of
        Some f \<Rightarrow> and_then (normalizeSecretPath f ''REDIS_URL_FILE'' mountRoot) (\<lambda>q. Inr (None, Some q))
      | None \<Rightarrow>
          (case inlineUrls of
            Some s \<Rightarrow> and_then (parseRedisUrls p s) (\<lambda>urls. Inr (Some urls, None))
          | None \<Rightarrow> Inl (ConfigurationError ''REDIS_URL_FILE is required when Redis is enabled'')))"

definition loadRedisConfig ::
  "platform \<Rightarrow> infrastructure_environment \<Rightarrow> string \<Rightarrow> int \<Rightarrow> app_role \<Rightarrow> bool \<Rightarrow> string \<Rightarrow> redis_config outcome" where
  "loadRedisConfig p env version commandTimeoutMs role secureDeployment mountRoot =
     (let enabled = (role \<noteq> Migration \<and> or_else (REDIS_ENABLED env) secureDeployment);
          mode = or_else (REDIS_MODE env) (if secureDeployment then Cluster else Standalone);
          defaults = \<lparr>rd_enabled = enabled, rd_mode = mode, rd_connectionUrls = None, rd_connectionUrlsFile = None,
            rd_tlsCaFile = None, rd_tlsRequired = or_else (REDIS_TLS_REQUIRED env) secureDeployment,
            rd_clientName = or_else (REDIS_CLIENT_NAME env)
              (take 63 (''hello-friend-'' @ app_role_name role @ ''-'' @ version)),
            rd_keyPrefix = REDIS_KEY_PREFIX env, rd_connectTimeoutMs = REDIS_CONNECT_TIMEOUT_MS env,
            rd_commandTimeoutMs = commandTimeoutMs, rd_maxReconnectDelayMs = REDIS_MAX_RECONNECT_DELAY_MS env\<rparr>
      in if secureDeployment \<and> role \<noteq> Migration \<and> \<not> enabled
      then Inl (ConfigurationError ''Redis cannot be disabled outside development'')
      else if secureDeployment \<and> role \<noteq> Migration \<and> mode \<noteq> Cluster
      then Inl (ConfigurationError ''Redis must use Cluster mode outside development'')
      else if \<not> enabled then Inr defaults
      else and_then (selectRedisSource p (REDIS_URLS env) (REDIS_URL_FILE env) secureDeployment mountRoot)
        (\<lambda>(urls, file).
          if secureDeployment \<and> \<not> rd_tlsRequired defaults
          then Inl (ConfigurationError ''REDIS_TLS_REQUIRED cannot be false outside development'')
          else and_then (normalizeOptionalSecretPath (REDIS_SSL_CA_FILE env) ''REDIS_SSL_CA_FILE'' mountRoot)
            (\<lambda>tlsCaFile.
              if secureDeployment \<and> tlsCaFile = None
              then Inl (ConfigurationError ''REDIS_SSL_CA_FILE is required outside development'')
              else Inr (defaults\<lparr>rd_connectionUrls := urls, rd_connectionUrlsFile := file,
                rd_tlsCaFile := tlsCaFile\<rparr>))))"

record infrastructure_config =
  ic_secrets :: secrets_config
  ic_database :: database_config
  ic_redis :: redis_config

definition loadInfrastructureConfig ::
  "platform \<Rightarrow> full_environment \<Rightarrow> app_role \<Rightarrow> infrastructure_config outcome" where
  "loadInfrastructureConfig p env role =
     (let secureDeployment = secure_deployment (NODE_ENV (fe_core env));
          ie = fe_infrastructure env;
          version = APP_VERSION (fe_server env)
      in and_then (normalizeMountRoot (SECRET_MOUNT_ROOT ie)) (\<lambda>mountRoot.
         and_then (loadDatabaseConfig p ie version role secureDeployment mountRoot) (\<lambda>database.
         and_then (loadRedisConfig p ie version (REDIS_COMMAND_TIMEOUT_MS (fe_core env)) role secureDeployment mountRoot)
         (\<lambda>redis. Inr \<lparr>ic_secrets = \<lparr>sk_mountRoot = mountRoot, sk_requireRestrictedPermissions = secureDeployment\<rparr>,
            ic_database = database, ic_redis = redis\<rparr>))))"

section \<open>Meetings\<close>

definition selectKeyring ::
  "string option \<Rightarrow> string option \<Rightarrow> string \<Rightarrow> bool \<Rightarrow> string \<Rightarrow> keyring_source outcome" where
  "selectKeyring inlineSecret file name secureDeployment mountRoot =
     (if inlineSecret \<noteq> None \<and> file \<noteq> None
      then Inl (ConfigurationError (name @ '' and '' @ name @ ''_FILE are mutually exclusive''))
      else if secureDeployment \<and> inlineSecret \<noteq> None
      then Inl (ConfigurationError (name @ '' must be provided through '' @ name @ ''_FILE''))
      else case file of
        Some f \<Rightarrow> and_then (normalizeSecretPath f (name @ ''_FILE'') mountRoot)
          (\<lambda>q. Inr \<lparr>ks_inlineSecret = None, ks_secretFile = Some q\<rparr>)
      | None \<Rightarrow>
          (case inlineSecret of
            Some s \<Rightarrow> Inr \<lparr>ks_inlineSecret = Some s, ks_secretFile = None\<rparr>
          | None \<Rightarrow> Inl (ConfigurationError (name @ ''_FILE is required when anonymous meetings are enabled''))))"

text \<open>\<open>/^(?:__Host-)?[A-Za-z0-9_-]{1,64}$/\<close>\<close>

definition cookie_token :: "string \<Rightarrow> bool" where
  "cookie_token s = (1 \<le> length s \<and> length s \<le> 64 \<and> list_all (\<lambda>c. is_alnum c \<or> c \<in> set ''_-'') s)"

definition canonical_cookie_name :: "string \<Rightarrow> bool" where
  "canonical_cookie_name s = (cookie_token s \<or> take 7 s = ''__Host-'' \<and> cookie_token (drop 7 s))"

definition loadMeetingsConfig :: "environment \<Rightarrow> app_role \<Rightarrow> string \<Rightarrow> meetings_config outcome" where
  "loadMeetingsConfig env role mountRoot =
     (let secureDeployment = secure_deployment (NODE_ENV env);
          servesMeetings = (role = Api \<or> role = Realtime);
          enabled = (servesMeetings \<and> or_else (MEETINGS_ENABLED env) secureDeployment);
          sessionCookieName = or_else (SESSION_COOKIE_NAME env)
            (if secureDeployment then ''__Host-hf_session'' else ''hf_session'');
          defaults = \<lparr>mc_enabled = enabled, mc_capabilityKeyring = None, mc_sessionKeyring = None,
            mc_capabilityTtlSeconds = MEETING_CAPABILITY_TTL_SECONDS env,
            mc_meetingTtlSeconds = MEETING_TTL_SECONDS env,
            mc_sessionIdleTtlSeconds = SESSION_IDLE_TTL_SECONDS env,
            mc_sessionAbsoluteTtlSeconds = SESSION_ABSOLUTE_TTL_SECONDS env,
            mc_sessionCookieName = sessionCookieName, mc_createRateLimit = MEETING_CREATE_RATE_LIMIT env,
            mc_joinRateLimit = MEETING_JOIN_RATE_LIMIT env,
            mc_rateLimitWindowSeconds = MEETING_RATE_LIMIT_WINDOW_SECONDS env\<rparr>
      in if secureDeployment \<and> servesMeetings \<and> \<not> enabled
      then Inl (ConfigurationError ''Anonymous meeting security cannot be disabled in API or realtime deployments'')
      else if \<not> canonical_cookie_name sessionCookieName
      then Inl (ConfigurationError ''SESSION_COOKIE_NAME has an invalid canonical format'')
      else if secureDeployment \<and> sessionCookieName \<noteq> ''__Host-hf_session''
      then Inl (ConfigurationError ''SESSION_COOKIE_NAME must be __Host-hf_session outside development'')
      else if MEETING_CAPABILITY_TTL_SECONDS env > MEETING_TTL_SECONDS env
      then Inl (ConfigurationError ''Capability lifetime must not exceed meeting lifetime'')
      else if SESSION_IDLE_TTL_SECONDS env > SESSION_ABSOLUTE_TTL_SECONDS env \<or>
        SESSION_ABSOLUTE_TTL_SECONDS env > MEETING_TTL_SECONDS env
      then Inl (ConfigurationError ''Session lifetimes must be ordered and bounded by meeting lifetime'')
      else if \<not> enabled then Inr defaults
      else and_then (selectKeyring (CAPABILITY_HMAC_KEYRING env) (CAPABILITY_HMAC_KEYRING_FILE env)
          ''CAPABILITY_HMAC_KEYRING'' secureDeployment mountRoot) (\<lambda>capabilityKeyring.
        and_then (selectKeyring (SESSION_HMAC_KEYRING env) (SESSION_HMAC_KEYRING_FILE env)
          ''SESSION_HMAC_KEYRING'' secureDeployment mountRoot) (\<lambda>sessionKeyring.
        Inr (defaults\<lparr>mc_capabilityKeyring := Some capabilityKeyring, mc_sessionKeyring := Some sessionKeyring\<rparr>))))"

section \<open>Media admission\<close>

definition normalizeIssuer :: "platform \<Rightarrow> string \<Rightarrow> bool \<Rightarrow> string outcome" where
  "normalizeIssuer p v secureDeployment =
     and_then (require (pf_url p v) (ConfigurationError ''SFU_ADMISSION_ISSUER must be a valid absolute URL'')) (\<lambda>u.
       if (ul_protocol u \<noteq> ''http:'' \<and> ul_protocol u \<noteq> ''https:'') \<or> ul_username u \<noteq> [] \<or> ul_password u \<noteq> [] \<or>
         ul_search u \<noteq> [] \<or> ul_hash u \<noteq> [] \<or> ul_pathname u \<noteq> ''/''
       then Inl (ConfigurationError ''SFU_ADMISSION_ISSUER must be a canonical HTTP origin'')
       else if secureDeployment \<and> ul_protocol u \<noteq> ''https:''
       then Inl (ConfigurationError ''SFU_ADMISSION_ISSUER must use HTTPS outside development/test'')
       else Inr (ul_origin u))"

definition normalizeSfuUrl :: "platform \<Rightarrow> string \<Rightarrow> bool \<Rightarrow> string outcome" where
  "normalizeSfuUrl p v secureDeployment =
     and_then (require (pf_url p v) (ConfigurationError ''SFU_PUBLIC_URL must be a valid absolute URL'')) (\<lambda>u.
       if (ul_protocol u \<noteq> ''ws:'' \<and> ul_protocol u \<noteq> ''wss:'') \<or> ul_username u \<noteq> [] \<or> ul_password u \<noteq> [] \<or>
         ul_search u \<noteq> [] \<or> ul_hash u \<noteq> [] \<or> ul_pathname u \<noteq> ''/ws''
       then Inl (ConfigurationError ''SFU_PUBLIC_URL must use the exact /ws path'')
       else if secureDeployment \<and> ul_protocol u \<noteq> ''wss:''
       then Inl (ConfigurationError ''SFU_PUBLIC_URL must use WSS outside development/test'')
       else Inr (ul_href u))"

text \<open>\<open>/^[A-Za-z0-9._-]{1,128}$/\<close> and \<open>/^[a-z]{2}(?:-gov)?-[a-z]+-[0-9]$/\<close>\<close>

definition canonical_key_id :: "string \<Rightarrow> bool" where
  "canonical_key_id s = (1 \<le> length s \<and> length s \<le> 128 \<and> list_all (\<lambda>c. is_alnum c \<or> c \<in> set ''._-'') s)"

definition region_name :: "string \<Rightarrow> string \<Rightarrow> string \<Rightarrow> bool" where
  "region_name a b c =
     (length a = 2 \<and> list_all is_lower a \<and> b \<noteq> [] \<and> list_all is_lower b \<and> length c = 1 \<and> list_all is_digit c)"

definition canonical_region :: "string \<Rightarrow> bool" where
  "canonical_region s =
     (case split_on CHR ''-'' s of
       [a, b, c] \<Rightarrow> region_name a b c
     | [a, g, b, c] \<Rightarrow> g = ''gov'' \<and> region_name a b c
     | _ \<Rightarrow> False)"

definition loadSigner :: "sfu_environment \<Rightarrow> bool \<Rightarrow> string \<Rightarrow> signer_config outcome" where
  "loadSigner env secureDeployment mountRoot =
     (case SFU_ADMISSION_KEY_ID env of
       None \<Rightarrow> Inl (ConfigurationError ''SFU_ADMISSION_KEY_ID has an invalid canonical format'')
     | Some keyId \<Rightarrow>
         if \<not> canonical_key_id keyId
         then Inl (ConfigurationError ''SFU_ADMISSION_KEY_ID has an invalid canonical format'')
         else if SFU_ADMISSION_SIGNER env = Some FileSigner
         then if secureDeployment
           then Inl (ConfigurationError ''File-backed SFU signing is forbidden outside development/test'')
           else case SFU_ADMISSION_PRIVATE_KEY_FILE env of
             None \<Rightarrow> Inl (ConfigurationError ''Configure exactly one file-backed SFU admission signer'')
           | Some f \<Rightarrow>
               if SFU_ADMISSION_KMS_KEY_ID env \<noteq> None \<or> SFU_ADMISSION_KMS_REGION env \<noteq> None
               then Inl (ConfigurationError ''Configure exactly one file-backed SFU admission signer'')
               else and_then (normalizeSecretPath f ''SFU_ADMISSION_PRIVATE_KEY_FILE'' mountRoot)
                 (\<lambda>q. Inr (FileSignerConfig keyId q))
         else case (SFU_ADMISSION_KMS_KEY_ID env, SFU_ADMISSION_KMS_REGION env) of
           (Some kmsKeyId, Some region) \<Rightarrow>
             if SFU_ADMISSION_SIGNER env \<noteq> Some AwsKms \<or> SFU_ADMISSION_PRIVATE_KEY_FILE env \<noteq> None
             then Inl (ConfigurationError ''Configure exactly one AWS KMS SFU admission signer'')
             else if \<not> canonical_region region
             then Inl (ConfigurationError ''SFU_ADMISSION_KMS_REGION has an invalid format'')
             else Inr (KmsSignerConfig keyId kmsKeyId region)
         | _ \<Rightarrow> Inl (ConfigurationError ''Configure exactly one AWS KMS SFU admission signer''))"

definition loadSfuAdmissionConfig ::
  "platform \<Rightarrow> node_environment \<Rightarrow> sfu_environment \<Rightarrow> app_role \<Rightarrow> string \<Rightarrow> sfu_admission_config outcome" where
  "loadSfuAdmissionConfig p nodeEnv env role mountRoot =
     (let secureDeployment = secure_deployment nodeEnv;
          enabled = ((role = Api \<or> role = Worker) \<and> or_else (SFU_ADMISSION_ENABLED env) False)
      in and_then (normalizeIssuer p (SFU_ADMISSION_ISSUER env) (secureDeployment \<and> enabled)) (\<lambda>issuer.
         and_then (normalizeSfuUrl p (SFU_PUBLIC_URL env) (secureDeployment \<and> enabled)) (\<lambda>publicUrl.
         if SFU_ADMISSION_TOKEN_TTL_SECONDS env \<le> SFU_ADMISSION_CLOCK_SKEW_SECONDS env * 2
         then Inl (ConfigurationError ''SFU_ADMISSION_TOKEN_TTL_SECONDS must exceed twice the configured clock skew'')
         else and_then (normalizeOptionalSecretPath (SFU_ADMISSION_RETIRED_JWKS_FILE env)
             ''SFU_ADMISSION_RETIRED_JWKS_FILE'' mountRoot) (\<lambda>retiredJwksFile.
         let base = \<lparr>sc_enabled = enabled, sc_issuer = issuer, sc_audience = SFU_ADMISSION_AUDIENCE env,
           sc_publicUrl = publicUrl, sc_tokenTtlSeconds = SFU_ADMISSION_TOKEN_TTL_SECONDS env,
           sc_clockSkewSeconds = SFU_ADMISSION_CLOCK_SKEW_SECONDS env,
           sc_issueRateLimit = SFU_ADMISSION_ISSUE_RATE_LIMIT env,
           sc_rateLimitWindowSeconds = SFU_ADMISSION_RATE_LIMIT_WINDOW_SECONDS env,
           sc_signerConcurrency = SFU_ADMISSION_SIGNER_CONCURRENCY env,
           sc_signerQueueCapacity = SFU_ADMISSION_SIGNER_QUEUE_CAPACITY env,
           sc_signerTimeoutMs = SFU_ADMISSION_SIGN_TIMEOUT_MS env,
           sc_auditRetentionDays = SFU_ADMISSION_AUDIT_RETENTION_DAYS env,
           sc_auditCleanupBatchSize = SFU_ADMISSION_AUDIT_CLEANUP_BATCH_SIZE env,
           sc_auditCleanupIntervalMs = SFU_ADMISSION_AUDIT_CLEANUP_INTERVAL_MS env,
           sc_signer = None, sc_retiredJwksFile = retiredJwksFile\<rparr>
         in if \<not> enabled \<or> role \<noteq> Api then Inr base
         else if SFU_ADMISSION_SIGNER env = None \<or> SFU_ADMISSION_KEY_ID env = None
         then Inl (ConfigurationError
           ''SFU_ADMISSION_SIGNER and SFU_ADMISSION_KEY_ID are required when admission is enabled'')
         else and_then (loadSigner env secureDeployment mountRoot) (\<lambda>signer. Inr (base\<lparr>sc_signer := Some signer\<rparr>))))))"

end
