(* ===== verification/Deployment.thy ===== *)
theory Deployment
  imports Dependencies
begin

text \<open>
  \<open>loadApplicationConfig\<close> (\<open>load-application-config.ts\<close>) with the parsers of \<open>environment-parsers.ts\<close>:
  the configuration of one process from its environment, and what a process that starts can rely on:
  values in their ranges, a staging or production deployment that is secure, secrets read only below
  their root.
\<close>

section \<open>Parsers\<close>

definition parseCsv :: "string option \<Rightarrow> string list" where
  "parseCsv v =
     (case v of
       None \<Rightarrow> []
     | Some s \<Rightarrow>
         if trim_string s = [] then []
         else first_occurrences (filter (\<lambda>x. x \<noteq> []) (map trim_string (split_on CHR '','' s))))"

definition normalizeOrigin :: "platform \<Rightarrow> string \<Rightarrow> string \<Rightarrow> string outcome" where
  "normalizeOrigin p v name =
     and_then (require (pf_url p v) (ConfigurationError (name @ '' must contain valid absolute origins''))) (\<lambda>u.
       if ul_origin u = ''null'' \<or> v \<noteq> ul_origin u
       then Inl (ConfigurationError (name @ '' entries must not contain a path, query or fragment''))
       else Inr (ul_origin u))"

fun map_outcome :: "('a \<Rightarrow> 'b outcome) \<Rightarrow> 'a list \<Rightarrow> 'b list outcome" where
  "map_outcome f [] = Inr []"
| "map_outcome f (x # xs) = and_then (f x) (\<lambda>y. and_then (map_outcome f xs) (\<lambda>ys. Inr (y # ys)))"

definition parseOrigins :: "platform \<Rightarrow> string option \<Rightarrow> string \<Rightarrow> string list outcome" where
  "parseOrigins p v fallback =
     (let values = parseCsv (Some (or_else v fallback))
      in if values = [] then Inl (ConfigurationError ''ALLOWED_ORIGINS cannot be empty'')
      else map_outcome (\<lambda>item. normalizeOrigin p item ''ALLOWED_ORIGINS'') values)"

text \<open>A prefix that \<open>Number\<close> cannot read, or that is missing, is no integer.\<close>

definition valid_cidr :: "platform \<Rightarrow> string \<Rightarrow> bool" where
  "valid_cidr p cidr =
     (case split_on CHR ''/'' cidr of
       [address, prefix] \<Rightarrow>
         pf_isIP p address \<noteq> 0 \<and>
         (case pf_number p prefix of
           None \<Rightarrow> False
         | Some q \<Rightarrow> q = rat_of_int \<lfloor>q\<rfloor> \<and> 0 \<le> q \<and> q \<le> (if pf_isIP p address = 4 then 32 else 128))
     | _ \<Rightarrow> False)"

definition assertValidCidrs :: "platform \<Rightarrow> string list \<Rightarrow> unit outcome" where
  "assertValidCidrs p cidrs =
     validate_all (\<lambda>c. ensure (valid_cidr p c)
       (ConfigurationError ''TRUSTED_PROXY_CIDRS contains an invalid CIDR'')) cidrs"

text \<open>\<open>/^\/[a-z0-9][a-z0-9/_.-]*$/i\<close>, no double slash, none at the end, and no dot segments.\<close>

definition route_path_ok :: "string \<Rightarrow> bool" where
  "route_path_ok v =
     (case v of
       a # b # cs \<Rightarrow>
         a = CHR ''/'' \<and> is_alnum b \<and> list_all (\<lambda>c. is_alnum c \<or> c \<in> set ''/_.-'') cs \<and>
         [] \<notin> set (tl (split_on CHR ''/'' v)) \<and>
         ''.'' \<notin> set (tl (split_on CHR ''/'' v)) \<and> ''..'' \<notin> set (tl (split_on CHR ''/'' v))
     | _ \<Rightarrow> False)"

definition normalizeRoutePath :: "string \<Rightarrow> string \<Rightarrow> string outcome" where
  "normalizeRoutePath v name =
     (if \<not> route_path_ok v then Inl (ConfigurationError (name @ '' must be a normalized absolute route path''))
      else Inr v)"

definition normalizeRealtimeUrl :: "platform \<Rightarrow> string \<Rightarrow> string outcome" where
  "normalizeRealtimeUrl p v =
     and_then (require (pf_url p v) (ConfigurationError ''PUBLIC_REALTIME_URL must be a valid absolute URL'')) (\<lambda>u.
       if ul_protocol u \<noteq> ''ws:'' \<and> ul_protocol u \<noteq> ''wss:''
       then Inl (ConfigurationError ''PUBLIC_REALTIME_URL must use ws or wss'')
       else if ul_username u \<noteq> [] \<or> ul_password u \<noteq> [] \<or> ul_search u \<noteq> [] \<or> ul_hash u \<noteq> [] \<or>
         ul_pathname u \<noteq> ''/v1/realtime''
       then Inl (ConfigurationError (''PUBLIC_REALTIME_URL must use the exact /v1/realtime path '' @
         ''without credentials, query or fragment''))
       else Inr (ul_href u))"

definition normalizeOtlpEndpoint :: "platform \<Rightarrow> string \<Rightarrow> node_environment \<Rightarrow> string outcome" where
  "normalizeOtlpEndpoint p v nodeEnv =
     and_then (require (pf_url p v)
         (ConfigurationError ''OTEL_EXPORTER_OTLP_ENDPOINT must be a valid absolute URL'')) (\<lambda>u.
       if nodeEnv = Production \<and> ul_protocol u \<noteq> ''https:''
       then Inl (ConfigurationError ''OTEL_EXPORTER_OTLP_ENDPOINT must use HTTPS in production'')
       else Inr (ul_href u))"

definition starts_with :: "string \<Rightarrow> string \<Rightarrow> bool" where
  "starts_with prefix s = (take (length prefix) s = prefix)"

definition assertSecureDeployment :: "string \<Rightarrow> string \<Rightarrow> string \<Rightarrow> string \<Rightarrow> unit outcome" where
  "assertSecureDeployment region appOrigin apiOrigin realtimeUrl =
     (if region = ''local''
      then Inl (ConfigurationError ''REGION must identify a deployment region outside local development'')
      else if \<not> starts_with ''https://'' appOrigin \<or> \<not> starts_with ''https://'' apiOrigin
      then Inl (ConfigurationError ''Public HTTP origins must use HTTPS outside local development'')
      else ensure (starts_with ''wss://'' realtimeUrl)
        (ConfigurationError ''PUBLIC_REALTIME_URL must use WSS outside local development''))"

section \<open>The configuration of a process\<close>

record runtime_config =
  rt_environment :: node_environment
  rt_role :: app_role
  rt_version :: string
  rt_region :: string
  rt_shutdownGraceMs :: int

record http_config =
  ht_host :: string
  ht_port :: int
  ht_publicAppOrigin :: string
  ht_publicApiOrigin :: string
  ht_publicRealtimeUrl :: string
  ht_allowedOrigins :: "string list"
  ht_trustedProxyCidrs :: "string list"
  ht_maxBodyBytes :: int
  ht_requestTimeoutMs :: int
  ht_keepAliveTimeoutMs :: int

record observability_config =
  ov_logLevel :: string
  ov_otlpEndpoint :: "string option"
  ov_traceSampler :: string
  ov_traceSamplerArgument :: rat

record documentation_config =
  dk_openApiEnabled :: bool
  dk_openApiPath :: string
  dk_openApiJsonPath :: string
  dk_asyncApiJsonPath :: string

record application_config =
  ap_runtime :: runtime_config
  ap_http :: http_config
  ap_dependencyTimeoutMs :: int
  ap_observability :: observability_config
  ap_documentation :: documentation_config
  ap_infrastructure :: infrastructure_config
  ap_outbox :: outbox_config
  ap_meetings :: meetings_config
  ap_realtime :: realtime_config
  ap_chat :: chat_config
  ap_sfuAdmission :: sfu_admission_config

fun default_port :: "app_role \<Rightarrow> int" where
  "default_port Api = 3000"
| "default_port Realtime = 3001"
| "default_port Worker = 3002"
| "default_port Migration = 3003"

definition loadHttpConfig :: "platform \<Rightarrow> full_environment \<Rightarrow> app_role \<Rightarrow> http_config outcome" where
  "loadHttpConfig p env role =
     (let se = fe_server env
      in and_then (normalizeOrigin p (PUBLIC_APP_ORIGIN se) ''PUBLIC_APP_ORIGIN'') (\<lambda>publicAppOrigin.
         and_then (normalizeOrigin p (PUBLIC_API_ORIGIN se) ''PUBLIC_API_ORIGIN'') (\<lambda>publicApiOrigin.
         and_then (normalizeRealtimeUrl p (PUBLIC_REALTIME_URL se)) (\<lambda>publicRealtimeUrl.
         and_then (parseOrigins p (ALLOWED_ORIGINS se) publicAppOrigin) (\<lambda>allowedOrigins.
         and_then (assertValidCidrs p (parseCsv (TRUSTED_PROXY_CIDRS se))) (\<lambda>_.
         Inr \<lparr>ht_host = HTTP_HOST se, ht_port = or_else (HTTP_PORT se) (default_port role),
           ht_publicAppOrigin = publicAppOrigin, ht_publicApiOrigin = publicApiOrigin,
           ht_publicRealtimeUrl = publicRealtimeUrl, ht_allowedOrigins = allowedOrigins,
           ht_trustedProxyCidrs = parseCsv (TRUSTED_PROXY_CIDRS se), ht_maxBodyBytes = HTTP_MAX_BODY_BYTES se,
           ht_requestTimeoutMs = HTTP_REQUEST_TIMEOUT_MS se,
           ht_keepAliveTimeoutMs = HTTP_KEEP_ALIVE_TIMEOUT_MS se\<rparr>))))))"

definition loadDocumentationConfig :: "full_environment \<Rightarrow> documentation_config outcome" where
  "loadDocumentationConfig env =
     (let se = fe_server env; nodeEnv = NODE_ENV (fe_core env)
      in and_then (normalizeRoutePath (OPENAPI_PATH se) ''OPENAPI_PATH'') (\<lambda>openApiPath.
         and_then (normalizeRoutePath (OPENAPI_JSON_PATH se) ''OPENAPI_JSON_PATH'') (\<lambda>openApiJsonPath.
         and_then (normalizeRoutePath (ASYNCAPI_JSON_PATH se) ''ASYNCAPI_JSON_PATH'') (\<lambda>asyncApiJsonPath.
         if \<not> distinct [openApiPath, openApiJsonPath, asyncApiJsonPath]
         then Inl (ConfigurationError ''OpenAPI and AsyncAPI publication paths must be different'')
         else Inr \<lparr>dk_openApiEnabled = or_else (OPENAPI_ENABLED se) (nodeEnv = Development \<or> nodeEnv = Test),
           dk_openApiPath = openApiPath, dk_openApiJsonPath = openApiJsonPath,
           dk_asyncApiJsonPath = asyncApiJsonPath\<rparr>))))"

definition loadObservabilityConfig :: "platform \<Rightarrow> full_environment \<Rightarrow> observability_config outcome" where
  "loadObservabilityConfig p env =
     (let se = fe_server env
      in and_then (case OTEL_EXPORTER_OTLP_ENDPOINT se of
           None \<Rightarrow> Inr None
         | Some v \<Rightarrow> and_then (normalizeOtlpEndpoint p v (NODE_ENV (fe_core env))) (\<lambda>u. Inr (Some u))) (\<lambda>endpoint.
         Inr \<lparr>ov_logLevel = LOG_LEVEL se, ov_otlpEndpoint = endpoint, ov_traceSampler = OTEL_TRACES_SAMPLER se,
           ov_traceSamplerArgument = OTEL_TRACES_SAMPLER_ARG se\<rparr>))"

text \<open>The relations between the sections that \<open>loadApplicationConfig\<close> checks itself.\<close>

definition assertMeetingDependencies :: "meetings_config \<Rightarrow> infrastructure_config \<Rightarrow> unit outcome" where
  "assertMeetingDependencies meetings infrastructure =
     ensure (\<not> (mc_enabled meetings \<and>
         (\<not> dc_enabled (ic_database infrastructure) \<or> \<not> rd_enabled (ic_redis infrastructure))))
       (ConfigurationError ''Anonymous meetings require both PostgreSQL and Redis'')"

definition assertChatDependencies :: "chat_config \<Rightarrow> app_role \<Rightarrow> infrastructure_config \<Rightarrow> unit outcome" where
  "assertChatDependencies chat role infrastructure =
     ensure (\<not> (cc_enabled chat \<and> (role = Realtime \<or> role = Worker) \<and>
         (\<not> dc_enabled (ic_database infrastructure) \<or> \<not> rd_enabled (ic_redis infrastructure))))
       (ConfigurationError ''Durable chat requires both PostgreSQL and Redis'')"

definition assertSfuDependencies ::
  "sfu_admission_config \<Rightarrow> app_role \<Rightarrow> meetings_config \<Rightarrow> infrastructure_config \<Rightarrow> unit outcome" where
  "assertSfuDependencies sfu role meetings infrastructure =
     ensure (\<not> (sc_enabled sfu \<and>
         (role = Api \<and> \<not> mc_enabled meetings \<or> \<not> dc_enabled (ic_database infrastructure) \<or>
          \<not> rd_enabled (ic_redis infrastructure))))
       (ConfigurationError ''SFU admission requires anonymous meetings, PostgreSQL, and Redis'')"

definition configure :: "platform \<Rightarrow> full_environment \<Rightarrow> app_role \<Rightarrow> application_config outcome" where
  "configure p env role =
     (let core = fe_core env; se = fe_server env; nodeEnv = NODE_ENV core
      in and_then (loadHttpConfig p env role) (\<lambda>http.
         and_then (loadDocumentationConfig env) (\<lambda>documentation.
         and_then (ensure (ht_publicAppOrigin http \<in> set (ht_allowedOrigins http))
           (ConfigurationError ''ALLOWED_ORIGINS must include PUBLIC_APP_ORIGIN'')) (\<lambda>_.
         and_then (if secure_deployment nodeEnv
           then assertSecureDeployment (REGION se) (ht_publicAppOrigin http) (ht_publicApiOrigin http)
             (ht_publicRealtimeUrl http) else Inr ()) (\<lambda>_.
         and_then (loadInfrastructureConfig p env role) (\<lambda>infrastructure.
         and_then (loadMeetingsConfig core role (sk_mountRoot (ic_secrets infrastructure))) (\<lambda>meetings.
         and_then (assertMeetingDependencies meetings infrastructure) (\<lambda>_.
         and_then (loadOutboxConfig core) (\<lambda>outbox.
         and_then (loadRealtimeConfig core) (\<lambda>realtime.
         and_then (loadChatConfig core role (mc_enabled meetings) realtime) (\<lambda>chat.
         and_then (assertChatDependencies chat role infrastructure) (\<lambda>_.
         and_then (loadSfuAdmissionConfig p nodeEnv (fe_sfu env) role (sk_mountRoot (ic_secrets infrastructure))) (\<lambda>sfu.
         and_then (assertSfuDependencies sfu role meetings infrastructure) (\<lambda>_.
         and_then (loadObservabilityConfig p env) (\<lambda>observability.
         Inr \<lparr>ap_runtime = \<lparr>rt_environment = nodeEnv, rt_role = role, rt_version = APP_VERSION se,
             rt_region = REGION se, rt_shutdownGraceMs = SHUTDOWN_GRACE_MS se\<rparr>,
           ap_http = http, ap_dependencyTimeoutMs = HEALTH_CHECK_TIMEOUT_MS se, ap_observability = observability,
           ap_documentation = documentation, ap_infrastructure = infrastructure, ap_outbox = outbox,
           ap_meetings = meetings, ap_realtime = realtime, ap_chat = chat, ap_sfuAdmission = sfu\<rparr>)))))))))))))))"

definition loadApplicationConfig ::
  "platform \<Rightarrow> app_role \<Rightarrow> (string \<Rightarrow> string option) \<Rightarrow> application_config outcome" where
  "loadApplicationConfig p expectedRole source =
     and_then (environmentSchema p source) (\<lambda>env.
     and_then (ensure (APP_ROLE (fe_server env) = None \<or> APP_ROLE (fe_server env) = Some expectedRole)
       (ConfigurationError (''APP_ROLE must be '' @ app_role_name expectedRole @ '' for this entrypoint''))) (\<lambda>_.
     configure p env expectedRole))"

section \<open>Values in their ranges\<close>

definition realtime_config_ok :: "realtime_config \<Rightarrow> bool" where
  "realtime_config_ok c =
     (between 5 60 (rc_ticketTtlSeconds c) \<and> between 1000 15000 (rc_authenticationTimeoutMs c) \<and>
      between 5000 60000 (rc_heartbeatIntervalMs c) \<and>
      2 * rc_heartbeatIntervalMs c \<le> 1000 * rc_presenceTtlSeconds c \<and>
      between 1024 65536 (rc_maxMessageBytes c) \<and> between 65536 16777216 (rc_maxBufferedBytes c) \<and>
      between 1 128 (rc_maxPendingCommands c) \<and> between 1 1000 (rc_messageRatePerSecond c) \<and>
      between (rc_messageRatePerSecond c) 2000 (rc_messageBurst c) \<and>
      between 1 1000 (rc_maxConnectionsPerSource c) \<and> between 1 32 (rc_maxConnectionsPerSession c) \<and>
      between 1 1000 (rc_ticketIssueRateLimit c) \<and> between 1 3600 (rc_ticketRateLimitWindowSeconds c) \<and>
      between 5 300 (rc_sessionRevalidateSeconds c) \<and>
      between 10 10000 (rc_maxPresenceSnapshotParticipants c))"

definition meetings_config_ok :: "meetings_config \<Rightarrow> bool" where
  "meetings_config_ok c =
     (between 300 (mc_meetingTtlSeconds c) (mc_capabilityTtlSeconds c) \<and>
      between 60 (mc_sessionAbsoluteTtlSeconds c) (mc_sessionIdleTtlSeconds c) \<and>
      between 300 (mc_meetingTtlSeconds c) (mc_sessionAbsoluteTtlSeconds c) \<and>
      mc_meetingTtlSeconds c \<le> 2592000 \<and> canonical_cookie_name (mc_sessionCookieName c) \<and>
      between 1 10000 (mc_createRateLimit c) \<and> between 1 100000 (mc_joinRateLimit c) \<and>
      between 1 3600 (mc_rateLimitWindowSeconds c))"

definition sfu_config_ok :: "sfu_admission_config \<Rightarrow> bool" where
  "sfu_config_ok c =
     (between 30 300 (sc_tokenTtlSeconds c) \<and> between 0 30 (sc_clockSkewSeconds c) \<and>
      2 * sc_clockSkewSeconds c < sc_tokenTtlSeconds c \<and> between 1 1000 (sc_issueRateLimit c) \<and>
      between 1 3600 (sc_rateLimitWindowSeconds c) \<and> between 1 64 (sc_signerConcurrency c) \<and>
      between 1 10000 (sc_signerQueueCapacity c) \<and> between 100 30000 (sc_signerTimeoutMs c) \<and>
      between 1 365 (sc_auditRetentionDays c) \<and> between 10 10000 (sc_auditCleanupBatchSize c) \<and>
      between 10000 3600000 (sc_auditCleanupIntervalMs c))"

definition database_config_ok :: "database_config \<Rightarrow> bool" where
  "database_config_ok c =
     (between 1 100 (dc_poolMax c) \<and> between 100 60000 (dc_connectTimeoutMs c) \<and>
      between 100 120000 (dc_queryTimeoutMs c) \<and> between 100 120000 (dc_statementTimeoutMs c) \<and>
      between 50 30000 (dc_lockTimeoutMs c) \<and> between 100 120000 (dc_idleTransactionTimeoutMs c) \<and>
      between 1 2147483647 (dc_migrationLockId c) \<and>
      (dc_enabled c \<longleftrightarrow> dc_connectionString c \<noteq> None \<or> dc_connectionStringFile c \<noteq> None))"

definition http_config_ok :: "http_config \<Rightarrow> bool" where
  "http_config_ok c =
     (between 1024 65535 (ht_port c) \<and> between 1024 16777216 (ht_maxBodyBytes c) \<and>
      between 100 120000 (ht_requestTimeoutMs c) \<and> between 1000 300000 (ht_keepAliveTimeoutMs c) \<and>
      ht_publicAppOrigin c \<in> set (ht_allowedOrigins c))"

lemma schema_variables:
  "environmentSchema p raw = Inr env \<Longrightarrow> set vs \<subseteq> set environment_variables \<Longrightarrow> list_all (variable_ok p raw) vs"
  by (force simp: environmentSchema_def invalid_variables_def filter_empty_conv list_all_iff split: if_splits)

lemma integer_variable_between:
  "variable_ok p raw (name, IntegerSchema lo hi) \<Longrightarrow> lo \<le> d \<Longrightarrow> d \<le> hi \<Longrightarrow> between lo hi (integer_variable p raw name d)"
  by (auto simp: variable_ok_def integer_variable_def integer_of_def between_def split: option.splits)

lemma schema_reads:
  "environmentSchema p raw = Inr env \<Longrightarrow>
     fe_core env = read_core p raw \<and> fe_server env = read_server p raw \<and>
     fe_infrastructure env = read_infrastructure p raw \<and> fe_sfu env = read_sfu p raw"
  by (auto simp: environmentSchema_def split: if_splits)

lemma core_ranges:
  assumes "environmentSchema p raw = Inr env"
  shows "outboxRanges (fe_core env)" and "meetingRanges (fe_core env)"
    and "realtimeRanges (fe_core env)" and "chatRanges (fe_core env)"
proof -
  note reads = schema_reads [OF assms, THEN conjunct1]
  have vs: "list_all (variable_ok p raw) outbox_variables" "list_all (variable_ok p raw) meeting_variables"
    "list_all (variable_ok p raw) realtime_variables" "list_all (variable_ok p raw) chat_variables"
    "list_all (variable_ok p raw) redis_variables"
    by (rule schema_variables [OF assms], force simp: environment_variables_def)+
  note [intro] = integer_variable_between
  show "outboxRanges (fe_core env)"
    using vs(1) unfolding reads outboxRanges_def by (auto simp: outbox_variables_def read_core_def)
  show "meetingRanges (fe_core env)"
    using vs(2) unfolding reads meetingRanges_def by (auto simp: meeting_variables_def read_core_def)
  show "realtimeRanges (fe_core env)"
    using vs(3) unfolding reads realtimeRanges_def by (auto simp: realtime_variables_def read_core_def)
  show "chatRanges (fe_core env)"
    using vs(4,5) unfolding reads chatRanges_def by (auto simp: chat_variables_def redis_variables_def read_core_def)
qed

lemma loadRealtimeConfig_ok:
  "realtimeRanges env \<Longrightarrow> loadRealtimeConfig env = Inr c \<Longrightarrow> realtime_config_ok c"
  by (auto simp: realtimeRanges_def loadRealtimeConfig_def realtime_config_ok_def between_def split: if_splits)

lemma loadMeetingsConfig_ok:
  "meetingRanges env \<Longrightarrow> loadMeetingsConfig env role mount = Inr c \<Longrightarrow> meetings_config_ok c"
  by (auto simp: meetingRanges_def loadMeetingsConfig_def meetings_config_ok_def between_def Let_def
      and_then_Inr_iff split: if_splits)

lemma loadSfuAdmissionConfig_ok:
  assumes "environmentSchema p raw = Inr env"
    and "loadSfuAdmissionConfig p nodeEnv (fe_sfu env) role mount = Inr c"
  shows "sfu_config_ok c"
proof -
  have "list_all (variable_ok p raw) sfu_variables"
    by (rule schema_variables [OF assms(1)]) (force simp: environment_variables_def)
  then have "between 30 300 (SFU_ADMISSION_TOKEN_TTL_SECONDS (fe_sfu env))"
    "between 0 30 (SFU_ADMISSION_CLOCK_SKEW_SECONDS (fe_sfu env))"
    "between 1 1000 (SFU_ADMISSION_ISSUE_RATE_LIMIT (fe_sfu env))"
    "between 1 3600 (SFU_ADMISSION_RATE_LIMIT_WINDOW_SECONDS (fe_sfu env))"
    "between 1 64 (SFU_ADMISSION_SIGNER_CONCURRENCY (fe_sfu env))"
    "between 1 10000 (SFU_ADMISSION_SIGNER_QUEUE_CAPACITY (fe_sfu env))"
    "between 100 30000 (SFU_ADMISSION_SIGN_TIMEOUT_MS (fe_sfu env))"
    "between 1 365 (SFU_ADMISSION_AUDIT_RETENTION_DAYS (fe_sfu env))"
    "between 10 10000 (SFU_ADMISSION_AUDIT_CLEANUP_BATCH_SIZE (fe_sfu env))"
    "between 10000 3600000 (SFU_ADMISSION_AUDIT_CLEANUP_INTERVAL_MS (fe_sfu env))"
    unfolding schema_reads [OF assms(1), THEN conjunct2, THEN conjunct2, THEN conjunct2]
    by (auto simp: sfu_variables_def read_sfu_def intro: integer_variable_between)
  then show ?thesis using assms(2)
    by (auto simp: loadSfuAdmissionConfig_def sfu_config_ok_def Let_def and_then_Inr_iff split: if_splits)
qed

lemma selectSecretSource_some:
  "selectSecretSource p s f name secure mount = Inr (a, b) \<Longrightarrow> a \<noteq> None \<or> b \<noteq> None"
  by (auto simp: selectSecretSource_def and_then_Inr_iff split: if_splits option.splits)

lemma guard_Inr_iff: "(if b then Inl e else m) = Inr c \<longleftrightarrow> \<not> b \<and> m = Inr c"
  by simp

lemma loadDatabaseConfig_cases:
  assumes "loadDatabaseConfig p env version role secure mount = Inr c"
  obtains (off) "\<not> secure" "c = databaseDefaults env version role False secure"
  | (on) name s f si sf ca tls where "selectSecretSource p s f name secure mount = Inr (si, sf)"
      "normalizeOptionalSecretPath (DATABASE_SSL_CA_FILE env) ''DATABASE_SSL_CA_FILE'' mount = Inr ca"
      "secure \<longrightarrow> tls \<and> ca \<noteq> None"
      "c = (databaseDefaults env version role True tls)
        \<lparr>dc_connectionString := si, dc_connectionStringFile := sf, dc_tlsCaFile := ca\<rparr>"
proof (cases "or_else (DATABASE_ENABLED env) secure")
  case False
  then show thesis using assms off by (auto simp: loadDatabaseConfig_def Let_def split: if_splits)
next
  case True
  let ?name = "if role = Migration then ''DATABASE_DIRECT_URL'' else ''DATABASE_URL''"
  let ?s = "if role = Migration then DATABASE_DIRECT_URL env else DATABASE_URL env"
  let ?f = "if role = Migration then DATABASE_DIRECT_URL_FILE env else DATABASE_URL_FILE env"
  let ?tls = "or_else (DATABASE_TLS_REQUIRED env) secure"
  from True assms obtain si sf ca where "selectSecretSource p ?s ?f ?name secure mount = Inr (si, sf)"
    "\<not> (secure \<and> \<not> ?tls)"
    "normalizeOptionalSecretPath (DATABASE_SSL_CA_FILE env) ''DATABASE_SSL_CA_FILE'' mount = Inr ca"
    "\<not> (secure \<and> ca = None)"
    "Inr ((databaseDefaults env version role True ?tls)
      \<lparr>dc_connectionString := si, dc_connectionStringFile := sf, dc_tlsCaFile := ca\<rparr>) = (Inr c :: database_config outcome)"
    unfolding loadDatabaseConfig_def Let_def
    by (simp only: not_True_eq_False if_False guard_Inr_iff and_then_Inr_iff split_paired_Ex prod.case) blast
  then show thesis by (intro on [where tls = ?tls]) (auto simp del: if_split)
qed

lemma loadDatabaseConfig_shape:
  assumes "loadDatabaseConfig p env version role secure mount = Inr c"
  shows "\<exists>tls si sf ca. c = (databaseDefaults env version role (dc_enabled c) tls)
     \<lparr>dc_connectionString := si, dc_connectionStringFile := sf, dc_tlsCaFile := ca\<rparr> \<and>
     (dc_enabled c \<longleftrightarrow> si \<noteq> None \<or> sf \<noteq> None)"
  using assms
proof (cases rule: loadDatabaseConfig_cases)
  case off
  then have "\<not> dc_enabled c" and "c = c\<lparr>dc_connectionString := None, dc_connectionStringFile := None, dc_tlsCaFile := None\<rparr>"
    by (simp_all add: databaseDefaults_def)
  with off show ?thesis by metis
next
  case (on name s f si sf ca tls)
  from on(4) have "dc_enabled c" by (simp add: databaseDefaults_def)
  then show ?thesis using on(4) selectSecretSource_some [OF on(1)] by (metis (full_types))
qed

lemma loadDatabaseConfig_ok:
  assumes "environmentSchema p raw = Inr env"
    and "loadDatabaseConfig p (fe_infrastructure env) version role secure mount = Inr c"
  shows "database_config_ok c"
proof -
  have "list_all (variable_ok p raw) database_variables"
    by (rule schema_variables [OF assms(1)]) (force simp: environment_variables_def)
  then have "between 1 100 (DATABASE_POOL_MAX (fe_infrastructure env))"
    "between 100 60000 (DATABASE_CONNECT_TIMEOUT_MS (fe_infrastructure env))"
    "between 100 120000 (DATABASE_QUERY_TIMEOUT_MS (fe_infrastructure env))"
    "between 100 120000 (DATABASE_STATEMENT_TIMEOUT_MS (fe_infrastructure env))"
    "between 50 30000 (DATABASE_LOCK_TIMEOUT_MS (fe_infrastructure env))"
    "between 100 120000 (DATABASE_IDLE_TX_TIMEOUT_MS (fe_infrastructure env))"
    "between 1 2147483647 (MIGRATION_LOCK_ID (fe_infrastructure env))"
    unfolding schema_reads [OF assms(1), THEN conjunct2, THEN conjunct2, THEN conjunct1]
    by (auto simp: database_variables_def read_infrastructure_def intro: integer_variable_between)
  moreover have "between 1 100 1" by (simp add: between_def)
  ultimately show ?thesis using loadDatabaseConfig_shape [OF assms(2)]
    by (auto simp: databaseDefaults_def database_config_ok_def)
qed

lemma loadHttpConfig_ok:
  assumes "environmentSchema p raw = Inr env" and "loadHttpConfig p env role = Inr c"
    and "ht_publicAppOrigin c \<in> set (ht_allowedOrigins c)"
  shows "http_config_ok c"
proof -
  have "list_all (variable_ok p raw) http_variables"
    by (rule schema_variables [OF assms(1)]) (force simp: environment_variables_def)
  then have "between 1024 16777216 (HTTP_MAX_BODY_BYTES (fe_server env))"
    "between 100 120000 (HTTP_REQUEST_TIMEOUT_MS (fe_server env))"
    "between 1000 300000 (HTTP_KEEP_ALIVE_TIMEOUT_MS (fe_server env))"
    "variable_ok p raw (''HTTP_PORT'', IntegerSchema 1024 65535)"
    unfolding schema_reads [OF assms(1), THEN conjunct2, THEN conjunct1]
    by (auto simp: http_variables_def read_server_def intro: integer_variable_between)
  moreover from this(4) have "between 1024 65535 (or_else (HTTP_PORT (fe_server env)) (default_port role))"
    unfolding schema_reads [OF assms(1), THEN conjunct2, THEN conjunct1]
    by (cases "raw ''HTTP_PORT''"; cases role)
      (auto simp: read_server_def variable_ok_def or_else_def integer_of_def between_def split: option.splits)
  ultimately show ?thesis using assms(2,3)
    by (auto simp: loadHttpConfig_def http_config_ok_def Let_def and_then_Inr_iff)
qed

section \<open>Secrets below their root\<close>

definition below_root :: "string \<Rightarrow> string \<Rightarrow> bool" where
  "below_root base f =
     (isAbsolute f \<and> take (length (segments base)) (segments f) = segments base \<and>
      length (segments base) < length (segments f))"

lemma below_rootI: "isAbsolute f \<Longrightarrow> segments f = segments base @ rest \<Longrightarrow> rest \<noteq> [] \<Longrightarrow> below_root base f"
  by (simp add: below_root_def)

lemma resolve_absolute [simp]: "isAbsolute (resolve f)"
  by (simp add: resolve_def isAbsolute_def)

lemma normalizeSecretPath_below: "normalizeSecretPath v name mount = Inr f \<Longrightarrow> below_root mount f"
  by (auto simp: normalizeSecretPath_def relative_below intro!: below_rootI split: if_splits)

lemma normalizeOptionalSecretPath_below:
  "normalizeOptionalSecretPath v name mount = Inr (Some f) \<Longrightarrow> below_root mount f"
  by (auto simp: normalizeOptionalSecretPath_def and_then_Inr_iff dest: normalizeSecretPath_below
      split: option.splits)

text \<open>Every file of secrets a configuration names.\<close>

definition keyring_file :: "keyring_source option \<Rightarrow> string option" where
  "keyring_file k = Option.bind k ks_secretFile"

definition signer_file :: "signer_config option \<Rightarrow> string option" where
  "signer_file g = (case g of Some (FileSignerConfig i f) \<Rightarrow> Some f | _ \<Rightarrow> None)"

definition secret_files :: "application_config \<Rightarrow> string list" where
  "secret_files c = List.map_filter id
     [dc_connectionStringFile (ic_database (ap_infrastructure c)), dc_tlsCaFile (ic_database (ap_infrastructure c)),
      rd_connectionUrlsFile (ic_redis (ap_infrastructure c)), rd_tlsCaFile (ic_redis (ap_infrastructure c)),
      keyring_file (mc_capabilityKeyring (ap_meetings c)), keyring_file (mc_sessionKeyring (ap_meetings c)),
      signer_file (sc_signer (ap_sfuAdmission c)), sc_retiredJwksFile (ap_sfuAdmission c)]"

lemma set_map_filter_id: "set (List.map_filter id xs) = {f. Some f \<in> set xs}"
  by (auto simp: List.map_filter_def image_iff) force

lemma all_files_below:
  assumes "\<And>f. a1 = Some f \<Longrightarrow> P f" "\<And>f. a2 = Some f \<Longrightarrow> P f" "\<And>f. a3 = Some f \<Longrightarrow> P f"
    "\<And>f. a4 = Some f \<Longrightarrow> P f" "\<And>f. a5 = Some f \<Longrightarrow> P f" "\<And>f. a6 = Some f \<Longrightarrow> P f"
    "\<And>f. a7 = Some f \<Longrightarrow> P f" "\<And>f. a8 = Some f \<Longrightarrow> P f"
  shows "\<forall>f \<in> {f. Some f \<in> set [a1, a2, a3, a4, a5, a6, a7, a8]}. P f"
  using assms by auto

lemma selectSecretSource_below:
  "selectSecretSource p s f name secure mount = Inr (a, Some b) \<Longrightarrow> below_root mount b"
  by (auto simp: selectSecretSource_def and_then_Inr_iff dest: normalizeSecretPath_below
      split: if_splits option.splits)

lemma selectRedisSource_below:
  "selectRedisSource p s f secure mount = Inr (a, Some b) \<Longrightarrow> below_root mount b"
  by (auto simp: selectRedisSource_def and_then_Inr_iff dest: normalizeSecretPath_below
      split: if_splits option.splits)

lemma selectKeyring_below:
  "selectKeyring s f name secure mount = Inr k \<Longrightarrow> ks_secretFile k = Some b \<Longrightarrow> below_root mount b"
  by (auto simp: selectKeyring_def and_then_Inr_iff dest: normalizeSecretPath_below
      split: if_splits option.splits)

lemma loadSigner_below:
  "loadSigner env secure mount = Inr (FileSignerConfig i f) \<Longrightarrow> below_root mount f"
  by (auto simp: loadSigner_def and_then_Inr_iff dest: normalizeSecretPath_below
      split: if_splits option.splits)

section \<open>What a secure deployment has\<close>

definition secure_database :: "database_config \<Rightarrow> bool" where
  "secure_database d =
     (dc_enabled d \<and> dc_tlsRequired d \<and> dc_connectionString d = None \<and> dc_connectionStringFile d \<noteq> None \<and>
      dc_tlsCaFile d \<noteq> None)"

definition secure_redis :: "redis_config \<Rightarrow> bool" where
  "secure_redis r =
     (rd_enabled r \<and> rd_mode r = Cluster \<and> rd_tlsRequired r \<and> rd_connectionUrls r = None \<and>
      rd_connectionUrlsFile r \<noteq> None \<and> rd_tlsCaFile r \<noteq> None)"

definition secure_keyring :: "keyring_source option \<Rightarrow> bool" where
  "secure_keyring k = (\<exists>f. k = Some \<lparr>ks_inlineSecret = None, ks_secretFile = Some f\<rparr>)"

lemma selectSecretSource_secure:
  "selectSecretSource p s f name True mount = Inr (a, b) \<Longrightarrow> a = None \<and> b \<noteq> None"
  by (auto simp: selectSecretSource_def and_then_Inr_iff split: if_splits option.splits)

lemma selectRedisSource_secure:
  "selectRedisSource p s f True mount = Inr (a, b) \<Longrightarrow> a = None \<and> b \<noteq> None"
  by (auto simp: selectRedisSource_def and_then_Inr_iff split: if_splits option.splits)

lemma selectKeyring_secure: "selectKeyring s f name True mount = Inr k \<Longrightarrow> secure_keyring (Some k)"
  by (auto simp: selectKeyring_def secure_keyring_def and_then_Inr_iff split: if_splits option.splits)

lemma loadDatabaseConfig_files:
  assumes "loadDatabaseConfig p env version role secure mount = Inr c"
  shows "dc_connectionStringFile c = Some f \<Longrightarrow> below_root mount f"
    and "dc_tlsCaFile c = Some f \<Longrightarrow> below_root mount f"
    and "secure \<Longrightarrow> secure_database c"
proof -
  note cases = loadDatabaseConfig_cases [OF assms]
  show "below_root mount f" if "dc_connectionStringFile c = Some f"
    by (rule cases) (use that selectSecretSource_below in \<open>auto simp: databaseDefaults_def\<close>)
  show "below_root mount f" if "dc_tlsCaFile c = Some f"
    by (rule cases) (use that normalizeOptionalSecretPath_below in \<open>auto simp: databaseDefaults_def\<close>)
  show "secure_database c" if secure
    by (rule cases)
      (use that selectSecretSource_secure in \<open>auto simp: databaseDefaults_def secure_database_def\<close>)
qed

lemma loadRedisConfig_files:
  assumes "loadRedisConfig p env version timeout role secure mount = Inr c"
  shows "rd_connectionUrlsFile c = Some f \<Longrightarrow> below_root mount f"
    and "rd_tlsCaFile c = Some f \<Longrightarrow> below_root mount f"
    and "secure \<Longrightarrow> role \<noteq> Migration \<Longrightarrow> secure_redis c"
    and "role = Migration \<Longrightarrow> \<not> rd_enabled c"
proof -
  let ?enabled = "role \<noteq> Migration \<and> or_else (REDIS_ENABLED env) secure"
  let ?tls = "or_else (REDIS_TLS_REQUIRED env) secure"
  have "rd_enabled c = ?enabled \<and> rd_tlsRequired c = ?tls \<and>
    (secure \<longrightarrow> role \<noteq> Migration \<longrightarrow> ?enabled \<and> rd_mode c = Cluster) \<and>
    (\<not> ?enabled \<longrightarrow> rd_connectionUrlsFile c = None \<and> rd_tlsCaFile c = None) \<and>
    (?enabled \<longrightarrow> selectRedisSource p (REDIS_URLS env) (REDIS_URL_FILE env) secure mount =
        Inr (rd_connectionUrls c, rd_connectionUrlsFile c) \<and>
      normalizeOptionalSecretPath (REDIS_SSL_CA_FILE env) ''REDIS_SSL_CA_FILE'' mount = Inr (rd_tlsCaFile c) \<and>
      (secure \<longrightarrow> ?tls \<and> rd_tlsCaFile c \<noteq> None))"
    using assms unfolding loadRedisConfig_def Let_def
    by (auto simp: and_then_Inr_iff split: prod.splits if_split_asm)
  note shape = this
  show "below_root mount f" if "rd_connectionUrlsFile c = Some f"
    using shape that selectRedisSource_below by (cases ?enabled) auto
  show "below_root mount f" if "rd_tlsCaFile c = Some f"
    using shape that normalizeOptionalSecretPath_below by (cases ?enabled) auto
  show "secure_redis c" if secure "role \<noteq> Migration"
  proof -
    from shape that have "selectRedisSource p (REDIS_URLS env) (REDIS_URL_FILE env) True mount =
      Inr (rd_connectionUrls c, rd_connectionUrlsFile c)" by simp
    from selectRedisSource_secure [OF this] show ?thesis
      using shape that by (simp only: secure_redis_def simp_thms)
  qed
  show "\<not> rd_enabled c" if "role = Migration" using shape that by simp
qed

lemma loadMeetingsConfig_files:
  assumes "loadMeetingsConfig env role mount = Inr c"
  shows "keyring_file (mc_capabilityKeyring c) = Some f \<Longrightarrow> below_root mount f"
    and "keyring_file (mc_sessionKeyring c) = Some f \<Longrightarrow> below_root mount f"
    and "secure_deployment (NODE_ENV env) \<Longrightarrow> mc_sessionCookieName c = ''__Host-hf_session'' \<and>
      (role = Api \<or> role = Realtime \<longrightarrow>
        mc_enabled c \<and> secure_keyring (mc_capabilityKeyring c) \<and> secure_keyring (mc_sessionKeyring c))"
    and "mc_enabled c \<Longrightarrow> role = Api \<or> role = Realtime"
    and "\<not> mc_enabled c \<Longrightarrow> mc_capabilityKeyring c = None \<and> mc_sessionKeyring c = None"
proof -
  let ?secure = "secure_deployment (NODE_ENV env)"
  have shape: "(?secure \<longrightarrow> mc_sessionCookieName c = ''__Host-hf_session'') \<and>
    (mc_enabled c \<longrightarrow> role = Api \<or> role = Realtime) \<and>
    (?secure \<longrightarrow> role = Api \<or> role = Realtime \<longrightarrow> mc_enabled c) \<and>
    (\<not> mc_enabled c \<longrightarrow> mc_capabilityKeyring c = None \<and> mc_sessionKeyring c = None) \<and>
    (mc_enabled c \<longrightarrow> (\<exists>a b. mc_capabilityKeyring c = Some a \<and> mc_sessionKeyring c = Some b \<and>
      selectKeyring (CAPABILITY_HMAC_KEYRING env) (CAPABILITY_HMAC_KEYRING_FILE env)
        ''CAPABILITY_HMAC_KEYRING'' ?secure mount = Inr a \<and>
      selectKeyring (SESSION_HMAC_KEYRING env) (SESSION_HMAC_KEYRING_FILE env)
        ''SESSION_HMAC_KEYRING'' ?secure mount = Inr b))"
    using assms unfolding loadMeetingsConfig_def Let_def
    by (auto simp: and_then_Inr_iff split: if_split_asm)
  show "below_root mount f" if "keyring_file (mc_capabilityKeyring c) = Some f"
    using shape that selectKeyring_below by (cases "mc_enabled c") (auto simp: keyring_file_def)
  show "below_root mount f" if "keyring_file (mc_sessionKeyring c) = Some f"
    using shape that selectKeyring_below by (cases "mc_enabled c") (auto simp: keyring_file_def)
  show "mc_sessionCookieName c = ''__Host-hf_session'' \<and>
      (role = Api \<or> role = Realtime \<longrightarrow>
        mc_enabled c \<and> secure_keyring (mc_capabilityKeyring c) \<and> secure_keyring (mc_sessionKeyring c))"
    if secure: ?secure
  proof (intro conjI impI)
    assume "role = Api \<or> role = Realtime"
    then obtain a b where ab: "mc_capabilityKeyring c = Some a" "mc_sessionKeyring c = Some b"
      "selectKeyring (CAPABILITY_HMAC_KEYRING env) (CAPABILITY_HMAC_KEYRING_FILE env)
        ''CAPABILITY_HMAC_KEYRING'' True mount = Inr a"
      "selectKeyring (SESSION_HMAC_KEYRING env) (SESSION_HMAC_KEYRING_FILE env)
        ''SESSION_HMAC_KEYRING'' True mount = Inr b"
      using shape secure by auto
    show "secure_keyring (mc_capabilityKeyring c)" "secure_keyring (mc_sessionKeyring c)"
      unfolding ab(1,2) by (rule selectKeyring_secure [OF ab(3)], rule selectKeyring_secure [OF ab(4)])
  qed (use shape secure in blast)+
  show "role = Api \<or> role = Realtime" if "mc_enabled c" using shape that by blast
  show "mc_capabilityKeyring c = None \<and> mc_sessionKeyring c = None" if "\<not> mc_enabled c"
    using shape that by blast
qed

lemma loadSigner_secure: "loadSigner env True mount = Inr g \<Longrightarrow> \<not> is_FileSignerConfig g"
  by (auto simp: loadSigner_def and_then_Inr_iff split: if_splits option.splits)

lemma loadSfuAdmissionConfig_shape:
  assumes "loadSfuAdmissionConfig p nodeEnv env role mount = Inr c"
  shows "(sc_enabled c \<longrightarrow> role = Api \<or> role = Worker) \<and>
    (sc_signer c \<noteq> None \<longleftrightarrow> sc_enabled c \<and> role = Api) \<and>
    (\<forall>g. sc_signer c = Some g \<longrightarrow> loadSigner env (secure_deployment nodeEnv) mount = Inr g) \<and>
    normalizeOptionalSecretPath (SFU_ADMISSION_RETIRED_JWKS_FILE env) ''SFU_ADMISSION_RETIRED_JWKS_FILE'' mount =
      Inr (sc_retiredJwksFile c) \<and>
    normalizeIssuer p (SFU_ADMISSION_ISSUER env) (secure_deployment nodeEnv \<and> sc_enabled c) = Inr (sc_issuer c) \<and>
    normalizeSfuUrl p (SFU_PUBLIC_URL env) (secure_deployment nodeEnv \<and> sc_enabled c) = Inr (sc_publicUrl c)"
  using assms unfolding loadSfuAdmissionConfig_def Let_def
  by (auto simp: and_then_Inr_iff split: if_split_asm)

lemma loadSfuAdmissionConfig_files:
  assumes "loadSfuAdmissionConfig p nodeEnv env role mount = Inr c"
  shows "signer_file (sc_signer c) = Some f \<Longrightarrow> below_root mount f"
    and "sc_retiredJwksFile c = Some f \<Longrightarrow> below_root mount f"
    and "secure_deployment nodeEnv \<Longrightarrow> signer_file (sc_signer c) = None"
proof -
  note shape = loadSfuAdmissionConfig_shape [OF assms]
  show "below_root mount f" if "signer_file (sc_signer c) = Some f"
    using shape that loadSigner_below by (auto simp: signer_file_def split: option.splits signer_config.splits)
  show "below_root mount f" if "sc_retiredJwksFile c = Some f"
    using shape that normalizeOptionalSecretPath_below by metis
  show "signer_file (sc_signer c) = None" if "secure_deployment nodeEnv"
  proof (cases "sc_signer c")
    case (Some g)
    then have "loadSigner env True mount = Inr g" using shape that by simp
    then have "\<not> is_FileSignerConfig g" by (rule loadSigner_secure)
    then show ?thesis by (cases g) (simp_all add: Some signer_file_def)
  qed (simp add: signer_file_def)
qed

lemma configure_parts:
  assumes "configure p env role = Inr c"
  shows "loadHttpConfig p env role = Inr (ap_http c) \<and>
    ht_publicAppOrigin (ap_http c) \<in> set (ht_allowedOrigins (ap_http c)) \<and>
    (secure_deployment (NODE_ENV (fe_core env)) \<longrightarrow> assertSecureDeployment (REGION (fe_server env))
      (ht_publicAppOrigin (ap_http c)) (ht_publicApiOrigin (ap_http c)) (ht_publicRealtimeUrl (ap_http c)) = Inr ()) \<and>
    loadInfrastructureConfig p env role = Inr (ap_infrastructure c) \<and>
    loadMeetingsConfig (fe_core env) role (sk_mountRoot (ic_secrets (ap_infrastructure c))) = Inr (ap_meetings c) \<and>
    assertMeetingDependencies (ap_meetings c) (ap_infrastructure c) = Inr () \<and>
    loadOutboxConfig (fe_core env) = Inr (ap_outbox c) \<and> loadRealtimeConfig (fe_core env) = Inr (ap_realtime c) \<and>
    loadChatConfig (fe_core env) role (mc_enabled (ap_meetings c)) (ap_realtime c) = Inr (ap_chat c) \<and>
    assertChatDependencies (ap_chat c) role (ap_infrastructure c) = Inr () \<and>
    loadSfuAdmissionConfig p (NODE_ENV (fe_core env)) (fe_sfu env) role
      (sk_mountRoot (ic_secrets (ap_infrastructure c))) = Inr (ap_sfuAdmission c) \<and>
    assertSfuDependencies (ap_sfuAdmission c) role (ap_meetings c) (ap_infrastructure c) = Inr () \<and>
    rt_role (ap_runtime c) = role \<and> rt_environment (ap_runtime c) = NODE_ENV (fe_core env) \<and>
    rt_region (ap_runtime c) = REGION (fe_server env)"
  using assms unfolding configure_def Let_def
  by (simp only: and_then_Inr_iff sum.inject, elim exE conjE) (hypsubst, auto split: if_split_asm)

lemma loadInfrastructureConfig_parts:
  assumes "loadInfrastructureConfig p env role = Inr i"
  shows "sk_requireRestrictedPermissions (ic_secrets i) = secure_deployment (NODE_ENV (fe_core env)) \<and>
    loadDatabaseConfig p (fe_infrastructure env) (APP_VERSION (fe_server env)) role
      (secure_deployment (NODE_ENV (fe_core env))) (sk_mountRoot (ic_secrets i)) = Inr (ic_database i) \<and>
    loadRedisConfig p (fe_infrastructure env) (APP_VERSION (fe_server env)) (REDIS_COMMAND_TIMEOUT_MS (fe_core env)) role
      (secure_deployment (NODE_ENV (fe_core env))) (sk_mountRoot (ic_secrets i)) = Inr (ic_redis i)"
  using assms unfolding loadInfrastructureConfig_def Let_def and_then_Inr_iff by auto

section \<open>Properties of a configured process\<close>

lemma loaded_env:
  assumes "loadApplicationConfig p role raw = Inr c"
  obtains env where "environmentSchema p raw = Inr env" "configure p env role = Inr c"
  using assms by (auto simp: loadApplicationConfig_def and_then_Inr_iff)

lemma schema_NODE_ENV: "environmentSchema p raw = Inr env \<Longrightarrow> NODE_ENV (fe_core env) =
    or_else (Option.bind (raw ''NODE_ENV'') node_environment_of) Development"
  by (simp add: schema_reads read_core_def)

lemma loadChatConfig_fits:
  "loadChatConfig env role meetingsEnabled realtime = Inr c \<Longrightarrow>
     maximumFrameBytes (cc_maxCiphertextBytes c) \<le> rc_maxMessageBytes realtime"
  by (auto simp: loadChatConfig_def Let_def split: if_splits)

lemma dependencies_enabled:
  assumes "assertMeetingDependencies m i = Inr ()" and "assertChatDependencies ch role i = Inr ()"
    and "assertSfuDependencies s role m i = Inr ()"
  shows "mc_enabled m \<or> sc_enabled s \<or> cc_enabled ch \<and> (role = Realtime \<or> role = Worker) \<longrightarrow>
      dc_enabled (ic_database i) \<and> rd_enabled (ic_redis i)"
  using assms
  by (auto simp: assertMeetingDependencies_def assertChatDependencies_def assertSfuDependencies_def ensure_def
      split: if_splits)

text \<open>C33. What a configured process may assume. If \<open>loadApplicationConfig\<close> succeeds, the sections of the
  configuration have the ranges and the relations that the components are proved for: the outbox, chat,
  realtime, meeting and media policies, the limits of the HTTP server and of the database pool, whatever
  the variables and their defaults were. A database is enabled exactly when its connection string has a
  source, and what is enabled has what it depends on.
\<close>

theorem loaded_configuration_well_formed:
  assumes "loadApplicationConfig p role raw = Inr c"
  shows "outbox_config_ok (ap_outbox c) \<and> chat_config_ok (ap_chat c) \<and> realtime_config_ok (ap_realtime c) \<and>
    meetings_config_ok (ap_meetings c) \<and> sfu_config_ok (ap_sfuAdmission c) \<and> http_config_ok (ap_http c) \<and>
    database_config_ok (ic_database (ap_infrastructure c)) \<and>
    maximumFrameBytes (cc_maxCiphertextBytes (ap_chat c)) \<le> rc_maxMessageBytes (ap_realtime c) \<and>
    (mc_enabled (ap_meetings c) \<or> sc_enabled (ap_sfuAdmission c) \<or>
      cc_enabled (ap_chat c) \<and> (role = Realtime \<or> role = Worker) \<longrightarrow>
      dc_enabled (ic_database (ap_infrastructure c)) \<and> rd_enabled (ic_redis (ap_infrastructure c)))"
proof -
  from assms obtain env where env: "environmentSchema p raw = Inr env" and c: "configure p env role = Inr c"
    by (rule loaded_env)
  note parts = configure_parts [OF c]
  have "database_config_ok (ic_database (ap_infrastructure c))"
    using loadDatabaseConfig_ok [OF env] loadInfrastructureConfig_parts parts by blast
  moreover have "outbox_config_ok (ap_outbox c)" "chat_config_ok (ap_chat c)" "realtime_config_ok (ap_realtime c)"
    using parts core_ranges [OF env] loadOutboxConfig_ok loadChatConfig_ok loadRealtimeConfig_ok by blast+
  moreover have "meetings_config_ok (ap_meetings c)" "sfu_config_ok (ap_sfuAdmission c)" "http_config_ok (ap_http c)"
    using parts core_ranges [OF env] loadMeetingsConfig_ok loadSfuAdmissionConfig_ok [OF env] loadHttpConfig_ok [OF env]
    by blast+
  moreover have "maximumFrameBytes (cc_maxCiphertextBytes (ap_chat c)) \<le> rc_maxMessageBytes (ap_realtime c)"
    using parts loadChatConfig_fits by blast
  moreover note dependencies_enabled [of "ap_meetings c" "ap_infrastructure c" "ap_chat c" role "ap_sfuAdmission c"]
  ultimately show ?thesis using parts by (intro conjI) simp_all
qed

lemma assertSecureDeployment_holds:
  "assertSecureDeployment region app api url = Inr () \<Longrightarrow>
     region \<noteq> ''local'' \<and> starts_with ''https://'' app \<and> starts_with ''https://'' api \<and> starts_with ''wss://'' url"
  by (auto simp: assertSecureDeployment_def ensure_def split: if_splits)

lemma normalizeIssuer_https:
  "normalizeIssuer p v True = Inr i \<Longrightarrow> \<exists>v u. pf_url p v = Some u \<and> ul_protocol u = ''https:'' \<and> i = ul_origin u"
  by (auto simp: normalizeIssuer_def require_def and_then_Inr_iff split: option.splits if_splits)

lemma normalizeSfuUrl_wss:
  "normalizeSfuUrl p v True = Inr i \<Longrightarrow> \<exists>v u. pf_url p v = Some u \<and> ul_protocol u = ''wss:'' \<and> i = ul_href u"
  by (auto simp: normalizeSfuUrl_def require_def and_then_Inr_iff split: option.splits if_splits)

lemma sfu_media_secure:
  assumes "loadSfuAdmissionConfig p nodeEnv env role mount = Inr c" and "secure_deployment nodeEnv" and "sc_enabled c"
  shows "(\<exists>v u. pf_url p v = Some u \<and> ul_protocol u = ''https:'' \<and> sc_issuer c = ul_origin u) \<and>
    (\<exists>v u. pf_url p v = Some u \<and> ul_protocol u = ''wss:'' \<and> sc_publicUrl c = ul_href u)"
proof
  have i: "normalizeIssuer p (SFU_ADMISSION_ISSUER env) True = Inr (sc_issuer c)"
    and u: "normalizeSfuUrl p (SFU_PUBLIC_URL env) True = Inr (sc_publicUrl c)"
    using loadSfuAdmissionConfig_shape [OF assms(1)] assms(2,3) by simp_all
  show "\<exists>v u. pf_url p v = Some u \<and> ul_protocol u = ''https:'' \<and> sc_issuer c = ul_origin u"
    by (rule normalizeIssuer_https [OF i])
  show "\<exists>v u. pf_url p v = Some u \<and> ul_protocol u = ''wss:'' \<and> sc_publicUrl c = ul_href u"
    by (rule normalizeSfuUrl_wss [OF u])
qed


lemma assertContainedPath_below: "assertContainedPath f mount = Inr () \<Longrightarrow> below_root mount f"
  by (auto simp: assertContainedPath_def ensure_def relative_below intro!: below_rootI split: if_splits)

lemma without_trailing_lines_prefix:
  "take (length (without_trailing_lines s)) s = without_trailing_lines s"
proof -
  let ?P = "\<lambda>c. c = CHR 0x0D \<or> c = CHR 0x0A"
  have "s = rev (takeWhile ?P (rev s) @ dropWhile ?P (rev s))" by (simp only: takeWhile_dropWhile_id rev_rev_ident)
  then have "s = without_trailing_lines s @ rev (takeWhile ?P (rev s))"
    by (simp only: rev_append without_trailing_lines_def)
  then obtain t where "s = without_trailing_lines s @ t" by blast
  then show ?thesis by (metis append_eq_conv_conj)
qed

lemma without_trailing_lines_last:
  "without_trailing_lines s \<noteq> [] \<Longrightarrow>
     last (without_trailing_lines s) \<noteq> CHR 0x0D \<and> last (without_trailing_lines s) \<noteq> CHR 0x0A"
  using hd_dropWhile [of "\<lambda>c. c = CHR 0x0D \<or> c = CHR 0x0A" "rev s"]
  by (simp add: without_trailing_lines_def last_rev)

text \<open>C34. Reading a secret. A content is returned only for a path below the mount root, from an opened regular
  file of at most 64 KiB that grants nothing to group and others where that is required; it is not empty,
  holds no NUL and no line break at its end. For any other path nothing is opened: the answer does not
  depend on the file system.
\<close>

theorem secret_read_only_below_root:
  "(\<forall>v. readSecretFile open_nofollow mount restricted f = Inr v \<longrightarrow>
      below_root mount f \<and>
      (\<exists>sf. open_nofollow f = Inr sf \<and> of_isFile sf \<and> 0 < of_size sf \<and> of_size sf \<le> 65536 \<and>
        (restricted \<longrightarrow> of_mode sf mod 64 = 0) \<and> take (length v) (of_text sf) = v) \<and>
      v \<noteq> [] \<and> CHR 0x00 \<notin> set v \<and> last v \<noteq> CHR 0x0D \<and> last v \<noteq> CHR 0x0A) \<and>
    (\<not> below_root mount f \<longrightarrow> (\<exists>message. \<forall>open_other.
      readSecretFile open_other mount restricted f = Inl (ConfigurationError message)))"
proof (intro conjI allI impI)
  fix v assume read: "readSecretFile open_nofollow mount restricted f = Inr v"
  then have "assertContainedPath f mount = Inr ()" by (auto simp: readSecretFile_def and_then_Inr_iff)
  then show "below_root mount f" by (rule assertContainedPath_below)
  from read obtain sf where sf: "open_nofollow f = Inr sf" "of_isFile sf" "0 < of_size sf" "of_size sf \<le> 65536"
    "restricted \<longrightarrow> of_mode sf mod 64 = 0" "v = without_trailing_lines (of_text sf)" "v \<noteq> []" "CHR 0x00 \<notin> set v"
    by (auto simp: readSecretFile_def and_then_Inr_iff Let_def MAX_SECRET_BYTES_def split: sum.splits if_splits)
  show "\<exists>sf. open_nofollow f = Inr sf \<and> of_isFile sf \<and> 0 < of_size sf \<and> of_size sf \<le> 65536 \<and>
      (restricted \<longrightarrow> of_mode sf mod 64 = 0) \<and> take (length v) (of_text sf) = v"
    using sf(1-5) without_trailing_lines_prefix [of "of_text sf"] by (intro exI [of _ sf]) (simp add: sf(6))
  show "v \<noteq> []" "CHR 0x00 \<notin> set v" "last v \<noteq> CHR 0x0D" "last v \<noteq> CHR 0x0A"
    using sf(6-8) without_trailing_lines_last [of "of_text sf"] by auto
next
  assume "\<not> below_root mount f"
  then obtain message where "assertContainedPath f mount = Inl (ConfigurationError message)"
    using assertContainedPath_below by (fastforce simp: assertContainedPath_def ensure_def split: if_splits)
  then show "\<exists>message. \<forall>open_other. readSecretFile open_other mount restricted f = Inl (ConfigurationError message)"
    by (auto simp: readSecretFile_def)
qed

section \<open>A sample deployment\<close>

definition sample_url :: "string \<Rightarrow> string \<Rightarrow> string \<Rightarrow> url" where
  "sample_url protocol host path = \<lparr>ul_protocol = protocol, ul_username = [], ul_password = [], ul_pathname = path,
     ul_search = [], ul_hash = [], ul_origin = protocol @ ''//'' @ host, ul_href = protocol @ ''//'' @ host @ path,
     ul_sslmode = None\<rparr>"

definition sample_platform :: platform where
  "sample_platform = \<lparr>
     pf_url = map_of
       [(''https://app.example'', sample_url ''https:'' ''app.example'' ''/''),
        (''https://api.example'', sample_url ''https:'' ''api.example'' ''/''),
        (''wss://live.example/v1/realtime'', sample_url ''wss:'' ''live.example'' ''/v1/realtime''),
        (''wss://sfu.example/ws'', sample_url ''wss:'' ''sfu.example'' ''/ws''),
        (''postgresql://db.example/hello'', sample_url ''postgresql:'' ''db.example'' ''/hello''),
        (''rediss://r1.example'', sample_url ''rediss:'' ''r1.example'' []),
        (''rediss://r2.example'', sample_url ''rediss:'' ''r2.example'' []),
        (''rediss://r3.example'', sample_url ''rediss:'' ''r3.example'' [])],
     pf_isIP = (\<lambda>a. if a = ''10.0.0.0'' then 4 else 0),
     pf_number = (\<lambda>t. if t = ''8'' then Some 8 else None)\<rparr>"

definition sample_variables :: "string \<Rightarrow> string option" where
  "sample_variables = map_of
     [(''NODE_ENV'', ''production''), (''REGION'', ''eu-west-1''),
      (''PUBLIC_APP_ORIGIN'', ''https://app.example''), (''PUBLIC_API_ORIGIN'', ''https://api.example''),
      (''PUBLIC_REALTIME_URL'', ''wss://live.example/v1/realtime''), (''TRUSTED_PROXY_CIDRS'', ''10.0.0.0/8''),
      (''DATABASE_URL_FILE'', ''/run/secrets/database''), (''DATABASE_SSL_CA_FILE'', ''/run/secrets/ca''),
      (''REDIS_URL_FILE'', ''/run/secrets/redis''), (''REDIS_SSL_CA_FILE'', ''/run/secrets/ca''),
      (''CAPABILITY_HMAC_KEYRING_FILE'', ''/run/secrets/capability''),
      (''SESSION_HMAC_KEYRING_FILE'', ''/run/secrets/session''),
      (''SFU_ADMISSION_ENABLED'', ''true''), (''SFU_ADMISSION_ISSUER'', ''https://api.example''),
      (''SFU_PUBLIC_URL'', ''wss://sfu.example/ws''), (''SFU_ADMISSION_SIGNER'', ''aws-kms''),
      (''SFU_ADMISSION_KEY_ID'', ''key-1''), (''SFU_ADMISSION_KMS_KEY_ID'', ''alias/key-1''),
      (''SFU_ADMISSION_KMS_REGION'', ''eu-west-1'')]"

lemma sample_schema: "invalid_variables sample_platform sample_variables = []"
  by code_simp

lemma sample_configured:
  "(case loadApplicationConfig sample_platform Api sample_variables of Inl e \<Rightarrow> False | Inr c \<Rightarrow> True)"
  by code_simp

text \<open>The sample variables configure an API process in production.\<close>

theorem loaded_configuration_well_formed_witness:
  "\<exists>c. loadApplicationConfig sample_platform Api sample_variables = Inr c \<and> chat_config_ok (ap_chat c) \<and>
     meetings_config_ok (ap_meetings c) \<and> sfu_config_ok (ap_sfuAdmission c) \<and>
     database_config_ok (ic_database (ap_infrastructure c))"
proof -
  obtain c where c: "loadApplicationConfig sample_platform Api sample_variables = Inr c"
    using sample_configured by (auto split: sum.splits)
  from loaded_configuration_well_formed [OF this] c show ?thesis by blast
qed


definition sample_secret :: "string \<Rightarrow> string + open_file" where
  "sample_secret f = (if f = ''/run/secrets/session''
     then Inr \<lparr>of_isFile = True, of_size = 4, of_mode = 256, of_text = ''key'' @ [CHR 0x0A]\<rparr> else Inl ''ENOENT'')"

lemma sample_secret_read: "readSecretFile sample_secret ''/run/secrets'' True ''/run/secrets/session'' = Inr ''key''"
  by code_simp

lemma sample_outside: "\<not> below_root ''/run/secrets'' ''/run/secrets/../shadow''"
  by code_simp

theorem secret_read_only_below_root_witness:
  "below_root ''/run/secrets'' ''/run/secrets/session'' \<and>
   (\<exists>message. readSecretFile sample_secret ''/run/secrets'' True ''/run/secrets/../shadow'' =
     Inl (ConfigurationError message))"
  using secret_read_only_below_root
      [of sample_secret "''/run/secrets''" True "''/run/secrets/session''", THEN conjunct1, THEN spec, of "''key''"]
    secret_read_only_below_root
      [of sample_secret "''/run/secrets''" True "''/run/secrets/../shadow''", THEN conjunct2]
    sample_secret_read sample_outside by blast

end
