(* ===== verification/Health.thy ===== *)
theory Health
  imports Deployment
begin

text \<open>
  Readiness and shutdown (\<open>platform/health\<close>, \<open>apps/shared/register-graceful-shutdown.ts\<close>): the registry of
  dependency probes with their deadlines, the phase of a process, the report of a probe of the
  orchestrator, and draining on a signal.
\<close>

section \<open>The phase of a process\<close>

datatype phase = Starting | Ready | Draining

fun markReady :: "phase \<Rightarrow> phase" where
  "markReady ph = (if ph = Starting then Ready else ph)"

fun beginDrain :: "phase \<Rightarrow> phase" where
  "beginDrain ph = Draining"

definition acceptsTraffic :: "phase \<Rightarrow> bool" where
  "acceptsTraffic ph = (ph = Ready)"

section \<open>Probes\<close>

text \<open>What the promise of a probe does: it resolves or rejects some time after the call, or stays pending. The
  message of a rejection that is an \<open>Error\<close> is kept. Times are in milliseconds.\<close>

datatype probe =
    Resolves rat
  | Rejects rat "string option"
  | Pending

datatype dependency_result =
    Healthy (dr_name: string) (dr_latency: rat)
  | Unhealthy (dr_name: string) (dr_code: string) (dr_latency: rat)

text \<open>The registry is the map of indicators in the order of their registration.\<close>

type_synonym 'i indicators = "(string \<times> 'i) list"

definition health_register :: "string \<Rightarrow> 'i \<Rightarrow> 'i indicators \<Rightarrow> unit outcome \<times> 'i indicators" where
  "health_register name i reg =
     (if name \<in> fst ` set reg then (Inl (PlainError (''Health indicator already registered: '' @ name)), reg)
      else (Inr (), reg @ [(name, i)]))"

definition health_unregister :: "string \<Rightarrow> 'i indicators \<Rightarrow> 'i indicators" where
  "health_unregister name reg = filter (\<lambda>e. fst e \<noteq> name) reg"

text \<open>\<open>Math.max(0, Math.round(ms * 100) / 100)\<close>\<close>

definition rounded_ms :: "rat \<Rightarrow> rat" where
  "rounded_ms t = max 0 (rat_of_int \<lfloor>t * 100 + 1 / 2\<rfloor> / 100)"

text \<open>The race of a probe with its deadline: the moment it settles, and whether it was the timer.\<close>

definition settles_at :: "rat \<Rightarrow> probe \<Rightarrow> rat" where
  "settles_at timeoutMs b = (case b of Resolves t \<Rightarrow> min t timeoutMs | Rejects t e \<Rightarrow> min t timeoutMs | Pending \<Rightarrow> timeoutMs)"

definition checkOne :: "rat \<Rightarrow> string \<times> probe \<Rightarrow> dependency_result" where
  "checkOne timeoutMs e =
     (case e of (name, b) \<Rightarrow>
       let latency = rounded_ms (settles_at timeoutMs b)
       in case b of
         Resolves t \<Rightarrow> if t < timeoutMs then Healthy name latency else Unhealthy name ''timeout'' latency
       | Rejects t message \<Rightarrow>
           Unhealthy name (if timeoutMs \<le> t \<or> message = Some ''health_check_timeout'' then ''timeout'' else ''failed'')
             latency
       | Pending \<Rightarrow> Unhealthy name ''timeout'' latency)"

definition checkAll :: "rat \<Rightarrow> probe indicators \<Rightarrow> dependency_result list" where
  "checkAll timeoutMs reg = map (checkOne timeoutMs) reg"

text \<open>\<open>Promise.all\<close> is answered with the last of the probes, which run at the same time.\<close>

definition answered_after :: "rat \<Rightarrow> probe indicators \<Rightarrow> rat" where
  "answered_after timeoutMs reg = fold (\<lambda>e. max (settles_at timeoutMs (snd e))) reg 0"

section \<open>Reports\<close>

record health_report =
  hr_ok :: bool
  hr_role :: app_role
  hr_version :: string
  hr_region :: string
  hr_phase :: phase
  hr_dependencies :: "dependency_result list option"

definition buildReport ::
  "runtime_config \<Rightarrow> phase \<Rightarrow> bool \<Rightarrow> dependency_result list option \<Rightarrow> health_report" where
  "buildReport rt ph ok dependencies = \<lparr>hr_ok = ok, hr_role = rt_role rt, hr_version = rt_version rt,
     hr_region = rt_region rt, hr_phase = ph, hr_dependencies = dependencies\<rparr>"

definition liveness :: "runtime_config \<Rightarrow> phase \<Rightarrow> health_report" where
  "liveness rt ph = buildReport rt ph True None"

definition is_healthy :: "dependency_result \<Rightarrow> bool" where
  "is_healthy r = (case r of Healthy _ _ \<Rightarrow> True | Unhealthy _ _ _ \<Rightarrow> False)"

text \<open>The phase is read before the probes run and again when the report is built.\<close>

definition readiness :: "runtime_config \<Rightarrow> rat \<Rightarrow> phase \<Rightarrow> phase \<Rightarrow> probe indicators \<Rightarrow> health_report" where
  "readiness rt timeoutMs before after reg =
     (if \<not> acceptsTraffic before then buildReport rt before False None
      else let dependencies = checkAll timeoutMs reg
        in buildReport rt after (list_all is_healthy dependencies) (Some dependencies))"

definition health_status :: "health_report \<Rightarrow> nat" where
  "health_status r = (if hr_ok r then 200 else 503)"

section \<open>Shutdown\<close>

text \<open>How long closing the application and the telemetry takes, or its failure.\<close>

datatype closing = Closes rat | ClosingFails rat

record process_state =
  ps_phase :: phase
  ps_shutdowns :: nat
  ps_exitCode :: nat

definition performShutdown :: "rat \<Rightarrow> closing \<Rightarrow> process_state \<Rightarrow> process_state" where
  "performShutdown graceMs how s =
     s\<lparr>ps_phase := beginDrain (ps_phase s), ps_shutdowns := ps_shutdowns s + 1,
       ps_exitCode := (case how of Closes t \<Rightarrow> if t < graceMs then ps_exitCode s else 1 | ClosingFails t \<Rightarrow> 1)\<rparr>"

text \<open>A signal starts the shutdown once; later signals get the same promise. \<open>markReady\<close> is called once by the
  bootstrap, before signals are listened to.\<close>

datatype process_event = Initialised | Signal closing

fun process_step :: "rat \<Rightarrow> process_state \<Rightarrow> process_event \<Rightarrow> process_state" where
  "process_step graceMs s Initialised = s\<lparr>ps_phase := markReady (ps_phase s)\<rparr>"
| "process_step graceMs s (Signal how) = (if ps_shutdowns s = 0 then performShutdown graceMs how s else s)"

definition new_process :: process_state where
  "new_process = \<lparr>ps_phase = Starting, ps_shutdowns = 0, ps_exitCode = 0\<rparr>"

section \<open>Properties\<close>

lemma register_keeps_names: "distinct (map fst reg) \<Longrightarrow> distinct (map fst (snd (health_register name i reg)))"
  by (auto simp: health_register_def)

lemma health_unregister_register: "name \<notin> fst ` set reg \<Longrightarrow> health_unregister name (snd (health_register name i reg)) = reg"
  by (auto simp: health_register_def health_unregister_def filter_id_conv)

lemma drained_stays:
  "ps_phase s = Draining \<Longrightarrow> ps_phase (foldl (process_step graceMs) s es) = Draining"
proof (induction es arbitrary: s)
  case (Cons e es)
  then show ?case by (cases e) (simp_all add: performShutdown_def)
qed simp

lemma one_shutdown:
  "ps_shutdowns s \<le> 1 \<Longrightarrow> ps_shutdowns (foldl (process_step graceMs) s es) \<le> 1"
proof (induction es arbitrary: s)
  case (Cons e es)
  then show ?case by (cases e) (simp_all add: performShutdown_def)
qed simp

lemma signalled_drains:
  "(ps_shutdowns s \<noteq> 0 \<longrightarrow> ps_phase s = Draining) \<Longrightarrow> Signal how \<in> set es \<Longrightarrow>
     ps_phase (foldl (process_step graceMs) s es) = Draining"
proof (induction es arbitrary: s)
  case (Cons e es)
  show ?case
  proof (cases "\<exists>h. e = Signal h")
    case True
    then have "ps_phase (process_step graceMs s e) = Draining"
      using Cons.prems(1) by (auto simp: performShutdown_def)
    then show ?thesis by (simp add: drained_stays)
  next
    case False
    then have "e = Initialised" by (cases e) auto
    with Cons show ?thesis by (cases "ps_shutdowns s = 0") auto
  qed
qed simp

lemma checkOne_healthy: "is_healthy (checkOne timeoutMs (name, b)) \<longleftrightarrow> (\<exists>t < timeoutMs. b = Resolves t)"
  by (auto simp: checkOne_def is_healthy_def Let_def split: probe.splits)

lemma readiness_healthy:
  "health_status (readiness rt timeoutMs before after reg) = 200 \<longleftrightarrow>
     before = Ready \<and> (\<forall>(name, b) \<in> set reg. is_healthy (checkOne timeoutMs (name, b)))"
  by (auto simp: readiness_def buildReport_def health_status_def acceptsTraffic_def checkAll_def list_all_iff Let_def)

lemma answered_in_time:
  assumes "0 \<le> timeoutMs"
  shows "answered_after timeoutMs reg \<le> timeoutMs"
proof -
  have "fold (\<lambda>e. max (settles_at timeoutMs (snd e))) reg a \<le> timeoutMs" if "a \<le> timeoutMs" for a
    using that by (induction reg arbitrary: a) (auto simp: settles_at_def split: probe.splits)
  then show ?thesis using assms by (simp add: answered_after_def)
qed



end
