(* ===== verification/SfuKeys.thy ===== *)
theory SfuKeys
  imports SfuAdmission RealtimeProtocol Health
begin

text \<open>
  The keys of media admission (\<open>sfu-admission-key.service.ts\<close>, \<open>local-ed25519-signing.provider.ts\<close>,
  \<open>aws-kms-ed25519-signing.provider.ts\<close>, \<open>sfu-admission-jwks.controller.ts\<close>): the two signing providers, the
  document of public keys built at startup, and the endpoint that publishes it. The locale
  \<open>signing_provider\<close> is what the service relies on, and both providers are instances of it. The cryptography of Node
  and the answers of AWS KMS are arguments.
\<close>

section \<open>Public keys\<close>

text \<open>A public key of the document; its other members are the same for every key.\<close>

record public_jwk =
  jk_x :: string
  jk_kid :: string

definition jwk_members :: "string list" where
  "jwk_members = [''kty'', ''crv'', ''x'', ''kid'', ''use'', ''alg'', ''key_ops'']"

definition jwk_json :: "public_jwk \<Rightarrow> json" where
  "jwk_json k = JObj
     [(''kty'', JStr ''OKP''), (''crv'', JStr ''Ed25519''), (''x'', JStr (jk_x k)), (''kid'', JStr (jk_kid k)),
      (''use'', JStr ''sig''), (''alg'', JStr ''EdDSA''), (''key_ops'', JArr [JStr ''verify''])]"

definition publicJwkSchema :: "json \<Rightarrow> public_jwk option" where
  "publicJwkSchema v =
     (case v of
       JObj obj \<Rightarrow>
         if strict_keys jwk_members obj \<and> field obj ''kty'' = Some (JStr ''OKP'') \<and>
           field obj ''crv'' = Some (JStr ''Ed25519'') \<and> field obj ''use'' = Some (JStr ''sig'') \<and>
           field obj ''alg'' = Some (JStr ''EdDSA'') \<and> field obj ''key_ops'' = Some (JArr [JStr ''verify''])
         then (case (guarded BASE64URL_256 (string_field obj ''x''), guarded canonical_key_id (string_field obj ''kid'')) of
           (Some x, Some kid) \<Rightarrow> Some \<lparr>jk_x = x, jk_kid = kid\<rparr>
         | _ \<Rightarrow> None)
         else None
     | _ \<Rightarrow> None)"

definition jwksSchema :: "json \<Rightarrow> public_jwk list option" where
  "jwksSchema v =
     (case v of
       JObj obj \<Rightarrow>
         (case field obj ''keys'' of
           Some (JArr ks) \<Rightarrow>
             if strict_keys [''keys''] obj \<and> length ks \<le> 16 then all_some (map publicJwkSchema ks) else None
         | _ \<Rightarrow> None)
     | _ \<Rightarrow> None)"

section \<open>Signing providers\<close>

text \<open>What \<open>createPublicKey(...).export({ format: "jwk" })\<close> gives.\<close>

record exported_jwk =
  xj_kty :: string
  xj_crv :: string
  xj_x :: "string option"

definition verification_jwk :: "string \<Rightarrow> string \<Rightarrow> exported_jwk \<Rightarrow> json outcome" where
  "verification_jwk message keyId exported =
     (case xj_x exported of
       None \<Rightarrow> Inl (PlainError message)
     | Some x \<Rightarrow>
         if xj_kty exported \<noteq> ''OKP'' \<or> xj_crv exported \<noteq> ''Ed25519'' then Inl (PlainError message)
         else Inr (jwk_json \<lparr>jk_x = x, jk_kid = keyId\<rparr>))"

text \<open>\<open>createPrivateKey\<close> (or the failure it throws), the type of a key, its public part, and Ed25519 itself.\<close>

record 'k node_crypto =
  nc_createPrivateKey :: "string \<Rightarrow> 'k outcome"
  nc_asymmetricKeyType :: "'k \<Rightarrow> string"
  nc_exportPublic :: "'k \<Rightarrow> exported_jwk"
  nc_sign :: "'k \<Rightarrow> bytes \<Rightarrow> bytes"

record 'k local_provider =
  lp_privateKey :: "'k option"
  lp_verificationJwk :: "json option"

definition local_initialize ::
  "'k node_crypto \<Rightarrow> (string \<Rightarrow> string + open_file) \<Rightarrow> secrets_config \<Rightarrow> string \<Rightarrow> string \<Rightarrow> 'k local_provider outcome" where
  "local_initialize crypto open_nofollow secrets keyId privateKeyFile =
     and_then (read_secret open_nofollow secrets privateKeyFile) (\<lambda>text.
     and_then (nc_createPrivateKey crypto text) (\<lambda>privateKey.
     if nc_asymmetricKeyType crypto privateKey \<noteq> ''ed25519''
     then Inl (PlainError ''SFU admission private key must be Ed25519 PKCS#8'')
     else and_then (verification_jwk ''SFU admission key did not produce an Ed25519 public JWK'' keyId
         (nc_exportPublic crypto privateKey))
       (\<lambda>jwk. Inr \<lparr>lp_privateKey = Some privateKey, lp_verificationJwk = Some jwk\<rparr>)))"

definition local_publicJwk :: "'k local_provider \<Rightarrow> json outcome" where
  "local_publicJwk s = require (lp_verificationJwk s) (PlainError ''SFU signer is not initialized'')"

definition local_sign :: "'k node_crypto \<Rightarrow> bool \<Rightarrow> 'k local_provider \<Rightarrow> bytes \<Rightarrow> bytes outcome" where
  "local_sign crypto aborted s input =
     (if aborted then Inl (PlainError ''sfu_signing_aborted'')
      else and_then (require (lp_privateKey s) (PlainError ''SFU signer is not initialized''))
        (\<lambda>k. Inr (nc_sign crypto k input)))"

definition local_check :: "bool \<Rightarrow> 'k local_provider \<Rightarrow> unit outcome" where
  "local_check aborted s =
     (if aborted then Inl (PlainError ''sfu_signing_health_aborted'') else and_then (local_publicJwk s) (\<lambda>_. Inr ()))"

definition local_close :: "'k local_provider" where
  "local_close = \<lparr>lp_privateKey = None, lp_verificationJwk = None\<rparr>"

record kms_public_key =
  kp_keySpec :: string
  kp_keyUsage :: string
  kp_publicKey :: "bytes option"

definition kms_fetchPublicJwk ::
  "(bytes \<Rightarrow> exported_jwk outcome) \<Rightarrow> string \<Rightarrow> kms_public_key outcome \<Rightarrow> json outcome" where
  "kms_fetchPublicJwk createPublicKey keyId response =
     and_then response (\<lambda>r.
     case kp_publicKey r of
       None \<Rightarrow> Inl (PlainError ''AWS KMS key must be an Ed25519 SIGN_VERIFY key'')
     | Some der \<Rightarrow>
         if kp_keySpec r \<noteq> ''ECC_NIST_EDWARDS25519'' \<or> kp_keyUsage r \<noteq> ''SIGN_VERIFY''
         then Inl (PlainError ''AWS KMS key must be an Ed25519 SIGN_VERIFY key'')
         else and_then (createPublicKey der) (verification_jwk ''AWS KMS public key is not Ed25519'' keyId))"

text \<open>The provider keeps the key it fetched at its initialisation; a probe fetches it again.\<close>

definition kms_initialize ::
  "(bytes \<Rightarrow> exported_jwk outcome) \<Rightarrow> string \<Rightarrow> kms_public_key outcome \<Rightarrow> json option outcome" where
  "kms_initialize createPublicKey keyId response =
     and_then (kms_fetchPublicJwk createPublicKey keyId response) (\<lambda>jwk. Inr (Some jwk))"

definition kms_publicJwk :: "json option \<Rightarrow> json outcome" where
  "kms_publicJwk s = require s (PlainError ''SFU KMS signer is not initialized'')"

definition kms_check :: "(bytes \<Rightarrow> exported_jwk outcome) \<Rightarrow> string \<Rightarrow> kms_public_key outcome \<Rightarrow> unit outcome" where
  "kms_check createPublicKey keyId response =
     and_then (kms_fetchPublicJwk createPublicKey keyId response) (\<lambda>_. Inr ())"

definition kms_close :: "json option" where
  "kms_close = None"

text \<open>Signing through KMS; \<open>send\<close> is the call, with the signature of its answer if it has one.\<close>

definition kms_sign :: "(bytes \<Rightarrow> bytes option outcome) \<Rightarrow> bytes \<Rightarrow> bytes outcome" where
  "kms_sign send input =
     (if length input > 4096 then Inl (PlainError ''SFU admission signing input exceeds KMS RAW limit'')
      else and_then (send input) (\<lambda>signature.
        case signature of
          None \<Rightarrow> Inl (PlainError ''AWS KMS returned an invalid Ed25519 signature'')
        | Some b \<Rightarrow>
            if length b \<noteq> 64 then Inl (PlainError ''AWS KMS returned an invalid Ed25519 signature'') else Inr b))"

section \<open>The key service\<close>

record jwks_document =
  jd_keys :: "public_jwk list"
  jd_etag :: string

fun first_duplicate :: "string list \<Rightarrow> public_jwk list \<Rightarrow> bool" where
  "first_duplicate seen [] = False"
| "first_duplicate seen (k # ks) = (jk_kid k \<in> set seen \<or> first_duplicate (jk_kid k # seen) ks)"

definition loadRetiredKeys ::
  "(string \<Rightarrow> string + open_file) \<Rightarrow> (string \<Rightarrow> json option) \<Rightarrow> secrets_config \<Rightarrow> sfu_admission_config
     \<Rightarrow> public_jwk list outcome" where
  "loadRetiredKeys open_nofollow json_parse secrets config =
     (case sc_retiredJwksFile config of
       None \<Rightarrow> Inr []
     | Some f \<Rightarrow>
         and_then (read_secret open_nofollow secrets f) (\<lambda>text.
         and_then (require (json_parse text) (PlainError ''SyntaxError'')) (\<lambda>v.
         and_then (require (jwksSchema v) ZodError) (\<lambda>keys.
         if first_duplicate [] keys then Inl (PlainError ''Retired SFU JWKS contains duplicate key IDs'')
         else Inr keys))))"

definition jwks_json :: "public_jwk list \<Rightarrow> json" where
  "jwks_json keys = JObj [(''keys'', JArr (map jwk_json keys))]"

text \<open>The document of the retired keys and of the public key the provider reports.\<close>

definition key_service_document ::
  "(string \<Rightarrow> string) \<Rightarrow> (rat \<Rightarrow> string) \<Rightarrow> public_jwk list outcome \<Rightarrow> json outcome \<Rightarrow> jwks_document outcome" where
  "key_service_document sha256_base64url number retired publicJwk =
     and_then retired (\<lambda>old.
     and_then publicJwk (\<lambda>jwk.
     and_then (require (publicJwkSchema jwk) ZodError) (\<lambda>current.
     if list_ex (\<lambda>k. jk_kid k = jk_kid current) old
     then Inl (PlainError ''Retired SFU JWKS duplicates the current key identifier'')
     else Inr \<lparr>jd_keys = current # old,
       jd_etag = ''\"'' @ sha256_base64url (stringify number (jwks_json (current # old))) @ ''\"''\<rparr>)))"

text \<open>The state of the service, of its provider, and the registry of probes it shares with other modules;
  \<open>kv_registered\<close> says whether it holds the callback that removes its own.\<close>

record 'p key_service =
  kv_document :: "jwks_document option"
  kv_executor :: executor
  kv_provider :: 'p
  kv_indicators :: "unit indicators"
  kv_registered :: bool

text \<open>\<open>onModuleInit\<close>: the provider initialises, the document is built, the probe is registered.\<close>

definition key_service_start ::
  "(string \<Rightarrow> string) \<Rightarrow> (rat \<Rightarrow> string) \<Rightarrow> 'p outcome \<Rightarrow> ('p \<Rightarrow> json outcome) \<Rightarrow> public_jwk list outcome
     \<Rightarrow> 'p key_service \<Rightarrow> unit outcome \<times> 'p key_service" where
  "key_service_start sha256_base64url number initialize publicJwk retired s =
     (case initialize of
       Inl e \<Rightarrow> (Inl e, s)
     | Inr p \<Rightarrow>
         (case key_service_document sha256_base64url number retired (publicJwk p) of
           Inl e \<Rightarrow> (Inl e, s\<lparr>kv_provider := p\<rparr>)
         | Inr d \<Rightarrow>
             (case health_register ''sfu-admission-signer'' () (kv_indicators s) of
               (Inl e, _) \<Rightarrow> (Inl e, s\<lparr>kv_provider := p, kv_document := Some d\<rparr>)
             | (Inr _, indicators) \<Rightarrow>
                 (Inr (), s\<lparr>kv_provider := p, kv_document := Some d, kv_indicators := indicators,
                   kv_registered := True\<rparr>))))"

text \<open>\<open>onModuleDestroy\<close>; \<open>released\<close> is the provider after its \<open>close\<close>.\<close>

definition key_service_destroy :: "'p \<Rightarrow> 'p key_service \<Rightarrow> 'p key_service \<times> signer_effect list" where
  "key_service_destroy released s =
     (case executor_close (kv_executor s) of
       (x, effects) \<Rightarrow> (s\<lparr>kv_document := None, kv_executor := x, kv_provider := released,
         kv_indicators := (if kv_registered s then health_unregister ''sfu-admission-signer'' (kv_indicators s)
           else kv_indicators s), kv_registered := False\<rparr>, effects))"

definition key_service_jwks :: "'p key_service \<Rightarrow> jwks_document outcome" where
  "key_service_jwks s = require (kv_document s) (PlainError ''SFU admission keys are not initialized'')"

text \<open>The endpoint: status, entity tag and body.\<close>

definition jwks_get :: "'p key_service \<Rightarrow> string option \<Rightarrow> (nat \<times> string \<times> json option) outcome" where
  "jwks_get s if_none_match =
     and_then (key_service_jwks s) (\<lambda>d. Inr
       (if if_none_match = Some (jd_etag d) then (304, jd_etag d, None)
        else (200, jd_etag d, Some (jwks_json (jd_keys d)))))"

section \<open>Properties\<close>

lemma publicJwkSchema_json:
  "BASE64URL_256 (jk_x k) \<Longrightarrow> canonical_key_id (jk_kid k) \<Longrightarrow> publicJwkSchema (jwk_json k) = Some k"
  by (simp add: publicJwkSchema_def jwk_json_def strict_keys_def jwk_members_def field_def string_field_def)

lemma publicJwkSchema_ok:
  "publicJwkSchema v = Some k \<Longrightarrow> BASE64URL_256 (jk_x k) \<and> canonical_key_id (jk_kid k)"
  by (auto simp: publicJwkSchema_def split: json.splits if_splits option.splits)

lemma publicJwkSchema_kid:
  "publicJwkSchema (jwk_json k) = Some q \<Longrightarrow> q = k"
  by (auto simp: publicJwkSchema_def jwk_json_def string_field_def field_def split: if_splits option.splits)

lemma jwksSchema_ok:
  assumes "jwksSchema v = Some keys"
  shows "length keys \<le> 16 \<and> (\<forall>k \<in> set keys. BASE64URL_256 (jk_x k) \<and> canonical_key_id (jk_kid k))"
proof -
  from assms obtain ks where ks: "length ks \<le> 16" "all_some (map publicJwkSchema ks) = Some keys"
    by (auto simp: jwksSchema_def split: json.splits if_splits option.splits)
  from all_some_SomeD [OF ks(2)] have eq: "map publicJwkSchema ks = map Some keys" .
  then have "length ks = length keys" by (metis length_map)
  moreover have "\<exists>v. publicJwkSchema v = Some k" if "k \<in> set keys" for k
    using eq that by (metis (no_types, lifting) image_eqI imageE list.set_map)
  ultimately show ?thesis using ks(1) publicJwkSchema_ok by metis
qed

lemma first_duplicate_iff: "\<not> first_duplicate seen ks \<longleftrightarrow> distinct (map jk_kid ks) \<and> set seen \<inter> jk_kid ` set ks = {}"
  by (induction ks arbitrary: seen) auto

lemma loadRetiredKeys_ok:
  "loadRetiredKeys open_nofollow parse secrets config = Inr keys \<Longrightarrow>
     length keys \<le> 16 \<and> distinct (map jk_kid keys) \<and> (\<forall>k \<in> set keys. BASE64URL_256 (jk_x k) \<and> canonical_key_id (jk_kid k))"
  by (auto simp: loadRetiredKeys_def and_then_Inr_iff first_duplicate_iff dest: jwksSchema_ok
      split: option.splits if_splits)

lemma verification_jwk_Inr:
  "verification_jwk message keyId exported = Inr v \<Longrightarrow> \<exists>x. v = jwk_json \<lparr>jk_x = x, jk_kid = keyId\<rparr>"
  by (auto simp: verification_jwk_def split: option.splits if_splits)

text \<open>What the service relies on: the key a provider reports after its initialisation is a public key under
  its identifier.\<close>

locale signing_provider =
  fixes initialize :: "'p outcome"
    and publicJwk :: "'p \<Rightarrow> json outcome"
    and keyId :: string
  assumes published: "initialize = Inr p \<Longrightarrow> publicJwk p = Inr j \<Longrightarrow> \<exists>x. j = jwk_json \<lparr>jk_x = x, jk_kid = keyId\<rparr>"
begin

lemma document_keys:
  assumes "initialize = Inr p" and "key_service_document sha number retired (publicJwk p) = Inr d"
  obtains x old where "retired = Inr old" "jd_keys d = \<lparr>jk_x = x, jk_kid = keyId\<rparr> # old"
    "\<forall>k \<in> set old. jk_kid k \<noteq> keyId" "BASE64URL_256 x" "canonical_key_id keyId"
    "jd_etag d = ''\"'' @ sha (stringify number (jwks_json (jd_keys d))) @ ''\"''"
proof -
  obtain old jwk current where parts: "retired = Inr old" "publicJwk p = Inr jwk" "publicJwkSchema jwk = Some current"
    "\<forall>k \<in> set old. jk_kid k \<noteq> jk_kid current"
    "d = \<lparr>jd_keys = current # old, jd_etag = ''\"'' @ sha (stringify number (jwks_json (current # old))) @ ''\"''\<rparr>"
    using assms(2) by (auto simp: key_service_document_def and_then_Inr_iff list_ex_iff split: if_splits)
  obtain x where x: "jwk = jwk_json \<lparr>jk_x = x, jk_kid = keyId\<rparr>" using published [OF assms(1) parts(2)] by blast
  then have current: "current = \<lparr>jk_x = x, jk_kid = keyId\<rparr>" using parts(3) publicJwkSchema_kid by blast
  show thesis
    by (rule that [of old x]) (use parts current publicJwkSchema_ok [OF parts(3)] in auto)
qed

lemma started:
  assumes "key_service_start sha number initialize publicJwk retired s = (Inr (), s1)"
  obtains p d where "initialize = Inr p" "key_service_document sha number retired (publicJwk p) = Inr d"
    "''sfu-admission-signer'' \<notin> fst ` set (kv_indicators s)"
    "s1 = s\<lparr>kv_provider := p, kv_document := Some d,
       kv_indicators := kv_indicators s @ [(''sfu-admission-signer'', ())], kv_registered := True\<rparr>"
  using assms by (auto simp: key_service_start_def health_register_def split: sum.splits if_splits)

end

interpretation local_signer: signing_provider "local_initialize crypto open_nofollow secrets keyId f" local_publicJwk keyId
  by unfold_locales
    (auto simp: local_initialize_def local_publicJwk_def and_then_Inr_iff dest: verification_jwk_Inr split: if_splits)

interpretation kms_signer: signing_provider "kms_initialize createPublicKey keyId response" kms_publicJwk keyId
  by unfold_locales
    (auto simp: kms_initialize_def kms_publicJwk_def kms_fetchPublicJwk_def and_then_Inr_iff dest: verification_jwk_Inr
      split: if_splits option.splits)

definition jwk_object :: "json \<Rightarrow> (string \<times> json) list" where
  "jwk_object v = (case v of JObj obj \<Rightarrow> obj | _ \<Rightarrow> [])"

text \<open>C37. A verifier finds the key of every token, and only public material. If the service starts, the document
  lists at most 17 keys with distinct identifiers, the current key of the provider first; a token signed
  under the configured identifier is matched by exactly that key. Every key has exactly the seven public
  members, so no private part of a key, current or retired, is ever published; the endpoint answers with
  this document, or with 304 exactly when the client holds its entity tag, and the tag is the digest of the
  published keys. After the shutdown nothing is published, the executor and the provider are closed, and
  the registry of probes is what it was before the start.\<close>

theorem published_keys_match_tokens:
  assumes "signing_provider initialize publicJwk keyId"
    and "retired = loadRetiredKeys open_nofollow parse secrets config"
    and "key_service_start sha number initialize publicJwk retired s = (Inr (), s1)"
  shows "\<exists>d x old. kv_document s1 = Some d \<and> retired = Inr old \<and> jd_keys d = \<lparr>jk_x = x, jk_kid = keyId\<rparr> # old \<and>
    filter (\<lambda>k. jk_kid k = keyId) (jd_keys d) = [\<lparr>jk_x = x, jk_kid = keyId\<rparr>] \<and>
    length (jd_keys d) \<le> 17 \<and> distinct (map jk_kid (jd_keys d)) \<and>
    (\<forall>k \<in> set (jd_keys d). map fst (jwk_object (jwk_json k)) = jwk_members \<and> BASE64URL_256 (jk_x k) \<and>
      publicJwkSchema (jwk_json k) = Some k) \<and>
    jd_etag d = ''\"'' @ sha (stringify number (jwks_json (jd_keys d))) @ ''\"'' \<and>
    (\<forall>tag. jwks_get s1 tag = Inr (if tag = Some (jd_etag d) then (304, jd_etag d, None)
      else (200, jd_etag d, Some (jwks_json (jd_keys d))))) \<and>
    (case key_service_destroy released s1 of (s2, _) \<Rightarrow> isl (jwks_get s2 tag) \<and> kv_indicators s2 = kv_indicators s \<and>
      ex_closed (kv_executor s2) \<and> kv_provider s2 = released)"
proof -
  obtain p d where start: "initialize = Inr p" "key_service_document sha number retired (publicJwk p) = Inr d"
    "''sfu-admission-signer'' \<notin> fst ` set (kv_indicators s)"
    "s1 = s\<lparr>kv_provider := p, kv_document := Some d,
       kv_indicators := kv_indicators s @ [(''sfu-admission-signer'', ())], kv_registered := True\<rparr>"
    using assms(3) by (rule signing_provider.started [OF assms(1)])
  obtain x old where doc: "retired = Inr old" "jd_keys d = \<lparr>jk_x = x, jk_kid = keyId\<rparr> # old"
    "\<forall>k \<in> set old. jk_kid k \<noteq> keyId" "BASE64URL_256 x" "canonical_key_id keyId"
    "jd_etag d = ''\"'' @ sha (stringify number (jwks_json (jd_keys d))) @ ''\"''"
    using start(1,2) by (rule signing_provider.document_keys [OF assms(1)])
  have old: "length old \<le> 16" "distinct (map jk_kid old)"
    "\<forall>k \<in> set old. BASE64URL_256 (jk_x k) \<and> canonical_key_id (jk_kid k)"
    using loadRetiredKeys_ok doc(1) assms(2) by metis+
  have only: "filter (\<lambda>k. jk_kid k = keyId) (jd_keys d) = [\<lparr>jk_x = x, jk_kid = keyId\<rparr>]"
    using doc(2,3) by (auto simp: filter_empty_conv)
  have distinct: "distinct (map jk_kid (jd_keys d))" using doc(2,3) old(2) by auto
  have "\<forall>k \<in> set (jd_keys d). BASE64URL_256 (jk_x k) \<and> canonical_key_id (jk_kid k)"
    using old(3) doc(2,4,5) by auto
  then have keys: "\<forall>k \<in> set (jd_keys d). map fst (jwk_object (jwk_json k)) = jwk_members \<and>
      BASE64URL_256 (jk_x k) \<and> publicJwkSchema (jwk_json k) = Some k"
    by (auto simp: publicJwkSchema_json) (simp add: jwk_object_def jwk_json_def jwk_members_def)
  have unregistered: "health_unregister ''sfu-admission-signer''
      (kv_indicators s @ [(''sfu-admission-signer'', ())]) = kv_indicators s"
    using health_unregister_register [OF start(3), of "()"] start(3) by (simp add: health_register_def)
  have gone: "case key_service_destroy released s1 of (s2, _) \<Rightarrow> isl (jwks_get s2 tag) \<and>
      kv_indicators s2 = kv_indicators s \<and> ex_closed (kv_executor s2) \<and> kv_provider s2 = released"
    by (simp add: start(4) key_service_destroy_def executor_close_def jwks_get_def key_service_jwks_def unregistered)
  have d: "kv_document s1 = Some d" by (simp add: start(4))
  have served: "\<forall>tag. jwks_get s1 tag = Inr (if tag = Some (jd_etag d) then (304, jd_etag d, None)
      else (200, jd_etag d, Some (jwks_json (jd_keys d))))"
    by (simp add: d jwks_get_def key_service_jwks_def)
  have bounded: "length (jd_keys d) \<le> 17" using doc(2) old(1) by simp
  show ?thesis
    by (intro exI [of _ d] exI [of _ x] exI [of _ old] conjI) (fact d doc(1,2,6) only bounded distinct keys served gone)+
qed

section \<open>A sample\<close>

definition sample_secrets :: secrets_config where
  "sample_secrets = \<lparr>sk_mountRoot = ''/run/secrets'', sk_requireRestrictedPermissions = True\<rparr>"

definition sample_x :: string where "sample_x = replicate 42 CHR ''A'' @ ''A''"

definition sample_kms :: "json option outcome" where
  "sample_kms = kms_initialize (\<lambda>der. Inr \<lparr>xj_kty = ''OKP'', xj_crv = ''Ed25519'', xj_x = Some sample_x\<rparr>) ''key-2''
     (Inr \<lparr>kp_keySpec = ''ECC_NIST_EDWARDS25519'', kp_keyUsage = ''SIGN_VERIFY'', kp_publicKey = Some [1]\<rparr>)"

definition sample_retired_config :: sfu_admission_config where
  "sample_retired_config = \<lparr>sc_enabled = True, sc_issuer = ''i'', sc_audience = ''a'', sc_publicUrl = ''u'',
     sc_tokenTtlSeconds = 60, sc_clockSkewSeconds = 5, sc_issueRateLimit = 12, sc_rateLimitWindowSeconds = 60,
     sc_signerConcurrency = 8, sc_signerQueueCapacity = 256, sc_signerTimeoutMs = 2000, sc_auditRetentionDays = 30,
     sc_auditCleanupBatchSize = 500, sc_auditCleanupIntervalMs = 300000, sc_signer = None,
     sc_retiredJwksFile = Some ''/run/secrets/session''\<rparr>"

definition sample_parse :: "string \<Rightarrow> json option" where
  "sample_parse t = Some (jwks_json [\<lparr>jk_x = sample_x, jk_kid = ''key-1''\<rparr>])"

definition sample_retired :: "public_jwk list outcome" where
  "sample_retired = loadRetiredKeys sample_secret sample_parse sample_secrets sample_retired_config"

lemma sample_retired_evaluated: "sample_retired = Inr [\<lparr>jk_x = sample_x, jk_kid = ''key-1''\<rparr>]"
  by code_simp

lemma sample_kms_evaluated: "sample_kms = Inr (Some (jwk_json \<lparr>jk_x = sample_x, jk_kid = ''key-2''\<rparr>))"
  by code_simp

lemma sample_x_ok: "BASE64URL_256 sample_x" "canonical_key_id ''key-2''"
  by code_simp+

definition sample_service :: "json option key_service" where
  "sample_service = \<lparr>kv_document = None, kv_executor = new_executor, kv_provider = None,
     kv_indicators = [(''redis'', ())], kv_registered = False\<rparr>"

definition sample_started :: "unit outcome \<times> json option key_service" where
  "sample_started = key_service_start (\<lambda>t. ''digest'') (\<lambda>q. ''0'') sample_kms kms_publicJwk sample_retired sample_service"

lemma sample_started_ok: "sample_started = (Inr (), snd sample_started)"
  by (simp add: sample_started_def key_service_start_def key_service_document_def kms_publicJwk_def health_register_def
    sample_kms_evaluated sample_retired_evaluated publicJwkSchema_json sample_x_ok sample_service_def)

theorem published_keys_match_tokens_witness:
  "\<exists>d old. kv_document (snd sample_started) = Some d \<and> sample_retired = Inr old \<and>
     map jk_kid (jd_keys d) = ''key-2'' # map jk_kid old \<and>
     jwks_get (snd sample_started) (Some (jd_etag d)) = Inr (304, jd_etag d, None)"
proof -
  have kms: "signing_provider sample_kms kms_publicJwk ''key-2''"
    unfolding sample_kms_def by (rule kms_signer.signing_provider_axioms)
  from published_keys_match_tokens [OF kms sample_retired_def sample_started_ok [unfolded sample_started_def],
      folded sample_started_def, where released = None and tag = None]
  obtain d x old where d: "kv_document (snd sample_started) = Some d" "sample_retired = Inr old"
    "jd_keys d = \<lparr>jk_x = x, jk_kid = ''key-2''\<rparr> # old"
    "jwks_get (snd sample_started) (Some (jd_etag d)) = Inr (304, jd_etag d, None)" by fastforce
  then show ?thesis by (intro exI [of _ d] exI [of _ old]) simp
qed

end
