(* ===== verification/Maintenance.thy ===== *)
theory Maintenance
  imports ChatHistory Deployment
begin

text \<open>
  The janitors of the worker (\<open>chat-retention.janitor.ts\<close>, \<open>realtime-ticket-audit-janitor.ts\<close>,
  \<open>sfu-admission-audit-janitor.ts\<close>): passes on an interval that never overlap, and the retention of encrypted
  messages they complete.
\<close>

section \<open>A janitor\<close>

record janitor =
  jn_timer :: bool
  jn_running :: bool

text \<open>\<open>runOnce\<close>: whether a pass starts. While one runs, the chat janitor returns its promise and the others
  return 0.\<close>

definition janitor_runOnce :: "janitor \<Rightarrow> bool \<times> janitor" where
  "janitor_runOnce s = (if jn_running s then (False, s) else (True, s\<lparr>jn_running := True\<rparr>))"

definition janitor_init :: "bool \<Rightarrow> janitor \<Rightarrow> bool \<times> janitor" where
  "janitor_init enabled s = (if \<not> enabled then (False, s) else janitor_runOnce (s\<lparr>jn_timer := True\<rparr>))"

definition janitor_finish :: "janitor \<Rightarrow> janitor" where
  "janitor_finish s = s\<lparr>jn_running := False\<rparr>"

definition janitor_destroy :: "janitor \<Rightarrow> janitor" where
  "janitor_destroy s = s\<lparr>jn_timer := False\<rparr>"

definition ticket_janitor_enabled :: "application_config \<Rightarrow> bool" where
  "ticket_janitor_enabled c = dc_enabled (ic_database (ap_infrastructure c))"

definition ticket_janitor_interval :: "application_config \<Rightarrow> int" where
  "ticket_janitor_interval c = max 5000 (min 60000 (rc_ticketTtlSeconds (ap_realtime c) * 1000))"

definition sfu_janitor_enabled :: "application_config \<Rightarrow> bool" where
  "sfu_janitor_enabled c = (sc_enabled (ap_sfuAdmission c) \<and> dc_enabled (ic_database (ap_infrastructure c)))"

text \<open>The interval of a loaded configuration is the lifetime of a ticket.\<close>

lemma ticket_janitor_interval_loaded:
  "realtime_config_ok (ap_realtime c) \<Longrightarrow> ticket_janitor_interval c = rc_ticketTtlSeconds (ap_realtime c) * 1000"
  by (auto simp: ticket_janitor_interval_def realtime_config_ok_def between_def)

section \<open>Retention\<close>

text \<open>A pass commits its deletion, with the clock and the locked rows it met, or fails and is logged. Other
  transactions change the database in between.\<close>

datatype maintenance_event =
    JanitorStarts
  | JanitorTicks
  | PassCommits instant "uuid \<Rightarrow> bool"
  | PassFails failure
  | JanitorStops
  | OthersWrite database

fun maintenance_step :: "chat_config \<Rightarrow> janitor \<times> database \<Rightarrow> maintenance_event \<Rightarrow> janitor \<times> database" where
  "maintenance_step c (s, db) JanitorStarts = (snd (janitor_init True s), db)"
| "maintenance_step c (s, db) JanitorTicks = (snd (janitor_runOnce s), db)"
| "maintenance_step c (s, db) (PassCommits now skip) =
     (janitor_finish s, snd (atomically (deleteExpired now skip (cc_cleanupBatchSize c)) db))"
| "maintenance_step c (s, db) (PassFails e) = (janitor_finish s, db)"
| "maintenance_step c (s, db) JanitorStops = (janitor_destroy s, db)"
| "maintenance_step c (s, db) (OthersWrite db') = (s, db')"

text \<open>The messages whose retention ended by an instant.\<close>

definition due :: "instant \<Rightarrow> database \<Rightarrow> nat" where
  "due t db = count_where (\<lambda>r. c_expires_at r \<le> t) (chat_messages db)"

text \<open>A history seen from an instant in the past: timers fire while armed, passes end while they run, other
  transactions keep the invariant of the chat and neither add nor take back messages already due.\<close>

fun maintenance_enabled :: "instant \<Rightarrow> janitor \<times> database \<Rightarrow> maintenance_event \<Rightarrow> bool" where
  "maintenance_enabled t (s, db) JanitorStarts = (\<not> jn_timer s \<and> \<not> jn_running s)"
| "maintenance_enabled t (s, db) JanitorTicks = jn_timer s"
| "maintenance_enabled t (s, db) (PassCommits now skip) = (jn_running s \<and> t \<le> now \<and> (\<forall>i. \<not> skip i))"
| "maintenance_enabled t (s, db) (PassFails e) = jn_running s"
| "maintenance_enabled t (s, db) JanitorStops = True"
| "maintenance_enabled t (s, db) (OthersWrite db') = (chat_inv db' \<and> due t db' = due t db)"

definition is_commit :: "maintenance_event \<Rightarrow> bool" where
  "is_commit e = (case e of PassCommits _ _ \<Rightarrow> True | _ \<Rightarrow> False)"

section \<open>What a pass takes\<close>

lemma filter_sorted_prefix:
  assumes "sorted_wrt (\<lambda>x y. Q y \<longrightarrow> Q x) xs"
  shows "length (filter Q (take n xs)) = min n (length (filter Q xs))"
  using assms
proof (induction xs arbitrary: n)
  case (Cons x xs)
  show ?case
  proof (cases n)
    case (Suc m)
    show ?thesis
    proof (cases "Q x")
      case True
      then show ?thesis using Cons Suc by simp
    next
      case False
      then have "\<forall>y \<in> set xs. \<not> Q y" using Cons.prems by auto
      then have "filter Q xs = []" "filter Q (take m xs) = []" by (auto simp: filter_empty_conv dest: in_set_takeD)
      then show ?thesis using False Suc by simp
    qed
  qed simp
qed simp

lemma count_where_sort_key: "count_where Q (sort_key k xs) = count_where Q xs"
  by (simp add: count_where_def filter_sort)

text \<open>The first rows by expiry hold as many due rows as there can be.\<close>

lemma due_selected:
  fixes key :: "'r \<Rightarrow> int \<times> 'k::linorder"
  assumes "\<And>r. Q r \<longleftrightarrow> fst (key r) \<le> t" and "\<And>r. Q r \<Longrightarrow> P r"
  shows "count_where Q (select_limit P key n rows) = min n (count_where Q rows)"
proof -
  let ?xs = "sort_key key (filter P rows)"
  have "sorted (map key ?xs)" by simp
  then have "sorted_wrt (\<lambda>x y. key x \<le> key y) ?xs" by (simp only: sorted_map)
  then have "sorted_wrt (\<lambda>x y. Q y \<longrightarrow> Q x) ?xs"
    by (rule sorted_wrt_mono_rel [rotated]) (auto simp: assms(1) less_eq_prod_def)
  then have "count_where Q (select_limit P key n rows) = min n (count_where Q ?xs)"
    unfolding select_limit_def count_where_def by (rule filter_sorted_prefix)
  also have "count_where Q ?xs = count_where Q rows"
    using assms(2) by (simp add: count_where_sort_key) (auto simp: count_where_def intro: arg_cong [where f = length] filter_cong)
  finally show ?thesis .
qed

lemma count_where_remove:
  assumes "distinct (map k rows)" and "distinct (map k picked)" and "set picked \<subseteq> set rows"
  shows "count_where Q (filter (\<lambda>r. k r \<notin> k ` set picked) rows) + count_where Q picked = count_where Q rows"
proof -
  have inj: "inj_on k (set rows)" using assms(1) by (simp add: distinct_map)
  then have rows: "filter (\<lambda>r. k r \<notin> k ` set picked) rows = filter (\<lambda>r. r \<notin> set picked) rows"
    by (intro filter_cong refl) (simp add: inj_on_image_mem_iff [OF inj _ assms(3)])
  have d: "distinct rows" "distinct picked" using assms(1,2) by (simp_all add: distinct_map)
  have "count_where Q (filter (\<lambda>r. r \<notin> set picked) rows) = card ({r. Q r} \<inter> set rows - {r. Q r} \<inter> set picked)"
    using d(1) by (simp add: count_where_def distinct_length_filter) (rule arg_cong [where f = card], auto)
  also have "\<dots> = card ({r. Q r} \<inter> set rows) - card ({r. Q r} \<inter> set picked)"
    by (rule card_Diff_subset) (use assms(3) in auto)
  finally have "count_where Q (filter (\<lambda>r. r \<notin> set picked) rows) = count_where Q rows - count_where Q picked"
    using d by (simp add: count_where_def distinct_length_filter)
  moreover have "card ({r. Q r} \<inter> set picked) \<le> card ({r. Q r} \<inter> set rows)"
    by (rule card_mono) (use assms(3) in auto)
  then have "count_where Q picked \<le> count_where Q rows"
    using d by (simp add: count_where_def distinct_length_filter)
  ultimately show ?thesis unfolding rows by simp
qed


lemma deleteExpired_due:
  assumes "chat_inv db" and "deleteExpired now skip n db = Inr (k, db')" and "t \<le> now" and "\<forall>i. \<not> skip i"
  shows "due t db' = due t db - nat n"
proof -
  let ?key = "\<lambda>r. (c_expires_at r, c_id r)" and ?P = "\<lambda>r. c_expires_at r \<le> now \<and> \<not> skip (c_id r)"
  let ?picked = "select_limit ?P ?key (nat n) (chat_messages db)"
  have ids: "distinct (map c_id (chat_messages db))" using assms(1) by (simp add: chat_inv_def messages_inv_def)
  have db': "chat_messages db' = filter (\<lambda>r. c_id r \<notin> c_id ` set ?picked) (chat_messages db)"
    using assms(2) by (auto simp: deleteExpired_def Let_def split: if_splits)
  have "distinct (map c_id ?picked)" using ids by (rule distinct_select_limit)
  moreover have "set ?picked \<subseteq> set (chat_messages db)" using set_select_limit_subset by fast
  ultimately have "due t db' + count_where (\<lambda>r. c_expires_at r \<le> t) ?picked = due t db"
    unfolding due_def db' by (rule count_where_remove [OF ids])
  moreover have "count_where (\<lambda>r. c_expires_at r \<le> t) ?picked = min (nat n) (due t db)"
    unfolding due_def by (rule due_selected [where t = t]) (use assms(3,4) in auto)
  ultimately show ?thesis by simp
qed

section \<open>Over a history\<close>

lemma maintenance_step_due:
  assumes "chat_inv db" and "1 \<le> cc_cleanupBatchSize c" and "cc_cleanupBatchSize c \<le> 10000"
    and "maintenance_enabled t (s, db) e" and "maintenance_step c (s, db) e = (s', db')"
  shows "chat_inv db' \<and> due t db' = due t db - (if is_commit e then nat (cc_cleanupBatchSize c) else 0)"
proof (cases e)
  case (PassCommits now skip)
  obtain k db1 where d: "deleteExpired now skip (cc_cleanupBatchSize c) db = Inr (k, db1)"
    using assms(2,3) by (simp add: deleteExpired_def Let_def)
  then have "db' = db1" using assms(5) by (simp add: PassCommits atomically_def)
  then show ?thesis
    using deleteExpired_keeps [OF assms(1) d] deleteExpired_due [OF assms(1) d, of t] assms(4)
    by (simp add: PassCommits is_commit_def)
qed (use assms in \<open>auto simp: is_commit_def\<close>)

lemma maintenance_history_due:
  assumes "chat_inv (snd x)" and "1 \<le> cc_cleanupBatchSize c" and "cc_cleanupBatchSize c \<le> 10000"
    and "enabled_history (maintenance_step c) (maintenance_enabled t) x es"
  shows "chat_inv (snd (foldl (maintenance_step c) x es)) \<and>
    due t (snd (foldl (maintenance_step c) x es)) =
      due t (snd x) - nat (cc_cleanupBatchSize c) * length (filter is_commit es)"
  using assms(1,4)
proof (induction es arbitrary: x)
  case (Cons e es)
  obtain s db s' db' where x: "x = (s, db)" and step: "maintenance_step c (s, db) e = (s', db')" by fastforce
  have "chat_inv db' \<and> due t db' = due t db - (if is_commit e then nat (cc_cleanupBatchSize c) else 0)"
    by (rule maintenance_step_due [OF _ assms(2,3) _ step]) (use Cons.prems x in auto)
  with Cons.IH [of "(s', db')"] Cons.prems(2) show ?case by (simp add: x step)
qed simp

text \<open>The passes of a history: those that started, and whether one is running.\<close>

definition starts_pass :: "janitor \<Rightarrow> maintenance_event \<Rightarrow> bool" where
  "starts_pass s e = (case e of
     JanitorStarts \<Rightarrow> fst (janitor_init True s) | JanitorTicks \<Rightarrow> fst (janitor_runOnce s) | _ \<Rightarrow> False)"

definition ends_pass :: "maintenance_event \<Rightarrow> bool" where
  "ends_pass e = (case e of PassCommits _ _ \<Rightarrow> True | PassFails _ \<Rightarrow> True | _ \<Rightarrow> False)"

fun passes_started :: "chat_config \<Rightarrow> janitor \<times> database \<Rightarrow> maintenance_event list \<Rightarrow> nat" where
  "passes_started c x [] = 0"
| "passes_started c x (e # es) =
     (if starts_pass (fst x) e then 1 else 0) + passes_started c (maintenance_step c x e) es"

lemma passes_balanced:
  "enabled_history (maintenance_step c) (maintenance_enabled t) x es \<Longrightarrow>
     passes_started c x es + (if jn_running (fst x) then 1 else 0) =
       length (filter ends_pass es) + (if jn_running (fst (foldl (maintenance_step c) x es)) then 1 else 0)"
proof (induction es arbitrary: x)
  case (Cons e es)
  obtain s db where x: "x = (s, db)" by fastforce
  define y where "y = maintenance_step c (s, db) e"
  have "(if starts_pass s e then 1 else 0) + (if jn_running s then 1 else (0::nat)) =
      (if ends_pass e then 1 else 0) + (if jn_running (fst y) then 1 else 0)"
    using Cons.prems unfolding x y_def
    by (cases e) (auto simp: starts_pass_def ends_pass_def janitor_init_def janitor_runOnce_def janitor_finish_def
      janitor_destroy_def)
  moreover have "passes_started c y es + (if jn_running (fst y) then 1 else 0) =
      length (filter ends_pass es) + (if jn_running (fst (foldl (maintenance_step c) y es)) then 1 else 0)"
    using Cons.IH [of y] Cons.prems by (simp add: x y_def)
  moreover have "passes_started c (s, db) (e # es) = (if starts_pass s e then 1 else 0) + passes_started c y es"
    "length (filter ends_pass (e # es)) = (if ends_pass e then 1 else 0) + length (filter ends_pass es)"
    by (simp_all add: y_def)
  moreover have last: "foldl (maintenance_step c) (s, db) (e # es) = foldl (maintenance_step c) y es" by (simp add: y_def)
  ultimately show ?case unfolding x fst_conv last by linarith
qed simp


section \<open>A sample\<close>

definition sample_retention :: "maintenance_event list" where
  "sample_retention = [JanitorStarts, JanitorTicks, PassFails (DependencyFault ''down''), JanitorTicks,
     PassCommits 9000000000000 (\<lambda>i. False), JanitorStops]"



end
