(* ===== verification/Connections.thy ===== *)
theory Connections
  imports Health
begin

text \<open>
  The connections of a process (\<open>platform/database/postgres-connection.ts\<close>,
  \<open>platform/redis/redis-connections.ts\<close>): resolving the secret sources a configuration names, the options the
  pool and the three Redis clients are created with, and their life between start and shutdown. What the
  libraries do with the options, and whether a server answers, are arguments.
\<close>

section \<open>A connection and its probe\<close>

text \<open>The client, once it exists, and the registry of probes it shares with other components.\<close>

record 'c connection_state =
  cn_client :: "'c option"
  cn_registered :: bool
  cn_indicators :: "unit indicators"

definition register_probe :: "string \<Rightarrow> 'c connection_state \<Rightarrow> unit outcome \<times> 'c connection_state" where
  "register_probe name s =
     (case health_register name () (cn_indicators s) of
       (Inl e, _) \<Rightarrow> (Inl e, s)
     | (Inr _, indicators) \<Rightarrow> (Inr (), s\<lparr>cn_indicators := indicators, cn_registered := True\<rparr>))"

text \<open>The first half of both \<open>onModuleDestroy\<close>: the probe and the client are forgotten; the client is left to close.\<close>

definition forget_client :: "string \<Rightarrow> 'c connection_state \<Rightarrow> 'c option \<times> 'c connection_state" where
  "forget_client name s =
     (cn_client s, s\<lparr>cn_client := None, cn_registered := False,
       cn_indicators := (if cn_registered s then health_unregister name (cn_indicators s) else cn_indicators s)\<rparr>)"

datatype tls_options = NoTls | VerifiedTls "string option"

definition read_ca ::
  "(string \<Rightarrow> string + open_file) \<Rightarrow> secrets_config \<Rightarrow> string option \<Rightarrow> string option outcome" where
  "read_ca open_nofollow secrets tlsCaFile =
     (case tlsCaFile of
       None \<Rightarrow> Inr None
     | Some f \<Rightarrow> and_then (read_secret open_nofollow secrets f) (\<lambda>ca. Inr (Some ca)))"

text \<open>The end of both probes: refused when already aborted, else the race of the request with the abort.\<close>

definition raced_probe :: "bool \<Rightarrow> 'c outcome \<Rightarrow> unit outcome \<Rightarrow> unit outcome" where
  "raced_probe aborted client race =
     (if aborted then Inl (PlainError ''health_check_aborted'') else and_then client (\<lambda>_. race))"

section \<open>PostgreSQL\<close>

record pool_options =
  po_connectionString :: string
  po_applicationName :: string
  po_max :: int
  po_connectTimeoutMs :: int
  po_queryTimeoutMs :: int
  po_statementTimeoutMs :: int
  po_lockTimeoutMs :: int
  po_idleTransactionTimeoutMs :: int
  po_allowExitOnIdle :: bool
  po_tls :: tls_options

definition resolveConnectionString ::
  "platform \<Rightarrow> (string \<Rightarrow> string + open_file) \<Rightarrow> secrets_config \<Rightarrow> database_config \<Rightarrow> string outcome" where
  "resolveConnectionString p open_nofollow secrets config =
     and_then (case dc_connectionString config of
         Some v \<Rightarrow> Inr (Some v)
       | None \<Rightarrow>
           (case dc_connectionStringFile config of
             None \<Rightarrow> Inr None
           | Some f \<Rightarrow> and_then (read_secret open_nofollow secrets f) (\<lambda>v. Inr (Some v))))
       (\<lambda>source. and_then (require source (ConfigurationError ''PostgreSQL secret source is missing''))
       (\<lambda>v. and_then (validateResolvedPostgresUrl p v (dc_tlsRequired config)) (\<lambda>_. Inr v)))"

definition pool_of :: "app_role \<Rightarrow> database_config \<Rightarrow> string \<Rightarrow> string option \<Rightarrow> pool_options" where
  "pool_of role config connectionString ca = \<lparr>
     po_connectionString = connectionString, po_applicationName = dc_applicationName config,
     po_max = dc_poolMax config, po_connectTimeoutMs = dc_connectTimeoutMs config,
     po_queryTimeoutMs = dc_queryTimeoutMs config, po_statementTimeoutMs = dc_statementTimeoutMs config,
     po_lockTimeoutMs = dc_lockTimeoutMs config,
     po_idleTransactionTimeoutMs = dc_idleTransactionTimeoutMs config,
     po_allowExitOnIdle = (role = Migration),
     po_tls = (if dc_tlsRequired config then VerifiedTls ca else NoTls)\<rparr>"

text \<open>\<open>onModuleInit\<close>; \<open>reachable\<close> is the outcome of \<open>SELECT 1\<close>.\<close>

definition postgres_init ::
  "platform \<Rightarrow> (string \<Rightarrow> string + open_file) \<Rightarrow> secrets_config \<Rightarrow> app_role \<Rightarrow> database_config \<Rightarrow> unit outcome \<Rightarrow>
     pool_options connection_state \<Rightarrow> unit outcome \<times> pool_options connection_state" where
  "postgres_init p open_nofollow secrets role config reachable s =
     (if \<not> dc_enabled config then (Inr (), s)
      else case and_then (resolveConnectionString p open_nofollow secrets config) (\<lambda>v.
          and_then (read_ca open_nofollow secrets (dc_tlsCaFile config)) (\<lambda>ca. Inr (pool_of role config v ca))) of
        Inl e \<Rightarrow> (Inl e, s)
      | Inr q \<Rightarrow>
          let s' = s\<lparr>cn_client := Some q\<rparr>
          in case reachable of Inl e \<Rightarrow> (Inl e, s') | Inr _ \<Rightarrow> register_probe ''postgresql'' s')"

text \<open>\<open>onModuleDestroy\<close>: the pool that is ended, if there was one.\<close>

definition postgres_destroy ::
  "pool_options connection_state \<Rightarrow> pool_options option \<times> pool_options connection_state" where
  "postgres_destroy s = forget_client ''postgresql'' s"

definition requirePool :: "pool_options connection_state \<Rightarrow> pool_options outcome" where
  "requirePool s = require (cn_client s) (ConfigurationError ''PostgreSQL is disabled or has not completed startup'')"

definition postgres_query ::
  "(pool_options \<Rightarrow> string \<Rightarrow> 'v list \<Rightarrow> 'r outcome) \<Rightarrow> pool_options connection_state \<Rightarrow> string \<Rightarrow> 'v list \<Rightarrow> 'r outcome" where
  "postgres_query answer s statement values = and_then (requirePool s) (\<lambda>q. answer q statement values)"

definition postgres_checkHealth :: "bool \<Rightarrow> unit outcome \<Rightarrow> pool_options connection_state \<Rightarrow> unit outcome" where
  "postgres_checkHealth aborted race s = raced_probe aborted (requirePool s) race"

section \<open>Redis\<close>

record redis_options =
  ro_name :: string
  ro_connectTimeoutMs :: int
  ro_commandTimeoutMs :: int
  ro_maxReconnectDelayMs :: int
  ro_tls :: tls_options

datatype redis_client =
    StandaloneClient redis_options string
  | ClusterClient redis_options "string list" "string option \<times> string option"

type_synonym redis_clients = "redis_client \<times> redis_client \<times> redis_client"

definition resolveUrls ::
  "platform \<Rightarrow> (string \<Rightarrow> string + open_file) \<Rightarrow> secrets_config \<Rightarrow> redis_config \<Rightarrow> string list outcome" where
  "resolveUrls p open_nofollow secrets config =
     and_then (case rd_connectionUrls config of
         Some urls \<Rightarrow> Inr (Some urls)
       | None \<Rightarrow>
           (case rd_connectionUrlsFile config of
             None \<Rightarrow> Inr None
           | Some f \<Rightarrow> and_then (read_secret open_nofollow secrets f) (\<lambda>v.
               and_then (parseResolvedRedisUrls p v (rd_tlsRequired config)) (\<lambda>urls. Inr (Some urls)))))
       (\<lambda>source. and_then (require source (ConfigurationError ''Redis secret source is missing''))
       (\<lambda>urls. and_then (validate_all (\<lambda>u. and_then (parseResolvedRedisUrls p u (rd_tlsRequired config)) (\<lambda>_. Inr ())) urls)
       (\<lambda>_. Inr urls)))"

text \<open>\<open>new URL(value)\<close> throws a \<open>TypeError\<close>.\<close>

definition new_url :: "platform \<Rightarrow> string \<Rightarrow> url outcome" where
  "new_url p v = require (pf_url p v) (PlainError ''Invalid URL'')"

definition validateTopology :: "platform \<Rightarrow> string list \<Rightarrow> redis_config \<Rightarrow> unit outcome" where
  "validateTopology p urls config =
     (if rd_mode config = Standalone \<and> length urls \<noteq> 1
      then Inl (ConfigurationError ''Redis standalone requires exactly one seed URL'')
      else if rd_mode config = Cluster \<and> length urls < 3
      then Inl (ConfigurationError ''Redis Cluster requires at least three seed URLs'')
      else validate_all (\<lambda>v. and_then (new_url p v) (\<lambda>u.
        ensure (ul_pathname u = [] \<or> ul_pathname u = ''/'' \<or> ul_pathname u = ''/0'')
          (ConfigurationError ''Redis database must be zero''))) urls)"

text \<open>\<open>decodeURIComponent\<close> may throw.\<close>

definition decoded :: "(string \<Rightarrow> string outcome) \<Rightarrow> string \<Rightarrow> string option outcome" where
  "decoded decodeURIComponent v =
     (if v = [] then Inr None else and_then (decodeURIComponent v) (\<lambda>d. Inr (Some d)))"

definition sharedClusterCredentials ::
  "platform \<Rightarrow> (string \<Rightarrow> string outcome) \<Rightarrow> string list \<Rightarrow> (string option \<times> string option) outcome" where
  "sharedClusterCredentials p decodeURIComponent urls =
     and_then (new_url p (case urls of [] \<Rightarrow> ''redis://invalid'' | v # _ \<Rightarrow> v)) (\<lambda>first.
     and_then (validate_all (\<lambda>v. and_then (new_url p v) (\<lambda>u.
         ensure (ul_username u = ul_username first \<and> ul_password u = ul_password first)
           (ConfigurationError ''Redis Cluster seed credentials must be identical''))) (drop 1 urls)) (\<lambda>_.
     and_then (decoded decodeURIComponent (ul_username first)) (\<lambda>username.
     and_then (decoded decodeURIComponent (ul_password first)) (\<lambda>password. Inr (username, password)))))"

text \<open>The delay before a reconnection, or the end of its budget; \<open>jitter\<close> is drawn from 0 to 99.\<close>

definition reconnectStrategy :: "int \<Rightarrow> int \<Rightarrow> nat \<Rightarrow> int option" where
  "reconnectStrategy maxReconnectDelayMs jitter retries =
     (if 20 \<le> retries then None
      else let exponential = min maxReconnectDelayMs (50 * 2 ^ retries)
        in Some (min maxReconnectDelayMs (exponential + jitter)))"

definition createRedisClient ::
  "platform \<Rightarrow> (string \<Rightarrow> string outcome) \<Rightarrow> redis_config \<Rightarrow> string list \<Rightarrow> string option \<Rightarrow> string \<Rightarrow> redis_client outcome" where
  "createRedisClient p decodeURIComponent config urls ca name =
     (let options = \<lparr>ro_name = name, ro_connectTimeoutMs = rd_connectTimeoutMs config,
            ro_commandTimeoutMs = rd_commandTimeoutMs config,
            ro_maxReconnectDelayMs = rd_maxReconnectDelayMs config,
            ro_tls = (if rd_tlsRequired config then VerifiedTls ca else NoTls)\<rparr>
      in case rd_mode config of
        Standalone \<Rightarrow>
          (case urls of
            [] \<Rightarrow> Inl (ConfigurationError ''Redis standalone requires one seed URL'')
          | v # _ \<Rightarrow> Inr (StandaloneClient options v))
      | Cluster \<Rightarrow>
          and_then (sharedClusterCredentials p decodeURIComponent urls)
            (\<lambda>credentials. Inr (ClusterClient options urls credentials)))"

definition create_clients ::
  "platform \<Rightarrow> (string \<Rightarrow> string outcome) \<Rightarrow> redis_config \<Rightarrow> string list \<Rightarrow> string option \<Rightarrow> redis_clients outcome" where
  "create_clients p decodeURIComponent config urls ca =
     and_then (createRedisClient p decodeURIComponent config urls ca (rd_clientName config @ ''-command'')) (\<lambda>a.
     and_then (createRedisClient p decodeURIComponent config urls ca (rd_clientName config @ ''-publisher'')) (\<lambda>b.
     and_then (createRedisClient p decodeURIComponent config urls ca (rd_clientName config @ ''-subscriber''))
       (\<lambda>c. Inr (a, b, c))))"

text \<open>\<open>onModuleInit\<close>; \<open>opened\<close> is the outcome of connecting and pinging all three. Of two failures to read the
  secrets the first is reported. The clients destroyed on the way are the last component.\<close>

definition redis_init ::
  "platform \<Rightarrow> (string \<Rightarrow> string outcome) \<Rightarrow> (string \<Rightarrow> string + open_file) \<Rightarrow> secrets_config \<Rightarrow> redis_config \<Rightarrow>
     unit outcome \<Rightarrow> redis_clients connection_state \<Rightarrow>
     unit outcome \<times> redis_clients connection_state \<times> redis_client list" where
  "redis_init p decodeURIComponent open_nofollow secrets config opened s =
     (if \<not> rd_enabled config then (Inr (), s, [])
      else case and_then (resolveUrls p open_nofollow secrets config) (\<lambda>urls.
          and_then (read_ca open_nofollow secrets (rd_tlsCaFile config)) (\<lambda>ca.
          and_then (validateTopology p urls config) (\<lambda>_.
          create_clients p decodeURIComponent config urls ca))) of
        Inl e \<Rightarrow> (Inl e, s, [])
      | Inr (a, b, c) \<Rightarrow>
          (case opened of
            Inl e \<Rightarrow> (Inl e, s\<lparr>cn_client := None\<rparr>, [a, b, c])
          | Inr _ \<Rightarrow>
              (case register_probe ''redis'' (s\<lparr>cn_client := Some (a, b, c)\<rparr>) of (r, s') \<Rightarrow> (r, s', []))))"

text \<open>\<open>onModuleDestroy\<close>: every client, and whether its \<open>close\<close> succeeded or it was destroyed.\<close>

definition redis_destroy ::
  "(redis_client \<Rightarrow> bool) \<Rightarrow> redis_clients connection_state \<Rightarrow>
     redis_clients connection_state \<times> (redis_client \<times> bool) list" where
  "redis_destroy closes s =
     (case forget_client ''redis'' s of
       (None, s') \<Rightarrow> (s', [])
     | (Some (a, b, c), s') \<Rightarrow> (s', map (\<lambda>x. (x, closes x)) [a, b, c]))"

definition requireClients :: "redis_clients connection_state \<Rightarrow> redis_clients outcome" where
  "requireClients s = require (cn_client s) (ConfigurationError ''Redis is disabled or has not completed startup'')"

definition redis_command :: "redis_clients connection_state \<Rightarrow> redis_client outcome" where
  "redis_command s = and_then (requireClients s) (\<lambda>(a, b, c). Inr a)"

definition redis_publisher :: "redis_clients connection_state \<Rightarrow> redis_client outcome" where
  "redis_publisher s = and_then (requireClients s) (\<lambda>(a, b, c). Inr b)"

definition redis_subscriber :: "redis_clients connection_state \<Rightarrow> redis_client outcome" where
  "redis_subscriber s = and_then (requireClients s) (\<lambda>(a, b, c). Inr c)"

definition redis_checkHealth :: "bool \<Rightarrow> unit outcome \<Rightarrow> redis_clients connection_state \<Rightarrow> unit outcome" where
  "redis_checkHealth aborted race s = raced_probe aborted (redis_command s) race"

section \<open>What the sources are checked for\<close>

lemma validate_all_iff: "validate_all f xs = Inr () \<longleftrightarrow> (\<forall>x \<in> set xs. f x = Inr ())"
  by (induction xs) (auto simp: and_then_Inr_iff)

lemma new_url_iff: "new_url p v = Inr u \<longleftrightarrow> pf_url p v = Some u"
  by (simp add: new_url_def require_Inr_iff)

lemma resolved_postgres_url:
  assumes "validateResolvedPostgresUrl p v True = Inr ()"
  obtains u where "pf_url p v = Some u" "ul_protocol u = ''postgres:'' \<or> ul_protocol u = ''postgresql:''"
    "ul_hash u = []" "ul_sslmode u \<noteq> Some ''disable''"
  using assms
  by (auto simp: validateResolvedPostgresUrl_def validatePostgresUrl_def parseUrl_def and_then_Inr_iff require_Inr_iff
    ensure_Inr_iff split: if_splits)

lemma resolved_redis_urls:
  assumes "parseResolvedRedisUrls p t True = Inr urls" and "v \<in> set urls"
  obtains u where "pf_url p v = Some u" "ul_protocol u = ''rediss:''" "ul_search u = []" "ul_hash u = []"
proof -
  from assms(1) have "validate_all (\<lambda>u. validateRedisUrl p u ''Redis secret'' True) (url_items t) = Inr ()"
    and "set urls = set (url_items t)"
    by (auto simp: parseResolvedRedisUrls_def and_then_Inr_iff first_occurrences_def split: if_splits)
  with assms(2) have "validateRedisUrl p v ''Redis secret'' True = Inr ()" by (simp only: validate_all_iff)
  then have "\<exists>u. pf_url p v = Some u \<and> ul_protocol u = ''rediss:'' \<and> ul_search u = [] \<and> ul_hash u = []"
    by (auto simp: validateRedisUrl_def parseUrl_def and_then_Inr_iff require_Inr_iff ensure_Inr_iff split: if_splits)
  then show thesis using that by blast
qed

text \<open>What the check of a secret leaves open: other modes than \<open>disable\<close>, also one that turns verification off.\<close>

lemma sslmode_no_verify_accepted:
  "pf_url p v = Some u \<Longrightarrow> ul_protocol u = ''postgresql:'' \<Longrightarrow> ul_hash u = [] \<Longrightarrow> ul_sslmode u = Some ''no-verify'' \<Longrightarrow>
     validateResolvedPostgresUrl p v True = Inr ()"
  by (simp add: validateResolvedPostgresUrl_def validatePostgresUrl_def parseUrl_def require_def ensure_def)

lemma reconnect_bounded:
  assumes "reconnectStrategy maximum jitter retries = Some d" and "0 \<le> maximum" and "0 \<le> jitter"
  shows "0 \<le> d \<and> d \<le> maximum \<and> d \<le> 50 * 2 ^ retries + jitter \<and> retries < 20"
  using assms by (auto simp: reconnectStrategy_def Let_def min_def split: if_splits)

section \<open>Secure connections\<close>

definition secure_pool :: "platform \<Rightarrow> pool_options \<Rightarrow> bool" where
  "secure_pool p q =
     (case (po_tls q, pf_url p (po_connectionString q)) of
       (VerifiedTls (Some ca), Some u) \<Rightarrow>
         (ul_protocol u = ''postgres:'' \<or> ul_protocol u = ''postgresql:'') \<and> ul_sslmode u \<noteq> Some ''disable''
     | _ \<Rightarrow> False)"

definition secure_seed :: "platform \<Rightarrow> string \<Rightarrow> string \<Rightarrow> bool" where
  "secure_seed p first v =
     (case (pf_url p first, pf_url p v) of
       (Some f, Some u) \<Rightarrow> ul_protocol u = ''rediss:'' \<and> ul_username u = ul_username f \<and> ul_password u = ul_password f \<and>
         (ul_pathname u = [] \<or> ul_pathname u = ''/'' \<or> ul_pathname u = ''/0'')
     | _ \<Rightarrow> False)"

definition secure_client :: "platform \<Rightarrow> redis_client \<Rightarrow> bool" where
  "secure_client p k =
     (case k of
       StandaloneClient options v \<Rightarrow> False
     | ClusterClient options seeds credentials \<Rightarrow>
         (\<exists>ca. ro_tls options = VerifiedTls (Some ca)) \<and> 3 \<le> length seeds \<and> list_all (secure_seed p (hd seeds)) seeds)"

fun client_name :: "redis_client \<Rightarrow> string" where
  "client_name (StandaloneClient options v) = ro_name options"
| "client_name (ClusterClient options seeds credentials) = ro_name options"

lemma read_ca_Some: "read_ca open_nofollow secrets f = Inr ca \<Longrightarrow> f \<noteq> None \<Longrightarrow> \<exists>x. ca = Some x"
  by (auto simp: read_ca_def and_then_Inr_iff split: option.splits)

lemma secure_pool_of:
  assumes "secure_database config"
    and "resolveConnectionString p open_nofollow secrets config = Inr v"
    and "read_ca open_nofollow secrets (dc_tlsCaFile config) = Inr ca"
  shows "secure_pool p (pool_of role config v ca) \<and>
    (\<exists>f. dc_connectionStringFile config = Some f \<and> read_secret open_nofollow secrets f = Inr v)"
proof -
  have config: "dc_tlsRequired config" "dc_connectionString config = None" "dc_tlsCaFile config \<noteq> None"
    using assms(1) by (simp_all add: secure_database_def)
  obtain f where f: "dc_connectionStringFile config = Some f" using assms(1) by (auto simp: secure_database_def)
  have read: "read_secret open_nofollow secrets f = Inr v" and ok: "validateResolvedPostgresUrl p v True = Inr ()"
    using assms(2) by (simp_all add: resolveConnectionString_def config f and_then_Inr_iff require_Inr_iff)
  obtain x where "ca = Some x" using read_ca_Some [OF assms(3) config(3)] by blast
  moreover obtain u where "pf_url p v = Some u" "ul_protocol u = ''postgres:'' \<or> ul_protocol u = ''postgresql:''"
    "ul_sslmode u \<noteq> Some ''disable''" using ok by (rule resolved_postgres_url)
  ultimately show ?thesis using f read config(1) by (auto simp: secure_pool_def pool_of_def)
qed

lemma sharedClusterCredentials_same:
  assumes "sharedClusterCredentials p decode (v # vs) = Inr credentials" and "w \<in> set (v # vs)"
  obtains f u where "pf_url p v = Some f" "pf_url p w = Some u" "ul_username u = ul_username f" "ul_password u = ul_password f"
proof -
  obtain f where f: "pf_url p v = Some f"
    "\<forall>x \<in> set vs. \<exists>u. pf_url p x = Some u \<and> ul_username u = ul_username f \<and> ul_password u = ul_password f"
    using assms(1) by (auto simp: sharedClusterCredentials_def and_then_Inr_iff validate_all_iff new_url_iff ensure_Inr_iff)
  then show thesis using assms(2) by (cases "w = v") (auto intro: that)
qed

lemma secure_seeds:
  assumes "secure_redis config" and "resolveUrls p open_nofollow secrets config = Inr urls"
    and "validateTopology p urls config = Inr ()" and "sharedClusterCredentials p decode urls = Inr credentials"
  shows "3 \<le> length urls \<and> list_all (secure_seed p (hd urls)) urls"
proof -
  have config: "rd_mode config = Cluster" "rd_tlsRequired config" "rd_connectionUrls config = None"
    using assms(1) by (simp_all add: secure_redis_def)
  obtain f where f: "rd_connectionUrlsFile config = Some f" using assms(1) by (auto simp: secure_redis_def)
  obtain t where urls: "parseResolvedRedisUrls p t True = Inr urls"
    using assms(2) by (auto simp: resolveUrls_def config f and_then_Inr_iff require_Inr_iff)
  have long: "3 \<le> length urls" and zero: "\<forall>v \<in> set urls. \<exists>u. pf_url p v = Some u \<and>
      (ul_pathname u = [] \<or> ul_pathname u = ''/'' \<or> ul_pathname u = ''/0'')"
    using assms(3) by (auto simp: validateTopology_def config validate_all_iff and_then_Inr_iff new_url_iff ensure_Inr_iff
      split: if_splits)
  obtain v vs where cons: "urls = v # vs" using long by (cases urls) auto
  have "secure_seed p v w" if "w \<in> set urls" for w
  proof -
    obtain u where "pf_url p w = Some u" "ul_protocol u = ''rediss:''"
      using resolved_redis_urls [OF urls \<open>w \<in> set urls\<close>] by blast
    moreover obtain f u' where "pf_url p v = Some f" "pf_url p w = Some u'" "ul_username u' = ul_username f"
      "ul_password u' = ul_password f"
      using sharedClusterCredentials_same [OF assms(4) [unfolded cons] \<open>w \<in> set urls\<close> [unfolded cons]] by blast
    ultimately show ?thesis using zero that by (auto simp: secure_seed_def)
  qed
  with long show ?thesis by (simp add: list_all_iff cons)
qed

lemma createRedisClient_cluster:
  assumes "createRedisClient p decode config urls ca name = Inr k" and "rd_mode config = Cluster"
  obtains options credentials where "k = ClusterClient options urls credentials" "ro_name options = name"
    "ro_tls options = (if rd_tlsRequired config then VerifiedTls ca else NoTls)"
    "sharedClusterCredentials p decode urls = Inr credentials"
  using assms by (auto simp: createRedisClient_def Let_def and_then_Inr_iff)

lemma secure_clients:
  assumes "secure_redis config" and "resolveUrls p open_nofollow secrets config = Inr urls"
    and "validateTopology p urls config = Inr ()" and "read_ca open_nofollow secrets (rd_tlsCaFile config) = Inr ca"
    and "createRedisClient p decode config urls ca name = Inr k"
  shows "secure_client p k \<and> client_name k = name"
proof -
  have config: "rd_mode config = Cluster" "rd_tlsRequired config" "rd_tlsCaFile config \<noteq> None"
    using assms(1) by (simp_all add: secure_redis_def)
  obtain options credentials where k: "k = ClusterClient options urls credentials" "ro_name options = name"
    "ro_tls options = VerifiedTls ca" "sharedClusterCredentials p decode urls = Inr credentials"
    using createRedisClient_cluster [OF assms(5) config(1)] config(2) by metis
  obtain x where "ca = Some x" using read_ca_Some [OF assms(4) config(3)] by blast
  with k secure_seeds [OF assms(1-3) k(4)] show ?thesis by (simp add: secure_client_def)
qed

lemma register_probe_client: "register_probe name s = (r, s') \<Longrightarrow> cn_client s' = cn_client s"
  by (auto simp: register_probe_def split: prod.splits sum.splits)

lemma forget_restores:
  assumes "register_probe name s = (r, s')" and "\<not> cn_registered s"
  shows "cn_indicators (snd (forget_client name s')) = cn_indicators s"
proof (cases "name \<in> fst ` set (cn_indicators s)")
  case True
  then have "s' = s" using assms(1) by (auto simp: register_probe_def health_register_def)
  then show ?thesis using assms(2) by (simp add: forget_client_def)
next
  case False
  from assms(1) have "s' = s\<lparr>cn_indicators := snd (health_register name () (cn_indicators s)), cn_registered := True\<rparr>"
    using False by (auto simp: register_probe_def health_register_def)
  then show ?thesis by (simp add: forget_client_def health_unregister_register [OF False])
qed

lemma forget_unregistered: "\<not> cn_registered s \<Longrightarrow> cn_indicators (snd (forget_client name s)) = cn_indicators s"
  by (simp add: forget_client_def)

lemma postgres_init_result:
  assumes "postgres_init p open_nofollow secrets role config reachable s = (r, s1)"
    and "cn_client s = None" and "\<not> cn_registered s" and "secure_database config"
  shows "(r = Inr () \<longrightarrow> cn_client s1 \<noteq> None) \<and>
    (\<forall>q. cn_client s1 = Some q \<longrightarrow> secure_pool p q \<and>
      (\<exists>f. dc_connectionStringFile config = Some f \<and> read_secret open_nofollow secrets f = Inr (po_connectionString q))) \<and>
    cn_indicators (snd (postgres_destroy s1)) = cn_indicators s"
proof (cases "and_then (resolveConnectionString p open_nofollow secrets config) (\<lambda>v.
    and_then (read_ca open_nofollow secrets (dc_tlsCaFile config)) (\<lambda>ca. Inr (pool_of role config v ca)))")
  case (Inl e)
  then have "r = Inl e" "s1 = s"
    using assms(1,4) by (simp_all add: postgres_init_def secure_database_def)
  then show ?thesis using assms(2,3) by (simp add: postgres_destroy_def forget_unregistered)
next
  case (Inr q)
  then obtain v ca where q: "resolveConnectionString p open_nofollow secrets config = Inr v"
    "read_ca open_nofollow secrets (dc_tlsCaFile config) = Inr ca" "q = pool_of role config v ca"
    by (auto simp: and_then_Inr_iff)
  have init: "(case reachable of Inl e \<Rightarrow> (Inl e, s\<lparr>cn_client := Some q\<rparr>)
      | Inr _ \<Rightarrow> register_probe ''postgresql'' (s\<lparr>cn_client := Some q\<rparr>)) = (r, s1)"
    using assms(1,4) by (simp add: postgres_init_def secure_database_def Inr Let_def)
  have client: "cn_client s1 = Some q"
    using init by (auto dest: register_probe_client split: sum.splits)
  have "cn_indicators (snd (postgres_destroy s1)) = cn_indicators (s\<lparr>cn_client := Some q\<rparr>)"
  proof (cases reachable)
    case (Inl e)
    then show ?thesis using init assms(3) by (auto simp: postgres_destroy_def forget_unregistered)
  next
    case (Inr x)
    then have probe: "register_probe ''postgresql'' (s\<lparr>cn_client := Some q\<rparr>) = (r, s1)" using init by simp
    show ?thesis unfolding postgres_destroy_def by (rule forget_restores [OF probe]) (use assms(3) in simp)
  qed
  moreover have "po_connectionString q = v" by (simp add: q(3) pool_of_def)
  ultimately show ?thesis using client secure_pool_of [OF assms(4) q(1,2), of role] q(3) by simp
qed

lemma redis_init_result:
  assumes "redis_init p decode open_nofollow secrets config opened t = (r, t1, gone)"
    and "cn_client t = None" and "\<not> cn_registered t" and "secure_redis config"
  shows "(r = Inr () \<longrightarrow> cn_client t1 \<noteq> None) \<and>
    (\<forall>a b k. cn_client t1 = Some (a, b, k) \<longrightarrow> secure_client p a \<and> secure_client p b \<and> secure_client p k \<and>
      distinct [client_name a, client_name b, client_name k]) \<and>
    cn_indicators (snd (forget_client ''redis'' t1)) = cn_indicators t"
proof (cases "and_then (resolveUrls p open_nofollow secrets config) (\<lambda>urls.
    and_then (read_ca open_nofollow secrets (rd_tlsCaFile config)) (\<lambda>ca.
    and_then (validateTopology p urls config) (\<lambda>_. create_clients p decode config urls ca)))")
  case (Inl e)
  then have "r = Inl e" "t1 = t" using assms(1,4) by (simp_all add: redis_init_def secure_redis_def)
  then show ?thesis using assms(2,3) by (simp add: forget_unregistered)
next
  case (Inr clients)
  obtain a b k where abk: "clients = (a, b, k)" by (cases clients)
  obtain urls ca where parts: "resolveUrls p open_nofollow secrets config = Inr urls"
    "read_ca open_nofollow secrets (rd_tlsCaFile config) = Inr ca" "validateTopology p urls config = Inr ()"
    "create_clients p decode config urls ca = Inr (a, b, k)"
    using Inr by (auto simp: and_then_Inr_iff abk)
  have made: "createRedisClient p decode config urls ca (rd_clientName config @ ''-command'') = Inr a"
    "createRedisClient p decode config urls ca (rd_clientName config @ ''-publisher'') = Inr b"
    "createRedisClient p decode config urls ca (rd_clientName config @ ''-subscriber'') = Inr k"
    using parts(4) by (auto simp: create_clients_def and_then_Inr_iff)
  note secure = secure_clients [OF assms(4) parts(1,3,2)]
  have init: "(case opened of Inl e \<Rightarrow> (Inl e, t\<lparr>cn_client := None\<rparr>, [a, b, k])
      | Inr _ \<Rightarrow> (case register_probe ''redis'' (t\<lparr>cn_client := Some (a, b, k)\<rparr>) of (r, s') \<Rightarrow> (r, s', []))) = (r, t1, gone)"
    using assms(1,4) by (simp add: redis_init_def secure_redis_def Inr abk)
  show ?thesis
  proof (cases opened)
    case (Inl e)
    then show ?thesis using init assms(3) by (auto simp: forget_unregistered)
  next
    case (Inr x)
    then have probe: "register_probe ''redis'' (t\<lparr>cn_client := Some (a, b, k)\<rparr>) = (r, t1)"
      using init by (auto split: prod.splits)
    have client: "cn_client t1 = Some (a, b, k)" using register_probe_client [OF probe] by simp
    have "cn_indicators (snd (forget_client ''redis'' t1)) = cn_indicators t"
      using forget_restores [OF probe] assms(3) by simp
    then show ?thesis using client secure [OF made(1)] secure [OF made(2)] secure [OF made(3)] by simp
  qed
qed

lemma loaded_secure:
  assumes "loadApplicationConfig p role raw = Inr c"
    and "raw ''NODE_ENV'' = Some ''production'' \<or> raw ''NODE_ENV'' = Some ''staging''"
  shows "secure_database (ic_database (ap_infrastructure c))"
    and "role \<noteq> Migration \<Longrightarrow> secure_redis (ic_redis (ap_infrastructure c))"
    and "role = Migration \<Longrightarrow> \<not> rd_enabled (ic_redis (ap_infrastructure c))"
    and "dc_connectionStringFile (ic_database (ap_infrastructure c)) = Some f \<Longrightarrow>
      below_root (sk_mountRoot (ic_secrets (ap_infrastructure c))) f"
proof -
  from assms(1) obtain env where env: "environmentSchema p raw = Inr env" and c: "configure p env role = Inr c"
    by (rule loaded_env)
  have i: "loadInfrastructureConfig p env role = Inr (ap_infrastructure c)" using configure_parts [OF c] by blast
  note ip = loadInfrastructureConfig_parts [OF i]
  note db = loadDatabaseConfig_files [OF ip [THEN conjunct2, THEN conjunct1]]
  note rd = loadRedisConfig_files [OF ip [THEN conjunct2, THEN conjunct2]]
  have secure: "secure_deployment (NODE_ENV (fe_core env))"
    using assms(2) by (auto simp: schema_NODE_ENV [OF env] node_environment_of_def secure_deployment_def)
  show "secure_database (ic_database (ap_infrastructure c))" using db(3) secure by blast
  show "role \<noteq> Migration \<Longrightarrow> secure_redis (ic_redis (ap_infrastructure c))" using rd(3) secure by blast
  show "role = Migration \<Longrightarrow> \<not> rd_enabled (ic_redis (ap_infrastructure c))" using rd(4) by blast
  show "dc_connectionStringFile (ic_database (ap_infrastructure c)) = Some f \<Longrightarrow>
      below_root (sk_mountRoot (ic_secrets (ap_infrastructure c))) f" using db(1) by blast
qed


section \<open>A sample\<close>

definition sample_files :: "string \<Rightarrow> string + open_file" where
  "sample_files f =
     (case map_of
         [(''/run/secrets/database'', ''postgresql://db.example/hello''), (''/run/secrets/ca'', ''CA''),
          (''/run/secrets/redis'', ''rediss://r1.example,rediss://r2.example,rediss://r3.example'')] f of
       None \<Rightarrow> Inl ''ENOENT''
     | Some text \<Rightarrow> Inr \<lparr>of_isFile = True, of_size = length text, of_mode = 256, of_text = text\<rparr>)"

definition no_pool :: "pool_options connection_state" where
  "no_pool = \<lparr>cn_client = None, cn_registered = False, cn_indicators = []\<rparr>"

definition no_clients :: "redis_clients connection_state" where
  "no_clients = \<lparr>cn_client = None, cn_registered = False, cn_indicators = []\<rparr>"

definition sample_pool :: "application_config \<Rightarrow> unit outcome \<times> pool_options connection_state" where
  "sample_pool c = postgres_init sample_platform sample_files (ic_secrets (ap_infrastructure c)) Api
     (ic_database (ap_infrastructure c)) (Inr ()) no_pool"

definition sample_clients :: "application_config \<Rightarrow> unit outcome \<times> redis_clients connection_state \<times> redis_client list" where
  "sample_clients c = redis_init sample_platform Inr sample_files (ic_secrets (ap_infrastructure c))
     (ic_redis (ap_infrastructure c)) (Inr ()) no_clients"

lemma sample_connected:
  "(case loadApplicationConfig sample_platform Api sample_variables of Inl e \<Rightarrow> False | Inr c \<Rightarrow>
     fst (sample_pool c) = Inr () \<and> fst (sample_clients c) = Inr ())"
  by code_simp


end
