(* ===== verification/LogSanitizer.thy ===== *)
theory LogSanitizer
  imports Formats
begin

text \<open>
  What may be written to a log (\<open>platform/observability/logging\<close>): the recursion over arbitrary JavaScript
  values with its bounds and its treatment of cycles, the redaction of fields and texts, and the record the
  logger hands to its library. Objects live in a heap, so they may be shared and cyclic. Strings are
  sequences of the first 256 characters.
\<close>

section \<open>Values\<close>

datatype js_value =
    JsNull
  | JsNumber rat
  | JsBoolean bool
  | JsText string
  | JsBigint int
  | JsUndefined
  | JsSymbol
  | JsFunction
  | JsRef nat

text \<open>A buffer with its length, an error with its name and message, an array, an object with its enumerable
  entries, and an object whose entries cannot be read.\<close>

datatype js_object =
    JsBuffer nat
  | JsError string string
  | JsArray "js_value list"
  | JsRecord "(string \<times> js_value) list"
  | JsOpaque

type_synonym js_heap = "nat \<Rightarrow> js_object"

datatype log_value =
    LNull
  | LNumber rat
  | LBoolean bool
  | LText string
  | LUndefined
  | LArray "log_value list"
  | LRecord "(string \<times> log_value) list"

definition MAX_DEPTH :: nat where "MAX_DEPTH = 6"
definition MAX_ENTRIES :: nat where "MAX_ENTRIES = 100"
definition MAX_STRING_LENGTH :: nat where "MAX_STRING_LENGTH = 2000"

section \<open>Patterns\<close>

text \<open>The flag \<open>i\<close> without \<open>u\<close> folds ASCII letters.\<close>

definition lower :: "char \<Rightarrow> char" where
  "lower c = (if is_upper c then char_of (of_char c + (32::nat)) else c)"

definition space :: "char \<Rightarrow> bool" where
  "space c = js_space (of_char c)"

text \<open>A dot of a pattern stands for any character but a line terminator.\<close>

datatype pattern_element = Letter char | OptionalDot

definition letters :: "string \<Rightarrow> pattern_element list" where
  "letters s = map Letter s"

fun matches_at :: "pattern_element list \<Rightarrow> string \<Rightarrow> bool" where
  "matches_at [] s = True"
| "matches_at (Letter c # es) s = (case s of [] \<Rightarrow> False | x # xs \<Rightarrow> lower x = c \<and> matches_at es xs)"
| "matches_at (OptionalDot # es) s =
     (matches_at es s \<or> (case s of [] \<Rightarrow> False | x # xs \<Rightarrow> x \<noteq> CHR 0x0A \<and> x \<noteq> CHR 0x0D \<and> matches_at es xs))"

fun occurs :: "pattern_element list \<Rightarrow> string \<Rightarrow> bool" where
  "occurs es [] = matches_at es []"
| "occurs es (x # xs) = (matches_at es (x # xs) \<or> occurs es xs)"

definition SENSITIVE_KEY :: "string \<Rightarrow> bool" where
  "SENSITIVE_KEY key = list_ex (\<lambda>es. occurs es key)
     [letters ''authorization'', letters ''cookie'', letters ''password'', letters ''secret'', letters ''token'',
      letters ''credential'', letters ''private'' @ OptionalDot # letters ''key'', letters ''keyring'',
      letters ''capability'', letters ''ticket'', letters ''admission'',
      letters ''connection'' @ OptionalDot # letters ''string'', letters ''database'' @ OptionalDot # letters ''url'',
      letters ''redis'' @ OptionalDot # letters ''url'', letters ''dsn'']"

text \<open>A global replacement scans from the left. A matcher looks at the character before the position and at the
  text from it on, and gives the replacement and how many characters after the first the match has.\<close>

type_synonym matcher = "char option \<Rightarrow> string \<Rightarrow> (string \<times> nat) option"

fun replace_all :: "matcher \<Rightarrow> char option \<Rightarrow> string \<Rightarrow> string" where
  "replace_all m before [] = []"
| "replace_all m before (c # s) =
     (case m before (c # s) of
       None \<Rightarrow> c # replace_all m (Some c) s
     | Some (r, n) \<Rightarrow> r @ replace_all m (Some (last (c # take n s))) (drop n s))"

text \<open>In each pattern a greedy repetition is followed by a character it cannot take, so the longest run is the
  only one that can match.\<close>

definition run_of :: "(char \<Rightarrow> bool) \<Rightarrow> string \<Rightarrow> string" where
  "run_of P s = takeWhile P s"

definition scheme_start :: "char \<Rightarrow> bool" where
  "scheme_start c = is_lower (lower c)"

definition scheme_char :: "char \<Rightarrow> bool" where
  "scheme_char c = (is_lower (lower c) \<or> is_digit c \<or> c \<in> set ''+.-'')"

text \<open>\<open>/([a-z][a-z\d+.-]*:\/\/)[^\s/@:]+:[^\s/@]+@/gi\<close>\<close>

definition URL_CREDENTIALS :: matcher where
  "URL_CREDENTIALS before s =
     (case s of
       [] \<Rightarrow> None
     | c # cs \<Rightarrow>
         let scheme = run_of scheme_char cs;
             rest = drop (length scheme) cs;
             user = run_of (\<lambda>x. \<not> space x \<and> x \<notin> set ''/@:'') (drop 3 rest);
             rest' = drop (3 + length user) rest;
             password = run_of (\<lambda>x. \<not> space x \<and> x \<notin> set ''/@'') (drop 1 rest');
             rest'' = drop (1 + length password) rest'
         in if scheme_start c \<and> take 3 rest = ''://'' \<and> user \<noteq> [] \<and> take 1 rest' = '':'' \<and> password \<noteq> [] \<and>
           take 1 rest'' = ''@''
         then Some (c # scheme @ ''://[REDACTED]@'', length scheme + 3 + length user + 1 + length password + 1)
         else None)"

text \<open>\<open>/([?&](?:authorization|...|admission)=)[^&#\s]*/gi\<close>\<close>

definition query_names :: "pattern_element list list" where
  "query_names =
     [letters ''authorization'', letters ''password'', letters ''secret'', letters ''token'', letters ''credential'',
      letters ''private_key'', letters ''privatekey'', letters ''capability'', letters ''ticket'', letters ''admission'']"

definition SENSITIVE_QUERY_VALUE :: matcher where
  "SENSITIVE_QUERY_VALUE before s =
     (case s of
       [] \<Rightarrow> None
     | c # cs \<Rightarrow>
         if c \<noteq> CHR ''?'' \<and> c \<noteq> CHR ''&'' then None
         else (case find (\<lambda>es. matches_at (es @ letters ''='') cs) query_names of
           None \<Rightarrow> None
         | Some es \<Rightarrow>
             let n = length es + 1
             in Some (c # take n cs @ ''[REDACTED]'',
               n + length (run_of (\<lambda>x. x \<notin> set ''&#'' \<and> \<not> space x) (drop n cs)))))"

definition word_char :: "char \<Rightarrow> bool" where
  "word_char c = (is_alnum c \<or> c = CHR ''_'')"

text \<open>\<open>/\bBearer\s+[^\s,;]+/gi\<close>\<close>

definition BEARER_TOKEN :: matcher where
  "BEARER_TOKEN before s =
     (let spaces = run_of space (drop 6 s);
          token = run_of (\<lambda>x. \<not> space x \<and> x \<notin> set '',;'') (drop (6 + length spaces) s)
      in if (case before of None \<Rightarrow> True | Some b \<Rightarrow> \<not> word_char b) \<and> matches_at (letters ''bearer'') s \<and>
        spaces \<noteq> [] \<and> token \<noteq> []
      then Some (''Bearer [REDACTED]'', 5 + length spaces + length token) else None)"

definition sanitizeText :: "string \<Rightarrow> string" where
  "sanitizeText s =
     (let redacted = replace_all BEARER_TOKEN None (replace_all SENSITIVE_QUERY_VALUE None (replace_all URL_CREDENTIALS None s))
      in if length redacted \<le> MAX_STRING_LENGTH then redacted
      else take MAX_STRING_LENGTH redacted @ ''...[truncated]'')"

section \<open>Sanitizing\<close>

text \<open>The set of objects seen is threaded through the whole traversal.\<close>

fun thread :: "('s \<Rightarrow> 'a \<Rightarrow> 'b \<times> 's) \<Rightarrow> 's \<Rightarrow> 'a list \<Rightarrow> 'b list \<times> 's" where
  "thread f s [] = ([], s)"
| "thread f s (x # xs) =
     (case f s x of (y, s1) \<Rightarrow> case thread f s1 xs of (ys, s2) \<Rightarrow> (y # ys, s2))"

definition sanitize_field ::
  "(nat list \<Rightarrow> js_value \<Rightarrow> log_value \<times> nat list) \<Rightarrow> nat list \<Rightarrow> string \<times> js_value \<Rightarrow> (string \<times> log_value) \<times> nat list" where
  "sanitize_field inner seen e =
     (if SENSITIVE_KEY (fst e) then ((fst e, LText ''[REDACTED]''), seen)
      else case inner seen (snd e) of (y, seen') \<Rightarrow> ((fst e, y), seen'))"

text \<open>An assignment to the key \<open>__proto__\<close> makes no entry of the result; an assignment to a key it has replaces it.\<close>

definition assign :: "string \<Rightarrow> 'v \<Rightarrow> (string \<times> 'v) list \<Rightarrow> (string \<times> 'v) list" where
  "assign key v r =
     (if key \<in> fst ` set r then map (\<lambda>e. if fst e = key then (key, v) else e) r else r @ [(key, v)])"

definition sanitize_array ::
  "(nat list \<Rightarrow> js_value \<Rightarrow> log_value \<times> nat list) \<Rightarrow> nat list \<Rightarrow> js_value list \<Rightarrow> log_value \<times> nat list" where
  "sanitize_array inner seen xs =
     (case thread inner seen (take MAX_ENTRIES xs) of
       (ys, seen') \<Rightarrow> (LArray (if length xs > MAX_ENTRIES
         then ys @ [LText (''['' @ dec (length xs - MAX_ENTRIES) @ '' items omitted]'')] else ys), seen'))"

definition sanitize_record ::
  "(nat list \<Rightarrow> js_value \<Rightarrow> log_value \<times> nat list) \<Rightarrow> nat list \<Rightarrow> (string \<times> js_value) list \<Rightarrow> log_value \<times> nat list" where
  "sanitize_record inner seen fs =
     (case thread (sanitize_field inner) seen (take MAX_ENTRIES fs) of
       (ys, seen') \<Rightarrow>
         let r = filter (\<lambda>e. fst e \<noteq> ''__proto__'') ys
         in (LRecord (if length fs > MAX_ENTRIES
           then assign ''omittedFieldCount'' (LNumber (of_nat (length fs - MAX_ENTRIES))) r else r), seen'))"

text \<open>The cases before the depth is looked at, and what follows for an object.\<close>

definition sanitize_leaf ::
  "js_heap \<Rightarrow> (nat \<Rightarrow> log_value \<times> nat list) \<Rightarrow> nat list \<Rightarrow> js_value \<Rightarrow> log_value \<times> nat list" where
  "sanitize_leaf h object seen v =
     (case v of
       JsNull \<Rightarrow> (LNull, seen)
     | JsNumber q \<Rightarrow> (LNumber q, seen)
     | JsBoolean b \<Rightarrow> (LBoolean b, seen)
     | JsText s \<Rightarrow> (LText (sanitizeText s), seen)
     | JsBigint n \<Rightarrow> (LText (dec_int n), seen)
     | JsUndefined \<Rightarrow> (LUndefined, seen)
     | JsSymbol \<Rightarrow> (LText ''[symbol]'', seen)
     | JsFunction \<Rightarrow> (LText ''[function]'', seen)
     | JsRef a \<Rightarrow>
         (case h a of
           JsBuffer n \<Rightarrow> (LText (''[Buffer '' @ dec n @ '' bytes]''), seen)
         | JsError name message \<Rightarrow>
             (LRecord [(''name'', LText name), (''message'', LText (sanitizeText message))], seen)
         | _ \<Rightarrow> object a))"

definition sanitize_object ::
  "js_heap \<Rightarrow> (nat list \<Rightarrow> js_value \<Rightarrow> log_value \<times> nat list) \<Rightarrow> nat list \<Rightarrow> nat \<Rightarrow> log_value \<times> nat list" where
  "sanitize_object h inner seen a =
     (if a \<in> set seen then (LText ''[Circular]'', seen)
      else case h a of
        JsArray xs \<Rightarrow> sanitize_array inner (a # seen) xs
      | JsRecord fs \<Rightarrow> sanitize_record inner (a # seen) fs
      | _ \<Rightarrow> (LText ''[Unserializable object]'', a # seen))"

text \<open>The first argument counts the levels left: \<open>MAX_DEPTH - depth\<close>.\<close>

primrec sanitize :: "nat \<Rightarrow> js_heap \<Rightarrow> nat list \<Rightarrow> js_value \<Rightarrow> log_value \<times> nat list" where
  "sanitize 0 h = (\<lambda>seen v. sanitize_leaf h (\<lambda>a. (LText ''[Max depth]'', seen)) seen v)"
| "sanitize (Suc n) h = (\<lambda>seen v. sanitize_leaf h (sanitize_object h (sanitize n h) seen) seen v)"

definition sanitizeLogValue :: "js_heap \<Rightarrow> js_value \<Rightarrow> log_value" where
  "sanitizeLogValue h v = fst (sanitize MAX_DEPTH h [] v)"

section \<open>The logger\<close>

record log_record =
  lr_context :: "string option"
  lr_data :: log_value
  lr_parameters :: "log_value option"
  lr_message :: string

text \<open>The array of the optional parameters is a new object, one level above its items.\<close>

definition log_write :: "js_heap \<Rightarrow> js_value \<Rightarrow> js_value list \<Rightarrow> log_record" where
  "log_write h message optionalParameters =
     (let context = (case rev optionalParameters of JsText s # _ \<Rightarrow> Some s | _ \<Rightarrow> None);
          parameters = (if context = None then optionalParameters else butlast optionalParameters)
      in \<lparr>lr_context = context, lr_data = sanitizeLogValue h message,
          lr_parameters = (if parameters = [] then None
            else Some (fst (sanitize_array (sanitize (MAX_DEPTH - 1) h) [] parameters))),
          lr_message = (case message of JsText s \<Rightarrow> s | _ \<Rightarrow> ''application_event'')\<rparr>)"

section \<open>Nothing below a sensitive field is read\<close>

text \<open>Two heaps that differ only in what sensitive fields hold.\<close>

definition same_but_secrets :: "js_heap \<Rightarrow> js_heap \<Rightarrow> bool" where
  "same_but_secrets h h' = (\<forall>a.
     case (h a, h' a) of
       (JsRecord fs, JsRecord gs) \<Rightarrow>
         list_all2 (\<lambda>e e'. fst e = fst e' \<and> (\<not> SENSITIVE_KEY (fst e) \<longrightarrow> snd e = snd e')) fs gs
     | (x, y) \<Rightarrow> x = y)"

lemma thread_cong:
  assumes "list_all2 R xs ys" and "\<And>s x y. R x y \<Longrightarrow> f s x = g s y"
  shows "thread f s xs = thread g s ys"
  using assms(1)
proof (induction xs ys arbitrary: s rule: list_all2_induct)
  case (Cons x xs y ys)
  then show ?case using assms(2) [OF Cons.hyps(1)] by (simp split: prod.split)
qed simp

lemma sanitize_record_cong:
  assumes "list_all2 (\<lambda>e e'. fst e = fst e' \<and> (\<not> SENSITIVE_KEY (fst e) \<longrightarrow> snd e = snd e')) fs gs"
  shows "sanitize_record inner seen fs = sanitize_record inner seen gs"
proof -
  have "thread (sanitize_field inner) seen (take MAX_ENTRIES fs) = thread (sanitize_field inner) seen (take MAX_ENTRIES gs)"
    by (rule thread_cong [OF list_all2_takeI [OF assms]]) (auto simp: sanitize_field_def)
  then show ?thesis by (simp only: sanitize_record_def list_all2_lengthD [OF assms])
qed

lemma same_heap_cases:
  assumes "same_but_secrets h h'"
  obtains (fields) fs gs where "h a = JsRecord fs" "h' a = JsRecord gs"
      "list_all2 (\<lambda>e e'. fst e = fst e' \<and> (\<not> SENSITIVE_KEY (fst e) \<longrightarrow> snd e = snd e')) fs gs"
  | (same) "h' a = h a" "\<And>fs. h a \<noteq> JsRecord fs"
proof -
  from assms have "case (h a, h' a) of (JsRecord fs, JsRecord gs) \<Rightarrow>
      list_all2 (\<lambda>e e'. fst e = fst e' \<and> (\<not> SENSITIVE_KEY (fst e) \<longrightarrow> snd e = snd e')) fs gs | (x, y) \<Rightarrow> x = y"
    by (simp only: same_but_secrets_def)
  then show thesis by (cases "h a"; cases "h' a") (auto intro: fields same)
qed

lemma sanitize_object_cong:
  assumes "same_but_secrets h h'"
  shows "sanitize_object h inner seen a = sanitize_object h' inner seen a"
  using assms by (cases rule: same_heap_cases [where a = a])
    (auto simp: sanitize_object_def intro: sanitize_record_cong)

lemma sanitize_leaf_cong:
  assumes "same_but_secrets h h'" and "\<And>a. object a = object' a"
  shows "sanitize_leaf h object seen v = sanitize_leaf h' object' seen v"
proof (cases v)
  case (JsRef a)
  from assms(1) show ?thesis
    by (cases rule: same_heap_cases [where a = a]) (simp_all add: JsRef sanitize_leaf_def assms(2) split: js_object.split)
qed (simp_all add: sanitize_leaf_def)

lemma sanitize_cong: "same_but_secrets h h' \<Longrightarrow> sanitize n h = sanitize n h'"
proof (induction n)
  case 0
  show ?case using 0 by (intro ext) (simp add: sanitize_leaf_cong [OF 0])
next
  case (Suc n)
  show ?case using Suc sanitize_object_cong [OF Suc.prems] by (intro ext) (simp add: sanitize_leaf_cong [OF Suc.prems])
qed

section \<open>Bounds\<close>

fun log_bounded :: "nat \<Rightarrow> log_value \<Rightarrow> bool" where
  "log_bounded n (LText s) = True"
| "log_bounded 0 (LArray xs) = False"
| "log_bounded (Suc n) (LArray xs) = (length xs \<le> MAX_ENTRIES + 1 \<and> list_all (log_bounded n) xs)"
| "log_bounded 0 (LRecord fs) = (length fs \<le> 2 \<and> list_all (\<lambda>e. case snd e of LText s \<Rightarrow> True | _ \<Rightarrow> False) fs)"
| "log_bounded (Suc n) (LRecord fs) =
     (length fs \<le> MAX_ENTRIES + 1 \<and> list_all (\<lambda>e. log_bounded n (snd e)) fs \<and>
      list_all (\<lambda>e. SENSITIVE_KEY (fst e) \<longrightarrow> snd e = LText ''[REDACTED]'') fs)"
| "log_bounded n v = True"

lemma length_sanitizeText: "length (sanitizeText s) \<le> 2014"
  by (simp add: sanitizeText_def Let_def MAX_STRING_LENGTH_def)

lemma thread_all:
  assumes "\<And>s x. P (fst (f s x))"
  shows "list_all P (fst (thread f s xs)) \<and> length (fst (thread f s xs)) = length xs"
proof (induction xs arbitrary: s)
  case (Cons x xs)
  then show ?case using assms [of s x] by (simp split: prod.split) (metis fst_conv)
qed simp

text \<open>An array or a record above the last level, or the two texts of an error.\<close>

lemma sensitive_name: "\<not> SENSITIVE_KEY ''name''" "\<not> SENSITIVE_KEY ''message''" "\<not> SENSITIVE_KEY ''omittedFieldCount''"
  by code_simp+

lemma sanitize_array_bounded:
  assumes "\<And>s x. log_bounded n (fst (inner s x))"
  shows "log_bounded (Suc n) (fst (sanitize_array inner seen xs))"
  using thread_all [of "log_bounded n" inner seen "take MAX_ENTRIES xs", OF assms]
  by (auto simp: sanitize_array_def split: prod.split)

lemma assign_all: "list_all P r \<Longrightarrow> P (key, v) \<Longrightarrow> list_all P (assign key v r) \<and> length (assign key v r) \<le> length r + 1"
  by (auto simp: assign_def list_all_iff)

lemma sanitize_record_bounded:
  assumes "\<And>s x. log_bounded n (fst (inner s x))"
  shows "log_bounded (Suc n) (fst (sanitize_record inner seen fs))"
proof -
  let ?P = "\<lambda>e. log_bounded n (snd e) \<and> (SENSITIVE_KEY (fst e) \<longrightarrow> snd e = LText ''[REDACTED]'')"
  obtain ys seen' where t: "thread (sanitize_field inner) seen (take MAX_ENTRIES fs) = (ys, seen')" by fastforce
  have field: "?P (fst (sanitize_field inner s e))" for s e
    using assms [of s "snd e"] by (auto simp: sanitize_field_def split: prod.split)
  from thread_all [of ?P "sanitize_field inner" seen "take MAX_ENTRIES fs", OF field]
  have ys: "list_all ?P ys" "length ys = min (length fs) MAX_ENTRIES" by (simp_all add: t)
  let ?r = "filter (\<lambda>e. fst e \<noteq> ''__proto__'') ys"
  have r: "list_all ?P ?r" "length ?r \<le> MAX_ENTRIES"
    using ys(1) le_trans [OF length_filter_le, of ys MAX_ENTRIES] ys(2) by (auto simp: list_all_iff)
  have "list_all ?P (assign ''omittedFieldCount'' (LNumber q) ?r) \<and>
      length (assign ''omittedFieldCount'' (LNumber q) ?r) \<le> MAX_ENTRIES + 1" for q
    using assign_all [OF r(1), of "''omittedFieldCount''" "LNumber q"] r(2) sensitive_name(3) by auto
  with r show ?thesis by (auto simp: sanitize_record_def t Let_def list_all_iff)
qed

lemma sanitize_leaf_bounded:
  assumes "\<And>a. log_bounded n (fst (object a))"
  shows "log_bounded n (fst (sanitize_leaf h object seen v))"
  using assms sensitive_name
  by (cases v; cases n) (auto simp: sanitize_leaf_def MAX_ENTRIES_def split: js_object.split)

lemma sanitize_bounded: "log_bounded n (fst (sanitize n h seen v))"
proof (induction n arbitrary: seen v)
  case 0
  show ?case unfolding sanitize.simps by (rule sanitize_leaf_bounded) simp
next
  case (Suc n)
  have "log_bounded (Suc n) (fst (sanitize_object h (sanitize n h) seen a))" for a
    unfolding sanitize_object_def
    by (auto split: js_object.split intro: sanitize_array_bounded sanitize_record_bounded Suc)
  then show ?case unfolding sanitize.simps by (rule sanitize_leaf_bounded)
qed


text \<open>The text of a message is not sanitized.\<close>

lemma message_text_verbatim: "lr_message (log_write h (JsText s) parameters) = s"
  by (simp add: log_write_def Let_def)

section \<open>Samples\<close>

lemma sample_texts:
  "sanitizeText ''postgres://app:pw@db/x?ticket=abc&y=1'' = ''postgres://[REDACTED]@db/x?ticket=[REDACTED]&y=1''"
  "sanitizeText ''header bearer  abc.def, next'' = ''header Bearer [REDACTED], next''"
  "sanitizeText ''forbearer abc'' = ''forbearer abc''"
  by code_simp+

text \<open>An object that holds itself, a secret, and a list.\<close>

definition sample_heap :: "string \<Rightarrow> js_heap" where
  "sample_heap secret a =
     (if a = 0 then JsRecord [(''self'', JsRef 0), (''sessionToken'', JsText secret), (''items'', JsRef 1)]
      else JsArray [JsNumber 1, JsRef 0])"

lemma sample_logged:
  "sanitizeLogValue (sample_heap ''s3cret'') (JsRef 0) =
     LRecord [(''self'', LText ''[Circular]''), (''sessionToken'', LText ''[REDACTED]''),
       (''items'', LArray [LNumber 1, LText ''[Circular]''])]"
  by code_simp


end
