(* ===== verification/Spec2Isabelle.thy ===== *)
theory Spec2Isabelle
  imports ChatHistory Invitations PresenceWatch RealtimeRooms Migrations SfuKeys Maintenance Connections LogSanitizer
begin

text \<open>
  Verification of the Hello Friend realtime backend (TypeScript, \<open>src/src\<close>).

  The system admits anonymous participants to meetings, lets them exchange end-to-end encrypted chat
  messages, and admits them to a media server. PostgreSQL is the source of truth, Redis carries
  quotas, tickets, presence and fan-out, and a transactional outbox connects the two. Four kinds of
  processes share the code: the API, the realtime gateway, the worker and the migration. The theories
  follow that structure; paths below are relative to \<open>src/src\<close>.

  Foundations. \<open>Prelude\<close>: tables as lists of rows, the SQL statements over them, the locales
  \<open>stepwise_invariant\<close> and \<open>stepwise_monotone\<close> for components that move by steps. \<open>Formats\<close> and \<open>Base64Url\<close>:
  the regular expressions, decimal positions and codecs of the boundary. \<open>Failures\<close> (\<open>platform/errors\<close>):
  errors as values and the problem details of a response. \<open>Schema\<close> (\<open>migrations\<close>): rows, keys and checks of
  the tables. \<open>Transactions\<close> (\<open>platform/database/postgres-unit-of-work.ts\<close>): attempts, retries, commits in
  doubt, and the locale \<open>transactional\<close> by which an invariant of a callback becomes an invariant of every
  run. \<open>JsonText\<close>: the text of \<open>JSON.stringify\<close> and its bytes, both injective.

  Configuration (\<open>platform/config\<close>). \<open>Config\<close>: the sections and their ranges. \<open>SecretPaths\<close>: paths and the
  reading of a secret file. \<open>EnvironmentSchema\<close>: the variables with their defaults. \<open>Dependencies\<close>: the
  database, Redis, the keyrings and the signer with the sources of their secrets. \<open>Deployment\<close>:
  \<open>loadApplicationConfig\<close>. The lemmas show that a loaded configuration has the ranges the other theories
  assume, that staging and production are secure, and where secrets are read.

  Outbox (\<open>modules/outbox\<close>). \<open>Outbox\<close>: leases and acknowledgements, and the locale \<open>outbox_repository\<close> with
  the contract the relay relies on. \<open>OutboxRelay\<close>: registry, one cycle, worker.

  Chat (\<open>modules/chat\<close>). \<open>ChatContracts\<close> (schemas and policy), \<open>ChatRepository\<close> (the statements of
  \<open>postgres-chat.repository.ts\<close>), \<open>ChatAcceptance\<close> (what an acceptance does, its invariant),
  \<open>ChatOrdering\<close> (authorization, atomicity, idempotency, slow mode, order of the stream),
  \<open>ChatHistory\<close> (pages, pagination, retention), \<open>ChatCursor\<close> (ordered live delivery), \<open>ChatDelivery\<close> (use
  case, publisher and fast path), \<open>EventSize\<close> (how large an event becomes) and \<open>ChatFanout\<close> (the
  listeners of one process). \<open>RateLimits\<close>: token buckets and fixed windows of all modules, each behind a
  locale. \<open>RedisKeyspace\<close> (\<open>platform/redis\<close>): keys and channels.

  Meetings and sessions. \<open>Keyring\<close> (\<open>modules/capabilities\<close>): the rotating HMAC keys. \<open>MeetingRepository\<close>,
  \<open>Meetings\<close>, \<open>MeetingService\<close> and \<open>Invitations\<close> (\<open>modules/meetings\<close>, \<open>platform/http\<close>): the two transactions,
  what they guarantee, the endpoints above them, and an invitation from its link to its use. \<open>Sessions\<close>
  (\<open>modules/sessions\<close>): the three proofs of a request and the locale \<open>session_gate\<close>. \<open>Tickets\<close>
  (\<open>modules/realtime-tickets\<close>): issuing and the single use.

  Media admission (\<open>modules/sfu-admission\<close>). \<open>SfuPolicy\<close> (permissions), \<open>SignerExecutor\<close> (the bounded queue
  in front of the key), \<open>SfuRepository\<close> (the two transactions around a signature), \<open>SfuAdmission\<close> (token,
  use case, endpoint), \<open>SfuKeys\<close> (providers, published keys, the locale \<open>signing_provider\<close>).

  Realtime (\<open>modules/presence\<close>, \<open>modules/realtime\<close>). \<open>Presence\<close> (scripts over the keys of a meeting, refined
  to deadlines of connections) and \<open>PresenceWatch\<close> (subscriptions to revisions). \<open>RealtimeProtocol\<close>
  (frames), \<open>RealtimeRegistry\<close> (connections and their limits), \<open>RealtimeGateway\<close> (the gateway as a machine
  whose steps run from one \<open>await\<close> to the next), \<open>RealtimeSafety\<close> (triples over its pieces, the invariant) and
  \<open>RealtimeRooms\<close> (what clients and operators can rely on, concrete runs).

  Operation. \<open>Migrations\<close> (\<open>platform/database/migration-runner.ts\<close>): histories of runs that fail anywhere.
  \<open>Health\<close> (\<open>platform/health\<close>, \<open>apps/shared\<close>): probes, readiness and shutdown. \<open>Connections\<close>
  (\<open>platform/database/postgres-connection.ts\<close>, \<open>platform/redis/redis-connections.ts\<close>): from the sources of
  the secrets to the clients. \<open>Maintenance\<close>: the janitors of the worker and the end of retention.
  \<open>LogSanitizer\<close> (\<open>platform/observability/logging\<close>): what may be written to a log.

  How parts rest on each other. The repositories are transaction callbacks; \<open>Transactions\<close> turns what a
  callback keeps into what every run keeps, retries and doubt included. The outbox of an accepted message
  is written by \<open>ChatAcceptance\<close>, claimed in \<open>Outbox\<close>, published by \<open>ChatDelivery\<close> or the relay, bounded by
  \<open>EventSize\<close>, distributed by \<open>ChatFanout\<close>, ordered by \<open>ChatCursor\<close> and handed to the socket by
  \<open>RealtimeGateway\<close>. A principal comes from \<open>Sessions\<close>, passes through a ticket and is what the gateway acts
  for.

  Conventions. A statement that reads \<open>clock_timestamp()\<close> takes the reading as an argument; a
  transaction callback is a function from the database to a failure or a result with the new
  database; random draws, fresh identifiers, digests, signatures and the validators of the schema
  library are arguments. Row locks are modelled by their effect: a transaction that waits for a lock
  continues on the database another one left (\<open>waited\<close>), and \<open>SKIP LOCKED\<close> passes over an arbitrary set of
  rows. Calls to Redis and to PostgreSQL have a fate chosen by the environment: answered, refused, or
  done without an answer. Histories are lists of events folded over a step function, restricted by a
  predicate for the events that can happen. No definition uses fuel; every loop is a total function.

  Not modelled: metrics and telemetry (output only), what the client libraries of PostgreSQL, Redis, AWS and
  Node's cryptography do inside (arguments), the published API documents (data), modules and bootstrap of
  the framework, and the tables no code of the repository writes.
\<close>

end
